(* ===== verification/Ustr.thy ===== *)
theory Ustr
  imports Prelude "HOL-Library.List_Lexorder"
begin

text \<open>
  The operations of Rust's \<open>str\<close> and \<open>String\<close> that the program uses. A Rust string is a sequence
  of Unicode scalar values, here a list of code points; \<open>str::len\<close> counts the bytes of its UTF-8
  encoding and \<open>chars().count()\<close> the code points. ASCII literals are written \<open>lit ''abc''\<close>.
\<close>

type_synonym ustr = "nat list"

definition lit :: "string \<Rightarrow> ustr" where
  "lit s = map of_char s"

lemma lit_Nil [simp]: "lit [] = []"
  by (simp add: lit_def)

lemma length_lit [simp]: "length (lit s) = length s"
  by (simp add: lit_def)

lemma lit_inject [simp]: "lit s = lit t \<longleftrightarrow> s = t"
  by (simp add: lit_def inj_map_eq_map [OF inj_of_char])

lemma lit_append: "lit (s @ t) = lit s @ lit t"
  by (simp add: lit_def)

section \<open>Lengths\<close>

fun utf8 :: "nat \<Rightarrow> bytes" where
  "utf8 c =
     (if c < 128 then [of_nat c]
      else if c < 2048 then [of_nat (192 + c div 64), of_nat (128 + c mod 64)]
      else if c < 65536 then
        [of_nat (224 + c div 4096), of_nat (128 + c div 64 mod 64), of_nat (128 + c mod 64)]
      else
        [of_nat (240 + c div 262144), of_nat (128 + c div 4096 mod 64),
         of_nat (128 + c div 64 mod 64), of_nat (128 + c mod 64)])"

declare utf8.simps [simp del]

text \<open>\<open>str::as_bytes\<close>, \<open>str::len\<close> and \<open>chars().count()\<close>.\<close>

definition as_bytes :: "ustr \<Rightarrow> bytes" where
  "as_bytes s = concat (map utf8 s)"

definition byte_len :: "ustr \<Rightarrow> nat" where
  "byte_len s = length (as_bytes s)"

definition char_count :: "ustr \<Rightarrow> nat" where
  "char_count s = length s"

lemma byte_len_Nil [simp]: "byte_len [] = 0"
  by (simp add: byte_len_def as_bytes_def)

lemma byte_len_append [simp]: "byte_len (s @ t) = byte_len s + byte_len t"
  by (simp add: byte_len_def as_bytes_def)

lemma byte_len_Cons: "byte_len (c # s) = length (utf8 c) + byte_len s"
  by (simp add: byte_len_def as_bytes_def)

lemma length_utf8_ascii [simp]: "c < 128 \<Longrightarrow> length (utf8 c) = 1"
  by (simp add: utf8.simps)

lemma length_utf8_pos [simp]: "1 \<le> length (utf8 c)"
  by (simp add: utf8.simps)

lemma byte_len_ascii: "(\<forall>c \<in> set s. c < 128) \<Longrightarrow> byte_len s = length s"
  by (induction s) (auto simp: byte_len_Cons)

lemma char_count_le_byte_len: "char_count s \<le> byte_len s"
proof (induction s)
  case Nil
  show ?case by (simp add: char_count_def)
next
  case (Cons c s)
  then show ?case
    using length_utf8_pos [of c] by (simp add: char_count_def byte_len_Cons)
qed

section \<open>Character classes and case\<close>

text \<open>\<open>char::is_whitespace\<close>: the Unicode property White\_Space.\<close>

definition is_whitespace :: "nat \<Rightarrow> bool" where
  "is_whitespace c \<longleftrightarrow>
     9 \<le> c \<and> c \<le> 13 \<or> c = 32 \<or> c = 133 \<or> c = 160 \<or> c = 5760 \<or>
     8192 \<le> c \<and> c \<le> 8202 \<or> c = 8232 \<or> c = 8233 \<or> c = 8239 \<or> c = 8287 \<or> c = 12288"

definition is_ascii_lower :: "nat \<Rightarrow> bool" where
  "is_ascii_lower c \<longleftrightarrow> 97 \<le> c \<and> c \<le> 122"

definition is_ascii_upper :: "nat \<Rightarrow> bool" where
  "is_ascii_upper c \<longleftrightarrow> 65 \<le> c \<and> c \<le> 90"

definition is_ascii_digit :: "nat \<Rightarrow> bool" where
  "is_ascii_digit c \<longleftrightarrow> 48 \<le> c \<and> c \<le> 57"

lemmas char_class_defs = is_whitespace_def is_ascii_lower_def is_ascii_upper_def is_ascii_digit_def

definition to_ascii_lowercase :: "ustr \<Rightarrow> ustr" where
  "to_ascii_lowercase = map (\<lambda>c. if is_ascii_upper c then c + 32 else c)"

definition to_ascii_uppercase :: "ustr \<Rightarrow> ustr" where
  "to_ascii_uppercase = map (\<lambda>c. if is_ascii_lower c then c - 32 else c)"

definition eq_ignore_ascii_case :: "ustr \<Rightarrow> ustr \<Rightarrow> bool" where
  "eq_ignore_ascii_case s t \<longleftrightarrow> to_ascii_lowercase s = to_ascii_lowercase t"

lemma lowercase_Nil [simp]: "to_ascii_lowercase [] = []"
  by (simp add: to_ascii_lowercase_def)

lemma lowercase_append [simp]:
  "to_ascii_lowercase (s @ t) = to_ascii_lowercase s @ to_ascii_lowercase t"
  by (simp add: to_ascii_lowercase_def)

lemma lowercase_idem [simp]: "to_ascii_lowercase (to_ascii_lowercase s) = to_ascii_lowercase s"
  by (auto simp: to_ascii_lowercase_def is_ascii_upper_def)

lemma lowercase_id: "(\<forall>c \<in> set s. \<not> is_ascii_upper c) \<Longrightarrow> to_ascii_lowercase s = s"
  by (induction s) (auto simp: to_ascii_lowercase_def)

lemma lowercase_no_upper: "c \<in> set (to_ascii_lowercase s) \<Longrightarrow> \<not> is_ascii_upper c"
  by (auto simp: to_ascii_lowercase_def is_ascii_upper_def split: if_splits)

section \<open>Trimming\<close>

text \<open>\<open>drop_while_end p\<close> removes the longest suffix whose characters satisfy \<open>p\<close>.\<close>

definition drop_while_end :: "('a \<Rightarrow> bool) \<Rightarrow> 'a list \<Rightarrow> 'a list" where
  "drop_while_end p s = rev (dropWhile p (rev s))"

definition trim :: "ustr \<Rightarrow> ustr" where
  "trim s = drop_while_end is_whitespace (dropWhile is_whitespace s)"

definition trim_end_matches :: "nat \<Rightarrow> ustr \<Rightarrow> ustr" where
  "trim_end_matches c s = drop_while_end (\<lambda>x. x = c) s"

definition trim_matches :: "nat \<Rightarrow> ustr \<Rightarrow> ustr" where
  "trim_matches c s = drop_while_end (\<lambda>x. x = c) (dropWhile (\<lambda>x. x = c) s)"

lemma drop_while_end_Nil [simp]: "drop_while_end p [] = []"
  by (simp add: drop_while_end_def)

lemma drop_while_end_snoc [simp]:
  "drop_while_end p (s @ [c]) = (if p c then drop_while_end p s else s @ [c])"
  by (simp add: drop_while_end_def)

lemma drop_while_end_last: "drop_while_end p s \<noteq> [] \<Longrightarrow> \<not> p (last (drop_while_end p s))"
  by (simp add: drop_while_end_def last_rev hd_dropWhile)

lemma drop_while_end_prefix: "\<exists>t. s = drop_while_end p s @ t \<and> (\<forall>c \<in> set t. p c)"
proof -
  have "s = rev (takeWhile p (rev s) @ dropWhile p (rev s))" by simp
  then have "s = drop_while_end p s @ rev (takeWhile p (rev s))"
    unfolding drop_while_end_def by (simp only: rev_append)
  then show ?thesis
    by (metis set_rev set_takeWhileD)
qed

lemma set_drop_while_end: "set (drop_while_end p s) \<subseteq> set s"
  by (metis Un_upper1 drop_while_end_prefix set_append)

lemma drop_while_end_id: "(s \<noteq> [] \<longrightarrow> \<not> p (last s)) \<Longrightarrow> drop_while_end p s = s"
  by (cases s rule: rev_cases) simp_all

lemma drop_while_end_idem [simp]: "drop_while_end p (drop_while_end p s) = drop_while_end p s"
  using drop_while_end_last [of p s] by (intro drop_while_end_id) blast

lemma set_trim: "set (trim s) \<subseteq> set s"
  unfolding trim_def using set_drop_while_end set_dropWhileD by fastforce

lemma trim_last: "trim s \<noteq> [] \<Longrightarrow> \<not> is_whitespace (last (trim s))"
  unfolding trim_def by (rule drop_while_end_last)

lemma trim_hd: "trim s \<noteq> [] \<Longrightarrow> \<not> is_whitespace (hd (trim s))"
proof -
  assume ne: "trim s \<noteq> []"
  obtain t where t: "dropWhile is_whitespace s = trim s @ t"
    using drop_while_end_prefix [of "dropWhile is_whitespace s" is_whitespace]
    unfolding trim_def by blast
  with ne have "hd (dropWhile is_whitespace s) = hd (trim s)" "dropWhile is_whitespace s \<noteq> []"
    by auto
  then show ?thesis
    using hd_dropWhile [of is_whitespace s] by simp
qed

lemma trim_id:
  assumes "s \<noteq> [] \<longrightarrow> \<not> is_whitespace (hd s) \<and> \<not> is_whitespace (last s)"
  shows "trim s = s"
proof -
  have "dropWhile is_whitespace s = s" using assms by (cases s) auto
  then show ?thesis using assms by (simp add: trim_def drop_while_end_id)
qed

lemma trim_idem [simp]: "trim (trim s) = trim s"
  using trim_hd [of s] trim_last [of s] by (intro trim_id) blast

lemma length_drop_while_end: "length (drop_while_end p s) \<le> length s"
  by (simp add: drop_while_end_def length_dropWhile_le [of p "rev s", simplified])

lemma length_trim: "length (trim s) \<le> length s"
  unfolding trim_def
  by (rule order_trans [OF length_drop_while_end length_dropWhile_le])

section \<open>Prefixes, suffixes, splitting\<close>

definition starts_with :: "ustr \<Rightarrow> ustr \<Rightarrow> bool" where
  "starts_with p s \<longleftrightarrow> take (length p) s = p"

definition ends_with :: "ustr \<Rightarrow> ustr \<Rightarrow> bool" where
  "ends_with p s \<longleftrightarrow> length p \<le> length s \<and> drop (length s - length p) s = p"

definition strip_prefix :: "ustr \<Rightarrow> ustr \<Rightarrow> ustr option" where
  "strip_prefix p s = (if starts_with p s then Some (drop (length p) s) else None)"

definition strip_suffix :: "ustr \<Rightarrow> ustr \<Rightarrow> ustr option" where
  "strip_suffix p s = (if ends_with p s then Some (take (length s - length p) s) else None)"

lemma starts_with_append [simp]: "starts_with p (p @ s)"
  by (simp add: starts_with_def)

lemma ends_with_append [simp]: "ends_with p (s @ p)"
  by (simp add: ends_with_def)

lemma starts_with_iff: "starts_with p s \<longleftrightarrow> (\<exists>t. s = p @ t)"
  by (metis append_eq_conv_conj append_take_drop_id starts_with_def)

lemma ends_with_iff: "ends_with p s \<longleftrightarrow> (\<exists>t. s = t @ p)"
proof
  assume "ends_with p s"
  then have "s = take (length s - length p) s @ p"
    unfolding ends_with_def by (metis append_take_drop_id)
  then show "\<exists>t. s = t @ p" ..
qed auto

lemma strip_prefix_append [simp]: "strip_prefix p (p @ s) = Some s"
  by (simp add: strip_prefix_def)

lemma strip_suffix_append [simp]: "strip_suffix p (s @ p) = Some s"
  by (simp add: strip_suffix_def)

lemma strip_prefix_Some: "strip_prefix p s = Some t \<longleftrightarrow> s = p @ t"
  by (auto simp: strip_prefix_def starts_with_iff)

lemma strip_suffix_Some: "strip_suffix p s = Some t \<longleftrightarrow> s = t @ p"
  by (auto simp: strip_suffix_def ends_with_iff)

text \<open>\<open>str::split(char)\<close>: the fields between separators, one field for a string without any.\<close>

fun split_on :: "nat \<Rightarrow> ustr \<Rightarrow> ustr list" where
  "split_on c [] = [[]]"
| "split_on c (x # s) =
     (if x = c then [] # split_on c s
      else case split_on c s of [] \<Rightarrow> [[x]] | f # fs \<Rightarrow> (x # f) # fs)"

lemma split_on_nonempty [simp]: "split_on c s \<noteq> []"
  by (induction s) (auto split: list.splits)

lemma split_on_no_sep: "c \<notin> set s \<Longrightarrow> split_on c s = [s]"
  by (induction s) auto

lemma hd_split_on: "hd (split_on c s) = takeWhile (\<lambda>x. x \<noteq> c) s"
  by (induction s) (auto split: list.splits)

text \<open>\<open>str::split_once(char)\<close> splits at the first separator.\<close>

fun split_once :: "nat \<Rightarrow> ustr \<Rightarrow> (ustr \<times> ustr) option" where
  "split_once c [] = None"
| "split_once c (x # s) =
     (if x = c then Some ([], s)
      else case split_once c s of None \<Rightarrow> None | Some (a, b) \<Rightarrow> Some (x # a, b))"

lemma first_sep_unique:
  "c \<notin> set a \<Longrightarrow> c \<notin> set a' \<Longrightarrow> a @ c # b = a' @ c # b' \<longleftrightarrow> a = a' \<and> b = b'"
proof (induction a arbitrary: a')
  case Nil
  then show ?case by (cases a') auto
next
  case (Cons x a)
  then show ?case by (cases a') auto
qed

lemma split_once_sep: "c \<notin> set a \<Longrightarrow> split_once c (a @ c # b) = Some (a, b)"
  by (induction a) auto

lemma split_once_Some: "split_once c s = Some (a, b) \<longleftrightarrow> s = a @ c # b \<and> c \<notin> set a"
proof
  show "split_once c s = Some (a, b) \<Longrightarrow> s = a @ c # b \<and> c \<notin> set a"
    by (induction s arbitrary: a) (auto split: option.splits if_splits)
qed (auto simp: split_once_sep)

text \<open>\<open>str::contains(&str)\<close> and \<open>str::replace\<close> for a non-empty pattern.\<close>

fun contains_str :: "ustr \<Rightarrow> ustr \<Rightarrow> bool" where
  "contains_str p [] = starts_with p []"
| "contains_str p (x # s) = (starts_with p (x # s) \<or> contains_str p s)"

fun replace_str :: "nat \<Rightarrow> ustr \<Rightarrow> ustr \<Rightarrow> ustr \<Rightarrow> ustr" where
  "replace_str skip p r [] = []"
| "replace_str 0 p r (x # s) =
     (if p \<noteq> [] \<and> starts_with p (x # s) then r @ replace_str (length p - 1) p r s
      else x # replace_str 0 p r s)"
| "replace_str (Suc n) p r (x # s) = replace_str n p r s"

definition replace_all :: "ustr \<Rightarrow> ustr \<Rightarrow> ustr \<Rightarrow> ustr" where
  "replace_all p r s = replace_str 0 p r s"

lemma replace_str_skip: "replace_str n p r s = replace_str 0 p r (drop n s)"
proof (induction n arbitrary: s)
  case 0
  show ?case by simp
next
  case (Suc n)
  then show ?case by (cases s) auto
qed

lemma replace_all_absent: "\<not> contains_str p s \<Longrightarrow> replace_all p r s = s"
  unfolding replace_all_def by (induction s) auto

lemma replace_all_at:
  assumes "p \<noteq> []" and "\<And>u v. a = u @ v \<Longrightarrow> v \<noteq> [] \<Longrightarrow> \<not> starts_with p (v @ p @ b)"
  shows "replace_all p r (a @ p @ b) = a @ r @ replace_all p r b"
  using assms(2) unfolding replace_all_def
proof (induction a)
  case Nil
  obtain x q where p: "p = x # q" using assms(1) by (cases p) auto
  then show ?case
    by (simp add: starts_with_def replace_str_skip [of "length q"])
next
  case (Cons c a)
  have "\<not> starts_with p ((c # a) @ p @ b)" using Cons.prems [of "[]" "c # a"] by simp
  moreover have "replace_str 0 p r (a @ p @ b) = a @ r @ replace_str 0 p r b"
  proof (rule Cons.IH)
    fix u v assume "a = u @ v" "v \<noteq> []"
    then show "\<not> starts_with p (v @ p @ b)" using Cons.prems [of "c # u" v] by simp
  qed
  ultimately show ?case by simp
qed

section \<open>Decimal numbers\<close>

text \<open>\<open>to_string\<close> of an unsigned integer.\<close>

fun decimal :: "nat \<Rightarrow> ustr" where
  "decimal n = (if n < 10 then [48 + n] else decimal (n div 10) @ [48 + n mod 10])"

declare decimal.simps [simp del]

fun digits_value :: "nat \<Rightarrow> ustr \<Rightarrow> nat" where
  "digits_value acc [] = acc"
| "digits_value acc (c # s) = digits_value (acc * 10 + (c - 48)) s"

text \<open>
  \<open>str::parse\<close> for an unsigned integer type whose largest value is \<open>m\<close>: an optional plus sign,
  at least one digit, nothing else, no overflow.
\<close>

definition parse_unsigned :: "nat \<Rightarrow> ustr \<Rightarrow> nat option" where
  "parse_unsigned m s =
     (let d = (case s of c # r \<Rightarrow> if c = 43 then r else s | [] \<Rightarrow> []) in
      if d \<noteq> [] \<and> list_all is_ascii_digit d \<and> digits_value 0 d \<le> m
      then Some (digits_value 0 d) else None)"

text \<open>\<open>str::parse\<close> for \<open>i64\<close>: an optional sign, then digits within the type's range.\<close>

definition parse_i64 :: "ustr \<Rightarrow> int option" where
  "parse_i64 s =
     (case s of
        c # r \<Rightarrow>
          if c = 45 then
            (if r \<noteq> [] \<and> list_all is_ascii_digit r \<and> digits_value 0 r \<le> 2 ^ 63
             then Some (- int (digits_value 0 r)) else None)
          else map_option int (parse_unsigned (2 ^ 63 - 1) s)
      | [] \<Rightarrow> None)"

lemma digits_value_append: "digits_value a (s @ t) = digits_value (digits_value a s) t"
  by (induction s arbitrary: a) auto

lemma digits_decimal: "digits_value 0 (decimal n) = n"
proof (induction n rule: decimal.induct)
  case (1 n)
  show ?case
  proof (cases "n < 10")
    case True
    then show ?thesis by (subst decimal.simps) simp
  next
    case False
    then have "digits_value 0 (decimal n) = digits_value 0 (decimal (n div 10)) * 10 + n mod 10"
      by (subst decimal.simps) (simp add: digits_value_append)
    also have "\<dots> = n" using "1" False by simp
    finally show ?thesis .
  qed
qed

lemma decimal_digits: "list_all is_ascii_digit (decimal n)"
proof (induction n rule: decimal.induct)
  case (1 n)
  show ?case
    using "1" by (subst decimal.simps) (auto simp: is_ascii_digit_def [of "48 + _"])
qed

lemma decimal_nonempty [simp]: "decimal n \<noteq> []"
  by (subst decimal.simps) simp

lemma decimal_no_plus: "hd (decimal n) \<noteq> 43"
proof -
  have "is_ascii_digit (hd (decimal n))"
    using decimal_digits [of n] by (cases "decimal n") (auto simp: list_all_iff)
  then show ?thesis by (auto simp: is_ascii_digit_def)
qed

lemma parse_unsigned_decimal: "n \<le> m \<Longrightarrow> parse_unsigned m (decimal n) = Some n"
proof -
  assume le: "n \<le> m"
  obtain c r where d: "decimal n = c # r"
    using decimal_nonempty [of n] by (meson neq_Nil_conv)
  have "c \<noteq> 43" using decimal_no_plus [of n] d by simp
  moreover have "digits_value 0 (c # r) = n" using digits_decimal [of n] d by simp
  moreover have "list_all is_ascii_digit (c # r)" using decimal_digits [of n] d by simp
  ultimately show ?thesis
    unfolding parse_unsigned_def d Let_def using le by simp
qed

lemma parse_unsigned_bound: "parse_unsigned m s = Some n \<Longrightarrow> n \<le> m"
  by (auto simp: parse_unsigned_def Let_def split: if_splits)

end
