(* ===== verification/Net.thy ===== *)
theory Net
  imports Ustr
begin

text \<open>
  The part of \<open>std::net\<close> the program relies on: IPv4 and IPv6 addresses, their classification, the
  IPv4-mapped form, text parsing and printing, and socket addresses. The address parser follows the
  standard library's recursive descent: IPv4 is tried first, then IPv6 with \<open>::\<close> and an embedded
  IPv4 tail.
\<close>

section \<open>Addresses\<close>

datatype ipaddr = V4 "32 word" | V6 "128 word"

definition v4_of_octets :: "nat \<Rightarrow> nat \<Rightarrow> nat \<Rightarrow> nat \<Rightarrow> 32 word" where
  "v4_of_octets a b c d = of_nat (((a * 256 + b) * 256 + c) * 256 + d)"

definition v4_octets :: "32 word \<Rightarrow> nat \<times> nat \<times> nat \<times> nat" where
  "v4_octets w = (unat w div 16777216, unat w div 65536 mod 256, unat w div 256 mod 256, unat w mod 256)"

definition v6_of_segments :: "nat list \<Rightarrow> 128 word" where
  "v6_of_segments gs = of_nat (foldl (\<lambda>acc g. acc * 65536 + g) 0 gs)"

definition v6_segment :: "nat \<Rightarrow> 128 word \<Rightarrow> nat" where
  "v6_segment i w = unat w div 65536 ^ (7 - i) mod 65536"

definition v6_segments :: "128 word \<Rightarrow> nat list" where
  "v6_segments w = map (\<lambda>i. v6_segment i w) [0..<8]"

text \<open>\<open>Ipv6Addr::to_ipv4_mapped\<close>: \<open>::ffff:a.b.c.d\<close> only.\<close>

definition to_ipv4_mapped :: "128 word \<Rightarrow> 32 word option" where
  "to_ipv4_mapped w =
     (if unat w div 2 ^ 32 = 65535 then Some (of_nat (unat w mod 2 ^ 32)) else None)"

definition ipv4_mapped :: "32 word \<Rightarrow> 128 word" where
  "ipv4_mapped w = of_nat (65535 * 2 ^ 32 + unat w)"

text \<open>The normalisation written out three times in the program.\<close>

definition canonical :: "ipaddr \<Rightarrow> ipaddr" where
  "canonical a =
     (case a of
        V6 w \<Rightarrow> (case to_ipv4_mapped w of Some v \<Rightarrow> V4 v | None \<Rightarrow> V6 w)
      | V4 w \<Rightarrow> V4 w)"

definition is_loopback :: "ipaddr \<Rightarrow> bool" where
  "is_loopback a = (case a of V4 w \<Rightarrow> fst (v4_octets w) = 127 | V6 w \<Rightarrow> w = 1)"

definition is_unspecified_v6 :: "128 word \<Rightarrow> bool" where
  "is_unspecified_v6 w \<longleftrightarrow> w = 0"

lemma unat_ipv4_mapped: "unat (ipv4_mapped w) = 65535 * 2 ^ 32 + unat w"
proof -
  have "unat w < 2 ^ 32" using unsigned_less [of w] by simp
  then show ?thesis
    by (simp only: ipv4_mapped_def unat_of_nat take_bit_nat_eq_self_iff) simp
qed

lemma split_high_low: "(b::nat) < m \<Longrightarrow> (a * m + b) div m = a" "b < m \<Longrightarrow> (a * m + b) mod m = b"
  by simp_all

lemma to_ipv4_mapped_mapped [simp]: "to_ipv4_mapped (ipv4_mapped w) = Some w"
proof -
  have "unat w < 2 ^ 32" using unsigned_less [of w] by simp
  then show ?thesis
    by (simp only: to_ipv4_mapped_def unat_ipv4_mapped split_high_low) simp
qed

lemma ipv4_mapped_inject [simp]: "ipv4_mapped v = ipv4_mapped w \<longleftrightarrow> v = w"
  by (metis option.inject to_ipv4_mapped_mapped)

lemma to_ipv4_mapped_Some: "to_ipv4_mapped u = Some w \<longleftrightarrow> u = ipv4_mapped w"
proof
  assume *: "to_ipv4_mapped u = Some w"
  then have hi: "unat u div 2 ^ 32 = 65535" and w: "w = of_nat (unat u mod 2 ^ 32)"
    by (auto simp: to_ipv4_mapped_def split: if_splits)
  have "unat w = unat u mod 2 ^ 32"
    unfolding w by (simp add: unat_of_nat take_bit_nat_eq_self_iff)
  then have "65535 * 2 ^ 32 + unat w = unat u"
    using hi div_mult_mod_eq [of "unat u" "2 ^ 32"] by simp
  then show "u = ipv4_mapped w" by (simp add: ipv4_mapped_def)
qed simp

lemma canonical_V4 [simp]: "canonical (V4 w) = V4 w"
  by (simp add: canonical_def)

lemma canonical_mapped [simp]: "canonical (V6 (ipv4_mapped w)) = V4 w"
  by (simp add: canonical_def)

lemma canonical_idem [simp]: "canonical (canonical a) = canonical a"
  by (auto simp: canonical_def split: ipaddr.splits option.splits)

lemma canonical_eq_iff:
  "canonical a = canonical b \<longleftrightarrow>
     a = b \<or> (\<exists>w. {a, b} = {V4 w, V6 (ipv4_mapped w)})"
  by (cases a; cases b)
    (auto simp: canonical_def to_ipv4_mapped_Some doubleton_eq_iff split: option.splits)

text \<open>
  The contract of an address filter: it decides on the canonical form, so an IPv4 client is
  treated the same whether it arrives on an IPv4 or on a dual-stack socket.
\<close>

locale address_gate =
  fixes gate :: "ipaddr \<Rightarrow> bool"
  assumes gate_canonical: "gate a = gate (canonical a)"
begin

lemma gate_mapped: "gate (V6 (ipv4_mapped w)) = gate (V4 w)"
  using gate_canonical [of "V6 (ipv4_mapped w)"] by simp

lemma gate_same: "canonical a = canonical b \<Longrightarrow> gate a = gate b"
  using gate_canonical [of a] gate_canonical [of b] by simp

end

section \<open>Text form\<close>

text \<open>A parser consumes a prefix of its input.\<close>

type_synonym 'a parser = "ustr \<Rightarrow> ('a \<times> ustr) option"

definition hex_digit :: "nat \<Rightarrow> nat option" where
  "hex_digit c =
     (if is_ascii_digit c then Some (c - 48)
      else if 97 \<le> c \<and> c \<le> 102 then Some (c - 87)
      else if 65 \<le> c \<and> c \<le> 70 then Some (c - 55) else None)"

definition to_digit :: "nat \<Rightarrow> nat \<Rightarrow> nat option" where
  "to_digit radix c =
     (case hex_digit c of Some d \<Rightarrow> if d < radix then Some d else None | None \<Rightarrow> None)"

definition number_value :: "nat \<Rightarrow> ustr \<Rightarrow> nat" where
  "number_value radix ds = foldl (\<lambda>acc c. acc * radix + the (to_digit radix c)) 0 ds"

text \<open>
  \<open>read_number\<close>: the longest run of digits; too many digits, none, a forbidden leading zero or a
  value above \<open>limit\<close> is a failure.
\<close>

definition read_number :: "nat \<Rightarrow> nat option \<Rightarrow> bool \<Rightarrow> nat \<Rightarrow> nat parser" where
  "read_number radix max_digits allow_zero_prefix limit s =
     (let is_digit = (\<lambda>c. to_digit radix c \<noteq> None);
          ds = takeWhile is_digit s; n = length ds; v = number_value radix ds in
      if (case max_digits of Some m \<Rightarrow> m < n | None \<Rightarrow> False) then None
      else if n = 0 then None
      else if \<not> allow_zero_prefix \<and> hd ds = 48 \<and> 1 < n then None
      else if v \<le> limit then Some (v, drop n s) else None)"

definition read_char :: "nat \<Rightarrow> unit parser" where
  "read_char c s = (case s of x # r \<Rightarrow> if x = c then Some ((), r) else None | [] \<Rightarrow> None)"

definition read_separator :: "nat \<Rightarrow> nat \<Rightarrow> 'a parser \<Rightarrow> 'a parser" where
  "read_separator c i p s =
     (if 0 < i then (case read_char c s of Some (_, r) \<Rightarrow> p r | None \<Rightarrow> None) else p s)"

fun read_octets :: "nat \<Rightarrow> nat \<Rightarrow> nat list parser" where
  "read_octets 0 i s = Some ([], s)"
| "read_octets (Suc k) i s =
     (case read_separator 46 i (read_number 10 (Some 3) False 255) s of
        None \<Rightarrow> None
      | Some (v, r) \<Rightarrow> map_option (apfst ((#) v)) (read_octets k (Suc i) r))"

definition read_ipv4 :: "(32 word) parser" where
  "read_ipv4 s =
     (case read_octets 4 0 s of
        Some ([a, b, c, d], r) \<Rightarrow> Some (v4_of_octets a b c d, r)
      | _ \<Rightarrow> None)"

text \<open>\<open>read_groups\<close>: groups read so far, whether an IPv4 tail was read, and the rest.\<close>

function read_groups :: "nat \<Rightarrow> nat \<Rightarrow> nat list \<Rightarrow> ustr \<Rightarrow> nat list \<times> bool \<times> ustr" where
  "read_groups limit i acc s =
     (if i < limit then
        (case (if i < limit - 1 then read_separator 58 i read_ipv4 s else None) of
           Some (v, r) \<Rightarrow>
             (case v4_octets v of (a, b, c, d) \<Rightarrow> (acc @ [a * 256 + b, c * 256 + d], True, r))
         | None \<Rightarrow>
             (case read_separator 58 i (read_number 16 (Some 4) True 65535) s of
                Some (g, r) \<Rightarrow> read_groups limit (Suc i) (acc @ [g]) r
              | None \<Rightarrow> (acc, False, s)))
      else (acc, False, s))"
  by pat_completeness auto
termination
  by (relation "measure (\<lambda>(limit, i, acc, s). limit - i)") auto

declare read_groups.simps [simp del]

definition read_ipv6 :: "(128 word) parser" where
  "read_ipv6 s =
     (case read_groups 8 0 [] s of
        (head, v4_tail, r) \<Rightarrow>
          if length head = 8 then Some (v6_of_segments head, r)
          else if v4_tail then None
          else case read_char 58 r of None \<Rightarrow> None | Some (_, r1) \<Rightarrow>
            (case read_char 58 r1 of None \<Rightarrow> None | Some (_, r2) \<Rightarrow>
              (case read_groups (8 - (length head + 1)) 0 [] r2 of
                 (tail, _, r3) \<Rightarrow>
                   Some (v6_of_segments
                     (head @ replicate (8 - length head - length tail) 0 @ tail), r3))))"

definition read_ip :: "ipaddr parser" where
  "read_ip s =
     (case read_ipv4 s of
        Some (v, r) \<Rightarrow> Some (V4 v, r)
      | None \<Rightarrow> map_option (apfst V6) (read_ipv6 s))"

text \<open>\<open>parse_with\<close> accepts only when the whole input is consumed.\<close>

definition parse_all :: "'a parser \<Rightarrow> ustr \<Rightarrow> 'a option" where
  "parse_all p s = (case p s of Some (v, []) \<Rightarrow> Some v | _ \<Rightarrow> None)"

definition parse_ip :: "ustr \<Rightarrow> ipaddr option" where
  "parse_ip = parse_all read_ip"

definition hex_char :: "nat \<Rightarrow> nat" where
  "hex_char d = (if d < 10 then 48 + d else 87 + d)"

fun hex_text :: "nat \<Rightarrow> ustr" where
  "hex_text n = (if n < 16 then [hex_char n] else hex_text (n div 16) @ [hex_char (n mod 16)])"

declare hex_text.simps [simp del]

definition v4_text :: "32 word \<Rightarrow> ustr" where
  "v4_text w =
     (case v4_octets w of (a, b, c, d) \<Rightarrow>
        decimal a @ lit ''.'' @ decimal b @ lit ''.'' @ decimal c @ lit ''.'' @ decimal d)"

fun join_groups :: "nat list \<Rightarrow> ustr" where
  "join_groups [] = []"
| "join_groups [g] = hex_text g"
| "join_groups (g # gs) = hex_text g @ lit '':'' @ join_groups gs"

text \<open>The first longest run of zero segments, as (start, length).\<close>

fun zero_span :: "nat \<Rightarrow> (nat \<times> nat) \<Rightarrow> (nat \<times> nat) \<Rightarrow> nat list \<Rightarrow> nat \<times> nat" where
  "zero_span i cur best [] = best"
| "zero_span i cur best (g # gs) =
     (if g = 0 then
        (let cur' = (if snd cur = 0 then (i, 1) else (fst cur, snd cur + 1))
         in zero_span (Suc i) cur' (if snd best < snd cur' then cur' else best) gs)
      else zero_span (Suc i) (0, 0) best gs)"

definition v6_text :: "128 word \<Rightarrow> ustr" where
  "v6_text w =
     (case to_ipv4_mapped w of
        Some v \<Rightarrow> lit ''::ffff:'' @ v4_text v
      | None \<Rightarrow>
          (let gs = v6_segments w; z = zero_span 0 (0, 0) (0, 0) gs in
           if 1 < snd z then
             join_groups (take (fst z) gs) @ lit ''::'' @ join_groups (drop (fst z + snd z) gs)
           else join_groups gs))"

definition ip_text :: "ipaddr \<Rightarrow> ustr" where
  "ip_text a = (case a of V4 w \<Rightarrow> v4_text w | V6 w \<Rightarrow> v6_text w)"

section \<open>Socket addresses\<close>

text \<open>The last component of \<open>SockV6\<close> is the scope id.\<close>

datatype socket_addr = SockV4 "32 word" u16 | SockV6 "128 word" u16 u32

definition sock_ip :: "socket_addr \<Rightarrow> ipaddr" where
  "sock_ip a = (case a of SockV4 w p \<Rightarrow> V4 w | SockV6 w p sc \<Rightarrow> V6 w)"

definition sock_new :: "ipaddr \<Rightarrow> u16 \<Rightarrow> socket_addr" where
  "sock_new a p = (case a of V4 w \<Rightarrow> SockV4 w p | V6 w \<Rightarrow> SockV6 w p 0)"

definition sock_text :: "socket_addr \<Rightarrow> ustr" where
  "sock_text a =
     (case a of
        SockV4 w p \<Rightarrow> v4_text w @ lit '':'' @ decimal (unat p)
      | SockV6 w p sc \<Rightarrow>
          lit ''['' @ v6_text w @ (if sc = 0 then [] else lit ''%'' @ decimal (unat sc)) @
          lit '']:'' @ decimal (unat p))"

definition read_port :: "u16 parser" where
  "read_port s =
     (case read_char 58 s of None \<Rightarrow> None | Some (_, r) \<Rightarrow>
        map_option (apfst of_nat) (read_number 10 None True 65535 r))"

definition read_scope :: "u32 parser" where
  "read_scope s =
     (case read_char 37 s of None \<Rightarrow> Some (0, s) | Some (_, r) \<Rightarrow>
        (case read_number 10 None True 4294967295 r of
           Some (n, r') \<Rightarrow> Some (of_nat n, r') | None \<Rightarrow> Some (0, s)))"

definition read_sock_v4 :: "socket_addr parser" where
  "read_sock_v4 s =
     (case read_ipv4 s of None \<Rightarrow> None | Some (w, r) \<Rightarrow>
        map_option (apfst (SockV4 w)) (read_port r))"

definition read_sock_v6 :: "socket_addr parser" where
  "read_sock_v6 s =
     (case read_char 91 s of None \<Rightarrow> None | Some (_, r0) \<Rightarrow>
      (case read_ipv6 r0 of None \<Rightarrow> None | Some (w, r1) \<Rightarrow>
       (case read_scope r1 of None \<Rightarrow> None | Some (sc, r2) \<Rightarrow>
        (case read_char 93 r2 of None \<Rightarrow> None | Some (_, r3) \<Rightarrow>
           map_option (apfst (\<lambda>p. SockV6 w p sc)) (read_port r3)))))"

definition parse_sock :: "ustr \<Rightarrow> socket_addr option" where
  "parse_sock =
     parse_all (\<lambda>s. case read_sock_v4 s of Some x \<Rightarrow> Some x | None \<Rightarrow> read_sock_v6 s)"

lemma sock_ip_new [simp]: "sock_ip (sock_new a p) = a"
  by (cases a) (simp_all add: sock_ip_def sock_new_def)

section \<open>Printing and parsing IPv4\<close>

lemma to_digit_10: "to_digit 10 c = (if is_ascii_digit c then Some (c - 48) else None)"
  by (auto simp: to_digit_def hex_digit_def is_ascii_digit_def)

lemma number_value_10:
  "list_all is_ascii_digit ds \<Longrightarrow> number_value 10 ds = digits_value 0 ds"
proof -
  have "list_all is_ascii_digit ds \<Longrightarrow>
    foldl (\<lambda>acc c. acc * 10 + the (to_digit 10 c)) a ds = digits_value a ds" for a
    by (induction ds arbitrary: a) (auto simp: to_digit_10)
  then show "list_all is_ascii_digit ds \<Longrightarrow> number_value 10 ds = digits_value 0 ds"
    by (simp add: number_value_def)
qed

lemma decimal_hd_zero: "hd (decimal n) = 48 \<Longrightarrow> n = 0"
proof (induction n rule: decimal.induct)
  case (1 n)
  show ?case
  proof (cases "n < 10")
    case True
    then show ?thesis using "1.prems" by (simp add: decimal.simps [of n])
  next
    case False
    then have "hd (decimal n) = hd (decimal (n div 10))" by (simp add: decimal.simps [of n])
    then have "n div 10 = 0" using "1" False by simp
    then show ?thesis using False by simp
  qed
qed

lemma length_decimal: "n < 10 ^ k \<Longrightarrow> 0 < k \<Longrightarrow> length (decimal n) \<le> k"
proof (induction k arbitrary: n)
  case 0
  then show ?case by simp
next
  case (Suc k)
  show ?case
  proof (cases "n < 10")
    case True
    then show ?thesis by (simp add: decimal.simps [of n])
  next
    case False
    then have "0 < k" using Suc.prems by (cases k) auto
    moreover have "n div 10 < 10 ^ k" using Suc.prems by (simp add: div_less_iff_less_mult mult.commute)
    ultimately show ?thesis using Suc.IH [of "n div 10"] False by (simp add: decimal.simps [of n])
  qed
qed

lemma read_number_decimal:
  assumes "n \<le> 255" and "r = [] \<or> \<not> is_ascii_digit (hd r)"
  shows "read_number 10 (Some 3) False 255 (decimal n @ r) = Some (n, r)"
proof -
  have tw: "takeWhile (\<lambda>c. to_digit 10 c \<noteq> None) (decimal n @ r) = decimal n"
  proof -
    have "\<And>c. c \<in> set (decimal n) \<Longrightarrow> to_digit 10 c \<noteq> None"
      using decimal_digits [of n] by (auto simp: to_digit_10 list_all_iff)
    moreover have "takeWhile (\<lambda>c. to_digit 10 c \<noteq> None) r = []"
      using assms(2) by (cases r) (auto simp: to_digit_10)
    ultimately show ?thesis by (simp add: takeWhile_append2)
  qed
  have v: "number_value 10 (decimal n) = n"
    using decimal_digits digits_decimal by (simp add: number_value_10)
  have len: "length (decimal n) \<le> 3" using assms(1) length_decimal [of n 3] by simp
  have z: "\<not> (hd (decimal n) = 48 \<and> 1 < length (decimal n))"
    using decimal_hd_zero [of n] by (auto simp: decimal.simps [of 0])
  show ?thesis
    unfolding read_number_def Let_def tw using v len z assms(1) by auto
qed

lemma v4_octets_bounds:
  assumes "v4_octets w = (a, b, c, d)"
  shows "a \<le> 255" "b \<le> 255" "c \<le> 255" "d \<le> 255"
proof -
  have "unat w < 2 ^ 32" using unsigned_less [of w] by simp
  with assms show "a \<le> 255" "b \<le> 255" "c \<le> 255" "d \<le> 255"
    by (auto simp: v4_octets_def)
qed

lemma v4_of_octets_octets: "v4_octets w = (a, b, c, d) \<Longrightarrow> v4_of_octets a b c d = w"
proof -
  assume *: "v4_octets w = (a, b, c, d)"
  have "((n div 16777216 * 256 + n div 65536 mod 256) * 256 + n div 256 mod 256) * 256 + n mod 256 = n"
    for n :: nat
  proof -
    have "n div 16777216 = n div 256 div 256 div 256" "n div 65536 = n div 256 div 256"
      by (simp_all flip: div_mult2_eq)
    then show ?thesis by (simp only: div_mult_mod_eq)
  qed
  with * have "((a * 256 + b) * 256 + c) * 256 + d = unat w"
    by (auto simp only: v4_octets_def prod.inject)
  then show ?thesis by (simp add: v4_of_octets_def)
qed

lemma read_ipv4_text:
  assumes "r = [] \<or> \<not> is_ascii_digit (hd r)"
  shows "read_ipv4 (v4_text w @ r) = Some (w, r)"
proof -
  obtain a b c d where o: "v4_octets w = (a, b, c, d)" by (metis prod.exhaust)
  note bounds = v4_octets_bounds [OF o]
  have dot: "lit ''.'' = [46]" by (simp add: lit_def)
  have nd: "\<not> is_ascii_digit 46" by (simp add: is_ascii_digit_def)
  have four: "(4::nat) = Suc (Suc (Suc (Suc 0)))" by simp
  show ?thesis
    unfolding read_ipv4_def four
    using bounds assms v4_of_octets_octets [OF o] nd
    by (simp add: v4_text_def o dot read_separator_def read_char_def read_number_decimal)
qed

lemma parse_ip_v4_text: "parse_ip (ip_text (V4 w)) = Some (V4 w)"
proof -
  have "read_ipv4 (v4_text w) = Some (w, [])" using read_ipv4_text [of "[]" w] by simp
  then show ?thesis by (simp add: parse_ip_def parse_all_def read_ip_def ip_text_def)
qed

lemma v4_text_inj: "v4_text v = v4_text w \<longleftrightarrow> v = w"
proof
  assume "v4_text v = v4_text w"
  then have "parse_ip (ip_text (V4 v)) = parse_ip (ip_text (V4 w))" by (simp add: ip_text_def)
  then show "v = w" by (simp only: parse_ip_v4_text) simp
qed simp

end
