(* ===== verification/Protocol.thy ===== *)
theory Protocol
  imports Net
begin

text \<open>
  The shared protocol crate (crates/protocol/src/lib.rs): its constants, enumerations and
  messages, and the multiplexed carrier frame. The byte form of a UUID belongs to the \<open>uuid\<close> crate
  and is a parameter of the frame functions; what they rely on is \<open>uuid_codec\<close>.
\<close>

section \<open>Constants and enumerations\<close>

definition PROTOCOL_VERSION :: u16 where "PROTOCOL_VERSION = 2"
definition CARRIER_FRAME_DATA :: u8 where "CARRIER_FRAME_DATA = 2"
definition CARRIER_FRAME_FIN :: u8 where "CARRIER_FRAME_FIN = 3"
definition CARRIER_FRAME_RESET :: u8 where "CARRIER_FRAME_RESET = 4"
definition CARRIER_FRAME_DATAGRAM :: u8 where "CARRIER_FRAME_DATAGRAM = 5"
definition MAX_UDP_DATAGRAM :: nat where "MAX_UDP_DATAGRAM = 65507"

lemmas frame_kinds =
  CARRIER_FRAME_DATA_def CARRIER_FRAME_FIN_def CARRIER_FRAME_RESET_def CARRIER_FRAME_DATAGRAM_def

datatype tunnel_kind = KTcp | KUdp | KWeb

datatype local_scheme = STcp | SUdp | SHttp | SHttps

datatype transport_mode = MAuto | MQuic | MKcp | MWss

datatype active_transport = TQuic | TKcp | TWss

datatype access_mode = Allowlist | Public

datatype tunnel_status = Stopped | Starting | Online | AgentOffline | StatusError

section \<open>Messages\<close>

text \<open>A CIDR block of the \<open>ipnet\<close> crate: an address and a prefix length, per family.\<close>

datatype ipnet = Net4 "32 word" nat | Net6 "128 word" nat

record capabilities =
  cap_transports :: "active_transport list"
  cap_tunnel_kinds :: "tunnel_kind list"
  cap_max_streams :: u32
  cap_max_datagram_size :: u32

definition default_capabilities :: capabilities where
  "default_capabilities =
     \<lparr>cap_transports = [TWss], cap_tunnel_kinds = [KTcp], cap_max_streams = 256,
      cap_max_datagram_size = of_nat MAX_UDP_DATAGRAM\<rparr>"

record tunnel =
  t_id :: uuid
  t_agent_id :: uuid
  t_name :: ustr
  t_local_host :: ustr
  t_local_port :: u16
  t_kind :: tunnel_kind
  t_local_scheme :: local_scheme
  t_remote_port :: "u16 option"
  t_hostname :: "ustr option"
  t_access_mode :: access_mode
  t_allowed_cidrs :: "ipnet list"
  t_enabled :: bool
  t_status :: tunnel_status
  t_created_at :: utc
  t_updated_at :: utc

record geo_location =
  g_country_code :: ustr
  g_country_name :: ustr

record create_tunnel_request =
  cr_name :: ustr
  cr_local_host :: ustr
  cr_local_port :: u16
  cr_kind :: tunnel_kind
  cr_local_scheme :: local_scheme
  cr_remote_port :: "u16 option"
  cr_hostname :: "ustr option"
  cr_access_mode :: access_mode
  cr_allowed_cidrs :: "ipnet list"
  cr_enabled :: bool
  cr_allow_lan_target :: bool

record update_tunnel_request =
  ur_name :: "ustr option"
  ur_local_host :: "ustr option"
  ur_local_port :: "u16 option"
  ur_kind :: "tunnel_kind option"
  ur_local_scheme :: "local_scheme option"
  ur_remote_port :: "u16 option"
  ur_hostname :: "ustr option"
  ur_access_mode :: "access_mode option"
  ur_allowed_cidrs :: "ipnet list option"
  ur_enabled :: "bool option"
  ur_allow_lan_target :: bool

definition default_update_request :: update_tunnel_request where
  "default_update_request =
     \<lparr>ur_name = None, ur_local_host = None, ur_local_port = None, ur_kind = None,
      ur_local_scheme = None, ur_remote_port = None, ur_hostname = None, ur_access_mode = None,
      ur_allowed_cidrs = None, ur_enabled = None, ur_allow_lan_target = False\<rparr>"

text \<open>Constructor arguments are in the order of the source's fields.\<close>

datatype agent_control_message =
    Hello u16 uuid ustr capabilities u64
  | Welcome u16 utc capabilities "active_transport option"
  | Ping utc
  | Pong utc
  | ConfigSync "tunnel list"
  | OpenConnection uuid tunnel ustr "geo_location option" ustr utc
  | OpenUdpSession uuid tunnel ustr "geo_location option" ustr utc
  | CloseUdpSession uuid ustr
  | ConnectionAck uuid bool "ustr option" "ustr option"
  | Traffic uuid u64 u64
  | ErrorMsg ustr ustr

record direct_carrier_auth =
  da_token :: ustr
  da_hello :: agent_control_message

section \<open>REST payloads\<close>

record login_request =
  lr_username :: ustr
  lr_password :: ustr

record login_response =
  lp_username :: ustr
  lp_csrf_token :: ustr

record create_device_request =
  cd_name :: ustr

record device_token_response =
  dt_id :: uuid
  dt_name :: ustr
  dt_token :: ustr
  dt_created_at :: utc

record agent_enrollment_response =
  en_tunnels :: "tunnel list"
  en_transport_fingerprint :: ustr
  en_transport_certificate_der :: ustr
  en_quic_port :: u16
  en_kcp_port :: u16
  en_capabilities :: capabilities

record device =
  dv_id :: uuid
  dv_name :: ustr
  dv_online :: bool
  dv_revoked :: bool
  dv_last_seen_at :: "utc option"
  dv_created_at :: utc

record audit_entry =
  ae_id :: nat
  ae_action :: ustr
  ae_subject :: ustr
  ae_detail :: ustr
  ae_created_at :: utc

record active_connection =
  ac_id :: uuid
  ac_tunnel_id :: uuid
  ac_peer_addr :: ustr
  ac_peer_location :: "geo_location option"
  ac_opened_at :: utc
  ac_bytes_up :: u64
  ac_bytes_down :: u64
  ac_tunnel_kind :: tunnel_kind
  ac_transport :: "active_transport option"

record metrics_snapshot =
  ms_online_agents :: u64
  ms_active_connections :: u64
  ms_bytes_up :: u64
  ms_bytes_down :: u64
  ms_rejected_connections :: u64
  ms_failed_connections :: u64
  ms_carrier_sessions :: u64
  ms_active_udp_sessions :: u64
  ms_http_requests :: u64
  ms_quic_connections :: u64
  ms_kcp_connections :: u64
  ms_wss_connections :: u64

record api_error =
  er_code :: ustr
  er_message :: ustr

section \<open>Carrier frames\<close>

definition encode_carrier_frame :: "(uuid \<Rightarrow> bytes) \<Rightarrow> u8 \<Rightarrow> uuid \<Rightarrow> bytes \<Rightarrow> bytes" where
  "encode_carrier_frame uuid_bytes kind i payload = [kind] @ uuid_bytes i @ payload"

definition decode_carrier_frame ::
  "(bytes \<Rightarrow> uuid option) \<Rightarrow> bytes \<Rightarrow> (u8 \<times> uuid \<times> bytes) option" where
  "decode_carrier_frame uuid_of_slice frame =
     (if length frame < 17 then None
      else case uuid_of_slice (take 16 (drop 1 frame)) of
             None \<Rightarrow> None
           | Some i \<Rightarrow> Some (hd frame, i, drop 17 frame))"

text \<open>
  What the frames need of the \<open>uuid\<close> crate: \<open>as_bytes\<close> returns the 16 octets of the value and
  \<open>from_slice\<close> reads exactly 16 octets back.
\<close>

definition uuid_codec :: "(uuid \<Rightarrow> bytes) \<Rightarrow> (bytes \<Rightarrow> uuid option) \<Rightarrow> bool" where
  "uuid_codec enc dec \<longleftrightarrow>
     (\<forall>i. length (enc i) = 16) \<and> (\<forall>b i. dec b = Some i \<longleftrightarrow> b = enc i) \<and>
     (\<forall>b. length b = 16 \<longrightarrow> dec b \<noteq> None)"

lemma uuid_codec_length: "uuid_codec enc dec \<Longrightarrow> length (enc i) = 16"
  by (simp add: uuid_codec_def)

lemma uuid_codec_dec: "uuid_codec enc dec \<Longrightarrow> dec (enc i) = Some i"
  by (simp add: uuid_codec_def)

lemma uuid_codec_Some: "uuid_codec enc dec \<Longrightarrow> dec b = Some i \<Longrightarrow> b = enc i"
  by (simp add: uuid_codec_def)

lemma length_encode_frame:
  "uuid_codec enc dec \<Longrightarrow> length (encode_carrier_frame enc k i p) = 17 + length p"
  by (simp add: encode_carrier_frame_def uuid_codec_length)

lemma decode_encode_frame:
  assumes "uuid_codec enc dec"
  shows "decode_carrier_frame dec (encode_carrier_frame enc k i p) = Some (k, i, p)"
  using assms
  by (simp add: encode_carrier_frame_def decode_carrier_frame_def uuid_codec_length uuid_codec_dec)

lemma encode_decode_frame:
  assumes "uuid_codec enc dec" and "decode_carrier_frame dec f = Some (k, i, p)"
  shows "encode_carrier_frame enc k i p = f"
proof -
  have len: "17 \<le> length f" and dec: "dec (take 16 (drop 1 f)) = Some i"
    and k: "k = hd f" and p: "p = drop 17 f"
    using assms(2) by (auto simp: decode_carrier_frame_def split: if_splits option.splits)
  obtain x r where f: "f = x # r" using len by (cases f) auto
  have "enc i = take 16 r" using uuid_codec_Some [OF assms(1) dec] f by simp
  then show ?thesis
    using f k p by (simp add: encode_carrier_frame_def)
qed

lemma decode_frame_None:
  assumes "uuid_codec enc dec"
  shows "decode_carrier_frame dec f = None \<longleftrightarrow> length f < 17"
proof (cases "length f < 17")
  case False
  then have "length (take 16 (drop 1 f)) = 16" by simp
  then have "dec (take 16 (drop 1 f)) \<noteq> None" using assms unfolding uuid_codec_def by blast
  then show ?thesis using False by (auto simp: decode_carrier_frame_def)
qed (simp add: decode_carrier_frame_def)

section \<open>A concrete codec\<close>

text \<open>
  Big-endian bytes of a number, used to show that the codec hypotheses of this development can
  hold: for UUIDs here and for the 32-bit length of the record framing.
\<close>

fun be_bytes :: "nat \<Rightarrow> nat \<Rightarrow> bytes" where
  "be_bytes 0 n = []"
| "be_bytes (Suc k) n = be_bytes k (n div 256) @ [of_nat (n mod 256)]"

definition be_value :: "bytes \<Rightarrow> nat" where
  "be_value b = foldl (\<lambda>acc x. acc * 256 + unat x) 0 b"

lemma length_be_bytes [simp]: "length (be_bytes k n) = k"
  by (induction k arbitrary: n) auto

lemma be_value_snoc [simp]: "be_value (b @ [x]) = be_value b * 256 + unat x"
  by (simp add: be_value_def)

lemma unat_byte_mod: "unat (of_nat (n mod 256) :: u8) = n mod 256"
  by (simp only: unat_of_nat take_bit_nat_eq_self_iff) simp

lemma be_value_bytes: "n < 256 ^ k \<Longrightarrow> be_value (be_bytes k n) = n"
proof (induction k arbitrary: n)
  case 0
  then show ?case by (simp add: be_value_def)
next
  case (Suc k)
  then have "n div 256 < 256 ^ k" by (simp add: div_less_iff_less_mult mult.commute)
  then show ?case by (simp only: be_bytes.simps be_value_snoc Suc.IH unat_byte_mod div_mult_mod_eq)
qed

lemma be_value_bound: "be_value b < 256 ^ length b"
proof (induction b rule: rev_induct)
  case Nil
  show ?case by (simp add: be_value_def)
next
  case (snoc x b)
  have "unat x < 256" using unsigned_less [of x] by simp
  with snoc show ?case by simp
qed

lemma be_bytes_value: "be_bytes (length b) (be_value b) = b"
proof (induction b rule: rev_induct)
  case Nil
  show ?case by simp
next
  case (snoc x b)
  have "unat x < 256" using unsigned_less [of x] by simp
  with snoc show ?case by simp
qed

definition be_uuid_bytes :: "uuid \<Rightarrow> bytes" where
  "be_uuid_bytes i = be_bytes 16 (unat i)"

definition be_uuid_of_slice :: "bytes \<Rightarrow> uuid option" where
  "be_uuid_of_slice b = (if length b = 16 then Some (of_nat (be_value b)) else None)"

lemma be_uuid_codec: "uuid_codec be_uuid_bytes be_uuid_of_slice"
proof -
  have enc: "be_value (be_uuid_bytes i) = unat i" for i
  proof -
    have "unat i < 2 ^ 128" using unsigned_less [of i] by simp
    then show ?thesis by (simp add: be_uuid_bytes_def be_value_bytes)
  qed
  have dec: "be_uuid_bytes (of_nat (be_value b)) = b" if "length b = 16" for b
  proof -
    have "be_value b < 2 ^ 128" using be_value_bound [of b] that by simp
    then have "unat (of_nat (be_value b) :: uuid) = be_value b"
      by (simp only: unat_of_nat take_bit_nat_eq_self_iff) simp
    then show ?thesis using be_bytes_value [of b] that by (simp only: be_uuid_bytes_def)
  qed
  show ?thesis
    unfolding uuid_codec_def be_uuid_of_slice_def using enc dec
    by (auto simp: be_uuid_bytes_def)
qed

end
