(* ===== verification/Lib.thy ===== *)
theory Lib
  imports Protocol
begin

text \<open>
  The third-party functions the program calls, as one record of parameters, the properties of them
  that theorems assume by name, and the server's error type (server/src/error.rs).
\<close>

section \<open>Third-party functions\<close>

text \<open>
  \<^item> \<open>l_uuid_bytes\<close>, \<open>l_uuid_of_slice\<close>, \<open>l_uuid_text\<close>, \<open>l_uuid_parse\<close>: the \<open>uuid\<close> crate's
    \<open>as_bytes\<close>, \<open>from_slice\<close>, \<open>to_string\<close> and \<open>parse_str\<close>;
  \<^item> \<open>l_blake3_hex\<close>: \<open>blake3::hash\<close> followed by \<open>to_hex\<close>;
  \<^item> \<open>l_net_contains\<close>, \<open>l_net_parse\<close>: \<open>IpNet::contains\<close> and \<open>IpNet::from_str\<close>;
  \<^item> \<open>l_cidrs_json\<close>, \<open>l_cidrs_parse\<close>: \<open>serde_json\<close> on a list of networks;
  \<^item> \<open>l_time_text\<close>, \<open>l_time_parse\<close>: chrono's \<open>to_rfc3339\<close> and \<open>parse_from_rfc3339\<close>;
  \<^item> \<open>l_msg_json\<close>, \<open>l_msg_parse\<close>, \<open>l_auth_json\<close>, \<open>l_auth_parse\<close>: \<open>serde_json\<close> on control messages and on the
    first record of a direct carrier;
  \<^item> \<open>l_verify_password\<close>, \<open>l_hash_password\<close>: Argon2 verification of an encoded hash and hashing under a salt
    (\<open>None\<close> when the library reports an error);
  \<^item> \<open>l_uri_authority\<close>: the authority of a string that parses as an \<open>http::Uri\<close>.
\<close>

record lib =
  l_uuid_bytes :: "uuid \<Rightarrow> bytes"
  l_uuid_of_slice :: "bytes \<Rightarrow> uuid option"
  l_uuid_text :: "uuid \<Rightarrow> ustr"
  l_uuid_parse :: "ustr \<Rightarrow> uuid option"
  l_blake3_hex :: "bytes \<Rightarrow> ustr"
  l_net_contains :: "ipnet \<Rightarrow> ipaddr \<Rightarrow> bool"
  l_net_parse :: "ustr \<Rightarrow> ipnet option"
  l_cidrs_json :: "ipnet list \<Rightarrow> ustr"
  l_cidrs_parse :: "ustr \<Rightarrow> ipnet list option"
  l_time_text :: "utc \<Rightarrow> ustr"
  l_time_parse :: "ustr \<Rightarrow> utc option"
  l_msg_json :: "agent_control_message \<Rightarrow> bytes"
  l_msg_parse :: "bytes \<Rightarrow> agent_control_message option"
  l_auth_json :: "direct_carrier_auth \<Rightarrow> bytes"
  l_auth_parse :: "bytes \<Rightarrow> direct_carrier_auth option"
  l_verify_password :: "ustr \<Rightarrow> bytes \<Rightarrow> bool"
  l_hash_password :: "bytes \<Rightarrow> bytes \<Rightarrow> ustr option"
  l_uri_authority :: "ustr \<Rightarrow> ustr option"

definition text_codec :: "('a \<Rightarrow> 'b) \<Rightarrow> ('b \<Rightarrow> 'a option) \<Rightarrow> bool" where
  "text_codec enc dec \<longleftrightarrow> (\<forall>x. dec (enc x) = Some x)"

lemma text_codecD: "text_codec enc dec \<Longrightarrow> dec (enc x) = Some x"
  by (simp add: text_codec_def)

lemma text_codec_inject: "text_codec enc dec \<Longrightarrow> enc x = enc y \<longleftrightarrow> x = y"
  by (metis option.inject text_codecD)

text \<open>\<open>Uuid::parse_str\<close> reads back what \<open>to_string\<close> prints, and so on for the other codecs.\<close>

definition uuid_text_ok :: "lib \<Rightarrow> bool" where
  "uuid_text_ok L \<longleftrightarrow> text_codec (l_uuid_text L) (l_uuid_parse L)"

definition cidrs_json_ok :: "lib \<Rightarrow> bool" where
  "cidrs_json_ok L \<longleftrightarrow> text_codec (l_cidrs_json L) (l_cidrs_parse L)"

definition msg_json_ok :: "lib \<Rightarrow> bool" where
  "msg_json_ok L \<longleftrightarrow> text_codec (l_msg_json L) (l_msg_parse L)"

definition frames_ok :: "lib \<Rightarrow> bool" where
  "frames_ok L \<longleftrightarrow> uuid_codec (l_uuid_bytes L) (l_uuid_of_slice L)"

text \<open>Timestamps inside the range RFC 3339 can express are read back.\<close>

definition time_text_ok :: "lib \<Rightarrow> utc \<Rightarrow> bool" where
  "time_text_ok L t \<longleftrightarrow> l_time_parse L (l_time_text L t) = Some t"

text \<open>A network contains only addresses of its own family.\<close>

definition net_family_ok :: "lib \<Rightarrow> bool" where
  "net_family_ok L \<longleftrightarrow>
     (\<forall>a p w. \<not> l_net_contains L (Net4 a p) (V6 w)) \<and> (\<forall>a p w. \<not> l_net_contains L (Net6 a p) (V4 w))"

lemmas lib_laws =
  uuid_text_ok_def cidrs_json_ok_def msg_json_ok_def frames_ok_def time_text_ok_def net_family_ok_def

section \<open>A concrete library for witnesses\<close>

text \<open>
  Concrete functions with the documented behaviour where theorems assume it: prefix matching on
  networks, big-endian UUID bytes, and injective decimal encodings where only reading back matters.
\<close>

definition prefix_contains :: "ipnet \<Rightarrow> ipaddr \<Rightarrow> bool" where
  "prefix_contains n a =
     (case (n, a) of
        (Net4 b p, V4 w) \<Rightarrow> unat b div 2 ^ (32 - p) = unat w div 2 ^ (32 - p)
      | (Net6 b p, V6 w) \<Rightarrow> unat b div 2 ^ (128 - p) = unat w div 2 ^ (128 - p)
      | _ \<Rightarrow> False)"

fun parse_single :: "ustr \<Rightarrow> nat option" where
  "parse_single [n] = Some n"
| "parse_single _ = None"

definition net_code :: "ipnet \<Rightarrow> ustr" where
  "net_code n = (case n of Net4 w p \<Rightarrow> [0, unat w, p] | Net6 w p \<Rightarrow> [1, unat w, p])"

fun nets_decode :: "ustr \<Rightarrow> ipnet list option" where
  "nets_decode [] = Some []"
| "nets_decode (k # w # p # r) =
     map_option ((#) (if k = 0 then Net4 (of_nat w) p else Net6 (of_nat w) p)) (nets_decode r)"
| "nets_decode _ = None"

definition time_code :: "utc \<Rightarrow> ustr" where
  "time_code t = (if 0 \<le> t then [0, nat t] else [1, nat (- t)])"

fun time_decode :: "ustr \<Rightarrow> utc option" where
  "time_decode [k, n] = Some (if k = 0 then int n else - int n)"
| "time_decode _ = None"

definition sample_lib :: lib where
  "sample_lib =
     \<lparr>l_uuid_bytes = be_uuid_bytes, l_uuid_of_slice = be_uuid_of_slice,
      l_uuid_text = (\<lambda>i. [unat i]), l_uuid_parse = (\<lambda>s. map_option of_nat (parse_single s)),
      l_blake3_hex = map unat, l_net_contains = prefix_contains, l_net_parse = (\<lambda>s. None),
      l_cidrs_json = (\<lambda>ns. concat (map net_code ns)), l_cidrs_parse = nets_decode,
      l_time_text = time_code, l_time_parse = time_decode,
      l_msg_json = (\<lambda>m. []), l_msg_parse = (\<lambda>b. None),
      l_auth_json = (\<lambda>a. []), l_auth_parse = (\<lambda>b. None),
      l_verify_password = (\<lambda>h p. h = map unat p), l_hash_password = (\<lambda>salt p. Some (map unat p)),
      l_uri_authority = Some\<rparr>"

lemma sample_uuid_text: "uuid_text_ok sample_lib"
  by (simp add: uuid_text_ok_def text_codec_def sample_lib_def)

lemma sample_cidrs_json: "cidrs_json_ok sample_lib"
proof -
  have "nets_decode (concat (map net_code ns)) = Some ns" for ns
    by (induction ns) (auto simp: net_code_def split: ipnet.splits)
  then show ?thesis by (simp add: cidrs_json_ok_def text_codec_def sample_lib_def)
qed

lemma sample_frames: "frames_ok sample_lib"
  by (simp add: frames_ok_def sample_lib_def be_uuid_codec)

lemma sample_time: "time_text_ok sample_lib t"
  by (simp add: time_text_ok_def sample_lib_def time_code_def)

lemma sample_net_family: "net_family_ok sample_lib"
  by (simp add: net_family_ok_def sample_lib_def prefix_contains_def)

lemmas sample_laws =
  sample_uuid_text sample_cidrs_json sample_frames sample_time sample_net_family

section \<open>Server errors\<close>

datatype app_error =
    BadRequest ustr
  | Unauthorized
  | Forbidden
  | NotFound
  | Conflict ustr
  | Internal string

text \<open>HTTP status, then the JSON body; the detail of an internal error stays in the log.\<close>

fun into_response :: "app_error \<Rightarrow> nat \<times> api_error" where
  "into_response (BadRequest m) = (400, \<lparr>er_code = lit ''bad_request'', er_message = m\<rparr>)"
| "into_response Unauthorized =
     (401, \<lparr>er_code = lit ''unauthorized'', er_message = lit ''Authentication required''\<rparr>)"
| "into_response Forbidden = (403, \<lparr>er_code = lit ''forbidden'', er_message = lit ''Forbidden''\<rparr>)"
| "into_response NotFound = (404, \<lparr>er_code = lit ''not_found'', er_message = lit ''Not found''\<rparr>)"
| "into_response (Conflict m) = (409, \<lparr>er_code = lit ''conflict'', er_message = m\<rparr>)"
| "into_response (Internal d) =
     (500, \<lparr>er_code = lit ''internal_error'', er_message = lit ''Internal server error''\<rparr>)"

end
