(* ===== verification/Identity.thy ===== *)
theory Identity
  imports Lib
begin

text \<open>
  The transport identity of the server (server/src/transport_identity.rs): the certificate and private key it
  keeps in two PEM files, made on the first start, and the fingerprint desktops pin. The PEM
  reader, SHA-256, base64 and the certificate generator are parameters; a file operation can fail, and a
  write that fails may leave a part of the contents, as after a full disk or a crash.
\<close>

section \<open>The files\<close>

record pem_lib =
  pm_first_cert :: "bytes \<Rightarrow> (unit + bytes) option"
  pm_private_key :: "bytes \<Rightarrow> (unit + bytes) option"
  pm_sha256_hex :: "bytes \<Rightarrow> ustr"

text \<open>Modes are kept as far as the code sets them: whether only the owner can use directory and key.\<close>

record identity_files =
  kd_dir :: bool
  kd_certificate :: "bytes option"
  kd_key :: "bytes option"
  kd_dir_private :: bool
  kd_key_private :: bool

datatype identity_fault =
    DirFault | GenerateFault | CertOpenFault | CertWriteFault nat | KeyOpenFault | KeyWriteFault nat
  | DirModeFault | KeyModeFault | CertReadFault | KeyReadFault

datatype identity_error =
    DirFailed | GenerateFailed | FileFailed | PemFailed | CertificateMissing | KeyMissing | NotInitialized

type_synonym 'a identity_act = "(identity_files, identity_error, 'a) act"

definition create_directory :: "identity_fault option \<Rightarrow> unit identity_act" where
  "create_directory fault d =
     (if fault = Some DirFault then (Inl DirFailed, d) else (Inr (), d\<lparr>kd_dir := True\<rparr>))"

definition write_certificate :: "identity_fault option \<Rightarrow> bytes \<Rightarrow> unit identity_act" where
  "write_certificate fault pem d =
     (case fault of
        Some CertOpenFault \<Rightarrow> (Inl FileFailed, d)
      | Some (CertWriteFault n) \<Rightarrow> (Inl FileFailed, d\<lparr>kd_certificate := Some (take n pem)\<rparr>)
      | _ \<Rightarrow> (Inr (), d\<lparr>kd_certificate := Some pem\<rparr>))"

text \<open>A new file has the default mode, an overwritten one keeps its own.\<close>

definition key_written :: "bytes \<Rightarrow> identity_files \<Rightarrow> identity_files" where
  "key_written pem d = d\<lparr>kd_key := Some pem, kd_key_private := kd_key d \<noteq> None \<and> kd_key_private d\<rparr>"

definition write_key :: "identity_fault option \<Rightarrow> bytes \<Rightarrow> unit identity_act" where
  "write_key fault pem d =
     (case fault of
        Some KeyOpenFault \<Rightarrow> (Inl FileFailed, d)
      | Some (KeyWriteFault n) \<Rightarrow> (Inl FileFailed, key_written (take n pem) d)
      | _ \<Rightarrow> (Inr (), key_written pem d))"

definition set_private_permissions :: "identity_fault option \<Rightarrow> unit identity_act" where
  "set_private_permissions fault d =
     (if fault = Some DirModeFault then (Inl FileFailed, d)
      else if fault = Some KeyModeFault then (Inl FileFailed, d\<lparr>kd_dir_private := True\<rparr>)
      else (Inr (), d\<lparr>kd_dir_private := True, kd_key_private := True\<rparr>))"

definition read_file :: "(identity_files \<Rightarrow> bytes option) \<Rightarrow> bool \<Rightarrow> bytes identity_act" where
  "read_file file failed d =
     (case file d of Some b \<Rightarrow> if failed then (Inl FileFailed, d) else (Inr b, d) | None \<Rightarrow> (Inl FileFailed, d))"

section \<open>Loading or creating the identity\<close>

record transport_identity =
  ti_certificate :: bytes
  ti_private_key_pem :: bytes
  ti_fingerprint :: ustr

text \<open>\<open>made\<close> is what the generator returns: the PEM of a certificate and of its key.\<close>

definition create_files :: "bytes \<times> bytes \<Rightarrow> identity_fault option \<Rightarrow> unit identity_act" where
  "create_files made fault =
     seq (lift (ensure (fault \<noteq> Some GenerateFault) GenerateFailed)) (\<lambda>_.
     seq (write_certificate fault (fst made)) (\<lambda>_.
     seq (write_key fault (snd made)) (\<lambda>_.
     set_private_permissions fault)))"

definition identity_of :: "pem_lib \<Rightarrow> bytes \<Rightarrow> bytes \<Rightarrow> identity_error + transport_identity" where
  "identity_of P certificate_pem key_pem =
     (case pm_first_cert P certificate_pem of
        None \<Rightarrow> Inl CertificateMissing
      | Some (Inl _) \<Rightarrow> Inl PemFailed
      | Some (Inr der) \<Rightarrow>
          Inr \<lparr>ti_certificate = der, ti_private_key_pem = key_pem, ti_fingerprint = pm_sha256_hex P der\<rparr>)"

definition load_or_create ::
  "pem_lib \<Rightarrow> bytes \<times> bytes \<Rightarrow> identity_fault option \<Rightarrow> transport_identity identity_act" where
  "load_or_create P made fault =
     seq (create_directory fault) (\<lambda>_.
     seq (peek (\<lambda>d. kd_certificate d = None \<or> kd_key d = None)) (\<lambda>missing.
     seq (if missing then create_files made fault else ok ()) (\<lambda>_.
     seq (read_file kd_certificate (fault = Some CertReadFault)) (\<lambda>certificate_pem.
     seq (read_file kd_key (fault = Some KeyReadFault)) (\<lambda>key_pem.
     lift (identity_of P certificate_pem key_pem))))))"

text \<open>The process keeps the identity it has.\<close>

definition initialize ::
  "pem_lib \<Rightarrow> bytes \<times> bytes \<Rightarrow> identity_fault option \<Rightarrow>
     (transport_identity option \<times> identity_files, identity_error, unit) act" where
  "initialize P made fault s =
     (case s of
        (Some x, d) \<Rightarrow> (Inr (), s)
      | (None, d) \<Rightarrow>
          (case load_or_create P made fault d of
             (Inl e, d') \<Rightarrow> (Inl e, (None, d'))
           | (Inr x, d') \<Rightarrow> (Inr (), (Some x, d'))))"

definition fingerprint :: "transport_identity option \<Rightarrow> ustr" where
  "fingerprint identity =
     (case identity of Some x \<Rightarrow> ti_fingerprint x | None \<Rightarrow> lit ''uninitialized'')"

definition certificate :: "transport_identity option \<Rightarrow> identity_error + bytes" where
  "certificate identity = ok_or (map_option ti_certificate identity) NotInitialized"

text \<open>The API answers an internal error where there is no certificate.\<close>

definition certificate_base64 :: "(bytes \<Rightarrow> ustr) \<Rightarrow> transport_identity option \<Rightarrow> app_error + ustr" where
  "certificate_base64 base64 identity =
     (case certificate identity of Inr der \<Rightarrow> Inr (base64 der) | Inl e \<Rightarrow> Inl (Internal ''identity''))"

definition private_key :: "pem_lib \<Rightarrow> transport_identity option \<Rightarrow> identity_error + bytes" where
  "private_key P identity =
     andThen (ok_or identity NotInitialized) (\<lambda>x.
     case pm_private_key P (ti_private_key_pem x) of
       None \<Rightarrow> Inl KeyMissing | Some (Inl _) \<Rightarrow> Inl PemFailed | Some (Inr key) \<Rightarrow> Inr key)"

section \<open>The same identity on every start\<close>

definition intact :: "pem_lib \<Rightarrow> identity_files \<Rightarrow> transport_identity \<Rightarrow> bool" where
  "intact P d x \<longleftrightarrow>
     (\<exists>c k. kd_certificate d = Some c \<and> kd_key d = Some k \<and> identity_of P c k = Inr x)"

lemma identity_of_Inr:
  "identity_of P c k = Inr x \<longleftrightarrow>
     (\<exists>der. pm_first_cert P c = Some (Inr der) \<and>
        x = \<lparr>ti_certificate = der, ti_private_key_pem = k, ti_fingerprint = pm_sha256_hex P der\<rparr>)"
  by (auto simp: identity_of_def split: option.splits sum.splits)

lemma load_present:
  assumes "kd_certificate d = Some c" "kd_key d = Some k" "load_or_create P made fault d = (r, d')"
  shows "kd_certificate d' = Some c \<and> kd_key d' = Some k \<and> kd_key_private d' = kd_key_private d \<and>
     (case r of Inr x \<Rightarrow> identity_of P c k = Inr x | Inl e \<Rightarrow> True)"
  using assms
  by (auto simp: load_or_create_def create_directory_def seq_def act_simps read_file_def split: if_splits sum.splits)

lemma load_intact:
  assumes "load_or_create P made fault d = (Inr x, d')"
  shows "intact P d' x"
  using assms
  by (auto simp: load_or_create_def create_directory_def seq_eq_Inr act_simps read_file_def intact_def
      split: if_splits option.splits)

lemma load_keeps_intact:
  assumes "intact P d x" "load_or_create P made fault d = (r, d')"
  shows "intact P d' x \<and> (\<forall>y. r = Inr y \<longrightarrow> y = x)"
proof -
  obtain c k where f: "kd_certificate d = Some c" "kd_key d = Some k" "identity_of P c k = Inr x"
    using assms(1) by (auto simp: intact_def)
  from load_present [OF f(1,2) assms(2)] f(3) show ?thesis by (auto simp: intact_def)
qed

text \<open>The starts of a server over the years, each with its own generated pair and faults.\<close>

fun starts ::
  "pem_lib \<Rightarrow> ((bytes \<times> bytes) \<times> identity_fault option) list \<Rightarrow> identity_files \<Rightarrow>
     (identity_error + transport_identity) list \<times> identity_files" where
  "starts P [] d = ([], d)"
| "starts P ((made, fault) # as) d =
     (let (r, d1) = load_or_create P made fault d; (rs, d2) = starts P as d1 in (r # rs, d2))"

lemma starts_intact:
  "intact P d x \<Longrightarrow> starts P as d = (rs, d') \<Longrightarrow> intact P d' x \<and> (\<forall>y. Inr y \<in> set rs \<longrightarrow> y = x)"
proof (induction as arbitrary: d rs)
  case (Cons a as)
  obtain made fault where a: "a = (made, fault)" by (cases a)
  obtain r d1 where l: "load_or_create P made fault d = (r, d1)" by (cases "load_or_create P made fault d")
  obtain rs2 where rest: "starts P as d1 = (rs2, d')" "rs = r # rs2"
    using Cons.prems(2) a l by (auto split: prod.splits)
  have "intact P d1 x" "\<forall>y. r = Inr y \<longrightarrow> y = x" using load_keeps_intact [OF Cons.prems(1) l] by simp_all
  then show ?case using Cons.IH rest by auto
qed auto

text \<open>
  C19. The identity is for ever. Once a start has succeeded, every later start that succeeds, whatever faults
  others ran into and whatever a generator would have returned, has the same certificate, private key and
  fingerprint, which is the SHA-256 of that certificate: the desktops that pinned it stay connected.
\<close>

theorem identity_persistent:
  assumes "starts P as d = (rs, d')" and "i < j" and "j < length rs" and "rs ! i = Inr x" and "rs ! j = Inr y"
  shows "y = x \<and> ti_fingerprint x = pm_sha256_hex P (ti_certificate x)"
proof -
  have "y = x \<and> ti_fingerprint x = pm_sha256_hex P (ti_certificate x)"
    if "starts P as d = (rs, d')" "i < j" "j < length rs" "rs ! i = Inr x" "rs ! j = Inr y" for i j as d rs
    using that
  proof (induction as arbitrary: d rs i j)
    case (Cons a as)
    obtain made fault where a: "a = (made, fault)" by (cases a)
    obtain r d1 where l: "load_or_create P made fault d = (r, d1)" by (cases "load_or_create P made fault d")
    obtain rs2 where rest: "starts P as d1 = (rs2, d')" "rs = r # rs2"
      using Cons.prems(1) a l by (auto split: prod.splits)
    obtain j2 where j: "j = Suc j2" "j2 < length rs2" using Cons.prems(2,3) rest(2) by (cases j) auto
    show ?case
    proof (cases i)
      case 0
      then have int: "intact P d1 x" using Cons.prems(4) rest(2) l by (auto intro: load_intact)
      have "Inr y \<in> set rs2" using Cons.prems(5) j rest(2) by (metis nth_Cons_Suc nth_mem)
      then have "y = x" using starts_intact [OF int rest(1)] by blast
      then show ?thesis using int by (auto simp: intact_def identity_of_Inr)
    next
      case (Suc i2)
      then show ?thesis using Cons.IH [OF rest(1), of i2 j2] Cons.prems(2,4,5) rest(2) j by simp
    qed
  qed simp
  from this [OF assms] show ?thesis .
qed


text \<open>Samples: a PEM file is a tag and the contents.\<close>

definition sample_pem :: pem_lib where
  "sample_pem =
     \<lparr>pm_first_cert = (\<lambda>b. case b of [] \<Rightarrow> None | t # der \<Rightarrow> if t = 5 then Some (Inr der) else Some (Inl ())),
      pm_private_key = (\<lambda>b. case b of [t, n] \<Rightarrow> Some (Inr [n]) | _ \<Rightarrow> None),
      pm_sha256_hex = map unat\<rparr>"

definition no_files :: identity_files where
  "no_files = \<lparr>kd_dir = False, kd_certificate = None, kd_key = None, kd_dir_private = False, kd_key_private = False\<rparr>"

lemmas load_unfold =
  load_or_create_def create_files_def create_directory_def write_certificate_def write_key_def key_written_def
  set_private_permissions_def read_file_def seq_def act_simps no_files_def

theorem identity_persistent_witness:
  "fst (starts sample_pem [(([5, 7], [6, 8]), None), (([5, 9], [6, 9]), Some CertReadFault), (([5, 9], [6, 9]), None)] no_files) ! 2 =
     Inr \<lparr>ti_certificate = [7], ti_private_key_pem = [6, 8], ti_fingerprint = [7]\<rparr>"
proof -
  let ?as = "[(([5, 7], [6, 8]), None), (([5, 9], [6, 9]), Some CertReadFault), (([5, 9], [6, 9]), None)] ::
      ((bytes \<times> bytes) \<times> identity_fault option) list"
  have run: "\<exists>e y d'. starts sample_pem ?as no_files =
      ([Inr \<lparr>ti_certificate = [7], ti_private_key_pem = [6, 8], ti_fingerprint = [7]\<rparr>, Inl e, Inr y], d')"
    by (simp add: load_unfold sample_pem_def identity_of_def)
  then obtain e y d' where r: "starts sample_pem ?as no_files =
      ([Inr \<lparr>ti_certificate = [7], ti_private_key_pem = [6, 8], ti_fingerprint = [7]\<rparr>, Inl e, Inr y], d')" by blast
  have "y = \<lparr>ti_certificate = [7], ti_private_key_pem = [6, 8], ti_fingerprint = [7]\<rparr>"
    using identity_persistent [OF r, of 0 2] by simp
  then show ?thesis using r by simp
qed

text \<open>
  A first start that fails, for whatever reason, and the start after it. When the certificate or its key
  had not been written, both are made anew, so a certificate never gets the key of another. When the key
  was cut off, the cut key stays: the server starts, but with a key it cannot use, on this and on every
  later start. When only the permissions could not be set, the pair is used and the key file
  keeps the default mode, since the mode is set only where the files are made.
\<close>

theorem identity_after_failure:
  assumes "load_or_create P (c1, k1) (Some f) no_files = (Inl e, d1)"
    and "load_or_create P (c2, k2) None d1 = (Inr x, d2)"
  shows "case f of
       KeyWriteFault n \<Rightarrow> identity_of P c1 (take n k1) = Inr x \<and> kd_key d2 = Some (take n k1) \<and> \<not> kd_key_private d2
     | DirModeFault \<Rightarrow> identity_of P c1 k1 = Inr x \<and> \<not> kd_key_private d2
     | KeyModeFault \<Rightarrow> identity_of P c1 k1 = Inr x \<and> \<not> kd_key_private d2
     | CertReadFault \<Rightarrow> identity_of P c1 k1 = Inr x \<and> kd_key_private d2
     | KeyReadFault \<Rightarrow> identity_of P c1 k1 = Inr x \<and> kd_key_private d2
     | _ \<Rightarrow> identity_of P c2 k2 = Inr x \<and> kd_key_private d2"
  using assms by (cases f) (auto simp: load_unfold ensure_def split: sum.splits)

theorem identity_after_failure_witness:
  "\<exists>e d1 x d2. load_or_create sample_pem ([5, 7], [6, 8]) (Some (KeyWriteFault 1)) no_files = (Inl e, d1) \<and>
     load_or_create sample_pem ([5, 9], [6, 9]) None d1 = (Inr x, d2) \<and>
     ti_private_key_pem x = [6] \<and> private_key sample_pem (Some x) = Inl KeyMissing \<and> \<not> kd_key_private d2"
proof -
  have "\<exists>e d1 x d2. load_or_create sample_pem ([5, 7], [6, 8]) (Some (KeyWriteFault 1)) no_files = (Inl e, d1) \<and>
      load_or_create sample_pem ([5, 9], [6, 9]) None d1 = (Inr x, d2)"
    by (simp add: load_unfold sample_pem_def identity_of_def ensure_def)
  then obtain e d1 x d2 where r: "load_or_create sample_pem ([5, 7], [6, 8]) (Some (KeyWriteFault 1)) no_files = (Inl e, d1)"
      "load_or_create sample_pem ([5, 9], [6, 9]) None d1 = (Inr x, d2)" by blast
  then have "identity_of sample_pem [5, 7] (take 1 [6, 8]) = Inr x" "\<not> kd_key_private d2"
    using identity_after_failure [OF r] by simp_all
  then have "ti_private_key_pem x = [6]" by (simp add: identity_of_Inr) auto
  then show ?thesis using r \<open>\<not> kd_key_private d2\<close>
    by (intro exI [of _ e] exI [of _ d1] exI [of _ x] exI [of _ d2]) (simp add: private_key_def sample_pem_def)
qed

end
