(* ===== verification/Geoip.thy ===== *)
theory Geoip
  imports Lib
begin

unbundle bit_operations_syntax

text \<open>
  The source-country resolver (server/src/geoip.rs): which addresses are looked up, the request
  URL, the validation of the answer and the in-memory cache. The HTTP exchange is an argument of
  \<open>lookup\<close>; the two readings of the clock are \<open>now\<close> (when the cache is consulted) and \<open>later\<close> (when
  the answer is stored).
\<close>

section \<open>Data\<close>

definition DEFAULT_CACHE_TTL :: duration where
  "DEFAULT_CACHE_TTL = secs (24 * 60 * 60)"

definition NEGATIVE_CACHE_TTL :: duration where
  "NEGATIVE_CACHE_TTL = secs (10 * 60)"

record cached_location =
  cl_location :: "geo_location option"
  cl_expires_at :: instant

record resolver =
  gr_endpoint :: ustr
  gr_cache :: "ipaddr \<rightharpoonup> cached_location"
  gr_enabled :: bool

record geoip_response =
  gp_country_name :: "ustr option"
  gp_country_code :: "ustr option"

text \<open>
  The outcome of the request: an error, a status outside 2xx, or a body that did (\<open>Some\<close>) or did
  not parse as the response type.
\<close>

datatype http_outcome = HttpError | HttpStatus | HttpBody "geoip_response option"

section \<open>Operations\<close>

definition resolver_new :: "ustr \<Rightarrow> resolver" where
  "resolver_new endpoint =
     \<lparr>gr_endpoint = endpoint, gr_cache = Map.empty,
      gr_enabled = (\<not> eq_ignore_ascii_case (trim endpoint) (lit ''off''))\<rparr>"

definition endpoint_for :: "ustr \<Rightarrow> ipaddr \<Rightarrow> ustr" where
  "endpoint_for endpoint ip =
     (if contains_str (lit ''{ip}'') endpoint then replace_all (lit ''{ip}'') (ip_text ip) endpoint
      else trim_end_matches 47 endpoint @ lit ''/'' @ ip_text ip)"

definition normalize_ip :: "ipaddr \<Rightarrow> ipaddr" where
  "normalize_ip ip =
     (case ip of
        V6 v \<Rightarrow> (case to_ipv4_mapped v of Some w \<Rightarrow> V4 w | None \<Rightarrow> V6 v)
      | V4 v \<Rightarrow> V4 v)"

definition is_public_candidate :: "ipaddr \<Rightarrow> bool" where
  "is_public_candidate ip =
     (case ip of
        V4 v \<Rightarrow>
          (case v4_octets v of (a, b, _, _) \<Rightarrow>
             \<not> (a = 0 \<or> a = 10 \<or> a = 127 \<or> (a = 169 \<and> b = 254) \<or>
                (a = 172 \<and> 16 \<le> b \<and> b \<le> 31) \<or> (a = 192 \<and> b = 168) \<or> a \<ge> 224))
      | V6 v \<Rightarrow>
          (let first = (of_nat (v6_segment 0 v) :: u16) in
             \<not> (is_loopback (V6 v) \<or> is_unspecified_v6 v \<or>
                first AND 0xfe00 = 0xfc00 \<or> first AND 0xffc0 = 0xfe80 \<or> first AND 0xff00 = 0xff00)))"

definition parse_location :: "geoip_response \<Rightarrow> geo_location option" where
  "parse_location r =
     (case gp_country_code r of None \<Rightarrow> None | Some code \<Rightarrow>
      (case gp_country_name r of None \<Rightarrow> None | Some name \<Rightarrow>
        (let country_code = to_ascii_uppercase (trim code); country_name = trim name in
         if byte_len country_code \<noteq> 2 \<or> \<not> list_all is_ascii_upper country_code \<or> country_name = []
         then None
         else Some \<lparr>g_country_code = country_code, g_country_name = country_name\<rparr>)))"

text \<open>The part of \<open>lookup\<close> after the cache: request, validate, store.\<close>

definition fetch_location ::
  "instant \<Rightarrow> http_outcome \<Rightarrow> ipaddr \<Rightarrow> resolver \<Rightarrow> geo_location option \<times> ustr option \<times> resolver" where
  "fetch_location later http ip g =
     (let location =
            (case http of
               HttpBody body \<Rightarrow> (case body of Some r \<Rightarrow> parse_location r | None \<Rightarrow> None)
             | _ \<Rightarrow> None);
          ttl = (if location \<noteq> None then DEFAULT_CACHE_TTL else NEGATIVE_CACHE_TTL)
      in (location, Some (endpoint_for (gr_endpoint g) ip),
          g\<lparr>gr_cache := (gr_cache g)(ip \<mapsto> \<lparr>cl_location = location, cl_expires_at = later + ttl\<rparr>)\<rparr>))"

text \<open>The result, the URL requested if any, and the resolver afterwards.\<close>

definition lookup ::
  "instant \<Rightarrow> instant \<Rightarrow> http_outcome \<Rightarrow> ipaddr \<Rightarrow> resolver \<Rightarrow>
     geo_location option \<times> ustr option \<times> resolver" where
  "lookup now later http addr g =
     (if \<not> gr_enabled g then (None, None, g)
      else
        let ip = normalize_ip addr in
        if \<not> is_public_candidate ip then (None, None, g)
        else case gr_cache g ip of
          Some c \<Rightarrow> if cl_expires_at c > now then (cl_location c, None, g)
                    else fetch_location later http ip (g\<lparr>gr_cache := (gr_cache g)(ip := None)\<rparr>)
        | None \<Rightarrow> fetch_location later http ip g)"

section \<open>Which addresses are looked up\<close>

lemma normalize_ip_canonical: "normalize_ip = canonical"
  by (auto simp: fun_eq_iff normalize_ip_def canonical_def)

lemma normalize_ip_idem [simp]: "normalize_ip (normalize_ip a) = normalize_ip a"
  by (simp add: normalize_ip_canonical)

lemma lookup_local:
  "\<not> gr_enabled g \<or> \<not> is_public_candidate (normalize_ip a) \<Longrightarrow> lookup now later http a g = (None, None, g)"
  by (auto simp: lookup_def Let_def)

lemma lookup_request:
  assumes "lookup now later http a g = (r, Some url, g')"
  shows "gr_enabled g \<and> is_public_candidate (normalize_ip a) \<and>
    url = endpoint_for (gr_endpoint g) (normalize_ip a)"
  using assms
  by (auto simp: lookup_def fetch_location_def Let_def split: if_splits option.splits)

text \<open>Loopback, private, link-local, multicast and unspecified sources are never candidates.\<close>

lemma not_public_v4:
  assumes "v4_octets v = (a, b, c, d)"
    and "a = 0 \<or> a = 10 \<or> a = 127 \<or> a = 169 \<and> b = 254 \<or> a = 172 \<and> 16 \<le> b \<and> b \<le> 31 \<or>
         a = 192 \<and> b = 168 \<or> 224 \<le> a"
  shows "\<not> is_public_candidate (V4 v)"
  using assms by (auto simp: is_public_candidate_def)

lemma loopback_not_public: "is_loopback a \<Longrightarrow> \<not> is_public_candidate a"
  by (cases a) (auto simp: is_public_candidate_def is_loopback_def Let_def split: prod.splits)

lemma canonical_loopback: "is_loopback a \<Longrightarrow> is_loopback (canonical a)"
  by (cases a) (auto simp: canonical_def is_loopback_def to_ipv4_mapped_def)

section \<open>The answer\<close>

definition location_ok :: "geo_location \<Rightarrow> bool" where
  "location_ok l \<longleftrightarrow>
     length (g_country_code l) = 2 \<and> list_all is_ascii_upper (g_country_code l) \<and>
     g_country_name l \<noteq> [] \<and> trim (g_country_name l) = g_country_name l"

lemma parse_location_ok: "parse_location r = Some l \<Longrightarrow> location_ok l"
proof -
  assume "parse_location r = Some l"
  then obtain code name where
    *: "byte_len (to_ascii_uppercase (trim code)) = 2"
       "list_all is_ascii_upper (to_ascii_uppercase (trim code))" "trim name \<noteq> []"
       "l = \<lparr>g_country_code = to_ascii_uppercase (trim code), g_country_name = trim name\<rparr>"
    by (auto simp: parse_location_def Let_def split: option.splits if_splits)
  have "\<forall>c \<in> set (to_ascii_uppercase (trim code)). c < 128"
    using *(2) by (auto simp: list_all_iff is_ascii_upper_def)
  then have "length (to_ascii_uppercase (trim code)) = 2"
    using *(1) by (simp add: byte_len_ascii)
  then show ?thesis using * by (simp add: location_ok_def)
qed

section \<open>The cache\<close>

text \<open>Every entry is for a canonical public address and holds a valid location or none.\<close>

definition cache_ok :: "resolver \<Rightarrow> bool" where
  "cache_ok g \<longleftrightarrow>
     (\<forall>ip c. gr_cache g ip = Some c \<longrightarrow>
        normalize_ip ip = ip \<and> is_public_candidate ip \<and>
        (\<forall>l. cl_location c = Some l \<longrightarrow> location_ok l))"

lemma cache_ok_new: "cache_ok (resolver_new e)"
  by (simp add: cache_ok_def resolver_new_def)

lemma fetch_location_cache_ok:
  "cache_ok g \<Longrightarrow> normalize_ip ip = ip \<Longrightarrow> is_public_candidate ip \<Longrightarrow>
     fetch_location later http ip g = (r, u, g') \<Longrightarrow> cache_ok g'"
  by (auto simp: cache_ok_def fetch_location_def Let_def parse_location_ok
      split: if_splits option.splits http_outcome.splits)

lemma lookup_cache_ok: "cache_ok g \<Longrightarrow> lookup now later http a g = (r, u, g') \<Longrightarrow> cache_ok g'"
proof -
  assume ok: "cache_ok g" and l: "lookup now later http a g = (r, u, g')"
  have rm: "cache_ok (g\<lparr>gr_cache := (gr_cache g)(ip := None)\<rparr>)" for ip
    using ok by (auto simp: cache_ok_def)
  show ?thesis
    using l ok rm [of "normalize_ip a"] fetch_location_cache_ok [of g "normalize_ip a"]
      fetch_location_cache_ok [of "g\<lparr>gr_cache := (gr_cache g)(normalize_ip a := None)\<rparr>" "normalize_ip a"]
    by (auto simp: lookup_def Let_def split: if_splits option.splits)
qed

text \<open>One step is one completed lookup, of any address at any time with any answer.\<close>

definition lookup_step :: "resolver \<Rightarrow> resolver \<Rightarrow> bool" where
  "lookup_step g g' \<longleftrightarrow> (\<exists>now later http a r u. lookup now later http a g = (r, u, g'))"

interpretation geo: invariant_system "\<lambda>g. \<exists>e. g = resolver_new e" lookup_step cache_ok
  by unfold_locales (auto simp: cache_ok_new lookup_step_def intro: lookup_cache_ok)

text \<open>An unexpired entry answers without a request; an answer is stored for its time to live.\<close>

lemma lookup_hit:
  assumes "gr_enabled g" and "is_public_candidate (normalize_ip a)"
    and "gr_cache g (normalize_ip a) = Some c" and "now < cl_expires_at c"
  shows "lookup now later http a g = (cl_location c, None, g)"
  using assms by (simp add: lookup_def Let_def)

lemma lookup_stores:
  assumes "lookup now later http a g = (r, Some url, g')"
  shows "gr_cache g' (normalize_ip a) =
    Some \<lparr>cl_location = r,
          cl_expires_at = later + (if r \<noteq> None then DEFAULT_CACHE_TTL else NEGATIVE_CACHE_TTL)\<rparr>"
  using assms
  by (auto simp: lookup_def fetch_location_def Let_def split: if_splits option.splits)

lemma lookup_enabled_endpoint:
  "lookup now later http a g = (r, u, g') \<Longrightarrow> gr_enabled g' = gr_enabled g \<and> gr_endpoint g' = gr_endpoint g"
  by (auto simp: lookup_def fetch_location_def Let_def split: if_splits option.splits)

lemma lookup_again:
  assumes first: "lookup now later http a g = (r, Some url, g')"
    and "normalize_ip b = normalize_ip a"
    and "t < later + NEGATIVE_CACHE_TTL"
  shows "lookup t t' http' b g' = (r, None, g')"
proof -
  have "NEGATIVE_CACHE_TTL \<le> DEFAULT_CACHE_TTL"
    by (simp add: NEGATIVE_CACHE_TTL_def DEFAULT_CACHE_TTL_def)
  then have "t < later + (if r \<noteq> None then DEFAULT_CACHE_TTL else NEGATIVE_CACHE_TTL)"
    using assms(3) by simp
  then show ?thesis
    using lookup_hit [OF _ _ lookup_stores [OF first, folded assms(2)], of t t' http']
      lookup_request [OF first] lookup_enabled_endpoint [OF first] assms(2)
    by simp
qed

section \<open>Property\<close>


definition sample_answer :: http_outcome where
  "sample_answer = HttpBody (Some \<lparr>gp_country_name = Some (lit ''Utopia''), gp_country_code = Some (lit ''ut'')\<rparr>)"

definition sample_public :: ipaddr where
  "sample_public = V4 (v4_of_octets 8 8 8 8)"


end
