(* ===== verification/Config.thy ===== *)
theory Config
  imports Lib
begin

text \<open>
  The server configuration (server/src/config.rs): the record, its construction from environment
  variables and what a successful construction guarantees. A variable that is unset or not
  Unicode is \<open>None\<close>.
\<close>

section \<open>The record\<close>

record config =
  c_listen_addr :: socket_addr
  c_database_url :: ustr
  c_admin_dist :: ustr
  c_admin_password :: "ustr option"
  c_port_start :: u16
  c_port_end :: u16
  c_ticket_ttl :: duration
  c_connect_timeout :: duration
  c_idle_timeout :: duration
  c_session_ttl :: duration
  c_audit_retention_days :: int
  c_secure_cookies :: bool
  c_geoip_url :: ustr
  c_web_base_domain :: ustr
  c_quic_port :: u16
  c_quic_listen_port :: u16
  c_kcp_port :: u16
  c_udp_session_timeout :: duration
  c_transport_cert_dir :: ustr
  c_trusted_proxy_cidrs :: "ipnet list"

datatype config_error = BadListenAddr | InvalidVar string | InvalidPortRange u16 u16 | BadProxyCidrs

section \<open>Reading the environment\<close>

definition parse_env ::
  "(string \<Rightarrow> ustr option) \<Rightarrow> (ustr \<Rightarrow> 'a option) \<Rightarrow> string \<Rightarrow> 'a \<Rightarrow> config_error + 'a" where
  "parse_env env parse key dflt =
     (case env key of Some value \<Rightarrow> ok_or (parse value) (InvalidVar key) | None \<Rightarrow> Inr dflt)"

definition env_or :: "(string \<Rightarrow> ustr option) \<Rightarrow> string \<Rightarrow> ustr \<Rightarrow> ustr" where
  "env_or env key dflt = (case env key of Some v \<Rightarrow> v | None \<Rightarrow> dflt)"

definition parse_u16 :: "ustr \<Rightarrow> u16 option" where
  "parse_u16 s = map_option of_nat (parse_unsigned 65535 s)"

definition parse_u64 :: "ustr \<Rightarrow> nat option" where
  "parse_u64 s = parse_unsigned (2 ^ 64 - 1) s"

definition base_domain :: "ustr \<Rightarrow> ustr" where
  "base_domain s = to_ascii_lowercase (trim_matches 46 s)"

definition proxy_cidrs :: "lib \<Rightarrow> ustr \<Rightarrow> config_error + ipnet list" where
  "proxy_cidrs L s = collect (map (\<lambda>v. ok_or (l_net_parse L (trim v)) BadProxyCidrs) (split_on 44 s))"

definition from_env :: "lib \<Rightarrow> (string \<Rightarrow> ustr option) \<Rightarrow> config_error + config" where
  "from_env L env =
     andThen (ok_or (parse_sock (env_or env ''TB_LISTEN_ADDR'' (lit ''0.0.0.0:8080''))) BadListenAddr) (\<lambda>listen.
     andThen (parse_env env parse_u16 ''TB_PORT_START'' 20000) (\<lambda>port_start.
     andThen (parse_env env parse_u16 ''TB_PORT_END'' 20100) (\<lambda>port_end.
     andThen (ensure (\<not> (port_start = 0 \<or> port_start > port_end)) (InvalidPortRange port_start port_end)) (\<lambda>_.
     andThen (parse_env env parse_u64 ''TB_TICKET_TTL_SECONDS'' 15) (\<lambda>ticket_ttl.
     andThen (parse_env env parse_u64 ''TB_CONNECT_TIMEOUT_SECONDS'' 15) (\<lambda>connect_timeout.
     andThen (parse_env env parse_u64 ''TB_IDLE_TIMEOUT_SECONDS'' 600) (\<lambda>idle_timeout.
     andThen (parse_env env parse_u64 ''TB_SESSION_TTL_SECONDS'' 43200) (\<lambda>session_ttl.
     andThen (parse_env env parse_i64 ''TB_AUDIT_RETENTION_DAYS'' 30) (\<lambda>retention.
     andThen (parse_env env parse_u16 ''TB_QUIC_PORT'' 443) (\<lambda>quic.
     andThen (parse_env env parse_u16 ''TB_QUIC_LISTEN_PORT'' 7443) (\<lambda>quic_listen.
     andThen (parse_env env parse_u16 ''TB_KCP_PORT'' 4000) (\<lambda>kcp.
     andThen (parse_env env parse_u64 ''TB_UDP_SESSION_TIMEOUT_SECONDS'' 60) (\<lambda>udp_timeout.
     andThen (proxy_cidrs L (env_or env ''TB_TRUSTED_PROXY_CIDRS'' (lit ''172.16.0.0/12''))) (\<lambda>proxies.
     Inr \<lparr>c_listen_addr = listen,
          c_database_url = env_or env ''TB_DATABASE_URL'' (lit ''sqlite://data/tunnelbridge.db?mode=rwc''),
          c_admin_dist = env_or env ''TB_ADMIN_DIST'' (lit ''web/admin/dist''),
          c_admin_password = env ''TB_ADMIN_PASSWORD'',
          c_port_start = port_start, c_port_end = port_end,
          c_ticket_ttl = secs ticket_ttl, c_connect_timeout = secs connect_timeout,
          c_idle_timeout = secs idle_timeout, c_session_ttl = secs session_ttl,
          c_audit_retention_days = retention,
          c_secure_cookies = (case env ''TB_SECURE_COOKIES'' of None \<Rightarrow> True | Some v \<Rightarrow> v \<noteq> lit ''false''),
          c_geoip_url = env_or env ''TB_GEOIP_URL'' (lit ''https://ipwho.is/{ip}''),
          c_web_base_domain = base_domain (env_or env ''TB_WEB_BASE_DOMAIN'' (lit ''tunnelbridge.252202.xyz'')),
          c_quic_port = quic, c_quic_listen_port = quic_listen, c_kcp_port = kcp,
          c_udp_session_timeout = secs udp_timeout,
          c_transport_cert_dir = env_or env ''TB_TRANSPORT_CERT_DIR'' (lit ''data/transport''),
          c_trusted_proxy_cidrs = proxies\<rparr>))))))))))))))"

section \<open>What a configuration guarantees\<close>

definition base_domain_ok :: "ustr \<Rightarrow> bool" where
  "base_domain_ok d \<longleftrightarrow>
     (\<forall>c \<in> set d. \<not> is_ascii_upper c) \<and> (d \<noteq> [] \<longrightarrow> hd d \<noteq> 46 \<and> last d \<noteq> 46)"

definition config_ok :: "config \<Rightarrow> bool" where
  "config_ok c \<longleftrightarrow>
     0 < c_port_start c \<and> c_port_start c \<le> c_port_end c \<and> base_domain_ok (c_web_base_domain c)"

lemma trim_matches_ends: "trim_matches c s \<noteq> [] \<Longrightarrow> hd (trim_matches c s) \<noteq> c \<and> last (trim_matches c s) \<noteq> c"
proof -
  assume ne: "trim_matches c s \<noteq> []"
  obtain t where t: "dropWhile (\<lambda>x. x = c) s = trim_matches c s @ t"
    using drop_while_end_prefix [of "dropWhile (\<lambda>x. x = c) s" "\<lambda>x. x = c"]
    unfolding trim_matches_def by blast
  have "hd (trim_matches c s) = hd (dropWhile (\<lambda>x. x = c) s)" using ne t by simp
  moreover have "dropWhile (\<lambda>x. x = c) s \<noteq> []" using ne t by auto
  ultimately have "hd (trim_matches c s) \<noteq> c" using hd_dropWhile [of "\<lambda>x. x = c" s] by simp
  moreover have "last (trim_matches c s) \<noteq> c"
    using ne drop_while_end_last [of "\<lambda>x. x = c" "dropWhile (\<lambda>x. x = c) s"]
    unfolding trim_matches_def by simp
  ultimately show ?thesis by simp
qed

definition lower_char :: "nat \<Rightarrow> nat" where
  "lower_char c = (if is_ascii_upper c then c + 32 else c)"

lemma lower_char_dot: "lower_char c = 46 \<longleftrightarrow> c = 46"
  by (auto simp: lower_char_def is_ascii_upper_def)

lemma base_domain_map: "base_domain s = map lower_char (trim_matches 46 s)"
  by (simp add: base_domain_def to_ascii_lowercase_def lower_char_def)

lemma base_domain_ok: "base_domain_ok (base_domain s)"
proof -
  have "hd (base_domain s) \<noteq> 46 \<and> last (base_domain s) \<noteq> 46" if ne: "base_domain s \<noteq> []"
  proof -
    have tm: "trim_matches 46 s \<noteq> []" using ne by (auto simp: base_domain_map)
    show ?thesis
      unfolding base_domain_map hd_map [OF tm] last_map [OF tm] lower_char_dot
      by (rule trim_matches_ends [OF tm])
  qed
  moreover have "\<forall>c \<in> set (base_domain s). \<not> is_ascii_upper c"
    unfolding base_domain_def by (auto dest: lowercase_no_upper)
  ultimately show ?thesis by (simp add: base_domain_ok_def)
qed

lemma from_env_config_ok: "from_env L env = Inr c \<Longrightarrow> config_ok c"
  by (auto simp: from_env_def andThen_eq_Inr config_ok_def base_domain_ok word_gt_0 not_less)

lemma from_env_rejects_range:
  assumes "parse_sock (env_or env ''TB_LISTEN_ADDR'' (lit ''0.0.0.0:8080'')) = Some a"
    and "parse_env env parse_u16 ''TB_PORT_START'' 20000 = Inr s"
    and "parse_env env parse_u16 ''TB_PORT_END'' 20100 = Inr e"
    and "s = 0 \<or> e < s"
  shows "from_env L env = Inl (InvalidPortRange s e)"
  using assms by (auto simp: from_env_def)

text \<open>C37. A configuration that \<open>from_env\<close> accepts has a non-empty port pool that excludes port 0, and a
  base domain in lower case without a leading or trailing dot, whatever the environment says.\<close>

theorem from_env_sound:
  assumes "from_env L env = Inr c"
  shows "0 < c_port_start c \<and> c_port_start c \<le> c_port_end c \<and> base_domain_ok (c_web_base_domain c)"
  using from_env_config_ok [OF assms] by (simp add: config_ok_def)

text \<open>An environment that sets the listening address, the port pool and the base domain.\<close>

definition sample_env :: "string \<Rightarrow> ustr option" where
  "sample_env = [''TB_LISTEN_ADDR'' \<mapsto> lit ''1.2.3.4:80'', ''TB_PORT_START'' \<mapsto> lit ''7'', ''TB_PORT_END'' \<mapsto> lit ''9'',
     ''TB_WEB_BASE_DOMAIN'' \<mapsto> lit ''.Tb.IO.'']"

lemma sample_listen: "\<exists>a. parse_sock (lit ''1.2.3.4:80'') = Some a"
proof -
  have four: "read_octets 4 = read_octets (Suc (Suc (Suc (Suc 0))))" by (simp only: eval_nat_numeral BitM.simps)
  show ?thesis
    by (simp add: parse_sock_def parse_all_def read_sock_v4_def read_ipv4_def four read_separator_def
      read_number_def read_char_def read_port_def to_digit_def hex_digit_def is_ascii_digit_def number_value_def
      lit_def Let_def)
qed

definition proxy_lib :: lib where
  "proxy_lib = sample_lib\<lparr>l_net_parse := (\<lambda>s. Some (Net4 0 0))\<rparr>"

lemma sample_from_env:
  "\<exists>c. from_env proxy_lib sample_env = Inr c \<and> c_port_start c = 7 \<and>
     c_database_url c = lit ''sqlite://data/tunnelbridge.db?mode=rwc'' \<and> c_admin_password c = None"
proof -
  obtain a where a: "parse_sock (lit ''1.2.3.4:80'') = Some a" using sample_listen by blast
  have ports: "parse_u16 (lit ''7'') = Some 7" "parse_u16 (lit ''9'') = Some 9"
    by (simp_all add: parse_u16_def parse_unsigned_def lit_def is_ascii_digit_def)
  have px: "proxy_cidrs proxy_lib (lit ''172.16.0.0/12'') = Inr [Net4 0 0]"
    by (simp add: proxy_cidrs_def lit_def proxy_lib_def)
  show ?thesis
    by (simp add: from_env_def env_or_def parse_env_def sample_env_def a ports px)
qed

theorem from_env_sound_witness:
  "\<exists>c. from_env proxy_lib sample_env = Inr c \<and> c_port_start c = 7 \<and> 0 < c_port_start c \<and>
     base_domain_ok (c_web_base_domain c)"
proof -
  obtain c where c: "from_env proxy_lib sample_env = Inr c" "c_port_start c = 7" using sample_from_env by blast
  from from_env_sound [OF c(1)] c show ?thesis by auto
qed

end
