(* ===== verification/Db.thy ===== *)
theory Db
  imports Config
begin

text \<open>
  The SQLite database (server/src/db.rs): rows as the columns hold them, the constraints of the
  schema, statements as stateful operations, the migration of the tunnels table and the first
  administrator. A statement can fail for reasons outside the program (I/O, a busy file):
  \<open>db_faults\<close> is the schedule of such failures, one entry consumed per statement, and a theorem that
  does not constrain it holds under every schedule.
\<close>

section \<open>Rows and tables\<close>

record admin_row =
  am_username :: ustr
  am_password_hash :: ustr
  am_created_at :: ustr

record device_row =
  dr_id :: ustr
  dr_name :: ustr
  dr_token_hash :: ustr
  dr_revoked :: bool
  dr_last_seen_at :: "ustr option"
  dr_created_at :: ustr

record tunnel_row =
  tr_id :: ustr
  tr_agent_id :: ustr
  tr_name :: ustr
  tr_local_host :: ustr
  tr_local_port :: int
  tr_kind :: ustr
  tr_local_scheme :: ustr
  tr_remote_port :: "int option"
  tr_hostname :: "ustr option"
  tr_access_mode :: ustr
  tr_allowed_cidrs :: ustr
  tr_enabled :: bool
  tr_created_at :: ustr
  tr_updated_at :: ustr

record audit_row =
  au_id :: nat
  au_action :: ustr
  au_subject :: ustr
  au_detail :: ustr
  au_created_at :: ustr

record history_row =
  hr_id :: ustr
  hr_tunnel_id :: ustr
  hr_peer_addr :: ustr
  hr_opened_at :: ustr
  hr_closed_at :: ustr
  hr_bytes_up :: int
  hr_bytes_down :: int

text \<open>
  \<open>db_foreign_keys\<close> tells whether the connection enforces \<open>REFERENCES\<close>; \<open>db_audit_next\<close> is the
  AUTOINCREMENT counter of the audit log.
\<close>

record database =
  db_admins :: "admin_row list"
  db_devices :: "device_row list"
  db_tunnels :: "tunnel_row list"
  db_audit :: "audit_row list"
  db_audit_next :: nat
  db_history :: "history_row list"
  db_foreign_keys :: bool
  db_faults :: "bool list"

datatype db_error = UniqueViolation | ConstraintViolation | DbFault

section \<open>Statements\<close>

definition stmt :: "(database \<Rightarrow> (db_error + 'a) \<times> database) \<Rightarrow> (database, db_error, 'a) act" where
  "stmt f d =
     (case db_faults d of
        [] \<Rightarrow> f d
      | b # fs \<Rightarrow> if b then (Inl DbFault, d\<lparr>db_faults := fs\<rparr>) else f (d\<lparr>db_faults := fs\<rparr>))"

definition select :: "(database \<Rightarrow> 'a) \<Rightarrow> (database, db_error, 'a) act" where
  "select f = stmt (\<lambda>d. (Inr (f d), d))"

text \<open>A transaction that fails leaves the tables as they were.\<close>

definition transaction :: "(database, 'e, 'a) act \<Rightarrow> (database, 'e, 'a) act" where
  "transaction m d =
     (case m d of
        (Inl e, d') \<Rightarrow> (Inl e, d\<lparr>db_faults := db_faults d'\<rparr>)
      | (Inr x, d') \<Rightarrow> (Inr x, d'))"

lemma stmt_no_faults [simp]: "db_faults d = [] \<Longrightarrow> stmt f d = f d"
  by (simp add: stmt_def)

lemma stmt_eq_Inr:
  "stmt f d = (Inr x, d') \<longleftrightarrow>
     (\<exists>d0. f d0 = (Inr x, d') \<and> (db_faults d = [] \<and> d0 = d \<or> (\<exists>fs. db_faults d = False # fs \<and> d0 = d\<lparr>db_faults := fs\<rparr>)))"
  by (auto simp: stmt_def split: list.splits)

lemma stmt_cases:
  assumes "stmt f d = (r, d')"
  obtains (run) fs where "f (d\<lparr>db_faults := fs\<rparr>) = (r, d')"
    | (fault) fs where "r = Inl DbFault" "d' = d\<lparr>db_faults := fs\<rparr>"
proof (cases "db_faults d")
  case Nil
  then have e: "d\<lparr>db_faults := []\<rparr> = d" by simp
  show ?thesis using assms Nil run [of "[]", unfolded e] by (simp add: stmt_def)
next
  case (Cons b fs)
  then show ?thesis using assms run [of fs] fault [of fs] by (cases b) (auto simp: stmt_def)
qed

text \<open>
  A predicate on the tables is one that does not read the fault schedule; a statement keeps it when
  its effect does.
\<close>

definition on_tables :: "(database \<Rightarrow> bool) \<Rightarrow> bool" where
  "on_tables I \<longleftrightarrow> (\<forall>d fs. I (d\<lparr>db_faults := fs\<rparr>) \<longleftrightarrow> I d)"

lemma on_tablesD: "on_tables I \<Longrightarrow> I (d\<lparr>db_faults := fs\<rparr>) \<longleftrightarrow> I d"
  by (simp add: on_tables_def)

lemma keeps_stmt:
  assumes "on_tables I" and "\<And>d. I d \<Longrightarrow> I (snd (f d))"
  shows "keeps I (stmt f)"
proof (rule keepsI)
  fix d assume I: "I d"
  obtain r d' where s: "stmt f d = (r, d')" by (cases "stmt f d")
  from s show "I (snd (stmt f d))"
  proof (cases rule: stmt_cases)
    case (run fs)
    with I assms show ?thesis using s by (metis on_tablesD snd_conv)
  next
    case (fault fs)
    with I assms(1) show ?thesis using s by (simp add: on_tablesD)
  qed
qed

lemma keeps_select: "on_tables I \<Longrightarrow> keeps I (select f)"
  unfolding select_def by (rule keeps_stmt) auto

lemma keeps_transaction:
  assumes "on_tables I" and "keeps I m"
  shows "keeps I (transaction m)"
proof (rule keepsI)
  fix d assume "I d"
  with assms(2) have "I (snd (m d))" by (simp add: keeps_def)
  with \<open>I d\<close> assms(1) show "I (snd (transaction m d))"
    by (auto simp: transaction_def on_tablesD split: prod.splits sum.splits)
qed

lemma select_eq_Inr:
  "select f d = (Inr x, d') \<Longrightarrow> \<exists>fs. d' = d\<lparr>db_faults := fs\<rparr> \<and> x = f d'"
  unfolding select_def by (erule stmt_cases) auto

lemma select_snd: "\<exists>fs. snd (select f d) = d\<lparr>db_faults := fs\<rparr>"
proof -
  obtain r d' where s: "select f d = (r, d')" by (cases "select f d")
  then have "\<exists>fs. d' = d\<lparr>db_faults := fs\<rparr>"
    unfolding select_def by (cases rule: stmt_cases) auto
  with s show ?thesis by simp
qed

lemma transaction_atomic:
  assumes "transaction m d = (Inl e, d')"
  shows "d'\<lparr>db_faults := db_faults d\<rparr> = d"
  using assms by (auto simp: transaction_def split: prod.splits sum.splits)

section \<open>The tunnels table\<close>

text \<open>The CHECK constraints of \<open>TUNNELS_V2_SCHEMA\<close>.\<close>

definition tunnels_check :: "tunnel_row \<Rightarrow> bool" where
  "tunnels_check r \<longleftrightarrow>
     tr_kind r \<in> {lit ''tcp'', lit ''udp'', lit ''web''} \<and>
     tr_local_scheme r \<in> {lit ''tcp'', lit ''udp'', lit ''http'', lit ''https''} \<and>
     (tr_kind r \<in> {lit ''tcp'', lit ''udp''} \<and> tr_remote_port r \<noteq> None \<and> tr_hostname r = None \<or>
      tr_kind r = lit ''web'' \<and> tr_remote_port r = None \<and> tr_hostname r \<noteq> None)"

text \<open>
  The primary key and the three unique indexes. SQLite's \<open>lower\<close> folds ASCII letters; NULLs are
  never equal.
\<close>

definition tunnels_conflict :: "tunnel_row \<Rightarrow> tunnel_row \<Rightarrow> bool" where
  "tunnels_conflict r q \<longleftrightarrow>
     tr_id r = tr_id q \<or>
     (tr_kind r = lit ''tcp'' \<and> tr_kind q = lit ''tcp'' \<and>
        tr_remote_port r \<noteq> None \<and> tr_remote_port r = tr_remote_port q) \<or>
     (tr_kind r = lit ''udp'' \<and> tr_kind q = lit ''udp'' \<and>
        tr_remote_port r \<noteq> None \<and> tr_remote_port r = tr_remote_port q) \<or>
     (tr_kind r = lit ''web'' \<and> tr_kind q = lit ''web'' \<and> tr_hostname r \<noteq> None \<and>
        map_option to_ascii_lowercase (tr_hostname r) = map_option to_ascii_lowercase (tr_hostname q))"

lemma tunnels_conflict_sym: "tunnels_conflict r q = tunnels_conflict q r"
  unfolding tunnels_conflict_def 
  by (cases "tr_hostname r"; cases "tr_hostname q") (intro iffI; elim disjE conjE; simp)+

fun pairwise_free :: "tunnel_row list \<Rightarrow> bool" where
  "pairwise_free [] = True"
| "pairwise_free (r # rs) = (list_all (\<lambda>q. \<not> tunnels_conflict r q) rs \<and> pairwise_free rs)"

lemma pairwise_free_append:
  "pairwise_free (rs @ qs) \<longleftrightarrow>
     pairwise_free rs \<and> pairwise_free qs \<and> (\<forall>r \<in> set rs. \<forall>q \<in> set qs. \<not> tunnels_conflict r q)"
  by (induction rs) (auto simp: list_all_iff)

lemma pairwise_free_filter: "pairwise_free rs \<Longrightarrow> pairwise_free (filter P rs)"
  by (induction rs) (auto simp: list_all_iff)

lemma pairwise_freeD:
  "pairwise_free rs \<Longrightarrow> r \<in> set rs \<Longrightarrow> q \<in> set rs \<Longrightarrow> tunnels_conflict r q \<Longrightarrow> r = q"
  by (induction rs) (auto simp: list_all_iff tunnels_conflict_sym)

text \<open>An update of the row with id \<open>k\<close>.\<close>

definition update_row :: "ustr \<Rightarrow> (tunnel_row \<Rightarrow> tunnel_row) \<Rightarrow> tunnel_row list \<Rightarrow> tunnel_row list" where
  "update_row k f rs = map (\<lambda>r. if tr_id r = k then f r else r) rs"

lemma pairwise_free_update:
  assumes "pairwise_free rs" and "\<And>r. tr_id (f r) = tr_id r"
    and "\<And>r q. r \<in> set rs \<Longrightarrow> q \<in> set rs \<Longrightarrow> tr_id r = k \<Longrightarrow> tr_id q \<noteq> k \<Longrightarrow> \<not> tunnels_conflict (f r) q"
  shows "pairwise_free (update_row k f rs)"
  using assms(1,3)
proof (induction rs)
  case Nil
  show ?case by (simp add: update_row_def)
next
  case (Cons r rs)
  have IH: "pairwise_free (update_row k f rs)"
    using Cons by (auto simp: update_row_def)
  have "\<not> tunnels_conflict (if tr_id r = k then f r else r) (if tr_id q = k then f q else q)"
    if q: "q \<in> set rs" for q
  proof -
    have ne: "\<not> tunnels_conflict r q" using Cons.prems(1) q by (auto simp: list_all_iff)
    then have "tr_id r \<noteq> tr_id q" by (auto simp: tunnels_conflict_def)
    then show ?thesis
      using ne Cons.prems(2) [of r q] Cons.prems(2) [of q r] q
      by (auto simp: tunnels_conflict_sym)
  qed
  then have "list_all (\<lambda>q. \<not> tunnels_conflict (if tr_id r = k then f r else r) q) (update_row k f rs)"
    unfolding update_row_def list_all_iff set_map by blast
  then show ?case using IH by (simp add: update_row_def)
qed

definition insert_tunnel :: "tunnel_row \<Rightarrow> (database, db_error, unit) act" where
  "insert_tunnel r = stmt (\<lambda>d.
     if \<not> tunnels_check r then (Inl ConstraintViolation, d)
     else if list_ex (tunnels_conflict r) (db_tunnels d) then (Inl UniqueViolation, d)
     else if db_foreign_keys d \<and> tr_agent_id r \<notin> dr_id ` set (db_devices d) then (Inl ConstraintViolation, d)
     else (Inr (), d\<lparr>db_tunnels := db_tunnels d @ [r]\<rparr>))"

text \<open>\<open>UPDATE tunnels SET ... WHERE id = k\<close>; the assignment never changes id, owner or kind.\<close>

definition update_tunnel_row ::
  "ustr \<Rightarrow> (tunnel_row \<Rightarrow> tunnel_row) \<Rightarrow> (database, db_error, unit) act" where
  "update_tunnel_row k f = stmt (\<lambda>d.
     let hit = filter (\<lambda>r. tr_id r = k) (db_tunnels d);
         rest = filter (\<lambda>r. tr_id r \<noteq> k) (db_tunnels d) in
     if list_ex (\<lambda>r. \<not> tunnels_check (f r)) hit then (Inl ConstraintViolation, d)
     else if list_ex (\<lambda>r. list_ex (tunnels_conflict (f r)) rest) hit then (Inl UniqueViolation, d)
     else (Inr (), d\<lparr>db_tunnels := update_row k f (db_tunnels d)\<rparr>))"

definition delete_tunnel_rows :: "(tunnel_row \<Rightarrow> bool) \<Rightarrow> (database, db_error, unit) act" where
  "delete_tunnel_rows P = stmt (\<lambda>d. (Inr (), d\<lparr>db_tunnels := filter (\<lambda>r. \<not> P r) (db_tunnels d)\<rparr>))"

section \<open>Schema invariant\<close>

definition schema_ok :: "database \<Rightarrow> bool" where
  "schema_ok d \<longleftrightarrow>
     list_all tunnels_check (db_tunnels d) \<and> pairwise_free (db_tunnels d) \<and>
     distinct (map dr_id (db_devices d)) \<and> distinct (map dr_token_hash (db_devices d)) \<and>
     length (db_admins d) \<le> 1"

lemma schema_on_tables: "on_tables schema_ok"
  by (simp add: on_tables_def schema_ok_def)

lemma keeps_schema_insert [keeps_intros]: "keeps schema_ok (insert_tunnel r)"
  unfolding insert_tunnel_def
  by (rule keeps_stmt [OF schema_on_tables])
    (auto simp: schema_ok_def pairwise_free_append list_ex_iff tunnels_conflict_sym)

lemma keeps_schema_update [keeps_intros]:
  assumes "\<And>r. tr_id (f r) = tr_id r"
  shows "keeps schema_ok (update_tunnel_row k f)"
  unfolding update_tunnel_row_def
proof (rule keeps_stmt [OF schema_on_tables])
  fix d assume ok: "schema_ok d"
  have "pairwise_free (update_row k f (db_tunnels d))"
    if "\<not> list_ex (\<lambda>r. list_ex (tunnels_conflict (f r)) (filter (\<lambda>r. tr_id r \<noteq> k) (db_tunnels d)))
          (filter (\<lambda>r. tr_id r = k) (db_tunnels d))"
    using ok that by (intro pairwise_free_update assms) (auto simp: schema_ok_def list_ex_iff)
  moreover have "list_all tunnels_check (update_row k f (db_tunnels d))"
    if "\<not> list_ex (\<lambda>r. \<not> tunnels_check (f r)) (filter (\<lambda>r. tr_id r = k) (db_tunnels d))"
    using ok that by (auto simp: schema_ok_def list_ex_iff list_all_iff update_row_def)
  ultimately show "schema_ok (snd (let hit = filter (\<lambda>r. tr_id r = k) (db_tunnels d);
         rest = filter (\<lambda>r. tr_id r \<noteq> k) (db_tunnels d) in
     if list_ex (\<lambda>r. \<not> tunnels_check (f r)) hit then (Inl ConstraintViolation, d)
     else if list_ex (\<lambda>r. list_ex (tunnels_conflict (f r)) rest) hit then (Inl UniqueViolation, d)
     else (Inr (), d\<lparr>db_tunnels := update_row k f (db_tunnels d)\<rparr>)))"
    using ok by (auto simp: schema_ok_def Let_def)
qed

lemma keeps_schema_delete [keeps_intros]: "keeps schema_ok (delete_tunnel_rows P)"
  unfolding delete_tunnel_rows_def
  by (rule keeps_stmt [OF schema_on_tables])
    (auto simp: schema_ok_def pairwise_free_filter list_all_iff)

lemmas keeps_schema_select [keeps_intros] = keeps_select [OF schema_on_tables]
lemmas keeps_schema_transaction [keeps_intros] = keeps_transaction [OF schema_on_tables]

section \<open>Devices, audit log, history, administrators\<close>

definition insert_device :: "device_row \<Rightarrow> (database, db_error, unit) act" where
  "insert_device r = stmt (\<lambda>d.
     if list_ex (\<lambda>q. dr_id q = dr_id r \<or> dr_token_hash q = dr_token_hash r) (db_devices d)
     then (Inl UniqueViolation, d)
     else (Inr (), d\<lparr>db_devices := db_devices d @ [r]\<rparr>))"

text \<open>\<open>SELECT id, name FROM devices WHERE token_hash = ? AND revoked = 0 LIMIT 1\<close>.\<close>

definition device_by_token :: "ustr \<Rightarrow> (database, db_error, device_row option) act" where
  "device_by_token h = select (\<lambda>d. find (\<lambda>r. dr_token_hash r = h \<and> \<not> dr_revoked r) (db_devices d))"

text \<open>An update of the rows with a given id; the result is the number of rows affected.\<close>

definition update_device :: "ustr \<Rightarrow> (device_row \<Rightarrow> device_row) \<Rightarrow> (database, db_error, nat) act" where
  "update_device k f = stmt (\<lambda>d.
     (Inr (length (filter (\<lambda>r. dr_id r = k) (db_devices d))),
      d\<lparr>db_devices := map (\<lambda>r. if dr_id r = k then f r else r) (db_devices d)\<rparr>))"

definition delete_device :: "ustr \<Rightarrow> (database, db_error, nat) act" where
  "delete_device k = stmt (\<lambda>d.
     (Inr (length (filter (\<lambda>r. dr_id r = k) (db_devices d))),
      d\<lparr>db_devices := filter (\<lambda>r. dr_id r \<noteq> k) (db_devices d),
        db_tunnels := (if db_foreign_keys d then filter (\<lambda>r. tr_agent_id r \<noteq> k) (db_tunnels d)
                       else db_tunnels d)\<rparr>))"

definition insert_audit :: "ustr \<Rightarrow> ustr \<Rightarrow> ustr \<Rightarrow> ustr \<Rightarrow> (database, db_error, unit) act" where
  "insert_audit action subject detail at = stmt (\<lambda>d.
     (Inr (), d\<lparr>db_audit := db_audit d @
         [\<lparr>au_id = db_audit_next d, au_action = action, au_subject = subject, au_detail = detail,
           au_created_at = at\<rparr>],
       db_audit_next := Suc (db_audit_next d)\<rparr>))"

definition insert_history :: "history_row \<Rightarrow> (database, db_error, unit) act" where
  "insert_history r = stmt (\<lambda>d.
     if hr_id r \<in> hr_id ` set (db_history d) then (Inl UniqueViolation, d)
     else (Inr (), d\<lparr>db_history := db_history d @ [r]\<rparr>))"

definition set_password_hash :: "ustr \<Rightarrow> ustr \<Rightarrow> (database, db_error, unit) act" where
  "set_password_hash user h = stmt (\<lambda>d.
     (Inr (), d\<lparr>db_admins := map (\<lambda>r. if am_username r = user then r\<lparr>am_password_hash := h\<rparr> else r)
        (db_admins d)\<rparr>))"

text \<open>Text columns compare byte-wise, which for UTF-8 is the order of the code points.\<close>

definition purge_audit :: "ustr \<Rightarrow> (database, db_error, unit) act" where
  "purge_audit cutoff = stmt (\<lambda>d.
     (Inr (), d\<lparr>db_audit := filter (\<lambda>r. \<not> au_created_at r < cutoff) (db_audit d)\<rparr>))"

definition purge_history :: "ustr \<Rightarrow> (database, db_error, unit) act" where
  "purge_history cutoff = stmt (\<lambda>d.
     (Inr (), d\<lparr>db_history := filter (\<lambda>r. \<not> hr_closed_at r < cutoff) (db_history d)\<rparr>))"

lemma keeps_schema_insert_device [keeps_intros]: "keeps schema_ok (insert_device r)"
  unfolding insert_device_def
  by (rule keeps_stmt [OF schema_on_tables]) (auto simp: schema_ok_def list_ex_iff)

lemma keeps_schema_update_device [keeps_intros]:
  assumes "\<And>r. dr_id (f r) = dr_id r" and "\<And>r. dr_token_hash (f r) = dr_token_hash r"
  shows "keeps schema_ok (update_device k f)"
proof -
  have e: "dr_id \<circ> (\<lambda>r. if dr_id r = k then f r else r) = dr_id"
    "dr_token_hash \<circ> (\<lambda>r. if dr_id r = k then f r else r) = dr_token_hash"
    using assms by (auto simp: fun_eq_iff)
  show ?thesis
    unfolding update_device_def
    by (intro keeps_stmt [OF schema_on_tables]) (simp add: schema_ok_def e)
qed

lemma distinct_map_filter: "distinct (map f xs) \<Longrightarrow> distinct (map f (filter P xs))"
  by (induction xs) auto

lemma keeps_schema_delete_device [keeps_intros]: "keeps schema_ok (delete_device k)"
  unfolding delete_device_def
  by (rule keeps_stmt [OF schema_on_tables])
    (auto simp: schema_ok_def pairwise_free_filter list_all_iff distinct_map_filter)

lemma keeps_schema_rows [keeps_intros]:
  "keeps schema_ok (insert_audit a b c e)"
  "keeps schema_ok (insert_history h)"
  "keeps schema_ok (set_password_hash u p)"
  "keeps schema_ok (purge_audit t)"
  "keeps schema_ok (purge_history t)"
  "keeps schema_ok (device_by_token h2)"
  unfolding insert_audit_def insert_history_def set_password_hash_def purge_audit_def
    purge_history_def device_by_token_def
  by (intro keeps_stmt [OF schema_on_tables] keeps_schema_select; simp add: schema_ok_def)+

section \<open>Migration of the tunnels table\<close>

record tunnel_v1 =
  v1_id :: ustr
  v1_agent_id :: ustr
  v1_name :: ustr
  v1_local_host :: ustr
  v1_local_port :: int
  v1_remote_port :: "int option"
  v1_access_mode :: ustr
  v1_allowed_cidrs :: ustr
  v1_enabled :: bool
  v1_created_at :: ustr
  v1_updated_at :: ustr

text \<open>What a database file can hold under the name \<open>tunnels\<close>.\<close>

datatype tunnels_table = NoTable | TableV1 "tunnel_v1 list" | TableV2 "tunnel_row list"

definition migrate_row :: "tunnel_v1 \<Rightarrow> tunnel_row" where
  "migrate_row v =
     \<lparr>tr_id = v1_id v, tr_agent_id = v1_agent_id v, tr_name = v1_name v,
      tr_local_host = v1_local_host v, tr_local_port = v1_local_port v,
      tr_kind = lit ''tcp'', tr_local_scheme = lit ''tcp'', tr_remote_port = v1_remote_port v,
      tr_hostname = None, tr_access_mode = v1_access_mode v, tr_allowed_cidrs = v1_allowed_cidrs v,
      tr_enabled = v1_enabled v, tr_created_at = v1_created_at v, tr_updated_at = v1_updated_at v\<rparr>"

text \<open>\<open>CREATE UNIQUE INDEX\<close> fails on a table that already violates the index.\<close>

definition create_tunnel_indexes :: "tunnel_row list \<Rightarrow> db_error + unit" where
  "create_tunnel_indexes rows = ensure (pairwise_free rows) UniqueViolation"

definition create_tunnels_v2 :: "(db_error + unit) \<times> tunnels_table" where
  "create_tunnels_v2 = (create_tunnel_indexes [], TableV2 [])"

definition migrate_tunnels_v2 :: "tunnels_table \<Rightarrow> (db_error + unit) \<times> tunnels_table" where
  "migrate_tunnels_v2 t =
     (case t of
        NoTable \<Rightarrow> create_tunnels_v2
      | TableV2 rows \<Rightarrow> (create_tunnel_indexes rows, TableV2 rows)
      | TableV1 old \<Rightarrow>
          (let rows = map migrate_row old in
           if \<not> list_all tunnels_check rows then (Inl ConstraintViolation, TableV1 old)
           else if \<not> distinct (map tr_id rows) then (Inl UniqueViolation, TableV1 old)
           else (create_tunnel_indexes rows, TableV2 rows)))"

lemma migrate_row_check: "tunnels_check (migrate_row v) \<longleftrightarrow> v1_remote_port v \<noteq> None"
  by (simp add: tunnels_check_def migrate_row_def)

lemma migrate_row_conflict:
  "tunnels_conflict (migrate_row v) (migrate_row w) \<longleftrightarrow>
     v1_id v = v1_id w \<or> v1_remote_port v \<noteq> None \<and> v1_remote_port v = v1_remote_port w"
  by (simp add: tunnels_conflict_def migrate_row_def)

lemma migrate_rows_free:
  "distinct (map v1_id old) \<Longrightarrow> distinct (map v1_remote_port old) \<Longrightarrow> pairwise_free (map migrate_row old)"
proof (induction old)
  case (Cons v old)
  then have "\<forall>w \<in> set old. \<not> tunnels_conflict (migrate_row v) (migrate_row w)"
    by (auto simp: migrate_row_conflict image_iff)
  then show ?case using Cons by (simp add: list_all_iff)
qed simp

section \<open>The first administrator\<close>

datatype boot_error = BootDb db_error | MissingPassword | ShortPassword | HashFailed

definition bootstrap_admin ::
  "lib \<Rightarrow> bytes \<Rightarrow> ustr \<Rightarrow> ustr option \<Rightarrow> (database, boot_error, unit) act" where
  "bootstrap_admin L salt now password =
     seq (map_err BootDb (select (\<lambda>d. length (db_admins d)))) (\<lambda>count.
       if count > 0 then ok ()
       else case password of
         None \<Rightarrow> fail MissingPassword
       | Some p \<Rightarrow>
           if byte_len p < 12 then fail ShortPassword
           else seq (lift (ok_or (l_hash_password L salt (as_bytes p)) HashFailed)) (\<lambda>h.
             map_err BootDb (stmt (\<lambda>d.
               if db_admins d \<noteq> [] then (Inl UniqueViolation, d)
               else (Inr (), d\<lparr>db_admins := [\<lparr>am_username = lit ''admin'', am_password_hash = h,
                       am_created_at = now\<rparr>]\<rparr>)))))"

lemma keeps_bootstrap: "keeps schema_ok (bootstrap_admin L salt now p)"
proof -
  have "keeps schema_ok (stmt (\<lambda>d.
       if db_admins d \<noteq> [] then (Inl UniqueViolation, d)
       else (Inr (), d\<lparr>db_admins := [\<lparr>am_username = lit ''admin'', am_password_hash = h,
                       am_created_at = now\<rparr>]\<rparr>)))" for h
    by (rule keeps_stmt [OF schema_on_tables]) (auto simp: schema_ok_def)
  then show ?thesis
    unfolding bootstrap_admin_def by (intro keeps_intros)
qed

text \<open>An existing administrator is kept, whatever the environment says and whatever fails.\<close>

lemma bootstrap_keeps_existing:
  assumes "db_admins d \<noteq> []"
  shows "db_admins (snd (bootstrap_admin L salt now p d)) = db_admins d"
proof -
  obtain r d1 where s: "select (\<lambda>d. length (db_admins d)) d = (r, d1)"
    by (cases "select (\<lambda>d. length (db_admins d)) d")
  then have d1: "db_admins d1 = db_admins d" using select_snd [of "\<lambda>d. length (db_admins d)" d] by auto
  show ?thesis
  proof (cases r)
    case (Inl e)
    with s d1 show ?thesis by (simp add: bootstrap_admin_def seq_def map_err_def)
  next
    case (Inr n)
    then have "n = length (db_admins d)" using select_eq_Inr s d1 by metis
    with s d1 Inr assms show ?thesis by (simp add: bootstrap_admin_def seq_def map_err_def ok_def)
  qed
qed

section \<open>Properties\<close>

text \<open>
  The migration of the tunnels table loses nothing: it either leaves the old table or replaces it by the
  image of every old row, in order; it succeeds on every old table whose ids and ports are distinct and
  whose ports are set, and then the new table satisfies the constraints and the unique indexes; running
  it again changes nothing.
\<close>

theorem migration_keeps_rows:
  assumes "migrate_tunnels_v2 (TableV1 old) = (r, t)"
  shows "(t = TableV1 old \<or> t = TableV2 (map migrate_row old)) \<and>
     (distinct (map v1_id old) \<and> distinct (map v1_remote_port old) \<and> None \<notin> v1_remote_port ` set old \<longrightarrow>
        r = Inr () \<and> t = TableV2 (map migrate_row old)) \<and>
     (r = Inr () \<longrightarrow> list_all tunnels_check (map migrate_row old) \<and> pairwise_free (map migrate_row old) \<and>
        migrate_tunnels_v2 t = (Inr (), t))"
proof -
  let ?rows = "map migrate_row old"
  have ids: "distinct (map tr_id ?rows) \<longleftrightarrow> distinct (map v1_id old)" by (simp add: migrate_row_def comp_def)
  have "list_all tunnels_check ?rows \<longleftrightarrow> (\<forall>v \<in> set old. v1_remote_port v \<noteq> None)"
    by (simp add: list_all_iff migrate_row_check del: not_None_eq)
  also have "\<dots> \<longleftrightarrow> None \<notin> v1_remote_port ` set old" by (metis imageE imageI)
  finally have check: "list_all tunnels_check ?rows \<longleftrightarrow> None \<notin> v1_remote_port ` set old" .
  have m: "migrate_tunnels_v2 (TableV1 old) =
      (if \<not> list_all tunnels_check ?rows then (Inl ConstraintViolation, TableV1 old)
       else if \<not> distinct (map tr_id ?rows) then (Inl UniqueViolation, TableV1 old)
       else (ensure (pairwise_free ?rows) UniqueViolation, TableV2 ?rows))"
    by (simp add: migrate_tunnels_v2_def Let_def create_tunnel_indexes_def)
  have again: "pairwise_free ?rows \<Longrightarrow> migrate_tunnels_v2 (TableV2 ?rows) = (Inr (), TableV2 ?rows)"
    by (simp add: migrate_tunnels_v2_def create_tunnel_indexes_def)
  show ?thesis
  proof (intro conjI impI)
    show "t = TableV1 old \<or> t = TableV2 ?rows" using assms m by (simp split: if_splits)
  next
    assume ok: "distinct (map v1_id old) \<and> distinct (map v1_remote_port old) \<and> None \<notin> v1_remote_port ` set old"
    then have "pairwise_free ?rows" by (intro migrate_rows_free) simp_all
    then show "r = Inr ()" "t = TableV2 ?rows" using ok assms m check ids by simp_all
  next
    assume "r = Inr ()"
    then have ok: "list_all tunnels_check ?rows" "pairwise_free ?rows" "t = TableV2 ?rows"
      using assms m by (simp_all split: if_splits)
    then show "list_all tunnels_check ?rows" "pairwise_free ?rows" "migrate_tunnels_v2 t = (Inr (), t)"
      using again by simp_all
  qed
qed

definition sample_v1 :: "nat \<Rightarrow> tunnel_v1" where
  "sample_v1 n =
     \<lparr>v1_id = [n], v1_agent_id = [7], v1_name = [n], v1_local_host = lit ''localhost'', v1_local_port = 22,
      v1_remote_port = Some (20000 + int n), v1_access_mode = lit ''public'', v1_allowed_cidrs = [],
      v1_enabled = True, v1_created_at = [], v1_updated_at = []\<rparr>"

theorem migration_keeps_rows_witness:
  "migrate_tunnels_v2 (TableV1 [sample_v1 1, sample_v1 2]) = (Inr (), TableV2 (map migrate_row [sample_v1 1, sample_v1 2]))"
proof -
  obtain r t where m: "migrate_tunnels_v2 (TableV1 [sample_v1 1, sample_v1 2]) = (r, t)"
    by (cases "migrate_tunnels_v2 (TableV1 [sample_v1 1, sample_v1 2])")
  from migration_keeps_rows [OF m] m show ?thesis by (simp add: sample_v1_def)
qed

text \<open>
  The first administrator: with an administrator in the table nothing is changed, whatever the environment
  says and whatever fails; on an empty table success leaves exactly one administrator, named admin, with the
  hash of a password of at least twelve bytes; an error leaves the table empty.
\<close>

theorem bootstrap_spec:
  assumes "bootstrap_admin L salt now p d = (r, d')"
  shows "(db_admins d \<noteq> [] \<longrightarrow> db_admins d' = db_admins d) \<and>
     (db_admins d = [] \<longrightarrow>
        (case r of
           Inr _ \<Rightarrow> \<exists>pw h. p = Some pw \<and> 12 \<le> byte_len pw \<and> l_hash_password L salt (as_bytes pw) = Some h \<and>
             db_admins d' = [\<lparr>am_username = lit ''admin'', am_password_hash = h, am_created_at = now\<rparr>]
         | Inl _ \<Rightarrow> db_admins d' = []))"
proof (cases "db_admins d")
  case Nil
  obtain x d1 where s: "select (\<lambda>d. length (db_admins d)) d = (x, d1)" by (cases "select (\<lambda>d. length (db_admins d)) d")
  have d1: "db_admins d1 = []" using select_snd [of "\<lambda>d. length (db_admins d)" d] s Nil by auto
  have x: "x = Inl e \<or> x = Inr 0" if "x = Inl e \<or> (\<exists>n. x = Inr n)" for e
    using that select_eq_Inr s d1 by fastforce
  show ?thesis
    using assms Nil d1 s select_eq_Inr [of "\<lambda>d. length (db_admins d)" d _ d1]
    by (auto simp: bootstrap_admin_def seq_def map_err_def ok_def fail_def lift_def not_less stmt_def ok_or_def
        split: option.splits sum.splits if_splits list.splits prod.splits)
next
  case (Cons a as)
  then show ?thesis using bootstrap_keeps_existing [of d L salt now p] assms by simp
qed

theorem bootstrap_spec_witness:
  "\<exists>d'. bootstrap_admin sample_lib [] (lit ''t'') (Some (lit ''correct horse''))
      \<lparr>db_admins = [], db_devices = [], db_tunnels = [], db_audit = [], db_audit_next = 1, db_history = [],
       db_foreign_keys = True, db_faults = []\<rparr> = (Inr (), d') \<and> length (db_admins d') = 1"
proof -
  let ?d = "\<lparr>db_admins = [], db_devices = [], db_tunnels = [], db_audit = [], db_audit_next = 1, db_history = [],
       db_foreign_keys = True, db_faults = []\<rparr>"
  have "byte_len (lit ''correct horse'') = 13"
    by (simp add: lit_def as_bytes_def byte_len_def utf8.simps)
  then obtain d' where b: "bootstrap_admin sample_lib [] (lit ''t'') (Some (lit ''correct horse'')) ?d = (Inr (), d')"
    by (simp add: bootstrap_admin_def seq_def map_err_def ok_def lift_def select_def sample_lib_def)
  from bootstrap_spec [OF b] b show ?thesis by auto
qed

end
