(* ===== verification/State.thy ===== *)
theory State
  imports Geoip Db
begin

text \<open>
  The state shared by all server tasks (server/src/state.rs): the maps of \<open>AppState\<close>, the counters,
  and the channels and cancellation tokens the maps' values refer to. A \<open>DashMap\<close> is a partial map.
  A channel lives in the state under the identifier that owns it, and is present while its
  receiver is alive: sending to an absent channel is the error a closed channel gives.
\<close>

section \<open>Entries of the maps\<close>

record admin_session =
  as_username :: ustr
  as_csrf_token :: ustr
  as_expires_at :: instant

record login_window =
  lw_started_at :: instant
  lw_attempts :: u8

text \<open>The acknowledgement channel of a pending connection is \<open>s_ack\<close> at the connection's id.\<close>

record pending_connection =
  pc_agent_id :: uuid
  pc_ticket_hash :: ustr
  pc_expires_at :: instant

record inbound_frame =
  if_kind :: u8
  if_payload :: bytes

text \<open>
  Both senders of a peer are named by its session id; the cancellation token is a number.
\<close>

record agent_peer =
  ap_session_id :: uuid
  ap_transport :: active_transport
  ap_cancellation :: nat

record counters =
  k_bytes_up :: u64
  k_bytes_down :: u64
  k_rejected :: u64
  k_failed :: u64
  k_active_udp :: u64
  k_http_requests :: u64
  k_quic :: u64
  k_kcp :: u64
  k_wss :: u64

definition counters_zero :: counters where
  "counters_zero =
     \<lparr>k_bytes_up = 0, k_bytes_down = 0, k_rejected = 0, k_failed = 0, k_active_udp = 0,
      k_http_requests = 0, k_quic = 0, k_kcp = 0, k_wss = 0\<rparr>"

section \<open>The application state\<close>

text \<open>
  \<^item> \<open>s_config\<close> to \<open>s_geoip\<close> are the fields of \<open>AppState\<close>; \<open>s_streams\<close> maps an id to the sender of the
    inbound channel with the same id, so its domain is all there is to it;
  \<^item> \<open>s_ctl\<close>: the unbounded control channel of a carrier session; \<open>s_bin\<close>: its bounded channel of
    carrier frames;
  \<^item> \<open>s_inbound\<close>: the bounded channel of frames towards one public connection;
  \<^item> \<open>s_ack\<close>: the one-shot channel of a connection waiting for its acknowledgement, with the
    value once it is sent;
  \<^item> \<open>s_cancelled\<close>: the tokens that have been cancelled.
\<close>

record app_state =
  s_config :: config
  s_db :: database
  s_sessions :: "ustr \<rightharpoonup> admin_session"
  s_login_attempts :: "ustr \<rightharpoonup> login_window"
  s_agents :: "uuid \<rightharpoonup> agent_peer"
  s_pending :: "uuid \<rightharpoonup> pending_connection"
  s_streams :: "uuid set"
  s_listeners :: "uuid \<rightharpoonup> nat"
  s_active :: "uuid \<rightharpoonup> active_connection"
  s_counters :: counters
  s_geoip :: resolver
  s_ctl :: "uuid \<rightharpoonup> agent_control_message list"
  s_bin :: "uuid \<rightharpoonup> bytes list"
  s_inbound :: "uuid \<rightharpoonup> inbound_frame list"
  s_ack :: "uuid \<rightharpoonup> (ustr + unit) option"
  s_cancelled :: "nat set"

definition app_state_new :: "config \<Rightarrow> database \<Rightarrow> app_state" where
  "app_state_new c d =
     \<lparr>s_config = c, s_db = d, s_sessions = Map.empty, s_login_attempts = Map.empty,
      s_agents = Map.empty, s_pending = Map.empty, s_streams = {}, s_listeners = Map.empty,
      s_active = Map.empty, s_counters = counters_zero, s_geoip = resolver_new (c_geoip_url c),
      s_ctl = Map.empty, s_bin = Map.empty, s_inbound = Map.empty, s_ack = Map.empty,
      s_cancelled = {}\<rparr>"

definition map_len :: "('k \<rightharpoonup> 'v) \<Rightarrow> u64" where
  "map_len m = of_nat (card (dom m))"

definition metrics :: "app_state \<Rightarrow> metrics_snapshot" where
  "metrics s =
     \<lparr>ms_online_agents = map_len (s_agents s),
      ms_active_connections = map_len (s_active s),
      ms_bytes_up = k_bytes_up (s_counters s),
      ms_bytes_down = k_bytes_down (s_counters s),
      ms_rejected_connections = k_rejected (s_counters s),
      ms_failed_connections = k_failed (s_counters s),
      ms_carrier_sessions = map_len (s_agents s),
      ms_active_udp_sessions = k_active_udp (s_counters s),
      ms_http_requests = k_http_requests (s_counters s),
      ms_quic_connections = k_quic (s_counters s),
      ms_kcp_connections = k_kcp (s_counters s),
      ms_wss_connections = k_wss (s_counters s)\<rparr>"

section \<open>Counters\<close>

text \<open>\<open>fetch_add\<close> and \<open>fetch_sub\<close> wrap around.\<close>

definition count :: "(counters \<Rightarrow> counters) \<Rightarrow> app_state \<Rightarrow> app_state" where
  "count f s = s\<lparr>s_counters := f (s_counters s)\<rparr>"

definition add_up :: "u64 \<Rightarrow> counters \<Rightarrow> counters" where
  "add_up n k = k\<lparr>k_bytes_up := k_bytes_up k + n\<rparr>"

definition add_down :: "u64 \<Rightarrow> counters \<Rightarrow> counters" where
  "add_down n k = k\<lparr>k_bytes_down := k_bytes_down k + n\<rparr>"

definition add_rejected :: "counters \<Rightarrow> counters" where
  "add_rejected k = k\<lparr>k_rejected := k_rejected k + 1\<rparr>"

definition add_failed :: "counters \<Rightarrow> counters" where
  "add_failed k = k\<lparr>k_failed := k_failed k + 1\<rparr>"

definition session_expiry :: "instant \<Rightarrow> duration \<Rightarrow> instant" where
  "session_expiry now ttl = now + ttl"

lemma count_sel [simp]:
  "s_config (count f s) = s_config s"
  "s_db (count f s) = s_db s"
  "s_sessions (count f s) = s_sessions s"
  "s_login_attempts (count f s) = s_login_attempts s"
  "s_agents (count f s) = s_agents s"
  "s_pending (count f s) = s_pending s"
  "s_streams (count f s) = s_streams s"
  "s_listeners (count f s) = s_listeners s"
  "s_active (count f s) = s_active s"
  "s_counters (count f s) = f (s_counters s)"
  "s_geoip (count f s) = s_geoip s"
  "s_ctl (count f s) = s_ctl s"
  "s_bin (count f s) = s_bin s"
  "s_inbound (count f s) = s_inbound s"
  "s_ack (count f s) = s_ack s"
  "s_cancelled (count f s) = s_cancelled s"
  by (simp_all add: count_def)

section \<open>Database access from a handler\<close>

definition on_db :: "(database, db_error, 'a) act \<Rightarrow> (app_state, db_error, 'a) act" where
  "on_db m s = (case m (s_db s) of (r, d) \<Rightarrow> (r, s\<lparr>s_db := d\<rparr>))"

text \<open>\<open>From<sqlx::Error> for AppError\<close>: the \<open>?\<close> after a statement in a handler.\<close>

definition sqlx_error :: "db_error \<Rightarrow> app_error" where
  "sqlx_error e = Internal ''database''"

definition db_do :: "(database, db_error, 'a) act \<Rightarrow> (app_state, app_error, 'a) act" where
  "db_do m = map_err sqlx_error (on_db m)"

lemma on_db_run: "m (s_db s) = (r, d) \<Longrightarrow> on_db m s = (r, s\<lparr>s_db := d\<rparr>)"
  by (simp add: on_db_def)

lemma db_do_eq_Inr: "db_do m s = (Inr x, s') \<longleftrightarrow> (\<exists>d. m (s_db s) = (Inr x, d) \<and> s' = s\<lparr>s_db := d\<rparr>)"
  by (auto simp: db_do_def on_db_def split: prod.splits)

lemma db_do_eq_Inl:
  "db_do m s = (Inl e, s') \<longleftrightarrow>
     (\<exists>e0 d. m (s_db s) = (Inl e0, d) \<and> s' = s\<lparr>s_db := d\<rparr> \<and> e = sqlx_error e0)"
  by (auto simp: db_do_def on_db_def split: prod.splits)

text \<open>
  A predicate that only reads the database is kept when the database operation keeps it; one that
  does not read it at all is kept by every database operation.
\<close>

lemma keeps_on_db [keeps_intros]: "keeps I m \<Longrightarrow> keeps (\<lambda>s. I (s_db s)) (on_db m)"
  by (auto simp: keeps_def on_db_def split: prod.splits)

lemma keeps_db_do [keeps_intros]: "keeps I m \<Longrightarrow> keeps (\<lambda>s. I (s_db s)) (db_do m)"
  unfolding db_do_def by (intro keeps_intros)

definition off_db :: "(app_state \<Rightarrow> bool) \<Rightarrow> bool" where
  "off_db I \<longleftrightarrow> (\<forall>s d. I (s\<lparr>s_db := d\<rparr>) \<longleftrightarrow> I s)"

lemma keeps_off_db: "off_db I \<Longrightarrow> keeps I (db_do m)"
  by (auto simp: keeps_def db_do_def on_db_def off_db_def split: prod.splits)

section \<open>Channels\<close>

text \<open>\<open>UnboundedSender::send\<close>: fails when the receiver is gone.\<close>

definition send_ctl :: "uuid \<Rightarrow> agent_control_message \<Rightarrow> app_state \<Rightarrow> bool \<times> app_state" where
  "send_ctl sid m s =
     (case s_ctl s sid of
        None \<Rightarrow> (False, s)
      | Some q \<Rightarrow> (True, s\<lparr>s_ctl := (s_ctl s)(sid \<mapsto> q @ [m])\<rparr>))"

definition BIN_CAPACITY :: nat where
  "BIN_CAPACITY = 256"

definition STREAM_CAPACITY :: nat where
  "STREAM_CAPACITY = 64"

text \<open>
  Sending on a bounded channel: closed, waiting for room, or queued.
\<close>

datatype send_outcome = SendClosed | SendWaits | Sent

definition send_bounded ::
  "nat \<Rightarrow> uuid \<Rightarrow> 'a \<Rightarrow> (uuid \<rightharpoonup> 'a list) \<Rightarrow> send_outcome \<times> (uuid \<rightharpoonup> 'a list)" where
  "send_bounded cap i x m =
     (case m i of
        None \<Rightarrow> (SendClosed, m)
      | Some q \<Rightarrow> if length q < cap then (Sent, m(i \<mapsto> q @ [x])) else (SendWaits, m))"

lemma send_bounded_other: "send_bounded cap i x m = (r, m') \<Longrightarrow> j \<noteq> i \<Longrightarrow> m' j = m j"
  by (auto simp: send_bounded_def split: option.splits if_splits)

lemma send_bounded_cap:
  "send_bounded cap i x m = (r, m') \<Longrightarrow> (\<forall>j q. m j = Some q \<longrightarrow> length q \<le> cap) \<Longrightarrow>
     m' j = Some q \<Longrightarrow> length q \<le> cap"
  by (auto simp: send_bounded_def split: option.splits if_splits)

section \<open>Operations that only read, and operations whose errors change nothing\<close>

text \<open>
  \<open>untouched s s'\<close>: nothing but the position in the fault schedule differs. An operation \<open>reads\<close> when
  that holds of every outcome, and is \<open>atomic\<close> when it holds of every error.
\<close>

definition untouched :: "app_state \<Rightarrow> app_state \<Rightarrow> bool" where
  "untouched s s' \<longleftrightarrow> (\<exists>fs. s' = s\<lparr>s_db := (s_db s)\<lparr>db_faults := fs\<rparr>\<rparr>)"

definition reads :: "(app_state, 'e, 'a) act \<Rightarrow> bool" where
  "reads m \<longleftrightarrow> (\<forall>s. untouched s (snd (m s)))"

definition atomic :: "(app_state, 'e, 'a) act \<Rightarrow> bool" where
  "atomic m \<longleftrightarrow> (\<forall>s e s'. m s = (Inl e, s') \<longrightarrow> untouched s s')"

named_theorems reads_intros \<open>read-only and atomic operations\<close>

lemma untouched_refl [simp]: "untouched s s"
  unfolding untouched_def by (rule exI [of _ "db_faults (s_db s)"]) simp

lemma untouched_trans [trans]: "untouched s t \<Longrightarrow> untouched t u \<Longrightarrow> untouched s u"
  by (auto simp: untouched_def)

lemma untouched_sel:
  "untouched s s' \<Longrightarrow> s_config s' = s_config s"
  "untouched s s' \<Longrightarrow> db_tunnels (s_db s') = db_tunnels (s_db s)"
  "untouched s s' \<Longrightarrow> db_devices (s_db s') = db_devices (s_db s)"
  "untouched s s' \<Longrightarrow> db_foreign_keys (s_db s') = db_foreign_keys (s_db s)"
  "untouched s s' \<Longrightarrow> db_admins (s_db s') = db_admins (s_db s)"
  by (auto simp: untouched_def)

lemma readsD: "reads m \<Longrightarrow> m s = (r, s') \<Longrightarrow> untouched s s'"
  unfolding reads_def by (metis snd_conv)

lemma atomicD: "atomic m \<Longrightarrow> m s = (Inl e, s') \<Longrightarrow> untouched s s'"
  by (simp add: atomic_def)

lemma reads_simple [reads_intros]:
  "reads (ok x)" "reads (fail e)" "reads (lift r)" "reads (peek f)"
  by (simp_all add: reads_def act_simps)

lemma reads_seq [reads_intros]:
  assumes "reads m" and "\<And>x. reads (k x)"
  shows "reads (seq m k)"
  unfolding reads_def
proof
  fix s
  have "untouched s (snd (m s))" using assms(1) by (simp add: reads_def)
  moreover have "untouched t (snd (k x t))" for x t using assms(2) by (simp add: reads_def)
  ultimately show "untouched s (snd (seq m k s))"
    by (cases "m s"; cases "fst (m s)") (auto simp: seq_def intro: untouched_trans)
qed

lemma reads_if [reads_intros]: "reads m \<Longrightarrow> reads n \<Longrightarrow> reads (if b then m else n)"
  by simp

lemma reads_case_option [reads_intros]:
  "reads m \<Longrightarrow> (\<And>x. reads (n x)) \<Longrightarrow> reads (case z of None \<Rightarrow> m | Some x \<Rightarrow> n x)"
  by (cases z) auto

lemma reads_map_err [reads_intros]: "reads m \<Longrightarrow> reads (map_err f m)"
  by (simp add: reads_def)

lemma reads_select [reads_intros]: "reads (db_do (select f))"
  unfolding reads_def
proof
  fix s :: app_state
  obtain fs where "snd (select f (s_db s)) = (s_db s)\<lparr>db_faults := fs\<rparr>" using select_snd by blast
  then show "untouched s (snd (db_do (select f) s))"
    by (auto simp: db_do_def on_db_def untouched_def split: prod.splits)
qed

lemma atomic_reads: "reads m \<Longrightarrow> atomic m"
  by (auto simp: atomic_def dest: readsD)

lemma atomic_seq [reads_intros]:
  assumes "reads m" and "\<And>x. atomic (k x)"
  shows "atomic (seq m k)"
  using assms unfolding atomic_def seq_eq_Inl by (blast dest: readsD intro: untouched_trans)

lemma atomic_seq_ok: "atomic m \<Longrightarrow> atomic (seq m (\<lambda>x. ok (f x)))"
  by (auto simp: atomic_def seq_eq_Inl ok_def)

lemma atomic_map_err [reads_intros]: "atomic m \<Longrightarrow> atomic (map_err f m)"
  by (auto simp: atomic_def)

lemma atomic_stmt:
  assumes "\<And>d e d'. f d = (Inl e, d') \<Longrightarrow> d' = d"
  shows "atomic (on_db (stmt f))"
  unfolding atomic_def
proof (intro allI impI)
  fix s s' :: app_state and e assume "on_db (stmt f) s = (Inl e, s')"
  then obtain d' where d': "stmt f (s_db s) = (Inl e, d')" "s' = s\<lparr>s_db := d'\<rparr>"
    by (auto simp: on_db_def split: prod.splits)
  from d'(1) have "\<exists>fs. d' = (s_db s)\<lparr>db_faults := fs\<rparr>"
    by (cases rule: stmt_cases) (auto dest: assms)
  with d'(2) show "untouched s s'" by (auto simp: untouched_def)
qed

lemma atomic_tunnel_stmts [reads_intros]:
  "atomic (on_db (insert_tunnel r))" "atomic (on_db (update_tunnel_row k g))"
  "atomic (on_db (delete_tunnel_rows P))"
  unfolding insert_tunnel_def update_tunnel_row_def delete_tunnel_rows_def
  by (rule atomic_stmt; auto simp: Let_def split: if_splits)+

lemma atomic_db_do [reads_intros]: "atomic (on_db m) \<Longrightarrow> atomic (db_do m)"
  unfolding db_do_def by (intro reads_intros)

section \<open>A concrete server for witnesses\<close>

text \<open>
  A small server: two public ports, one device (id 7, token hash of the bytes of \<open>''token''\<close> under the
  sample library), no faults.
\<close>

definition sample_config :: config where
  "sample_config =
     \<lparr>c_listen_addr = SockV4 0 8080, c_database_url = lit ''sqlite::memory:'', c_admin_dist = lit ''dist'',
      c_admin_password = None, c_port_start = 20000, c_port_end = 20001, c_ticket_ttl = secs 15,
      c_connect_timeout = secs 15, c_idle_timeout = secs 600, c_session_ttl = secs 43200,
      c_audit_retention_days = 30, c_secure_cookies = True, c_geoip_url = lit ''off'',
      c_web_base_domain = lit ''tb.io'', c_quic_port = 443, c_quic_listen_port = 7443, c_kcp_port = 4000,
      c_udp_session_timeout = secs 60, c_transport_cert_dir = lit ''data'', c_trusted_proxy_cidrs = []\<rparr>"

definition sample_device :: device_row where
  "sample_device =
     \<lparr>dr_id = [7], dr_name = lit ''laptop'', dr_token_hash = lit ''token'', dr_revoked = False,
      dr_last_seen_at = None, dr_created_at = []\<rparr>"

definition sample_database :: database where
  "sample_database =
     \<lparr>db_admins = [\<lparr>am_username = lit ''admin'', am_password_hash = lit ''secret'', am_created_at = []\<rparr>],
      db_devices = [sample_device], db_tunnels = [], db_audit = [], db_audit_next = 1, db_history = [],
      db_foreign_keys = True, db_faults = []\<rparr>"

definition sample_state :: app_state where
  "sample_state = app_state_new sample_config sample_database"

lemma sample_state_sel [simp]:
  "s_config sample_state = sample_config" "s_db sample_state = sample_database"
  "s_sessions sample_state = Map.empty" "s_agents sample_state = Map.empty"
  "s_login_attempts sample_state = Map.empty" "s_pending sample_state = Map.empty"
  "s_streams sample_state = {}" "s_active sample_state = Map.empty"
  "s_counters sample_state = counters_zero" "s_listeners sample_state = Map.empty"
  "s_ack sample_state = Map.empty" "s_inbound sample_state = Map.empty"
  "s_ctl sample_state = Map.empty" "s_bin sample_state = Map.empty" "s_cancelled sample_state = {}"
  by (simp_all add: sample_state_def app_state_new_def)

end
