(* ===== verification/Tunnels.thy ===== *)
theory Tunnels
  imports State
begin

text \<open>
  Tunnel administration (server/src/tunnels.rs): validation, host name and port allocation, the
  rows of the tunnels table and the operations on them, and the source filter of a tunnel. \<open>now\<close> and
  the new id of \<open>create\<close> are the values the clock and \<open>Uuid::new_v4\<close> return.
\<close>

section \<open>Text columns\<close>

text \<open>
  The contract between a column written with \<open>enc\<close> and read with \<open>dec\<close>: what was written is read
  back, and nothing else is accepted.
\<close>

locale text_column =
  fixes enc :: "'a \<Rightarrow> ustr" and dec :: "ustr \<Rightarrow> app_error + 'a"
  assumes dec_enc: "dec (enc x) = Inr x"
    and enc_dec: "dec t = Inr x \<Longrightarrow> t = enc x"
begin

lemma dec_eq_Inr: "dec t = Inr x \<longleftrightarrow> t = enc x"
  using dec_enc enc_dec by auto

lemma enc_inject: "enc x = enc y \<longleftrightarrow> x = y"
  by (metis dec_enc sum.inject(2))

end

definition kind_str :: "tunnel_kind \<Rightarrow> ustr" where
  "kind_str k = (case k of KTcp \<Rightarrow> lit ''tcp'' | KUdp \<Rightarrow> lit ''udp'' | KWeb \<Rightarrow> lit ''web'')"

definition parse_kind :: "ustr \<Rightarrow> app_error + tunnel_kind" where
  "parse_kind v =
     (if v = lit ''tcp'' then Inr KTcp else if v = lit ''udp'' then Inr KUdp
      else if v = lit ''web'' then Inr KWeb else Inl (Internal ''invalid tunnel kind''))"

definition scheme_str :: "local_scheme \<Rightarrow> ustr" where
  "scheme_str k =
     (case k of STcp \<Rightarrow> lit ''tcp'' | SUdp \<Rightarrow> lit ''udp'' | SHttp \<Rightarrow> lit ''http'' | SHttps \<Rightarrow> lit ''https'')"

definition parse_scheme :: "ustr \<Rightarrow> app_error + local_scheme" where
  "parse_scheme v =
     (if v = lit ''tcp'' then Inr STcp else if v = lit ''udp'' then Inr SUdp
      else if v = lit ''http'' then Inr SHttp else if v = lit ''https'' then Inr SHttps
      else Inl (Internal ''invalid local scheme''))"

definition access_mode_str :: "access_mode \<Rightarrow> ustr" where
  "access_mode_str m = (case m of Allowlist \<Rightarrow> lit ''allowlist'' | Public \<Rightarrow> lit ''public'')"

definition parse_access_mode :: "ustr \<Rightarrow> app_error + access_mode" where
  "parse_access_mode v =
     (if v = lit ''allowlist'' then Inr Allowlist else if v = lit ''public'' then Inr Public
      else Inl (Internal ''invalid access mode in database''))"

interpretation kind_col: text_column kind_str parse_kind
  by unfold_locales (auto simp: kind_str_def parse_kind_def split: tunnel_kind.splits if_splits)

interpretation scheme_col: text_column scheme_str parse_scheme
  by unfold_locales (auto simp: scheme_str_def parse_scheme_def split: local_scheme.splits if_splits)

interpretation mode_col: text_column access_mode_str parse_access_mode
  by unfold_locales (auto simp: access_mode_str_def parse_access_mode_def split: access_mode.splits if_splits)

section \<open>Rows\<close>

text \<open>\<open>row.get::<i64>() as u16\<close> keeps the low 16 bits.\<close>

definition i64_as_u16 :: "int \<Rightarrow> u16" where
  "i64_as_u16 n = of_int n"

definition row_to_tunnel :: "lib \<Rightarrow> tunnel_row \<Rightarrow> app_error + tunnel" where
  "row_to_tunnel L r =
     andThen (parse_access_mode (tr_access_mode r)) (\<lambda>mode.
     andThen (ok_or (l_uuid_parse L (tr_id r)) (Internal ''uuid'')) (\<lambda>i.
     andThen (ok_or (l_uuid_parse L (tr_agent_id r)) (Internal ''uuid'')) (\<lambda>agent.
     andThen (parse_kind (tr_kind r)) (\<lambda>kind.
     andThen (parse_scheme (tr_local_scheme r)) (\<lambda>scheme.
     andThen (ok_or (l_cidrs_parse L (tr_allowed_cidrs r)) (Internal ''json'')) (\<lambda>cidrs.
     andThen (ok_or (l_time_parse L (tr_created_at r)) (Internal ''time'')) (\<lambda>created.
     andThen (ok_or (l_time_parse L (tr_updated_at r)) (Internal ''time'')) (\<lambda>updated.
     Inr \<lparr>t_id = i, t_agent_id = agent, t_name = tr_name r, t_local_host = tr_local_host r,
          t_local_port = i64_as_u16 (tr_local_port r), t_kind = kind, t_local_scheme = scheme,
          t_remote_port = map_option i64_as_u16 (tr_remote_port r), t_hostname = tr_hostname r,
          t_access_mode = mode, t_allowed_cidrs = cidrs, t_enabled = tr_enabled r,
          t_status = (if tr_enabled r then Starting else Stopped),
          t_created_at = created, t_updated_at = updated\<rparr>))))))))"

text \<open>The values \<open>create\<close> binds to its INSERT.\<close>

definition tunnel_to_row :: "lib \<Rightarrow> tunnel \<Rightarrow> tunnel_row" where
  "tunnel_to_row L t =
     \<lparr>tr_id = l_uuid_text L (t_id t), tr_agent_id = l_uuid_text L (t_agent_id t),
      tr_name = t_name t, tr_local_host = t_local_host t, tr_local_port = uint (t_local_port t),
      tr_kind = kind_str (t_kind t), tr_local_scheme = scheme_str (t_local_scheme t),
      tr_remote_port = map_option uint (t_remote_port t), tr_hostname = t_hostname t,
      tr_access_mode = access_mode_str (t_access_mode t),
      tr_allowed_cidrs = l_cidrs_json L (t_allowed_cidrs t), tr_enabled = t_enabled t,
      tr_created_at = l_time_text L (t_created_at t), tr_updated_at = l_time_text L (t_updated_at t)\<rparr>"

text \<open>The assignments of the UPDATE in \<open>update\<close>.\<close>

definition assign_row :: "lib \<Rightarrow> tunnel \<Rightarrow> tunnel_row \<Rightarrow> tunnel_row" where
  "assign_row L t r =
     r\<lparr>tr_name := t_name t, tr_local_host := t_local_host t, tr_local_port := uint (t_local_port t),
       tr_local_scheme := scheme_str (t_local_scheme t),
       tr_remote_port := map_option uint (t_remote_port t), tr_hostname := t_hostname t,
       tr_access_mode := access_mode_str (t_access_mode t),
       tr_allowed_cidrs := l_cidrs_json L (t_allowed_cidrs t), tr_enabled := t_enabled t,
       tr_updated_at := l_time_text L (t_updated_at t)\<rparr>"

section \<open>Validation\<close>

definition validate_kind_scheme :: "tunnel_kind \<Rightarrow> local_scheme \<Rightarrow> app_error + unit" where
  "validate_kind_scheme kind scheme =
     (let valid = (case (kind, scheme) of
          (KTcp, STcp) \<Rightarrow> True | (KUdp, SUdp) \<Rightarrow> True
        | (KWeb, SHttp) \<Rightarrow> True | (KWeb, SHttps) \<Rightarrow> True | _ \<Rightarrow> False) in
      if valid then Inr ()
      else Inl (BadRequest (lit ''local scheme is incompatible with tunnel kind'')))"

definition validate_remote_port :: "config \<Rightarrow> u16 \<Rightarrow> app_error + unit" where
  "validate_remote_port c port =
     (if \<not> (c_port_start c \<le> port \<and> port \<le> c_port_end c)
      then Inl (BadRequest (lit ''remote port must be within '' @ decimal (unat (c_port_start c)) @
             lit ''..='' @ decimal (unat (c_port_end c))))
      else Inr ())"

definition validate_local_host :: "ustr \<Rightarrow> bool \<Rightarrow> app_error + unit" where
  "validate_local_host value allow_lan =
     (let host = trim value in
      if host = [] \<or> byte_len host > 253 \<or> list_ex is_whitespace host
      then Inl (BadRequest (lit ''invalid local host''))
      else
        let loopback = (host = lit ''localhost'' \<or>
              (case parse_ip host of Some a \<Rightarrow> is_loopback a | None \<Rightarrow> False)) in
        if \<not> loopback \<and> \<not> allow_lan
        then Inl (BadRequest (lit ''non-loopback targets require allow_lan_target confirmation''))
        else Inr ())"

definition normalize_hostname :: "config \<Rightarrow> ustr \<Rightarrow> app_error + ustr" where
  "normalize_hostname c input =
     (let base = c_web_base_domain c;
          suffix = lit ''.'' @ base;
          value = to_ascii_lowercase (trim_end_matches 46 (trim input));
          slug = (if ends_with suffix value
                  then (case strip_suffix suffix value of Some x \<Rightarrow> x | None \<Rightarrow> value) else value) in
      if slug = [] \<or> byte_len slug > 63 \<or> starts_with (lit ''-'') slug \<or> ends_with (lit ''-'') slug \<or>
         \<not> list_all (\<lambda>ch. is_ascii_lower ch \<or> is_ascii_digit ch \<or> ch = 45) slug
      then Inl (BadRequest (lit ''hostname must be a DNS label containing letters, digits, or hyphens''))
      else Inr (slug @ lit ''.'' @ base))"

definition unwrap_or :: "'a option \<Rightarrow> 'a \<Rightarrow> 'a" where
  "unwrap_or x d = (case x of Some y \<Rightarrow> y | None \<Rightarrow> d)"

definition validate_create :: "config \<Rightarrow> create_tunnel_request \<Rightarrow> app_error + unit" where
  "validate_create c q =
     andThen (ensure (\<not> (trim (cr_name q) = [] \<or> char_count (cr_name q) > 80))
       (BadRequest (lit ''name must contain 1 to 80 characters''))) (\<lambda>_.
     andThen (ensure (cr_local_port q \<noteq> 0) (BadRequest (lit ''local port cannot be zero''))) (\<lambda>_.
     andThen (validate_local_host (cr_local_host q) (cr_allow_lan_target q)) (\<lambda>_.
     andThen (case cr_remote_port q of Some port \<Rightarrow> validate_remote_port c port | None \<Rightarrow> Inr ()) (\<lambda>_.
     andThen (validate_kind_scheme (cr_kind q) (cr_local_scheme q)) (\<lambda>_.
     andThen
       (if cr_kind q = KWeb then
          andThen (normalize_hostname c (unwrap_or (cr_hostname q) (cr_name q))) (\<lambda>_. Inr ())
        else ensure (cr_hostname q = None) (BadRequest (lit ''only web tunnels may specify a hostname''))) (\<lambda>_.
     ensure (\<not> (cr_access_mode q = Allowlist \<and> cr_allowed_cidrs q = []))
       (BadRequest (lit ''allowlist mode requires at least one CIDR''))))))))"

definition validate_tunnel :: "tunnel \<Rightarrow> app_error + unit" where
  "validate_tunnel t =
     andThen (ensure (\<not> (t_name t = [] \<or> char_count (t_name t) > 80))
       (BadRequest (lit ''name must contain 1 to 80 characters''))) (\<lambda>_.
     andThen (ensure (\<not> (t_access_mode t = Allowlist \<and> t_allowed_cidrs t = []))
       (BadRequest (lit ''allowlist mode requires at least one CIDR''))) (\<lambda>_.
     andThen (validate_kind_scheme (t_kind t) (t_local_scheme t)) (\<lambda>_.
     case t_kind t of
       KWeb \<Rightarrow> ensure (t_hostname t \<noteq> None) (BadRequest (lit ''web tunnel requires hostname''))
     | _ \<Rightarrow> ensure (t_remote_port t \<noteq> None) (BadRequest (lit ''port tunnel requires remote_port'')))))"

section \<open>Queries\<close>

definition list_for_agent :: "lib \<Rightarrow> uuid \<Rightarrow> (app_state, app_error, tunnel list) act" where
  "list_for_agent L agent =
     seq (db_do (select (\<lambda>d. sort_key tr_created_at
            (filter (\<lambda>r. tr_agent_id r = l_uuid_text L agent) (db_tunnels d))))) (\<lambda>rows.
     lift (collect (map (row_to_tunnel L) rows)))"

definition list_all_tunnels :: "lib \<Rightarrow> (app_state, app_error, tunnel list) act" where
  "list_all_tunnels L =
     seq (db_do (select (\<lambda>d. sort_key tr_created_at (db_tunnels d)))) (\<lambda>rows.
     lift (collect (map (row_to_tunnel L) rows)))"

definition get_tunnel :: "lib \<Rightarrow> uuid \<Rightarrow> (app_state, app_error, tunnel) act" where
  "get_tunnel L i =
     seq (db_do (select (\<lambda>d. find (\<lambda>r. tr_id r = l_uuid_text L i) (db_tunnels d)))) (\<lambda>row.
     lift (andThen (ok_or row NotFound) (row_to_tunnel L)))"

text \<open>\<open>kind = 'web' AND enabled = 1 AND lower(hostname) = lower(?)\<close>.\<close>

definition serves_hostname :: "ustr \<Rightarrow> tunnel_row \<Rightarrow> bool" where
  "serves_hostname host r \<longleftrightarrow>
     tr_kind r = lit ''web'' \<and> tr_enabled r \<and>
     map_option to_ascii_lowercase (tr_hostname r) = Some (to_ascii_lowercase (trim_end_matches 46 host))"

definition get_by_hostname :: "lib \<Rightarrow> ustr \<Rightarrow> (app_state, app_error, tunnel) act" where
  "get_by_hostname L host =
     seq (db_do (select (\<lambda>d. find (serves_hostname host) (db_tunnels d)))) (\<lambda>row.
     lift (andThen (ok_or row NotFound) (row_to_tunnel L)))"

definition hostname_is_enabled :: "ustr \<Rightarrow> (app_state, app_error, bool) act" where
  "hostname_is_enabled host =
     seq (db_do (select (\<lambda>d. length (filter (serves_hostname host) (db_tunnels d))))) (\<lambda>n. ok (n = 1))"

section \<open>Create, update, delete\<close>

definition port_pool :: "config \<Rightarrow> u16 list" where
  "port_pool c = map of_nat [unat (c_port_start c) ..< Suc (unat (c_port_end c))]"

definition used_ports :: "tunnel_kind \<Rightarrow> database \<Rightarrow> u16 set" where
  "used_ports kind d =
     set (map (\<lambda>r. i64_as_u16 (the (tr_remote_port r)))
       (filter (\<lambda>r. tr_kind r = kind_str kind \<and> tr_remote_port r \<noteq> None) (db_tunnels d)))"

definition allocate_port :: "tunnel_kind \<Rightarrow> (app_state, app_error, u16) act" where
  "allocate_port kind =
     seq (db_do (select (used_ports kind))) (\<lambda>used.
     seq (peek s_config) (\<lambda>c.
     lift (ok_or (find (\<lambda>port. port \<notin> used) (port_pool c))
       (Conflict (lit ''public port pool is exhausted'')))))"

text \<open>The outcome of the INSERT or UPDATE: a unique violation is a conflict.\<close>

definition write_result :: "string \<Rightarrow> db_error \<Rightarrow> app_error" where
  "write_result message e =
     (case e of UniqueViolation \<Rightarrow> Conflict (lit message) | _ \<Rightarrow> Internal ''database'')"

text \<open>The remote port and the host name of a new tunnel, and the tunnel made of them.\<close>

definition chosen_port :: "config \<Rightarrow> create_tunnel_request \<Rightarrow> (app_state, app_error, u16 option) act" where
  "chosen_port c q =
     (case cr_kind q of
        KWeb \<Rightarrow> ok None
      | _ \<Rightarrow> (case cr_remote_port q of
               Some port \<Rightarrow> seq (lift (validate_remote_port c port)) (\<lambda>_. ok (Some port))
             | None \<Rightarrow> seq (allocate_port (cr_kind q)) (\<lambda>p. ok (Some p))))"

definition chosen_host :: "config \<Rightarrow> create_tunnel_request \<Rightarrow> app_error + ustr option" where
  "chosen_host c q =
     (case cr_kind q of
        KWeb \<Rightarrow> andThen (normalize_hostname c (unwrap_or (cr_hostname q) (cr_name q))) (\<lambda>h. Inr (Some h))
      | _ \<Rightarrow> Inr None)"

definition new_tunnel ::
  "uuid \<Rightarrow> utc \<Rightarrow> uuid \<Rightarrow> create_tunnel_request \<Rightarrow> u16 option \<Rightarrow> ustr option \<Rightarrow> tunnel" where
  "new_tunnel new_id now agent q remote_port hostname =
     \<lparr>t_id = new_id, t_agent_id = agent, t_name = trim (cr_name q),
      t_local_host = trim (cr_local_host q), t_local_port = cr_local_port q,
      t_kind = cr_kind q, t_local_scheme = cr_local_scheme q, t_remote_port = remote_port,
      t_hostname = hostname, t_access_mode = cr_access_mode q,
      t_allowed_cidrs = cr_allowed_cidrs q, t_enabled = cr_enabled q, t_status = Stopped,
      t_created_at = now, t_updated_at = now\<rparr>"

definition create :: "lib \<Rightarrow> uuid \<Rightarrow> utc \<Rightarrow> uuid \<Rightarrow> create_tunnel_request \<Rightarrow> (app_state, app_error, tunnel) act" where
  "create L new_id now agent q =
     seq (peek s_config) (\<lambda>c.
     seq (lift (validate_create c q)) (\<lambda>_.
     seq (chosen_port c q) (\<lambda>remote_port.
     seq (lift (chosen_host c q)) (\<lambda>hostname.
     let t = new_tunnel new_id now agent q remote_port hostname in
     seq (map_err (write_result ''public endpoint is already allocated'')
            (on_db (insert_tunnel (tunnel_to_row L t)))) (\<lambda>_.
     ok t)))))"

text \<open>
  The field-by-field part of \<open>update\<close>, in the source's order: one definition per \<open>if let Some(x) = request.x\<close>,
  and their composition up to \<open>validate_tunnel\<close>.
\<close>

definition if_let :: "'a option \<Rightarrow> ('a \<Rightarrow> tunnel \<Rightarrow> app_error + tunnel) \<Rightarrow> tunnel \<Rightarrow> app_error + tunnel" where
  "if_let x f t = (case x of Some y \<Rightarrow> f y t | None \<Rightarrow> Inr t)"

definition set_name :: "ustr \<Rightarrow> tunnel \<Rightarrow> app_error + tunnel" where
  "set_name n t = Inr (t\<lparr>t_name := trim n\<rparr>)"

definition set_local_host :: "bool \<Rightarrow> ustr \<Rightarrow> tunnel \<Rightarrow> app_error + tunnel" where
  "set_local_host allow_lan h t =
     andThen (validate_local_host h allow_lan) (\<lambda>_. Inr (t\<lparr>t_local_host := trim h\<rparr>))"

definition set_local_port :: "u16 \<Rightarrow> tunnel \<Rightarrow> app_error + tunnel" where
  "set_local_port p t =
     (if p = 0 then Inl (BadRequest (lit ''local port cannot be zero'')) else Inr (t\<lparr>t_local_port := p\<rparr>))"

definition set_remote_port :: "config \<Rightarrow> u16 \<Rightarrow> tunnel \<Rightarrow> app_error + tunnel" where
  "set_remote_port c p t =
     (if t_kind t = KWeb then Inl (BadRequest (lit ''web tunnels do not use a remote port''))
      else andThen (validate_remote_port c p) (\<lambda>_. Inr (t\<lparr>t_remote_port := Some p\<rparr>)))"

definition check_kind :: "tunnel_kind \<Rightarrow> tunnel \<Rightarrow> app_error + tunnel" where
  "check_kind k t =
     (if k \<noteq> t_kind t then Inl (BadRequest (lit ''tunnel kind cannot be changed after creation''))
      else Inr t)"

definition set_hostname :: "config \<Rightarrow> ustr \<Rightarrow> tunnel \<Rightarrow> app_error + tunnel" where
  "set_hostname c h t =
     (if t_kind t \<noteq> KWeb then Inl (BadRequest (lit ''only web tunnels have hostnames''))
      else andThen (normalize_hostname c h) (\<lambda>n. Inr (t\<lparr>t_hostname := Some n\<rparr>)))"

definition set_options :: "update_tunnel_request \<Rightarrow> tunnel \<Rightarrow> app_error + tunnel" where
  "set_options q t =
     andThen (if_let (ur_access_mode q) (\<lambda>m t. Inr (t\<lparr>t_access_mode := m\<rparr>)) t) (\<lambda>t.
     andThen (if_let (ur_allowed_cidrs q) (\<lambda>cs t. Inr (t\<lparr>t_allowed_cidrs := cs\<rparr>)) t)
       (if_let (ur_enabled q) (\<lambda>e t. Inr (t\<lparr>t_enabled := e\<rparr>))))"

definition apply_update :: "config \<Rightarrow> update_tunnel_request \<Rightarrow> tunnel \<Rightarrow> app_error + tunnel" where
  "apply_update c q t =
     andThen (if_let (ur_name q) set_name t) (\<lambda>t.
     andThen (if_let (ur_local_host q) (set_local_host (ur_allow_lan_target q)) t) (\<lambda>t.
     andThen (if_let (ur_local_port q) set_local_port t) (\<lambda>t.
     andThen (if_let (ur_remote_port q) (set_remote_port c) t) (\<lambda>t.
     andThen (if_let (ur_kind q) check_kind t) (\<lambda>t.
     andThen (if_let (ur_local_scheme q) (\<lambda>sc t. Inr (t\<lparr>t_local_scheme := sc\<rparr>)) t) (\<lambda>t.
     andThen (if_let (ur_hostname q) (set_hostname c) t) (\<lambda>t.
     andThen (set_options q t) (\<lambda>t.
     andThen (validate_tunnel t) (\<lambda>_. Inr t)))))))))"

definition owner_check :: "uuid option \<Rightarrow> tunnel \<Rightarrow> app_error + unit" where
  "owner_check owner t =
     ensure (\<not> (case owner of Some o' \<Rightarrow> o' \<noteq> t_agent_id t | None \<Rightarrow> False)) NotFound"

definition update :: "lib \<Rightarrow> utc \<Rightarrow> uuid \<Rightarrow> uuid option \<Rightarrow> update_tunnel_request \<Rightarrow> (app_state, app_error, tunnel) act" where
  "update L now i owner q =
     seq (get_tunnel L i) (\<lambda>t0.
     seq (lift (owner_check owner t0)) (\<lambda>_.
     seq (peek s_config) (\<lambda>c.
     seq (lift (apply_update c q t0)) (\<lambda>t1.
     let t = t1\<lparr>t_updated_at := now\<rparr> in
     seq (map_err (write_result ''remote port is already allocated'')
            (on_db (update_tunnel_row (l_uuid_text L (t_id t)) (assign_row L t)))) (\<lambda>_.
     ok t)))))"

definition delete_tunnel :: "lib \<Rightarrow> uuid \<Rightarrow> uuid option \<Rightarrow> (app_state, app_error, unit) act" where
  "delete_tunnel L i owner =
     seq (get_tunnel L i) (\<lambda>t.
     seq (lift (owner_check owner t)) (\<lambda>_.
     db_do (delete_tunnel_rows (\<lambda>r. tr_id r = l_uuid_text L i))))"

section \<open>Source filter\<close>

definition source_allowed :: "lib \<Rightarrow> tunnel \<Rightarrow> ipaddr \<Rightarrow> bool" where
  "source_allowed L t addr =
     (let address = (case addr of
          V6 v \<Rightarrow> (case to_ipv4_mapped v of Some w \<Rightarrow> V4 w | None \<Rightarrow> V6 v)
        | a \<Rightarrow> a) in
      case t_access_mode t of
        Public \<Rightarrow> True
      | Allowlist \<Rightarrow> list_ex (\<lambda>n. l_net_contains L n address) (t_allowed_cidrs t))"

end
