(* ===== verification/Tunnel_Facts.thy ===== *)
theory Tunnel_Facts
  imports Tunnels
begin

text \<open>
  What the tunnel operations of \<open>Tunnels\<close> guarantee: the well-formedness of a tunnel, that
  \<open>create\<close> establishes it and \<open>update\<close> keeps it, the round trip through a row, the exclusive use of
  public endpoints, the port allocator, ownership, and the source filter.
\<close>

section \<open>Well-formed tunnels\<close>

text \<open>A DNS label as \<open>normalize_hostname\<close> accepts it.\<close>

definition dns_label :: "ustr \<Rightarrow> bool" where
  "dns_label s \<longleftrightarrow>
     s \<noteq> [] \<and> length s \<le> 63 \<and> hd s \<noteq> 45 \<and> last s \<noteq> 45 \<and>
     list_all (\<lambda>ch. is_ascii_lower ch \<or> is_ascii_digit ch \<or> ch = 45) s"

definition host_under :: "ustr \<Rightarrow> ustr \<Rightarrow> bool" where
  "host_under base h \<longleftrightarrow>
     (case strip_suffix (lit ''.'' @ base) h of Some slug \<Rightarrow> dns_label slug | None \<Rightarrow> False)"

definition endpoint_ok :: "config \<Rightarrow> tunnel \<Rightarrow> bool" where
  "endpoint_ok c t \<longleftrightarrow>
     (case t_kind t of
        KWeb \<Rightarrow> t_remote_port t = None \<and>
          (case t_hostname t of Some h \<Rightarrow> host_under (c_web_base_domain c) h | None \<Rightarrow> False)
      | _ \<Rightarrow> t_hostname t = None \<and>
          (case t_remote_port t of Some p \<Rightarrow> c_port_start c \<le> p \<and> p \<le> c_port_end c | None \<Rightarrow> False))"

definition scheme_fits :: "tunnel_kind \<Rightarrow> local_scheme \<Rightarrow> bool" where
  "scheme_fits k sc \<longleftrightarrow> (k, sc) \<in> {(KTcp, STcp), (KUdp, SUdp), (KWeb, SHttp), (KWeb, SHttps)}"

definition target_text_ok :: "ustr \<Rightarrow> bool" where
  "target_text_ok h \<longleftrightarrow> h \<noteq> [] \<and> byte_len h \<le> 253 \<and> \<not> list_ex is_whitespace h"

definition loopback_target :: "ustr \<Rightarrow> bool" where
  "loopback_target h \<longleftrightarrow>
     h = lit ''localhost'' \<or> (\<exists>a. parse_ip h = Some a \<and> is_loopback a)"

definition tunnel_ok :: "config \<Rightarrow> tunnel \<Rightarrow> bool" where
  "tunnel_ok c t \<longleftrightarrow>
     t_name t \<noteq> [] \<and> trim (t_name t) = t_name t \<and> char_count (t_name t) \<le> 80 \<and>
     target_text_ok (t_local_host t) \<and> t_local_port t \<noteq> 0 \<and>
     scheme_fits (t_kind t) (t_local_scheme t) \<and> endpoint_ok c t \<and>
     (t_access_mode t = Allowlist \<longrightarrow> t_allowed_cidrs t \<noteq> [])"

section \<open>The validators\<close>

lemma validate_kind_scheme_ok [simp]:
  "validate_kind_scheme k sc = Inr u \<longleftrightarrow> scheme_fits k sc"
  by (cases k; cases sc) (simp_all add: validate_kind_scheme_def scheme_fits_def)

lemma validate_remote_port_ok [simp]:
  "validate_remote_port c p = Inr u \<longleftrightarrow> c_port_start c \<le> p \<and> p \<le> c_port_end c"
  by (simp add: validate_remote_port_def)

lemma validate_local_host_ok:
  "validate_local_host h lan = Inr u \<longleftrightarrow> target_text_ok (trim h) \<and> (lan \<or> loopback_target (trim h))"
  by (auto simp: validate_local_host_def target_text_ok_def loopback_target_def Let_def
      split: option.splits)

lemma label_chars_no_dot: "dns_label s \<Longrightarrow> c \<in> set s \<Longrightarrow> c \<noteq> 46 \<and> c < 128 \<and> \<not> is_ascii_upper c \<and> \<not> is_whitespace c"
  by (auto simp: dns_label_def list_all_iff char_class_defs)

lemma slug_test:
  "(s = [] \<or> byte_len s > 63 \<or> starts_with (lit ''-'') s \<or> ends_with (lit ''-'') s \<or>
     \<not> list_all (\<lambda>ch. is_ascii_lower ch \<or> is_ascii_digit ch \<or> ch = 45) s) \<longleftrightarrow> \<not> dns_label s"
proof (cases "list_all (\<lambda>ch. is_ascii_lower ch \<or> is_ascii_digit ch \<or> ch = 45) s")
  case True
  then have "byte_len s = length s"
    by (intro byte_len_ascii) (auto simp: list_all_iff char_class_defs)
  moreover have "starts_with (lit ''-'') s \<longleftrightarrow> s \<noteq> [] \<and> hd s = 45"
    by (cases s) (auto simp: starts_with_def lit_def)
  moreover have "ends_with (lit ''-'') s \<longleftrightarrow> s \<noteq> [] \<and> last s = 45"
    by (cases s rule: rev_cases) (auto simp: ends_with_iff lit_def)
  ultimately show ?thesis using True by (auto simp: dns_label_def)
next
  case False
  then show ?thesis by (simp add: dns_label_def)
qed

definition slug_of :: "config \<Rightarrow> ustr \<Rightarrow> ustr" where
  "slug_of c input =
     (let value = to_ascii_lowercase (trim_end_matches 46 (trim input)) in
      unwrap_or (strip_suffix (lit ''.'' @ c_web_base_domain c) value) value)"

lemma normalize_hostname_eq:
  "normalize_hostname c input =
     (if dns_label (slug_of c input) then Inr (slug_of c input @ lit ''.'' @ c_web_base_domain c)
      else Inl (BadRequest (lit ''hostname must be a DNS label containing letters, digits, or hyphens'')))"
proof -
  have slug: "(let value = to_ascii_lowercase (trim_end_matches 46 (trim input)) in
      if ends_with (lit ''.'' @ c_web_base_domain c) value
      then (case strip_suffix (lit ''.'' @ c_web_base_domain c) value of Some x \<Rightarrow> x | None \<Rightarrow> value)
      else value) = slug_of c input"
    by (auto simp: slug_of_def unwrap_or_def Let_def strip_suffix_def ends_with_def split: option.splits)
  show ?thesis
    unfolding normalize_hostname_def Let_def slug [unfolded Let_def] slug_test by simp
qed

lemma normalize_hostname_ok:
  "normalize_hostname c input = Inr h \<Longrightarrow> host_under (c_web_base_domain c) h"
  by (auto simp: normalize_hostname_eq host_under_def split: if_splits)

lemma slug_of_normal:
  assumes "dns_label slug" and "base_domain_ok (c_web_base_domain c)"
    and "c_web_base_domain c \<noteq> [] \<Longrightarrow> \<not> is_whitespace (last (c_web_base_domain c))"
  shows "slug_of c (slug @ lit ''.'' @ c_web_base_domain c) = slug"
proof -
  let ?b = "c_web_base_domain c" and ?d = "lit ''.''"
  have dot: "?d = [46]" by (simp add: lit_def)
  have ne: "slug \<noteq> []" using assms(1) by (simp add: dns_label_def)
  have "hd slug \<in> set slug" using ne by simp
  then have h: "\<not> is_whitespace (hd slug)" using assms(1) label_chars_no_dot by blast
  have l: "\<not> is_whitespace (last (slug @ ?d @ ?b))"
    using assms(3) by (cases "?b = []") (auto simp: dot is_whitespace_def)
  have t: "trim (slug @ ?d @ ?b) = slug @ ?d @ ?b"
    using ne h l by (intro trim_id) auto
  have low: "to_ascii_lowercase slug = slug" "to_ascii_lowercase ?b = ?b"
    using assms(1,2) label_chars_no_dot by (auto intro!: lowercase_id simp: base_domain_ok_def)
  show ?thesis
  proof (cases "?b = []")
    case True
    have "46 \<notin> set slug" using assms(1) label_chars_no_dot by blast
    then have l46: "last slug \<noteq> 46" using ne last_in_set by metis
    have e: "trim_end_matches 46 (slug @ [46]) = slug"
      using drop_while_end_id [of slug "\<lambda>x. x = 46"] l46 by (simp add: trim_end_matches_def)
    have no: "strip_suffix [46] slug = None"
    proof (cases "strip_suffix [46] slug")
      case (Some u)
      then show ?thesis using \<open>46 \<notin> set slug\<close> by (auto simp: strip_suffix_Some)
    qed
    show ?thesis
      using t e low(1) no True by (simp add: slug_of_def dot unwrap_or_def)
  next
    case False
    have "last ?b \<noteq> 46" using False assms(2) by (simp add: base_domain_ok_def)
    then have e: "trim_end_matches 46 (slug @ ?d @ ?b) = slug @ ?d @ ?b"
      using False drop_while_end_id [of "slug @ ?d @ ?b" "\<lambda>x. x = 46"] by (simp add: trim_end_matches_def)
    have "to_ascii_lowercase (slug @ ?d @ ?b) = slug @ ?d @ ?b"
      using low by (simp add: dot to_ascii_lowercase_def is_ascii_upper_def)
    then show ?thesis
      using t e by (simp add: slug_of_def unwrap_or_def)
  qed
qed

lemma normalize_hostname_fixed:
  assumes "host_under (c_web_base_domain c) h" and "base_domain_ok (c_web_base_domain c)"
    and "c_web_base_domain c \<noteq> [] \<Longrightarrow> \<not> is_whitespace (last (c_web_base_domain c))"
  shows "normalize_hostname c h = Inr h"
proof -
  obtain slug where "h = slug @ lit ''.'' @ c_web_base_domain c" "dns_label slug"
    using assms(1) by (auto simp: host_under_def strip_suffix_Some split: option.splits)
  then show ?thesis using slug_of_normal assms(2,3) by (simp add: normalize_hostname_eq)
qed

section \<open>Creation and update establish well-formedness\<close>

lemma validate_create_ok:
  assumes "validate_create c q = Inr u"
  shows "trim (cr_name q) \<noteq> []" "char_count (cr_name q) \<le> 80" "cr_local_port q \<noteq> 0"
    "target_text_ok (trim (cr_local_host q))"
    "cr_allow_lan_target q \<or> loopback_target (trim (cr_local_host q))"
    "scheme_fits (cr_kind q) (cr_local_scheme q)"
    "cr_access_mode q = Allowlist \<Longrightarrow> cr_allowed_cidrs q \<noteq> []"
    "\<And>p. cr_remote_port q = Some p \<Longrightarrow> c_port_start c \<le> p \<and> p \<le> c_port_end c"
    "cr_kind q \<noteq> KWeb \<Longrightarrow> cr_hostname q = None"
    "cr_kind q = KWeb \<Longrightarrow> \<exists>h. normalize_hostname c (unwrap_or (cr_hostname q) (cr_name q)) = Inr h"
  using assms
  by (auto simp: validate_create_def andThen_eq_Inr validate_local_host_ok split: if_splits)

lemma char_count_trim: "char_count (trim s) \<le> char_count s"
  by (simp add: char_count_def length_trim)

text \<open>
  One update step at a time: each optional field of the request either leaves the tunnel alone or
  sets the field to a validated value.
\<close>

lemma if_let_id: "(\<And>y. f y t = Inr (g y t)) \<Longrightarrow> if_let x f t = Inr (case x of Some y \<Rightarrow> g y t | None \<Rightarrow> t)"
  by (cases x) (simp_all add: if_let_def)

lemma step_name:
  "if_let (ur_name q) set_name t = Inr t' \<longleftrightarrow>
     t' = t\<lparr>t_name := (case ur_name q of Some n \<Rightarrow> trim n | None \<Rightarrow> t_name t)\<rparr>"
  by (cases "ur_name q") (auto simp: if_let_def set_name_def)

lemma step_local_host:
  "if_let (ur_local_host q) (set_local_host lan) t = Inr t' \<longleftrightarrow>
     t' = t\<lparr>t_local_host := (case ur_local_host q of Some h \<Rightarrow> trim h | None \<Rightarrow> t_local_host t)\<rparr> \<and>
     (\<forall>h. ur_local_host q = Some h \<longrightarrow> target_text_ok (trim h) \<and> (lan \<or> loopback_target (trim h)))"
  by (cases "ur_local_host q")
    (auto simp: if_let_def set_local_host_def andThen_eq_Inr validate_local_host_ok)

lemma step_local_port:
  "if_let (ur_local_port q) set_local_port t = Inr t' \<longleftrightarrow>
     t' = t\<lparr>t_local_port := unwrap_or (ur_local_port q) (t_local_port t)\<rparr> \<and> ur_local_port q \<noteq> Some 0"
  by (cases "ur_local_port q") (auto simp: if_let_def set_local_port_def unwrap_or_def)

lemma step_remote_port:
  "if_let (ur_remote_port q) (set_remote_port c) t = Inr t' \<longleftrightarrow>
     t' = t\<lparr>t_remote_port := (case ur_remote_port q of Some p \<Rightarrow> Some p | None \<Rightarrow> t_remote_port t)\<rparr> \<and>
     (\<forall>p. ur_remote_port q = Some p \<longrightarrow> t_kind t \<noteq> KWeb \<and> c_port_start c \<le> p \<and> p \<le> c_port_end c)"
  by (cases "ur_remote_port q") (auto simp: if_let_def set_remote_port_def andThen_eq_Inr)

lemma step_kind:
  "if_let (ur_kind q) check_kind t = Inr t' \<longleftrightarrow> t' = t \<and> (\<forall>k. ur_kind q = Some k \<longrightarrow> k = t_kind t)"
  by (cases "ur_kind q") (auto simp: if_let_def check_kind_def)

lemma step_scheme:
  "if_let (ur_local_scheme q) (\<lambda>sc t. Inr (t\<lparr>t_local_scheme := sc\<rparr>)) t = Inr t' \<longleftrightarrow>
     t' = t\<lparr>t_local_scheme := unwrap_or (ur_local_scheme q) (t_local_scheme t)\<rparr>"
  by (cases "ur_local_scheme q") (auto simp: if_let_def unwrap_or_def)

lemma step_hostname:
  "if_let (ur_hostname q) (set_hostname c) t = Inr t' \<longleftrightarrow>
     t' = t\<lparr>t_hostname := t_hostname t'\<rparr> \<and>
     (case ur_hostname q of None \<Rightarrow> t_hostname t' = t_hostname t
      | Some h \<Rightarrow> t_kind t = KWeb \<and> (\<exists>n. normalize_hostname c h = Inr n \<and> t_hostname t' = Some n))"
  by (cases "ur_hostname q") (auto simp: if_let_def set_hostname_def andThen_eq_Inr)

lemma step_options:
  "set_options q t = Inr t' \<longleftrightarrow>
     t' = t\<lparr>t_access_mode := unwrap_or (ur_access_mode q) (t_access_mode t),
       t_allowed_cidrs := unwrap_or (ur_allowed_cidrs q) (t_allowed_cidrs t),
       t_enabled := unwrap_or (ur_enabled q) (t_enabled t)\<rparr>"
  by (cases "ur_access_mode q"; cases "ur_allowed_cidrs q"; cases "ur_enabled q")
    (auto simp: set_options_def if_let_def unwrap_or_def)

lemmas update_steps =
  step_name step_local_host step_local_port step_remote_port step_kind step_scheme step_hostname step_options

text \<open>What an accepted update returns, and what it has checked.\<close>

definition updated :: "update_tunnel_request \<Rightarrow> tunnel \<Rightarrow> ustr option \<Rightarrow> tunnel" where
  "updated q t host =
     t\<lparr>t_name := (case ur_name q of Some n \<Rightarrow> trim n | None \<Rightarrow> t_name t),
       t_local_host := (case ur_local_host q of Some h \<Rightarrow> trim h | None \<Rightarrow> t_local_host t),
       t_local_port := unwrap_or (ur_local_port q) (t_local_port t),
       t_remote_port := (case ur_remote_port q of Some p \<Rightarrow> Some p | None \<Rightarrow> t_remote_port t),
       t_local_scheme := unwrap_or (ur_local_scheme q) (t_local_scheme t),
       t_hostname := host,
       t_access_mode := unwrap_or (ur_access_mode q) (t_access_mode t),
       t_allowed_cidrs := unwrap_or (ur_allowed_cidrs q) (t_allowed_cidrs t),
       t_enabled := unwrap_or (ur_enabled q) (t_enabled t)\<rparr>"

lemma apply_update_Inr:
  assumes "apply_update c q t = Inr t'"
  shows "t' = updated q t (t_hostname t')"
    and "\<forall>h. ur_local_host q = Some h \<longrightarrow>
       target_text_ok (trim h) \<and> (ur_allow_lan_target q \<or> loopback_target (trim h))"
    and "ur_local_port q \<noteq> Some 0"
    and "\<forall>p. ur_remote_port q = Some p \<longrightarrow> t_kind t \<noteq> KWeb \<and> c_port_start c \<le> p \<and> p \<le> c_port_end c"
    and "\<forall>k. ur_kind q = Some k \<longrightarrow> k = t_kind t"
    and "case ur_hostname q of None \<Rightarrow> t_hostname t' = t_hostname t
      | Some h \<Rightarrow> t_kind t = KWeb \<and> (\<exists>n. normalize_hostname c h = Inr n \<and> t_hostname t' = Some n)"
    and "validate_tunnel t' = Inr ()"
proof -
  from assms obtain t1 t2 t3 t4 t5 t6 t7 where s:
    "if_let (ur_name q) set_name t = Inr t1"
    "if_let (ur_local_host q) (set_local_host (ur_allow_lan_target q)) t1 = Inr t2"
    "if_let (ur_local_port q) set_local_port t2 = Inr t3"
    "if_let (ur_remote_port q) (set_remote_port c) t3 = Inr t4"
    "if_let (ur_kind q) check_kind t4 = Inr t5"
    "if_let (ur_local_scheme q) (\<lambda>sc t. Inr (t\<lparr>t_local_scheme := sc\<rparr>)) t5 = Inr t6"
    "if_let (ur_hostname q) (set_hostname c) t6 = Inr t7"
    "set_options q t7 = Inr t'" "validate_tunnel t' = Inr ()"
    unfolding apply_update_def andThen_eq_Inr by (elim exE conjE) simp
  note steps = s(1-8) [unfolded update_steps]
  define h where "h = t_hostname t7"
  have e: "t1 = t\<lparr>t_name := (case ur_name q of Some n \<Rightarrow> trim n | None \<Rightarrow> t_name t)\<rparr>"
    "t2 = t1\<lparr>t_local_host := (case ur_local_host q of Some h \<Rightarrow> trim h | None \<Rightarrow> t_local_host t1)\<rparr>"
    "t3 = t2\<lparr>t_local_port := unwrap_or (ur_local_port q) (t_local_port t2)\<rparr>"
    "t4 = t3\<lparr>t_remote_port := (case ur_remote_port q of Some p \<Rightarrow> Some p | None \<Rightarrow> t_remote_port t3)\<rparr>"
    "t5 = t4" "t6 = t5\<lparr>t_local_scheme := unwrap_or (ur_local_scheme q) (t_local_scheme t5)\<rparr>"
    "t7 = t6\<lparr>t_hostname := h\<rparr>"
    "t' = t7\<lparr>t_access_mode := unwrap_or (ur_access_mode q) (t_access_mode t7),
       t_allowed_cidrs := unwrap_or (ur_allowed_cidrs q) (t_allowed_cidrs t7),
       t_enabled := unwrap_or (ur_enabled q) (t_enabled t7)\<rparr>"
    using steps unfolding h_def by blast+
  have kinds: "t_kind t3 = t_kind t" "t_kind t4 = t_kind t" "t_kind t6 = t_kind t"
    and host: "t_hostname t6 = t_hostname t" "t_hostname t' = t_hostname t7"
    by (simp_all only: e) simp_all
  show "t' = updated q t (t_hostname t')"
    by (simp only: e) (simp add: updated_def cong: option.case_cong)
  show "case ur_hostname q of None \<Rightarrow> t_hostname t' = t_hostname t
      | Some h \<Rightarrow> t_kind t = KWeb \<and> (\<exists>n. normalize_hostname c h = Inr n \<and> t_hostname t' = Some n)"
    using steps(7) [THEN conjunct2] unfolding host kinds .
  show "\<forall>p. ur_remote_port q = Some p \<longrightarrow> t_kind t \<noteq> KWeb \<and> c_port_start c \<le> p \<and> p \<le> c_port_end c"
    using steps(4) kinds by simp
  show "\<forall>k. ur_kind q = Some k \<longrightarrow> k = t_kind t"
    using steps(5) kinds by simp
  show "\<forall>h. ur_local_host q = Some h \<longrightarrow>
       target_text_ok (trim h) \<and> (ur_allow_lan_target q \<or> loopback_target (trim h))"
    using steps(2) by blast
  show "ur_local_port q \<noteq> Some 0" using steps(3) by blast
  show "validate_tunnel t' = Inr ()" by (rule s(9))
qed

lemma updated_sel [simp]:
  "t_id (updated q t h) = t_id t" "t_agent_id (updated q t h) = t_agent_id t"
  "t_kind (updated q t h) = t_kind t" "t_created_at (updated q t h) = t_created_at t"
  "t_status (updated q t h) = t_status t" "t_updated_at (updated q t h) = t_updated_at t"
  "t_hostname (updated q t h) = h"
  by (simp_all add: updated_def)

lemma validate_tunnel_ok:
  "validate_tunnel t = Inr u \<longleftrightarrow>
     t_name t \<noteq> [] \<and> char_count (t_name t) \<le> 80 \<and>
     (t_access_mode t = Allowlist \<longrightarrow> t_allowed_cidrs t \<noteq> []) \<and> scheme_fits (t_kind t) (t_local_scheme t) \<and>
     (if t_kind t = KWeb then t_hostname t \<noteq> None else t_remote_port t \<noteq> None)"
  by (cases "t_kind t") (auto simp: validate_tunnel_def andThen_eq_Inr)

lemma updated_endpoint:
  assumes "apply_update c q t = Inr t'" and "endpoint_ok c t"
  shows "endpoint_ok c t'"
proof -
  note r = apply_update_Inr [OF assms(1)]
  have port: "t_remote_port t' = (case ur_remote_port q of Some p \<Rightarrow> Some p | None \<Rightarrow> t_remote_port t)"
    by (subst r(1)) (simp add: updated_def)
  have kind: "t_kind t' = t_kind t" by (subst r(1)) simp
  show ?thesis
  proof (cases "t_kind t = KWeb")
    case True
    then have "ur_remote_port q = None" using r(4) by (cases "ur_remote_port q") auto
    moreover have "case t_hostname t' of Some h \<Rightarrow> host_under (c_web_base_domain c) h | None \<Rightarrow> False"
      using r(6) assms(2) True
      by (cases "ur_hostname q") (auto simp: endpoint_ok_def dest: normalize_hostname_ok)
    ultimately show ?thesis using assms(2) True port kind by (simp add: endpoint_ok_def)
  next
    case False
    then have "t_hostname t' = t_hostname t" using r(6) by (cases "ur_hostname q") auto
    then show ?thesis using False assms(2) r(4) port kind
      by (cases "t_kind t"; cases "ur_remote_port q") (auto simp: endpoint_ok_def)
  qed
qed

lemma apply_update_keeps_ok:
  assumes "apply_update c q t = Inr t'" and "tunnel_ok c t"
  shows "tunnel_ok c t'"
proof -
  note r = apply_update_Inr [OF assms(1)]
  have name: "trim (t_name t') = t_name t'"
    by (subst r(1), subst (2) r(1))
      (use assms(2) in \<open>auto simp: updated_def tunnel_ok_def split: option.splits\<close>)
  have target: "target_text_ok (t_local_host t')"
    by (subst r(1)) (use assms(2) r(2) in \<open>auto simp: updated_def tunnel_ok_def split: option.splits\<close>)
  have port: "t_local_port t' \<noteq> 0"
    by (subst r(1)) (use assms(2) r(3) in \<open>auto simp: updated_def tunnel_ok_def unwrap_or_def split: option.splits\<close>)
  have "endpoint_ok c t'"
    using updated_endpoint [OF assms(1)] assms(2) by (simp add: tunnel_ok_def)
  then show ?thesis
    using name target port r(7) by (auto simp: tunnel_ok_def validate_tunnel_ok)
qed

lemma apply_update_fixed:
  assumes "apply_update c q t = Inr t'"
  shows "t_id t' = t_id t" "t_agent_id t' = t_agent_id t" "t_kind t' = t_kind t" "t_created_at t' = t_created_at t"
  by (subst apply_update_Inr(1) [OF assms], simp)+

lemma apply_update_target:
  assumes "apply_update c q t = Inr t'"
  shows "t_local_host t' = t_local_host t \<or> ur_allow_lan_target q \<or> loopback_target (t_local_host t')"
proof -
  note r = apply_update_Inr [OF assms]
  have "t_local_host t' = (case ur_local_host q of Some h \<Rightarrow> trim h | None \<Rightarrow> t_local_host t)"
    by (subst r(1)) (simp add: updated_def)
  then show ?thesis using r(2) by (auto split: option.splits)
qed

text \<open>The tunnel \<open>create\<close> builds from a validated request.\<close>

lemma created_ok:
  assumes "validate_create c q = Inr u"
    and "if cr_kind q = KWeb then remote = None \<and>
           (\<exists>h. normalize_hostname c (unwrap_or (cr_hostname q) (cr_name q)) = Inr h \<and> host = Some h)
         else host = None \<and> (\<exists>p. remote = Some p \<and> c_port_start c \<le> p \<and> p \<le> c_port_end c)"
  shows "tunnel_ok c \<lparr>t_id = i, t_agent_id = a, t_name = trim (cr_name q),
              t_local_host = trim (cr_local_host q), t_local_port = cr_local_port q,
              t_kind = cr_kind q, t_local_scheme = cr_local_scheme q, t_remote_port = remote,
              t_hostname = host, t_access_mode = cr_access_mode q,
              t_allowed_cidrs = cr_allowed_cidrs q, t_enabled = en, t_status = st,
              t_created_at = n1, t_updated_at = n2\<rparr>"
proof -
  note v = validate_create_ok [OF assms(1)]
  have "char_count (trim (cr_name q)) \<le> 80"
    using v(2) char_count_trim [of "cr_name q"] by simp
  moreover have "(case cr_kind q of
        KWeb \<Rightarrow> remote = None \<and> (case host of Some h \<Rightarrow> host_under (c_web_base_domain c) h | None \<Rightarrow> False)
      | _ \<Rightarrow> host = None \<and> (case remote of Some p \<Rightarrow> c_port_start c \<le> p \<and> p \<le> c_port_end c | None \<Rightarrow> False))"
    using assms(2) by (cases "cr_kind q") (auto dest: normalize_hostname_ok)
  ultimately show ?thesis
    using v by (simp add: tunnel_ok_def endpoint_ok_def cong: tunnel_kind.case_cong)
qed

section \<open>The round trip through a row\<close>

lemma i64_uint [simp]: "i64_as_u16 (uint p) = p"
  by (simp add: i64_as_u16_def)

definition stored_status :: "tunnel \<Rightarrow> tunnel" where
  "stored_status t = t\<lparr>t_status := (if t_enabled t then Starting else Stopped)\<rparr>"

definition codecs_ok :: "lib \<Rightarrow> bool" where
  "codecs_ok L \<longleftrightarrow> uuid_text_ok L \<and> cidrs_json_ok L"

lemma codecsD:
  assumes "codecs_ok L"
  shows "l_uuid_parse L (l_uuid_text L i) = Some i"
    and "l_cidrs_parse L (l_cidrs_json L ns) = Some ns"
    and "l_uuid_text L i = l_uuid_text L j \<longleftrightarrow> i = j"
  using assms text_codec_inject [of "l_uuid_text L" "l_uuid_parse L"]
  by (auto simp: codecs_ok_def uuid_text_ok_def cidrs_json_ok_def text_codecD)

lemma row_round_trip:
  assumes "codecs_ok L" "time_text_ok L (t_created_at t)" "time_text_ok L (t_updated_at t)"
  shows "row_to_tunnel L (tunnel_to_row L t) = Inr (stored_status t)"
proof -
  have "map_option i64_as_u16 (map_option uint r) = r" for r :: "u16 option"
    by (cases r) simp_all
  then show ?thesis
    using assms
    by (simp add: row_to_tunnel_def tunnel_to_row_def stored_status_def codecsD time_text_ok_def
        kind_col.dec_enc scheme_col.dec_enc mode_col.dec_enc)
qed

lemma assign_tunnel_row:
  assumes "t_id t = t_id t0" "t_agent_id t = t_agent_id t0" "t_kind t = t_kind t0"
    "t_created_at t = t_created_at t0"
  shows "assign_row L t (tunnel_to_row L t0) = tunnel_to_row L t"
  using assms by (simp add: assign_row_def tunnel_to_row_def)

lemma tunnel_row_check: "tunnel_ok c t \<Longrightarrow> tunnels_check (tunnel_to_row L t)"
  by (cases "t_kind t"; cases "t_local_scheme t")
    (auto simp: tunnel_ok_def endpoint_ok_def scheme_fits_def tunnels_check_def tunnel_to_row_def
      kind_str_def scheme_str_def split: option.splits)

section \<open>The operations on the table\<close>

lemma reads_queries [reads_intros]:
  "reads (get_tunnel L i)" "reads (get_by_hostname L h)" "reads (hostname_is_enabled h)"
  "reads (list_for_agent L a)" "reads (list_all_tunnels L)" "reads (allocate_port k)"
  unfolding get_tunnel_def get_by_hostname_def hostname_is_enabled_def list_for_agent_def
    list_all_tunnels_def allocate_port_def
  by (intro reads_intros)+

lemma reads_case_kind [reads_intros]:
  "reads m \<Longrightarrow> reads n \<Longrightarrow> reads w \<Longrightarrow> reads (case k of KTcp \<Rightarrow> m | KUdp \<Rightarrow> n | KWeb \<Rightarrow> w)"
  by (cases k) auto

lemma on_stmt_Inr:
  assumes "on_db (stmt f) s = (Inr x, s')"
  obtains fs d where "f ((s_db s)\<lparr>db_faults := fs\<rparr>) = (Inr x, d)" "s' = s\<lparr>s_db := d\<rparr>"
proof -
  obtain d where d: "stmt f (s_db s) = (Inr x, d)" "s' = s\<lparr>s_db := d\<rparr>"
    using assms by (auto simp: on_db_def split: prod.splits)
  from d(1) show thesis
    by (cases rule: stmt_cases) (use that d in auto)
qed

lemma insert_tunnel_Inr:
  assumes "on_db (insert_tunnel r) s = (Inr u, s')"
  shows "\<exists>fs. s' = s\<lparr>s_db := (s_db s)\<lparr>db_faults := fs, db_tunnels := db_tunnels (s_db s) @ [r]\<rparr>\<rparr>"
    and "\<not> list_ex (tunnels_conflict r) (db_tunnels (s_db s))"
    and "db_foreign_keys (s_db s) \<Longrightarrow> tr_agent_id r \<in> dr_id ` set (db_devices (s_db s))"
  using assms unfolding insert_tunnel_def
  by (auto elim!: on_stmt_Inr split: if_splits)

text \<open>\<open>allocate_port\<close> finds the least free port of the pool, or reports that there is none.\<close>

lemma pool_value: "n < Suc (unat (e :: u16)) \<Longrightarrow> unat (of_nat n :: u16) = n"
proof -
  assume "n < Suc (unat e)"
  moreover have "unat e < 2 ^ 16" using unsigned_less [of e] by simp
  ultimately have "n < 2 ^ 16" by simp
  then show ?thesis by (simp only: unat_of_nat take_bit_nat_eq_self_iff) simp
qed

lemma port_pool_set: "p \<in> set (port_pool c) \<longleftrightarrow> c_port_start c \<le> p \<and> p \<le> c_port_end c"
proof
  assume "p \<in> set (port_pool c)"
  then obtain n where n: "unat (c_port_start c) \<le> n" "n < Suc (unat (c_port_end c))" "p = of_nat n"
    by (auto simp: port_pool_def)
  have "unat p = n" unfolding n(3) by (rule pool_value [OF n(2)])
  then show "c_port_start c \<le> p \<and> p \<le> c_port_end c" using n by (simp add: word_le_nat_alt)
next
  assume "c_port_start c \<le> p \<and> p \<le> c_port_end c"
  then have "unat p \<in> {unat (c_port_start c) ..< Suc (unat (c_port_end c))}"
    by (simp add: word_le_nat_alt)
  then show "p \<in> set (port_pool c)"
    unfolding port_pool_def set_map set_upt by (intro image_eqI [of _ _ "unat p"]) simp_all
qed

lemma find_map_upt:
  "find P (map f [a..<b]) = Some x \<Longrightarrow> \<exists>n. a \<le> n \<and> n < b \<and> x = f n \<and> P x \<and> (\<forall>m. a \<le> m \<and> m < n \<longrightarrow> \<not> P (f m))"
proof -
  assume "find P (map f [a..<b]) = Some x"
  then obtain i where i: "i < b - a" "P (map f [a..<b] ! i)" "x = map f [a..<b] ! i"
      "\<forall>j<i. \<not> P (map f [a..<b] ! j)"
    by (auto simp: find_Some_iff)
  have "\<not> P (f m)" if "a \<le> m" "m < a + i" for m
    using i(1,4) that by (auto dest!: spec [of _ "m - a"])
  then show ?thesis using i by (intro exI [of _ "a + i"]) auto
qed

lemma least_in_pool:
  assumes "find P (port_pool c) = Some p"
  shows "P p" "c_port_start c \<le> p" "p \<le> c_port_end c"
    "\<And>r. c_port_start c \<le> r \<Longrightarrow> r < p \<Longrightarrow> \<not> P r"
proof -
  obtain n where n: "unat (c_port_start c) \<le> n" "n < Suc (unat (c_port_end c))" "p = of_nat n" "P p"
      "\<forall>m. unat (c_port_start c) \<le> m \<and> m < n \<longrightarrow> \<not> P (of_nat m)"
    using find_map_upt [of P of_nat] assms unfolding port_pool_def by blast
  have u: "unat p = n" unfolding n(3) by (rule pool_value [OF n(2)])
  show "P p" by (rule n(4))
  show "c_port_start c \<le> p" "p \<le> c_port_end c" using n(1,2) u by (simp_all add: word_le_nat_alt)
  show "\<not> P r" if "c_port_start c \<le> r" "r < p" for r
    using n(5) [rule_format, of "unat r"] that u by (simp add: word_le_nat_alt word_less_nat_alt)
qed

lemma allocate_port_Inr:
  assumes "allocate_port k s = (Inr p, s')"
  shows "p \<notin> used_ports k (s_db s)" "c_port_start (s_config s) \<le> p" "p \<le> c_port_end (s_config s)"
    "\<And>r. c_port_start (s_config s) \<le> r \<Longrightarrow> r < p \<Longrightarrow> r \<in> used_ports k (s_db s)"
proof -
  obtain used s1 where s: "db_do (select (used_ports k)) s = (Inr used, s1)"
      "find (\<lambda>port. port \<notin> used) (port_pool (s_config s1)) = Some p"
    using assms by (auto simp: allocate_port_def seq_eq_Inr act_simps)
  obtain d where d: "select (used_ports k) (s_db s) = (Inr used, d)" "s1 = s\<lparr>s_db := d\<rparr>"
    using s(1) by (auto simp: db_do_eq_Inr)
  have u: "used = used_ports k (s_db s)"
    using select_eq_Inr [OF d(1)] by (auto simp: used_ports_def)
  have c: "s_config s1 = s_config s" using d(2) by simp
  note l = least_in_pool [OF s(2), unfolded u c]
  show "p \<notin> used_ports k (s_db s)" "c_port_start (s_config s) \<le> p" "p \<le> c_port_end (s_config s)"
    using l(1-3) by simp_all
  show "r \<in> used_ports k (s_db s)" if "c_port_start (s_config s) \<le> r" "r < p" for r
    using l(4) [OF that] by simp
qed

text \<open>The port and the host name a request gets.\<close>

lemma reads_chosen_port [reads_intros]: "reads (chosen_port c q)"
  unfolding chosen_port_def by (intro reads_intros)

lemma create_atomic: "atomic (create L i now a q)"
  unfolding create_def Let_def by (intro atomic_seq_ok reads_intros)

lemma update_atomic: "atomic (update L now i owner q)"
  unfolding update_def Let_def by (intro atomic_seq_ok reads_intros)

lemma delete_atomic: "atomic (delete_tunnel L i owner)"
  unfolding delete_tunnel_def by (intro atomic_seq_ok reads_intros)

lemma chosen_port_web: "cr_kind q = KWeb \<Longrightarrow> chosen_port c q s = (Inr r, s') \<Longrightarrow> r = None"
  by (simp add: chosen_port_def act_simps)

lemma chosen_port_given:
  assumes "cr_kind q \<noteq> KWeb" "cr_remote_port q = Some p" "chosen_port c q s = (Inr r, s')"
  shows "r = Some p" "c_port_start c \<le> p" "p \<le> c_port_end c"
  using assms by (cases "cr_kind q"; auto simp: chosen_port_def seq_eq_Inr act_simps)+

lemma chosen_port_auto:
  assumes "cr_kind q \<noteq> KWeb" "cr_remote_port q = None" "chosen_port c q s = (Inr r, s')"
  obtains p where "r = Some p" "allocate_port (cr_kind q) s = (Inr p, s')"
  using assms by (cases "cr_kind q"; auto simp: chosen_port_def seq_eq_Inr act_simps)+

lemma chosen_port_range:
  assumes "chosen_port (s_config s) q s = (Inr r, s')" and "cr_kind q \<noteq> KWeb"
  shows "\<exists>p. r = Some p \<and> c_port_start (s_config s) \<le> p \<and> p \<le> c_port_end (s_config s)"
proof (cases "cr_remote_port q")
  case None
  then obtain p where "r = Some p" "allocate_port (cr_kind q) s = (Inr p, s')"
    using chosen_port_auto assms by metis
  then show ?thesis using allocate_port_Inr by blast
next
  case (Some p)
  then show ?thesis using chosen_port_given [OF assms(2) Some assms(1)] by blast
qed

lemma chosen_host_Inr:
  "chosen_host c q = Inr h \<longleftrightarrow>
     (if cr_kind q = KWeb
      then \<exists>n. normalize_hostname c (unwrap_or (cr_hostname q) (cr_name q)) = Inr n \<and> h = Some n
      else h = None)"
  by (cases "cr_kind q") (auto simp: chosen_host_def andThen_eq_Inr)

lemma new_tunnel_sel [simp]:
  "t_id (new_tunnel i n a q r h) = i" "t_agent_id (new_tunnel i n a q r h) = a"
  "t_kind (new_tunnel i n a q r h) = cr_kind q" "t_remote_port (new_tunnel i n a q r h) = r"
  "t_hostname (new_tunnel i n a q r h) = h" "t_local_host (new_tunnel i n a q r h) = trim (cr_local_host q)"
  "t_created_at (new_tunnel i n a q r h) = n" "t_updated_at (new_tunnel i n a q r h) = n"
  "t_enabled (new_tunnel i n a q r h) = cr_enabled q"
  by (simp_all add: new_tunnel_def)

text \<open>A successful \<open>create\<close> decomposes into its four decisions and one appended row.\<close>

lemma create_Inr:
  assumes "create L i now agent q s = (Inr t, s')"
  obtains remote host s1 fs where
    "validate_create (s_config s) q = Inr ()"
    "chosen_port (s_config s) q s = (Inr remote, s1)" "chosen_host (s_config s) q = Inr host"
    "t = new_tunnel i now agent q remote host"
    "s' = s\<lparr>s_db := (s_db s)\<lparr>db_faults := fs, db_tunnels := db_tunnels (s_db s) @ [tunnel_to_row L t]\<rparr>\<rparr>"
    "\<not> list_ex (tunnels_conflict (tunnel_to_row L t)) (db_tunnels (s_db s))"
    "db_foreign_keys (s_db s) \<Longrightarrow> l_uuid_text L agent \<in> dr_id ` set (db_devices (s_db s))"
proof -
  obtain remote host s1 u where s:
    "validate_create (s_config s) q = Inr ()"
    "chosen_port (s_config s) q s = (Inr remote, s1)" "chosen_host (s_config s) q = Inr host"
    "t = new_tunnel i now agent q remote host" "on_db (insert_tunnel (tunnel_to_row L t)) s1 = (Inr u, s')"
    using assms unfolding create_def Let_def by (auto simp: seq_eq_Inr act_simps)
  have un: "untouched s s1" using reads_chosen_port s(2) by (rule readsD)
  note r = insert_tunnel_Inr [OF s(5), unfolded untouched_sel [OF un]]
  obtain fs where fs: "s' = s1\<lparr>s_db := (s_db s1)\<lparr>db_faults := fs,
      db_tunnels := db_tunnels (s_db s) @ [tunnel_to_row L t]\<rparr>\<rparr>"
    using r(1) by blast
  have "tr_agent_id (tunnel_to_row L t) = l_uuid_text L agent"
    using s(4) by (simp add: tunnel_to_row_def)
  with s(1-4) r(2,3) fs un show thesis
    by (intro that [of remote s1 host fs]) (auto simp: untouched_def)
qed

lemma create_tunnel_ok:
  assumes "create L i now agent q s = (Inr t, s')"
  shows "tunnel_ok (s_config s) t"
proof -
  obtain remote host s1 where s: "validate_create (s_config s) q = Inr ()"
    "chosen_port (s_config s) q s = (Inr remote, s1)" "chosen_host (s_config s) q = Inr host"
    "t = new_tunnel i now agent q remote host"
    using assms by (rule create_Inr)
  show ?thesis
    unfolding s(4) new_tunnel_def
  proof (rule created_ok [OF s(1)])
    show "if cr_kind q = KWeb then remote = None \<and>
           (\<exists>h. normalize_hostname (s_config s) (unwrap_or (cr_hostname q) (cr_name q)) = Inr h \<and> host = Some h)
         else host = None \<and> (\<exists>p. remote = Some p \<and> c_port_start (s_config s) \<le> p \<and> p \<le> c_port_end (s_config s))"
      using s(2,3) chosen_port_web chosen_port_range [OF s(2)] by (auto simp: chosen_host_Inr)
  qed
qed

lemma endpoint_ok_upd [simp]:
  "endpoint_ok c (t\<lparr>t_status := st\<rparr>) = endpoint_ok c t"
  "endpoint_ok c (t\<lparr>t_updated_at := n\<rparr>) = endpoint_ok c t"
  by (cases "t_kind t"; simp add: endpoint_ok_def)+

text \<open>Every row of the table is the image of a well-formed tunnel.\<close>

definition stored :: "lib \<Rightarrow> config \<Rightarrow> tunnel_row \<Rightarrow> bool" where
  "stored L c r \<longleftrightarrow>
     (\<exists>t. r = tunnel_to_row L t \<and> tunnel_ok c t \<and>
          time_text_ok L (t_created_at t) \<and> time_text_ok L (t_updated_at t))"

definition tunnels_ok :: "lib \<Rightarrow> app_state \<Rightarrow> bool" where
  "tunnels_ok L s \<longleftrightarrow> (\<forall>r \<in> set (db_tunnels (s_db s)). stored L (s_config s) r)"

lemma tunnels_ok_untouched: "untouched s s' \<Longrightarrow> tunnels_ok L s' \<longleftrightarrow> tunnels_ok L s"
  by (simp add: tunnels_ok_def untouched_sel)

lemma stored_status_sel [simp]:
  "t_id (stored_status t) = t_id t" "t_agent_id (stored_status t) = t_agent_id t"
  "t_kind (stored_status t) = t_kind t" "t_remote_port (stored_status t) = t_remote_port t"
  "t_hostname (stored_status t) = t_hostname t" "t_created_at (stored_status t) = t_created_at t"
  "t_updated_at (stored_status t) = t_updated_at t" "t_local_host (stored_status t) = t_local_host t"
  "t_enabled (stored_status t) = t_enabled t"
  "tunnel_ok c (stored_status t) = tunnel_ok c t"
  "tunnel_to_row L (stored_status t) = tunnel_to_row L t"
  by (simp_all add: stored_status_def tunnel_ok_def tunnel_to_row_def)

text \<open>Reading a stored row gives the tunnel back, and that tunnel writes the same row.\<close>

lemma stored_read:
  assumes "codecs_ok L" "stored L c r" "row_to_tunnel L r = Inr t"
  shows "tunnel_ok c t" "tunnel_to_row L t = r" "time_text_ok L (t_created_at t)" "time_text_ok L (t_updated_at t)"
proof -
  obtain t0 where t0: "r = tunnel_to_row L t0" "tunnel_ok c t0"
      "time_text_ok L (t_created_at t0)" "time_text_ok L (t_updated_at t0)"
    using assms(2) by (auto simp: stored_def)
  then have "t = stored_status t0" using row_round_trip [of L t0] assms(1,3) by simp
  with t0 show "tunnel_ok c t" "tunnel_to_row L t = r"
      "time_text_ok L (t_created_at t)" "time_text_ok L (t_updated_at t)"
    by simp_all
qed

lemma stored_readable:
  assumes "codecs_ok L" "stored L c r"
  shows "\<exists>t. row_to_tunnel L r = Inr t"
  using assms row_round_trip by (auto simp: stored_def)

lemma get_tunnel_Inr:
  assumes "get_tunnel L i s = (Inr t, s')"
  obtains r where "find (\<lambda>r. tr_id r = l_uuid_text L i) (db_tunnels (s_db s)) = Some r"
    "row_to_tunnel L r = Inr t" "untouched s s'"
proof -
  have un: "untouched s s'" using reads_queries(1) assms by (rule readsD)
  obtain row s1 where s: "db_do (select (\<lambda>d. find (\<lambda>r. tr_id r = l_uuid_text L i) (db_tunnels d))) s = (Inr row, s1)"
      "andThen (ok_or row NotFound) (row_to_tunnel L) = Inr t"
    using assms by (auto simp: get_tunnel_def seq_eq_Inr act_simps)
  have "row = find (\<lambda>r. tr_id r = l_uuid_text L i) (db_tunnels (s_db s))"
    using s(1) by (auto simp: db_do_eq_Inr dest!: select_eq_Inr)
  then show thesis using that un s(2) by (auto simp: andThen_eq_Inr)
qed

text \<open>A successful \<open>update\<close>: the tunnel that was read, and the row that was assigned.\<close>

lemma update_tunnel_Inr:
  assumes "on_db (update_tunnel_row k f) s = (Inr u, s')"
  shows "\<exists>fs. s' = s\<lparr>s_db := (s_db s)\<lparr>db_faults := fs, db_tunnels := update_row k f (db_tunnels (s_db s))\<rparr>\<rparr>"
    and "\<forall>r \<in> set (db_tunnels (s_db s)). \<forall>r' \<in> set (db_tunnels (s_db s)).
           tr_id r = k \<longrightarrow> tr_id r' \<noteq> k \<longrightarrow> \<not> tunnels_conflict (f r) r'"
proof -
  show "\<exists>fs. s' = s\<lparr>s_db := (s_db s)\<lparr>db_faults := fs, db_tunnels := update_row k f (db_tunnels (s_db s))\<rparr>\<rparr>"
    using assms unfolding update_tunnel_row_def
    by (auto elim!: on_stmt_Inr simp: Let_def split: if_splits)
  have "\<not> list_ex (\<lambda>r. list_ex (tunnels_conflict (f r)) (filter (\<lambda>r. tr_id r \<noteq> k) (db_tunnels (s_db s))))
      (filter (\<lambda>r. tr_id r = k) (db_tunnels (s_db s)))"
    using assms unfolding update_tunnel_row_def
    by (auto elim!: on_stmt_Inr simp: Let_def split: if_splits)
  then show "\<forall>r \<in> set (db_tunnels (s_db s)). \<forall>r' \<in> set (db_tunnels (s_db s)).
           tr_id r = k \<longrightarrow> tr_id r' \<noteq> k \<longrightarrow> \<not> tunnels_conflict (f r) r'"
    unfolding list_ex_iff set_filter by blast
qed

lemma update_Inr:
  assumes "update L now i owner q s = (Inr t, s')"
  obtains t0 t1 r fs where
    "find (\<lambda>r. tr_id r = l_uuid_text L i) (db_tunnels (s_db s)) = Some r" "row_to_tunnel L r = Inr t0"
    "owner_check owner t0 = Inr ()" "apply_update (s_config s) q t0 = Inr t1" "t = t1\<lparr>t_updated_at := now\<rparr>"
    "s' = s\<lparr>s_db := (s_db s)\<lparr>db_faults := fs,
       db_tunnels := update_row (l_uuid_text L (t_id t)) (assign_row L t) (db_tunnels (s_db s))\<rparr>\<rparr>"
    "\<forall>r \<in> set (db_tunnels (s_db s)). \<forall>r' \<in> set (db_tunnels (s_db s)).
       tr_id r = l_uuid_text L (t_id t) \<longrightarrow> tr_id r' \<noteq> l_uuid_text L (t_id t) \<longrightarrow>
       \<not> tunnels_conflict (assign_row L t r) r'"
proof -
  obtain t0 s1 t1 u where s: "get_tunnel L i s = (Inr t0, s1)" "owner_check owner t0 = Inr ()"
      "apply_update (s_config s1) q t0 = Inr t1" "t = t1\<lparr>t_updated_at := now\<rparr>"
      "on_db (update_tunnel_row (l_uuid_text L (t_id t)) (assign_row L t)) s1 = (Inr u, s')"
    using assms unfolding update_def Let_def by (auto simp: seq_eq_Inr act_simps)
  obtain r where r: "find (\<lambda>r. tr_id r = l_uuid_text L i) (db_tunnels (s_db s)) = Some r"
    "row_to_tunnel L r = Inr t0" "untouched s s1"
    using s(1) by (rule get_tunnel_Inr)
  note w = update_tunnel_Inr [OF s(5), unfolded untouched_sel [OF r(3)]]
  obtain fs where "s' = s1\<lparr>s_db := (s_db s1)\<lparr>db_faults := fs,
       db_tunnels := update_row (l_uuid_text L (t_id t)) (assign_row L t) (db_tunnels (s_db s))\<rparr>\<rparr>"
    using w(1) by blast
  with r(3) have "s' = s\<lparr>s_db := (s_db s)\<lparr>db_faults := fs,
       db_tunnels := update_row (l_uuid_text L (t_id t)) (assign_row L t) (db_tunnels (s_db s))\<rparr>\<rparr>"
    by (auto simp: untouched_def)
  with r(1,2) s(2-4) w(2) untouched_sel(1) [OF r(3)] show thesis by (intro that) auto
qed

text \<open>The invariant is kept by the three operations.\<close>

lemma create_keeps_tunnels:
  assumes "tunnels_ok L s" "time_text_ok L now" "create L i now agent q s = (r, s')"
  shows "tunnels_ok L s'"
proof (cases r)
  case (Inl e)
  then show ?thesis
    using assms(1) tunnels_ok_untouched [OF atomicD [OF create_atomic assms(3) [unfolded Inl]]] by simp
next
  case (Inr t)
  note c = assms(3) [unfolded Inr]
  obtain remote host s1 fs where s: "t = new_tunnel i now agent q remote host"
    "s' = s\<lparr>s_db := (s_db s)\<lparr>db_faults := fs, db_tunnels := db_tunnels (s_db s) @ [tunnel_to_row L t]\<rparr>\<rparr>"
    using c by (rule create_Inr)
  have "stored L (s_config s) (tunnel_to_row L t)"
    unfolding stored_def using create_tunnel_ok [OF c] s(1) assms(2) by (intro exI [of _ t]) auto
  then show ?thesis using assms(1) s(2) by (auto simp: tunnels_ok_def)
qed

lemma update_result_ok:
  assumes "tunnels_ok L s" "codecs_ok L" "update L now i owner q s = (Inr t, s')"
  shows "tunnel_ok (s_config s) t" "t_id t = i"
proof -
  obtain t0 t1 r where s:
    "find (\<lambda>r. tr_id r = l_uuid_text L i) (db_tunnels (s_db s)) = Some r" "row_to_tunnel L r = Inr t0"
    "apply_update (s_config s) q t0 = Inr t1" "t = t1\<lparr>t_updated_at := now\<rparr>"
    using assms(3) by (rule update_Inr)
  have r: "r \<in> set (db_tunnels (s_db s))" "tr_id r = l_uuid_text L i"
    using s(1) by (auto simp: find_Some_iff)
  then have "stored L (s_config s) r" using assms(1) by (simp add: tunnels_ok_def)
  note t0 = stored_read [OF assms(2) this s(2)]
  have "l_uuid_text L (t_id t0) = l_uuid_text L i" using t0(2) r(2) by (auto simp: tunnel_to_row_def)
  then show "t_id t = i"
    using apply_update_fixed(1) [OF s(3)] s(4) codecsD(3) [OF assms(2)] by simp
  have "tunnel_ok (s_config s) t1" using apply_update_keeps_ok [OF s(3) t0(1)] .
  then show "tunnel_ok (s_config s) t" using s(4) by (simp add: tunnel_ok_def)
qed

lemma update_keeps_tunnels:
  assumes "tunnels_ok L s" "codecs_ok L" "pairwise_free (db_tunnels (s_db s))" "time_text_ok L now"
    and "update L now i owner q s = (r, s')"
  shows "tunnels_ok L s'"
proof (cases r)
  case (Inl e)
  then show ?thesis
    using assms(1) tunnels_ok_untouched [OF atomicD [OF update_atomic assms(5) [unfolded Inl]]] by simp
next
  case (Inr t)
  note u = assms(5) [unfolded Inr]
  note ok = update_result_ok [OF assms(1,2) u]
  obtain t0 t1 r0 fs where s:
    "find (\<lambda>r. tr_id r = l_uuid_text L i) (db_tunnels (s_db s)) = Some r0" "row_to_tunnel L r0 = Inr t0"
    "apply_update (s_config s) q t0 = Inr t1" "t = t1\<lparr>t_updated_at := now\<rparr>"
    "s' = s\<lparr>s_db := (s_db s)\<lparr>db_faults := fs,
       db_tunnels := update_row (l_uuid_text L (t_id t)) (assign_row L t) (db_tunnels (s_db s))\<rparr>\<rparr>"
    using u by (rule update_Inr)
  have r0: "r0 \<in> set (db_tunnels (s_db s))" "tr_id r0 = l_uuid_text L i"
    using s(1) by (auto simp: find_Some_iff)
  have "stored L (s_config s) r0" using assms(1) r0 by (simp add: tunnels_ok_def)
  note t0 = stored_read [OF assms(2) this s(2)]
  have "assign_row L t (tunnel_to_row L t0) = tunnel_to_row L t"
    using apply_update_fixed [OF s(3)] s(4) by (intro assign_tunnel_row) auto
  then have w: "assign_row L t r0 = tunnel_to_row L t" using t0(2) by simp
  have new: "stored L (s_config s) (tunnel_to_row L t)"
    unfolding stored_def
    using ok(1) t0(3) assms(4) apply_update_fixed(4) [OF s(3)] s(4) by (intro exI [of _ t]) auto
  have "\<forall>r \<in> set (db_tunnels (s_db s)).
      stored L (s_config s) (if tr_id r = l_uuid_text L i then assign_row L t r else r)"
  proof
    fix r assume r: "r \<in> set (db_tunnels (s_db s))"
    show "stored L (s_config s) (if tr_id r = l_uuid_text L i then assign_row L t r else r)"
  proof (cases "tr_id r = l_uuid_text L i")
    case True
    then have "tunnels_conflict r r0" using r0 by (simp add: tunnels_conflict_def)
    then have "r = r0" using pairwise_freeD [OF assms(3) r r0(1)] by simp
    then show ?thesis using True w new by simp
  next
    case False
    then show ?thesis using r assms(1) by (simp add: tunnels_ok_def)
  qed
  qed
  then show ?thesis unfolding tunnels_ok_def s(5) update_row_def ok(2)
    by (simp del: if_image_distrib)
qed

lemma delete_tunnel_cases:
  assumes "delete_tunnel L i owner s = (r, s')"
  shows "\<exists>fs. s' = s\<lparr>s_db := (s_db s)\<lparr>db_faults := fs,
     db_tunnels := (if r = Inr () then filter (\<lambda>r. tr_id r \<noteq> l_uuid_text L i) (db_tunnels (s_db s))
                    else db_tunnels (s_db s))\<rparr>\<rparr>"
proof (cases r)
  case (Inl e)
  then show ?thesis
    using assms atomicD [OF delete_atomic] by (fastforce simp: untouched_def)
next
  case (Inr u)
  obtain t s1 where s: "get_tunnel L i s = (Inr t, s1)"
      "db_do (delete_tunnel_rows (\<lambda>r. tr_id r = l_uuid_text L i)) s1 = (Inr (), s')"
    using assms unfolding Inr delete_tunnel_def by (auto simp: seq_eq_Inr act_simps)
  have "untouched s s1" using reads_queries(1) s(1) by (rule readsD)
  then show ?thesis
    using s(2) Inr unfolding delete_tunnel_rows_def db_do_def
    by (auto simp: untouched_def elim!: on_stmt_Inr)
qed

lemma delete_keeps_tunnels:
  "tunnels_ok L s \<Longrightarrow> delete_tunnel L i owner s = (r, s') \<Longrightarrow> tunnels_ok L s'"
  by (drule delete_tunnel_cases) (auto simp: tunnels_ok_def split: if_splits)

section \<open>The table as a transition system\<close>

text \<open>One call of an operation, whatever its arguments and its outcome.\<close>

inductive tunnel_step :: "lib \<Rightarrow> app_state \<Rightarrow> app_state \<Rightarrow> bool" for L where
  step_create: "time_text_ok L now \<Longrightarrow> create L i now agent q s = (r, s') \<Longrightarrow> tunnel_step L s s'"
| step_update: "time_text_ok L now \<Longrightarrow> update L now i owner q s = (r, s') \<Longrightarrow> tunnel_step L s s'"
| step_delete: "delete_tunnel L i owner s = (r, s') \<Longrightarrow> tunnel_step L s s'"

definition table_inv :: "lib \<Rightarrow> app_state \<Rightarrow> bool" where
  "table_inv L s \<longleftrightarrow> codecs_ok L \<longrightarrow> schema_ok (s_db s) \<and> tunnels_ok L s"

definition table_start :: "app_state \<Rightarrow> bool" where
  "table_start s \<longleftrightarrow> schema_ok (s_db s) \<and> db_tunnels (s_db s) = []"

lemma keeps_queries:
  assumes "reads m" and "\<And>s s'. untouched s s' \<Longrightarrow> I s \<Longrightarrow> I s'"
  shows "keeps I m"
  using assms by (intro keepsI) (auto simp: reads_def)

lemma schema_untouched: "untouched s s' \<Longrightarrow> schema_ok (s_db s') = schema_ok (s_db s)"
  by (auto simp: untouched_def on_tablesD [OF schema_on_tables])

lemmas keeps_schema_reads = keeps_queries [of _ "\<lambda>s. schema_ok (s_db s)", simplified schema_untouched]

lemma keeps_schema_ops [keeps_intros]:
  "keeps (\<lambda>s. schema_ok (s_db s)) (create L i now agent q)"
  "keeps (\<lambda>s. schema_ok (s_db s)) (update L now i owner u)"
  "keeps (\<lambda>s. schema_ok (s_db s)) (delete_tunnel L i owner)"
  unfolding create_def update_def delete_tunnel_def Let_def
  by (intro keeps_intros keeps_schema_reads reads_queries reads_chosen_port; simp add: assign_row_def schema_untouched)+

lemma table_step: "table_inv L s \<Longrightarrow> tunnel_step L s s' \<Longrightarrow> table_inv L s'"
proof (erule tunnel_step.cases)
  fix now i agent q x r x'
  assume a: "table_inv L s" "s = x" "s' = x'" "time_text_ok L now" "create L i now agent q x = (r, x')"
  then show "table_inv L s'"
    using create_keeps_tunnels keepsD [OF keeps_schema_ops(1) _ a(5)] by (auto simp: table_inv_def)
next
  fix now i owner q x r x'
  assume a: "table_inv L s" "s = x" "s' = x'" "time_text_ok L now" "update L now i owner q x = (r, x')"
  then show "table_inv L s'"
    using update_keeps_tunnels keepsD [OF keeps_schema_ops(2) _ a(5)]
    by (auto simp: table_inv_def schema_ok_def)
next
  fix i owner x r x'
  assume a: "table_inv L s" "s = x" "s' = x'" "delete_tunnel L i owner x = (r, x')"
  then show "table_inv L s'"
    using delete_keeps_tunnels keepsD [OF keeps_schema_ops(3) _ a(4)] by (auto simp: table_inv_def)
qed

lemma table_start_inv: "table_start s \<Longrightarrow> table_inv L s"
  by (simp add: table_inv_def table_start_def tunnels_ok_def)

interpretation table: invariant_system table_start "tunnel_step L" "table_inv L" for L
  using table_start_inv table_step by unfold_locales

section \<open>Properties\<close>

definition sample_request :: create_tunnel_request where
  "sample_request =
     \<lparr>cr_name = lit '' ssh '', cr_local_host = lit ''localhost'', cr_local_port = 22, cr_kind = KTcp,
      cr_local_scheme = STcp, cr_remote_port = None, cr_hostname = None, cr_access_mode = Public,
      cr_allowed_cidrs = [], cr_enabled = True, cr_allow_lan_target = False\<rparr>"

lemma used_portsI:
  "tr_kind r = kind_str k \<Longrightarrow> tr_remote_port r = Some (uint p) \<Longrightarrow> r \<in> set (db_tunnels d) \<Longrightarrow>
     p \<in> used_ports k d"
  unfolding used_ports_def set_map set_filter by (rule image_eqI [of _ _ r]) simp_all

lemma localhost_valid: "validate_local_host (lit ''localhost'') lan = Inr ()"
proof -
  have "trim (lit ''localhost'') = lit ''localhost''" "target_text_ok (lit ''localhost'')"
    by (simp_all add: lit_def trim_def drop_while_end_def target_text_ok_def byte_len_def as_bytes_def is_whitespace_def)
  then show ?thesis by (simp add: validate_local_host_ok loopback_target_def)
qed

lemma sample_request_valid: "validate_create (s_config sample_state) sample_request = Inr ()"
proof -
  have "trim (lit '' ssh '') \<noteq> []" "char_count (lit '' ssh '') \<le> 80"
    by (simp_all add: lit_def trim_def drop_while_end_def is_whitespace_def char_count_def)
  then show ?thesis
    by (simp add: validate_create_def sample_request_def localhost_valid validate_kind_scheme_def)
qed

text \<open>
  \<open>create\<close> with an automatic port, on any database that does not fault: the tunnel gets the least
  port of the pool that no tunnel of the same kind uses and its row is appended, and when the pool is
  exhausted the answer is a conflict and nothing changes. No request fails on the unique index.
\<close>

theorem create_auto_port:
  assumes "db_faults (s_db s) = []" and "validate_create (s_config s) q = Inr ()"
    and "cr_kind q \<noteq> KWeb" "cr_remote_port q = None"
    and "db_foreign_keys (s_db s) \<longrightarrow> l_uuid_text L agent \<in> dr_id ` set (db_devices (s_db s))"
    and "\<forall>r \<in> set (db_tunnels (s_db s)). tr_id r \<noteq> l_uuid_text L i"
  shows "create L i now agent q s =
     (case find (\<lambda>p. p \<notin> used_ports (cr_kind q) (s_db s)) (port_pool (s_config s)) of
        None \<Rightarrow> (Inl (Conflict (lit ''public port pool is exhausted'')), s)
      | Some p \<Rightarrow>
          (Inr (new_tunnel i now agent q (Some p) None),
           s\<lparr>s_db := (s_db s)\<lparr>db_tunnels := db_tunnels (s_db s) @
               [tunnel_to_row L (new_tunnel i now agent q (Some p) None)]\<rparr>\<rparr>))"
proof -
  let ?P = "\<lambda>p. p \<notin> used_ports (cr_kind q) (s_db s)"
  let ?row = "\<lambda>p. tunnel_to_row L (new_tunnel i now agent q (Some p) None)"
  have alloc: "allocate_port (cr_kind q) s =
      (ok_or (find ?P (port_pool (s_config s))) (Conflict (lit ''public port pool is exhausted'')), s)"
    using assms(1) by (simp add: allocate_port_def seq_def db_do_def on_db_def map_err_def select_def act_simps)
  have host: "chosen_host (s_config s) q = Inr None"
    using assms(3) by (simp add: chosen_host_Inr)
  show ?thesis
  proof (cases "find ?P (port_pool (s_config s))")
    case None
    then have "chosen_port (s_config s) q s = (Inl (Conflict (lit ''public port pool is exhausted'')), s)"
      using alloc assms(3,4) by (cases "cr_kind q") (simp_all add: chosen_port_def seq_def)
    then show ?thesis using None assms(2) by (simp add: create_def seq_def act_simps)
  next
    case (Some p)
    then have "chosen_port (s_config s) q s = (Inr (Some p), s)"
      using alloc assms(3,4) by (cases "cr_kind q") (simp_all add: chosen_port_def seq_def act_simps)
    then have c: "create L i now agent q s =
        seq (map_err (write_result ''public endpoint is already allocated'') (on_db (insert_tunnel (?row p))))
          (\<lambda>_. ok (new_tunnel i now agent q (Some p) None)) s"
      using assms(2) host by (simp add: create_def seq_def act_simps Let_def)
    note l = least_in_pool [OF Some]
    have "tunnel_ok (s_config s) (new_tunnel i now agent q (Some p) None)"
      unfolding new_tunnel_def using created_ok [OF assms(2)] assms(3) l(2,3) by simp
    then have check: "tunnels_check (?row p)" by (rule tunnel_row_check)
    have free: "\<not> tunnels_conflict (?row p) r" if "r \<in> set (db_tunnels (s_db s))" for r
    proof
      assume "tunnels_conflict (?row p) r"
      moreover have "l_uuid_text L i \<noteq> tr_id r" using assms(6) that by metis
      ultimately have "tr_kind r = kind_str (cr_kind q)" "tr_remote_port r = Some (uint p)"
        by (auto simp: tunnels_conflict_def tunnel_to_row_def)
      then have "p \<in> used_ports (cr_kind q) (s_db s)" using that by (rule used_portsI)
      then show False using l(1) by simp
    qed
    have "insert_tunnel (?row p) (s_db s) = (Inr (), (s_db s)\<lparr>db_tunnels := db_tunnels (s_db s) @ [?row p]\<rparr>)"
      using assms(1,5) check free by (auto simp: insert_tunnel_def list_ex_iff tunnel_to_row_def)
    then show ?thesis
      unfolding c using Some by (simp add: seq_def map_err_def on_db_def act_simps)
  qed
qed

theorem create_auto_port_witness:
  "fst (create sample_lib 1 0 7 sample_request sample_state) =
     Inr (new_tunnel 1 0 7 sample_request (Some 20000) None)"
proof -
  note v = sample_request_valid
  have f: "find (\<lambda>p. p \<notin> used_ports (cr_kind sample_request) (s_db sample_state)) (port_pool (s_config sample_state)) = Some 20000"
    by (simp add: used_ports_def sample_database_def port_pool_def sample_config_def upt_rec)
  have p: "db_faults (s_db sample_state) = []" "cr_kind sample_request \<noteq> KWeb"
    "cr_remote_port sample_request = None"
    "db_foreign_keys (s_db sample_state) \<longrightarrow>
       l_uuid_text sample_lib 7 \<in> dr_id ` set (db_devices (s_db sample_state))"
    "\<forall>r \<in> set (db_tunnels (s_db sample_state)). tr_id r \<noteq> l_uuid_text sample_lib 1"
    by (simp_all add: sample_database_def sample_request_def sample_device_def sample_lib_def)
  show ?thesis
    using create_auto_port [OF p(1) v p(2-5), of 0] unfolding f by simp
qed

lemma source_allowed_eq:
  "source_allowed L t a \<longleftrightarrow>
     t_access_mode t = Public \<or> (\<exists>n \<in> set (t_allowed_cidrs t). l_net_contains L n (canonical a))"
proof -
  have "(case a of V6 v \<Rightarrow> (case to_ipv4_mapped v of Some w \<Rightarrow> V4 w | None \<Rightarrow> V6 v) | a \<Rightarrow> a) = canonical a"
    by (cases a) (simp_all add: canonical_def)
  then show ?thesis
    by (cases "t_access_mode t") (simp_all add: source_allowed_def Let_def list_ex_iff)
qed

interpretation source_filter: address_gate "source_allowed L t" for L t
  by unfold_locales (simp add: source_allowed_eq)

text \<open>
  The source filter of a tunnel: a public tunnel admits every address, an allowlist tunnel exactly
  the addresses some listed network contains, and an IPv4 client is judged by its IPv4 address also
  when the socket reports the IPv4-mapped IPv6 form.
\<close>

theorem source_filter_spec:
  "(source_allowed L t a \<longleftrightarrow>
      t_access_mode t = Public \<or> list_ex (\<lambda>n. l_net_contains L n (canonical a)) (t_allowed_cidrs t)) \<and>
   source_allowed L t (V6 (ipv4_mapped w)) = source_allowed L t (V4 w)"
  using source_filter.gate_mapped by (auto simp: source_allowed_eq list_ex_iff)

text \<open>
  C27. Every tunnel \<open>create\<close> returns is well-formed: a trimmed name of 1 to 80 characters, a non-zero local
  port, a scheme that fits the kind, a port of the pool (port tunnels) or a DNS label under the base
  domain (web tunnels), a non-empty allowlist in allowlist mode; it belongs to the requesting agent,
  it points at the local machine unless LAN targets were confirmed, its row is appended to the table
  and no tunnel that was there uses its endpoint.
\<close>

theorem create_result:
  assumes "create L i now agent q s = (Inr t, s')"
  shows "tunnel_ok (s_config s) t \<and> t_id t = i \<and> t_agent_id t = agent \<and> t_kind t = cr_kind q \<and>
     (cr_allow_lan_target q \<or> loopback_target (t_local_host t)) \<and>
     db_tunnels (s_db s') = db_tunnels (s_db s) @ [tunnel_to_row L t] \<and>
     \<not> list_ex (tunnels_conflict (tunnel_to_row L t)) (db_tunnels (s_db s))"
proof -
  obtain remote host fs where s: "validate_create (s_config s) q = Inr ()"
    "t = new_tunnel i now agent q remote host"
    "s' = s\<lparr>s_db := (s_db s)\<lparr>db_faults := fs, db_tunnels := db_tunnels (s_db s) @ [tunnel_to_row L t]\<rparr>\<rparr>"
    "\<not> list_ex (tunnels_conflict (tunnel_to_row L t)) (db_tunnels (s_db s))"
    using assms by (rule create_Inr)
  then show ?thesis using create_tunnel_ok [OF assms] validate_create_ok(5) [OF s(1)] by simp
qed

definition sample_web_request :: create_tunnel_request where
  "sample_web_request =
     \<lparr>cr_name = lit ''My Site'', cr_local_host = lit ''localhost'', cr_local_port = 80, cr_kind = KWeb,
      cr_local_scheme = SHttp, cr_remote_port = None, cr_hostname = Some (lit ''Blog.tb.io.''),
      cr_access_mode = Public, cr_allowed_cidrs = [], cr_enabled = True, cr_allow_lan_target = False\<rparr>"

lemma sample_web_hostname: "normalize_hostname sample_config (lit ''Blog.tb.io.'') = Inr (lit ''blog.tb.io'')"
proof -
  have "slug_of sample_config (lit ''Blog.tb.io.'') = lit ''blog''"
    by (simp add: slug_of_def sample_config_def lit_def trim_def trim_end_matches_def drop_while_end_def
        is_whitespace_def to_ascii_lowercase_def is_ascii_upper_def strip_suffix_def ends_with_def unwrap_or_def Let_def)
  moreover have "dns_label (lit ''blog'')"
    by (simp add: dns_label_def lit_def is_ascii_lower_def)
  ultimately show ?thesis by (simp add: normalize_hostname_eq sample_config_def lit_def)
qed

lemma create_sample_web:
  "create sample_lib 1 0 7 sample_web_request sample_state =
      (Inr (new_tunnel 1 0 7 sample_web_request None (Some (lit ''blog.tb.io''))),
       sample_state\<lparr>s_db := sample_database\<lparr>db_tunnels :=
         [tunnel_to_row sample_lib (new_tunnel 1 0 7 sample_web_request None (Some (lit ''blog.tb.io'')))]\<rparr>\<rparr>)"
proof -
  have "trim (lit ''My Site'') \<noteq> []" "char_count (lit ''My Site'') \<le> 80"
    by (simp_all add: lit_def trim_def drop_while_end_def is_whitespace_def char_count_def)
  then show ?thesis
    by (simp add: create_def seq_def act_simps validate_create_def sample_web_request_def localhost_valid
        validate_kind_scheme_def sample_web_hostname unwrap_or_def chosen_port_def chosen_host_def
        map_err_def on_db_def insert_tunnel_def sample_database_def sample_device_def new_tunnel_def
        tunnel_to_row_def tunnels_check_def kind_str_def scheme_str_def sample_lib_def Let_def)
qed

theorem create_result_witness:
  "\<exists>t s'. create sample_lib 1 0 7 sample_web_request sample_state = (Inr t, s') \<and>
     t_hostname t = Some (lit ''blog.tb.io'') \<and> tunnel_ok sample_config t"
  using create_result [OF create_sample_web] create_sample_web by simp

text \<open>
  Every tunnel \<open>update\<close> returns on a table of well-formed tunnels is again well-formed; its id, owner,
  kind and creation time are those of the tunnel that was read, an owner only reaches its own tunnels,
  and the local target changes only to the local machine or with LAN targets confirmed.
\<close>

theorem update_result:
  assumes "codecs_ok L" and "tunnels_ok L s" and "update L now i owner q s = (Inr t, s')"
  shows "\<exists>t0. list_ex (\<lambda>r. row_to_tunnel L r = Inr t0) (db_tunnels (s_db s)) \<and>
     tunnel_ok (s_config s) t \<and> t_id t = i \<and> t_id t0 = i \<and> t_agent_id t = t_agent_id t0 \<and>
     t_kind t = t_kind t0 \<and> t_created_at t = t_created_at t0 \<and> t_updated_at t = now \<and>
     (owner = None \<or> owner = Some (t_agent_id t)) \<and>
     (t_local_host t = t_local_host t0 \<or> ur_allow_lan_target q \<or> loopback_target (t_local_host t))"
proof -
  obtain t0 t1 r where s:
    "find (\<lambda>r. tr_id r = l_uuid_text L i) (db_tunnels (s_db s)) = Some r" "row_to_tunnel L r = Inr t0"
    "owner_check owner t0 = Inr ()" "apply_update (s_config s) q t0 = Inr t1" "t = t1\<lparr>t_updated_at := now\<rparr>"
    using assms(3) by (rule update_Inr)
  have "list_ex (\<lambda>r. row_to_tunnel L r = Inr t0) (db_tunnels (s_db s))"
    using s(1,2) by (auto simp: find_Some_iff list_ex_iff intro: nth_mem)
  moreover have "owner = None \<or> owner = Some (t_agent_id t0)"
    using s(3) by (auto simp: owner_check_def split: option.splits)
  moreover note update_result_ok [OF assms(2,1,3)] apply_update_fixed [OF s(4)] apply_update_target [OF s(4)] s(5)
  ultimately show ?thesis by (intro exI [of _ t0]) auto
qed

definition sample_tunnel :: tunnel where
  "sample_tunnel = new_tunnel 1 0 7 sample_request (Some 20000) None"

definition sample_busy :: app_state where
  "sample_busy = sample_state\<lparr>s_db := sample_database\<lparr>db_tunnels := [tunnel_to_row sample_lib sample_tunnel]\<rparr>\<rparr>"

definition sample_update :: update_tunnel_request where
  "sample_update =
     \<lparr>ur_name = None, ur_local_host = None, ur_local_port = Some 2222, ur_kind = None,
      ur_local_scheme = None, ur_remote_port = Some 20001, ur_hostname = None, ur_access_mode = None,
      ur_allowed_cidrs = None, ur_enabled = Some False, ur_allow_lan_target = False\<rparr>"

lemma sample_codecs: "codecs_ok sample_lib"
  by (simp add: codecs_ok_def sample_uuid_text sample_cidrs_json)

lemma sample_tunnel_ok: "tunnel_ok sample_config sample_tunnel"
proof -
  have "trim (lit '' ssh '') = lit ''ssh''" "trim (lit ''ssh'') = lit ''ssh''"
    "trim (lit ''localhost'') = lit ''localhost''" "target_text_ok (lit ''localhost'')"
    by (simp_all add: lit_def trim_def drop_while_end_def target_text_ok_def byte_len_def as_bytes_def is_whitespace_def)
  then show ?thesis
    by (simp add: tunnel_ok_def sample_tunnel_def new_tunnel_def sample_request_def endpoint_ok_def
        char_count_def scheme_fits_def sample_config_def)
      (simp add: lit_def)
qed

lemma sample_busy_ok: "tunnels_ok sample_lib sample_busy" "schema_ok (s_db sample_busy)"
  using sample_tunnel_ok tunnel_row_check [OF sample_tunnel_ok, of sample_lib]
  by (auto simp: tunnels_ok_def sample_busy_def stored_def sample_time schema_ok_def sample_database_def)

lemma sample_busy_read:
  "find (\<lambda>r. tr_id r = l_uuid_text sample_lib 1) (db_tunnels (s_db sample_busy)) =
     Some (tunnel_to_row sample_lib sample_tunnel)"
  "row_to_tunnel sample_lib (tunnel_to_row sample_lib sample_tunnel) = Inr (stored_status sample_tunnel)"
  using row_round_trip [OF sample_codecs sample_time sample_time, of sample_tunnel]
  by (simp_all add: sample_busy_def tunnel_to_row_def sample_tunnel_def)

lemma sample_busy_get: "get_tunnel sample_lib 1 sample_busy = (Inr (stored_status sample_tunnel), sample_busy)"
  using sample_busy_read
  by (simp add: get_tunnel_def seq_def db_do_def on_db_def map_err_def select_def act_simps)
    (simp add: sample_busy_def sample_database_def act_simps)

theorem update_result_witness:
  "\<exists>t s'. update sample_lib 5 1 (Some 7) sample_update sample_busy = (Inr t, s') \<and>
     t_remote_port t = Some 20001 \<and> \<not> t_enabled t \<and> tunnel_ok sample_config t"
proof -
  let ?t = "(stored_status sample_tunnel)\<lparr>t_local_port := 2222, t_remote_port := Some 20001, t_enabled := False\<rparr>"
  have "validate_tunnel ?t = Inr ()"
    using sample_tunnel_ok by (auto simp: validate_tunnel_ok tunnel_ok_def stored_status_def sample_tunnel_def
        new_tunnel_def sample_request_def)
  then have a: "apply_update sample_config sample_update (stored_status sample_tunnel) = Inr ?t"
    by (simp add: apply_update_def sample_update_def if_let_def set_local_port_def set_remote_port_def
        set_options_def validate_remote_port_def sample_config_def)
      (simp add: sample_tunnel_def sample_request_def)
  have o: "owner_check (Some 7) (stored_status sample_tunnel) = Inr ()"
    by (simp add: owner_check_def sample_tunnel_def)
  have w: "on_db (update_tunnel_row (l_uuid_text sample_lib 1) (assign_row sample_lib (?t\<lparr>t_updated_at := 5\<rparr>))) sample_busy =
      (Inr (), sample_busy\<lparr>s_db := (s_db sample_busy)\<lparr>db_tunnels :=
        [assign_row sample_lib (?t\<lparr>t_updated_at := 5\<rparr>) (tunnel_to_row sample_lib sample_tunnel)]\<rparr>\<rparr>)"
    by (simp add: on_db_def update_tunnel_row_def sample_busy_def sample_database_def update_row_def
        tunnels_check_def assign_row_def tunnel_to_row_def sample_tunnel_def new_tunnel_def sample_request_def
        stored_status_def kind_str_def scheme_str_def)
  have i: "t_id sample_tunnel = 1" by (simp add: sample_tunnel_def)
  have c: "s_config sample_busy = sample_config" by (simp add: sample_busy_def)
  obtain s' where u: "update sample_lib 5 1 (Some 7) sample_update sample_busy = (Inr (?t\<lparr>t_updated_at := 5\<rparr>), s')"
    unfolding update_def
    by (simp add: seq_def act_simps sample_busy_get o c a w i Let_def map_err_def)
  from update_result [OF sample_codecs sample_busy_ok(1) u] c
  have "tunnel_ok sample_config (?t\<lparr>t_updated_at := 5\<rparr>)" by auto
  with u show ?thesis by (intro exI conjI) (assumption, simp_all)
qed

text \<open>
  C8. In every state the tunnel operations can reach from an empty table, whatever fails on the way:
  every row is the image of a well-formed tunnel, and no two tunnels share an id, a port of the same
  kind, or a host name (compared without case).
\<close>

theorem tunnel_table_safe:
  assumes "codecs_ok L" and "table_start s" and "(tunnel_step L)\<^sup>*\<^sup>* s s'"
  shows "list_all (stored L (s_config s')) (db_tunnels (s_db s')) \<and> pairwise_free (db_tunnels (s_db s'))"
  using table.reachable_inv [OF assms(2,3)] assms(1)
  by (simp add: table_inv_def tunnels_ok_def schema_ok_def list_all_iff)

theorem tunnel_table_safe_witness:
  "\<exists>s'. (tunnel_step sample_lib)\<^sup>*\<^sup>* sample_state s' \<and> db_tunnels (s_db s') \<noteq> [] \<and>
     list_all (stored sample_lib (s_config s')) (db_tunnels (s_db s'))"
proof -
  have st: "table_start sample_state"
    by (simp add: table_start_def schema_ok_def sample_database_def)
  obtain r s' where c: "create sample_lib 1 0 7 sample_web_request sample_state = (r, s')"
    by (cases "create sample_lib 1 0 7 sample_web_request sample_state")
  have "\<exists>t. r = Inr t" using c create_sample_web by auto
  then obtain t where "create sample_lib 1 0 7 sample_web_request sample_state = (Inr t, s')" using c by auto
  then have "db_tunnels (s_db s') \<noteq> []" by (rule create_Inr) auto
  moreover have "tunnel_step sample_lib sample_state s'"
    using sample_time c by (rule step_create)
  then have "(tunnel_step sample_lib)\<^sup>*\<^sup>* sample_state s'" by simp
  ultimately show ?thesis using tunnel_table_safe [OF sample_codecs st] by blast
qed

text \<open>
  Ownership: \<open>update\<close> and \<open>delete\<close> on behalf of an agent answer a tunnel of another agent exactly as
  they answer an id that does not exist, and leave every table as it was.
\<close>

theorem foreign_tunnel_hidden:
  assumes "get_tunnel L i s = (Inr t, s1)" and "t_agent_id t \<noteq> agent"
  shows "fst (update L now i (Some agent) q s) = Inl NotFound \<and>
     fst (delete_tunnel L i (Some agent) s) = Inl NotFound \<and>
     untouched s (snd (update L now i (Some agent) q s)) \<and>
     untouched s (snd (delete_tunnel L i (Some agent) s))"
proof -
  have "owner_check (Some agent) t = Inl NotFound" using assms(2) by (simp add: owner_check_def)
  then have "update L now i (Some agent) q s = (Inl NotFound, s1)"
    "delete_tunnel L i (Some agent) s = (Inl NotFound, s1)"
    using assms(1) by (simp_all add: update_def delete_tunnel_def seq_def act_simps)
  moreover have "untouched s s1" using reads_queries(1) assms(1) by (rule readsD)
  ultimately show ?thesis by simp
qed

theorem foreign_tunnel_hidden_witness:
  "fst (delete_tunnel sample_lib 1 (Some 8) sample_busy) = Inl NotFound"
  using foreign_tunnel_hidden [OF sample_busy_get, of 8] by (simp add: sample_tunnel_def)

text \<open>
  An error leaves the database as it was: whichever check, statement or constraint refuses a
  \<open>create\<close>, \<open>update\<close> or \<open>delete\<close>, no table and no other part of the state has changed.
\<close>

theorem tunnel_errors_change_nothing:
  "(create L i now agent q s = (Inl e, s1) \<longrightarrow> untouched s s1) \<and>
   (update L now i owner u s = (Inl e, s2) \<longrightarrow> untouched s s2) \<and>
   (delete_tunnel L i owner s = (Inl e, s3) \<longrightarrow> untouched s s3)"
  using create_atomic update_atomic delete_atomic by (blast dest: atomicD)

theorem tunnel_errors_change_nothing_witness:
  "untouched sample_state (snd (delete_tunnel sample_lib 1 None sample_state))"
proof -
  have "\<exists>s'. delete_tunnel sample_lib 1 None sample_state = (Inl NotFound, s')"
    by (simp add: delete_tunnel_def get_tunnel_def seq_def db_do_def on_db_def map_err_def select_def
        act_simps sample_database_def)
  then show ?thesis using tunnel_errors_change_nothing by (metis snd_conv)
qed

lemma find_snoc: "find P xs = None \<Longrightarrow> find P (xs @ ys) = find P ys"
  by (induction xs) (auto split: if_splits)

text \<open>
  What \<open>create\<close> returns is what a following read finds: after a successful \<open>create\<close> with a fresh id,
  \<open>get\<close> on a database that does not fault returns the created tunnel, its status computed from the
  enabled flag.
\<close>

theorem create_then_get:
  assumes "codecs_ok L" "time_text_ok L now" and "create L i now agent q s = (Inr t, s')"
    and "db_faults (s_db s') = []"
  shows "get_tunnel L i s' = (Inr (t\<lparr>t_status := (if t_enabled t then Starting else Stopped)\<rparr>), s')"
proof -
  obtain remote host fs where s: "t = new_tunnel i now agent q remote host"
    "s' = s\<lparr>s_db := (s_db s)\<lparr>db_faults := fs, db_tunnels := db_tunnels (s_db s) @ [tunnel_to_row L t]\<rparr>\<rparr>"
    "\<not> list_ex (tunnels_conflict (tunnel_to_row L t)) (db_tunnels (s_db s))"
    using assms(3) by (rule create_Inr)
  have i: "tr_id (tunnel_to_row L t) = l_uuid_text L i" using s(1) by (simp add: tunnel_to_row_def)
  have "find (\<lambda>r. tr_id r = l_uuid_text L i) (db_tunnels (s_db s)) = None"
    using s(3) i by (auto simp: find_None_iff list_ex_iff tunnels_conflict_def)
  then have "find (\<lambda>r. tr_id r = l_uuid_text L i) (db_tunnels (s_db s')) = Some (tunnel_to_row L t)"
    using s(2) i by (simp add: find_snoc)
  moreover have "row_to_tunnel L (tunnel_to_row L t) = Inr (stored_status t)"
    using assms(1,2) s(1) by (intro row_round_trip) simp_all
  ultimately show ?thesis
    using assms(4)
    by (simp add: get_tunnel_def seq_def db_do_def on_db_def map_err_def select_def act_simps stored_status_def)
qed

theorem create_then_get_witness:
  "\<exists>t s'. create sample_lib 1 0 7 sample_web_request sample_state = (Inr t, s') \<and>
     get_tunnel sample_lib 1 s' = (Inr (t\<lparr>t_status := Starting\<rparr>), s')"
proof -
  obtain t s' where c: "create sample_lib 1 0 7 sample_web_request sample_state = (Inr t, s')"
      "t_enabled t" "db_faults (s_db s') = []"
    using create_sample_web by (simp add: sample_database_def new_tunnel_def sample_web_request_def)
  with create_then_get [OF sample_codecs sample_time c(1,3)] show ?thesis by auto
qed

text \<open>
  Normalising a host name is idempotent: the name it returns (a DNS label in lower case under the base
  domain) normalises to itself, so \<open>update\<close> with the stored name never moves a web tunnel.
\<close>

theorem normalize_hostname_idempotent:
  assumes "normalize_hostname c input = Inr h" and "base_domain_ok (c_web_base_domain c)"
    and "c_web_base_domain c \<noteq> [] \<longrightarrow> \<not> is_whitespace (last (c_web_base_domain c))"
  shows "normalize_hostname c h = Inr h"
  using normalize_hostname_fixed [OF normalize_hostname_ok [OF assms(1)] assms(2)] assms(3) by blast

theorem normalize_hostname_idempotent_witness:
  "normalize_hostname sample_config (lit ''blog.tb.io'') = Inr (lit ''blog.tb.io'')"
  by (rule normalize_hostname_idempotent [OF sample_web_hostname])
    (simp_all add: base_domain_ok_def sample_config_def lit_def is_ascii_upper_def is_whitespace_def)

end
