(* ===== verification/Auth.thy ===== *)
theory Auth
  imports State
begin

text \<open>
  Authentication (server/src/auth.rs): the login limiter, administrator sessions and their cookie, the
  checks every administrative request passes, and device tokens. The clock readings and the random
  secrets are arguments.
\<close>

section \<open>Headers\<close>

text \<open>
  A \<open>HeaderMap\<close> as the list of its entries, names in lower case, each value as \<open>HeaderValue::to_str\<close>
  gives it (\<open>None\<close> when it holds something else than visible ASCII). \<open>get\<close> finds the first entry.
\<close>

type_synonym headers = "(ustr \<times> ustr option) list"

definition header_get :: "headers \<Rightarrow> string \<Rightarrow> ustr option option" where
  "header_get h name = map_of h (lit name)"

definition header_str :: "headers \<Rightarrow> string \<Rightarrow> ustr option" where
  "header_str h name = (case header_get h name of Some v \<Rightarrow> v | None \<Rightarrow> None)"

datatype http_method = GET | HEAD | OPTIONS | POST | PUT | PATCH | DELETE | OtherMethod ustr

section \<open>Passwords and tokens\<close>

definition hash_token :: "lib \<Rightarrow> ustr \<Rightarrow> ustr" where
  "hash_token L token = l_blake3_hex L (as_bytes token)"

definition verify_password :: "lib \<Rightarrow> ustr \<Rightarrow> ustr \<Rightarrow> bool" where
  "verify_password L encoded candidate = l_verify_password L encoded (as_bytes candidate)"

definition hash_password :: "lib \<Rightarrow> bytes \<Rightarrow> ustr \<Rightarrow> app_error + ustr" where
  "hash_password L salt password =
     ok_or (l_hash_password L salt (as_bytes password)) (Internal ''argon2'')"

section \<open>The login limiter\<close>

definition window_step :: "instant \<Rightarrow> login_window option \<Rightarrow> bool \<times> login_window" where
  "window_step now w =
     (case w of
        Some win \<Rightarrow>
          if now - lw_started_at win > secs 60 then (True, \<lparr>lw_started_at = now, lw_attempts = 1\<rparr>)
          else if lw_attempts win \<ge> 5 then (False, win)
          else (True, win\<lparr>lw_attempts := lw_attempts win + 1\<rparr>)
      | None \<Rightarrow> (True, \<lparr>lw_started_at = now, lw_attempts = 1\<rparr>))"

definition login_allowed :: "instant \<Rightarrow> ustr \<Rightarrow> app_state \<Rightarrow> bool \<times> app_state" where
  "login_allowed now key s =
     (case window_step now (s_login_attempts s key) of
        (b, w) \<Rightarrow> (b, s\<lparr>s_login_attempts := (s_login_attempts s)(key \<mapsto> w)\<rparr>))"

section \<open>Sessions\<close>

definition create_session :: "instant \<Rightarrow> ustr \<Rightarrow> ustr \<Rightarrow> ustr \<Rightarrow> app_state \<Rightarrow> app_state" where
  "create_session now session_id csrf username s =
     s\<lparr>s_sessions := (s_sessions s)(session_id \<mapsto>
         \<lparr>as_username = username, as_csrf_token = csrf,
          as_expires_at = session_expiry now (c_session_ttl (s_config s))\<rparr>)\<rparr>"

definition as_secs :: "duration \<Rightarrow> nat" where
  "as_secs d = d div 1000000000"

definition secure_suffix :: "config \<Rightarrow> ustr" where
  "secure_suffix c = (if c_secure_cookies c then lit ''; Secure'' else [])"

definition session_cookie :: "config \<Rightarrow> ustr \<Rightarrow> ustr" where
  "session_cookie c session_id =
     lit ''tb_session='' @ session_id @ lit ''; Path=/; HttpOnly; SameSite=Strict; Max-Age='' @
     decimal (as_secs (c_session_ttl c)) @ secure_suffix c"

definition clear_session_cookie :: "config \<Rightarrow> ustr" where
  "clear_session_cookie c =
     lit ''tb_session=; Path=/; HttpOnly; SameSite=Strict; Max-Age=0'' @ secure_suffix c"

definition cookie_value :: "headers \<Rightarrow> ustr \<Rightarrow> ustr option" where
  "cookie_value h name =
     (case header_str h ''cookie'' of
        None \<Rightarrow> None
      | Some text \<Rightarrow>
          map_option snd (find (\<lambda>(key, value). key = name)
            (List.map_filter (\<lambda>part. split_once 61 (trim part)) (split_on 59 text))))"

definition safe_method :: "http_method \<Rightarrow> bool" where
  "safe_method m \<longleftrightarrow> m \<in> {GET, HEAD, OPTIONS}"

definition origin_matches :: "lib \<Rightarrow> headers \<Rightarrow> bool" where
  "origin_matches L h =
     (case header_str h ''origin'' of
        None \<Rightarrow> True
      | Some origin \<Rightarrow>
          let host = (case header_str h ''host'' of Some v \<Rightarrow> v | None \<Rightarrow> []) in
          (case l_uri_authority L origin of
             Some authority \<Rightarrow> eq_ignore_ascii_case authority host
           | None \<Rightarrow> False))"

definition require_admin ::
  "lib \<Rightarrow> instant \<Rightarrow> headers \<Rightarrow> http_method \<Rightarrow> (app_state, app_error, ustr \<times> ustr) act" where
  "require_admin L now h m =
     seq (lift (ok_or (cookie_value h (lit ''tb_session'')) Unauthorized)) (\<lambda>session_id.
     seq (peek (\<lambda>s. s_sessions s session_id)) (\<lambda>found.
     seq (lift (ok_or found Unauthorized)) (\<lambda>session.
     if as_expires_at session \<le> now then
       seq (modify (\<lambda>s. s\<lparr>s_sessions := (s_sessions s)(session_id := None)\<rparr>)) (\<lambda>_. fail Unauthorized)
     else
       seq (if safe_method m then ok ()
            else
              seq (lift (ok_or (header_str h ''x-csrf-token'') Forbidden)) (\<lambda>csrf.
              seq (lift (ensure (csrf = as_csrf_token session) Forbidden)) (\<lambda>_.
              lift (ensure (origin_matches L h) Forbidden)))) (\<lambda>_.
       ok (as_username session, as_csrf_token session)))))"

definition remove_session :: "headers \<Rightarrow> app_state \<Rightarrow> app_state" where
  "remove_session h s =
     (case cookie_value h (lit ''tb_session'') of
        Some i \<Rightarrow> s\<lparr>s_sessions := (s_sessions s)(i := None)\<rparr>
      | None \<Rightarrow> s)"

section \<open>Device tokens\<close>

record device_identity =
  di_id :: uuid
  di_name :: ustr

definition authenticate_device_token :: "lib \<Rightarrow> ustr \<Rightarrow> (app_state, app_error, device_identity) act" where
  "authenticate_device_token L token =
     seq (db_do (device_by_token (hash_token L token))) (\<lambda>row.
     seq (lift (ok_or row Unauthorized)) (\<lambda>r.
     seq (lift (ok_or (l_uuid_parse L (dr_id r)) Unauthorized)) (\<lambda>i.
     ok \<lparr>di_id = i, di_name = dr_name r\<rparr>)))"

text \<open>The statement and the checks after the header are written out again in \<open>require_device\<close>.\<close>

definition require_device :: "lib \<Rightarrow> headers \<Rightarrow> (app_state, app_error, device_identity) act" where
  "require_device L h =
     seq (lift (ok_or (Option.bind (header_str h ''authorization'') (strip_prefix (lit ''Bearer ''))) Unauthorized)) (\<lambda>token.
     seq (db_do (device_by_token (hash_token L token))) (\<lambda>row.
     seq (lift (ok_or row Unauthorized)) (\<lambda>r.
     seq (lift (ok_or (l_uuid_parse L (dr_id r)) Unauthorized)) (\<lambda>i.
     ok \<lparr>di_id = i, di_name = dr_name r\<rparr>))))"

section \<open>The limiter over time\<close>

text \<open>
  A sequence of attempts under one key, and the times of those that were let through. Between two
  attempts of the sequence only calls under other keys may happen, which leave the window alone.
\<close>

fun limiter :: "login_window option \<Rightarrow> instant list \<Rightarrow> instant list" where
  "limiter w [] = []"
| "limiter w (t # ts) =
     (case window_step t w of (b, w') \<Rightarrow> if b then t # limiter (Some w') ts else limiter (Some w') ts)"

definition in_span :: "instant \<Rightarrow> instant list \<Rightarrow> nat" where
  "in_span a ts = length (filter (\<lambda>t. a \<le> t \<and> t \<le> a + secs 60) ts)"

lemma in_span_append [simp]: "in_span a (xs @ ys) = in_span a xs + in_span a ys"
  by (simp add: in_span_def)

lemma in_span_le: "in_span a xs \<le> length xs"
  by (simp add: in_span_def)

lemma length_filter_mono: "(\<And>x. x \<in> set xs \<Longrightarrow> P x \<Longrightarrow> Q x) \<Longrightarrow> length (filter P xs) \<le> length (filter Q xs)"
  by (induction xs) (auto simp: le_SucI)

text \<open>
  The bookkeeping behind the bound: \<open>earlier\<close> are the attempts let through in closed windows, \<open>cur\<close>
  those of the current one.
\<close>

definition window_inv :: "instant list \<Rightarrow> instant list \<Rightarrow> login_window option \<Rightarrow> bool" where
  "window_inv earlier cur w =
     (case w of
        None \<Rightarrow> earlier = [] \<and> cur = []
      | Some win \<Rightarrow>
          length cur = unat (lw_attempts win) \<and> length cur \<le> 5 \<and>
          (\<forall>t \<in> set cur. lw_started_at win \<le> t \<and> t \<le> lw_started_at win + secs 60) \<and>
          (\<forall>t \<in> set earlier. t < lw_started_at win) \<and>
          length (filter (\<lambda>t. lw_started_at win \<le> t + secs 60) earlier) \<le> 5 \<and>
          (\<forall>a. in_span a earlier \<le> 10))"

lemma window_bound:
  assumes "window_inv earlier cur (Some win)"
  shows "in_span a (earlier @ cur) \<le> 10"
proof (cases "in_span a cur = 0")
  case True
  then show ?thesis using assms by (simp add: window_inv_def)
next
  case False
  then obtain t where t: "t \<in> set cur" "a \<le> t" "t \<le> a + secs 60"
    by (auto simp: in_span_def filter_empty_conv)
  then have "lw_started_at win \<le> a + secs 60" using assms by (force simp: window_inv_def)
  then have "in_span a earlier \<le> length (filter (\<lambda>t. lw_started_at win \<le> t + secs 60) earlier)"
    unfolding in_span_def by (intro length_filter_mono) auto
  then show ?thesis
    using assms in_span_le [of a cur] by (simp add: window_inv_def)
qed

lemma window_step_inv:
  assumes inv: "window_inv earlier cur w" and later: "\<And>win. w = Some win \<Longrightarrow> lw_started_at win \<le> t"
    and step: "window_step t w = (b, w')"
  obtains (let_in) earlier' cur' where "b" "earlier' @ cur' = earlier @ cur @ [t]" "window_inv earlier' cur' (Some w')"
    | (refused) "\<not> b" "window_inv earlier cur (Some w')"
proof (cases w)
  case None
  with inv step show ?thesis
    by (intro let_in [of "[]" "[t]"]) (auto simp: window_step_def window_inv_def in_span_def)
next
  case (Some win)
  note inv' = inv [unfolded Some]
  consider (new) "secs 60 < t - lw_started_at win"
    | (full) "t - lw_started_at win \<le> secs 60" "5 \<le> lw_attempts win"
    | (room) "t - lw_started_at win \<le> secs 60" "\<not> 5 \<le> lw_attempts win"
    by linarith
  then show ?thesis
  proof cases
    case new
    have old: "\<forall>x \<in> set (earlier @ cur). x + secs 60 < t \<or> x \<in> set cur"
      using inv' new by (auto simp: window_inv_def)
    have before: "\<forall>x \<in> set (earlier @ cur). x < t"
      using inv' new by (auto simp: window_inv_def)
    have "length (filter (\<lambda>x. t \<le> x + secs 60) earlier) = 0"
      using inv' new by (auto simp: window_inv_def filter_empty_conv)
    moreover have "length (filter (\<lambda>x. t \<le> x + secs 60) cur) \<le> 5"
      by (rule le_trans [OF length_filter_le]) (use inv' in \<open>simp add: window_inv_def\<close>)
    ultimately have "length (filter (\<lambda>x. t \<le> x + secs 60) (earlier @ cur)) \<le> 5"
      by simp
    then have "window_inv (earlier @ cur) [t] (Some \<lparr>lw_started_at = t, lw_attempts = 1\<rparr>)"
      using before window_bound [OF inv'] by (auto simp: window_inv_def)
    then show ?thesis using new step Some by (intro let_in [of "earlier @ cur" "[t]"]) (auto simp: window_step_def)
  next
    case full
    then show ?thesis using inv' step Some by (intro refused) (auto simp: window_step_def)
  next
    case room
    have u: "unat (lw_attempts win + 1) = Suc (unat (lw_attempts win))" "Suc (unat (lw_attempts win)) \<le> 5"
      using room(2) by (auto simp: word_le_nat_alt unat_word_ariths)
    have "t \<le> lw_started_at win + secs 60" using room(1) by simp
    then have "window_inv earlier (cur @ [t]) (Some (win\<lparr>lw_attempts := lw_attempts win + 1\<rparr>))"
      using inv' u later [OF Some] by (simp add: window_inv_def)
    then show ?thesis using room step Some by (intro let_in [of earlier "cur @ [t]"]) (auto simp: window_step_def)
  qed
qed

lemma limiter_bound:
  "window_inv earlier cur w \<Longrightarrow> sorted ts \<Longrightarrow> (\<And>win t. w = Some win \<Longrightarrow> t \<in> set ts \<Longrightarrow> lw_started_at win \<le> t) \<Longrightarrow>
     in_span a (earlier @ cur @ limiter w ts) \<le> 10"
proof (induction ts arbitrary: earlier cur w)
  case Nil
  then show ?case
    using window_bound [of earlier cur] by (cases w) (auto simp: window_inv_def in_span_def)
next
  case (Cons t ts)
  obtain b w' where step: "window_step t w = (b, w')" by (cases "window_step t w")
  have later: "lw_started_at win \<le> t'" if "w' = win" "t' \<in> set ts" for win t'
    using step Cons.prems(2) Cons.prems(3) [of _ t'] that
    by (auto simp: window_step_def split: option.splits if_splits)
  have started: "\<And>win. w = Some win \<Longrightarrow> lw_started_at win \<le> t" using Cons.prems(3) by simp
  show ?case
  proof (rule window_step_inv [OF Cons.prems(1) _ step])
    show "\<And>win. w = Some win \<Longrightarrow> lw_started_at win \<le> t" by (rule started)
    fix earlier' cur'
    assume a: b "earlier' @ cur' = earlier @ cur @ [t]" "window_inv earlier' cur' (Some w')"
    have "in_span a (earlier' @ cur' @ limiter (Some w') ts) \<le> 10"
      using Cons.prems(2) later by (intro Cons.IH a(3)) auto
    moreover have "earlier @ cur @ limiter w (t # ts) = (earlier @ cur @ [t]) @ limiter (Some w') ts"
      using a(1) step by simp
    ultimately show ?case unfolding a(2) [symmetric] by simp
  next
    assume a: "\<not> b" "window_inv earlier cur (Some w')"
    have "in_span a (earlier @ cur @ limiter (Some w') ts) \<le> 10"
      using Cons.prems(2) later by (intro Cons.IH a(2)) auto
    then show ?case using a(1) step by simp
  qed
qed

text \<open>The sequence of calls on the shared state, other keys in between.\<close>

fun attempts :: "ustr \<Rightarrow> (instant \<times> ustr) list \<Rightarrow> app_state \<Rightarrow> instant list" where
  "attempts key [] s = []"
| "attempts key ((t, k) # calls) s =
     (case login_allowed t k s of
        (b, s') \<Rightarrow> if k = key \<and> b then t # attempts key calls s' else attempts key calls s')"

lemma login_allowed_window:
  "s_login_attempts (snd (login_allowed t k s)) key =
     (if k = key then Some (snd (window_step t (s_login_attempts s key))) else s_login_attempts s key)"
  "fst (login_allowed t k s) = fst (window_step t (s_login_attempts s k))"
  by (auto simp: login_allowed_def split: prod.splits)

lemma attempts_limiter:
  "attempts key calls s = limiter (s_login_attempts s key) (map fst (filter (\<lambda>c. snd c = key) calls))"
proof (induction calls arbitrary: s)
  case (Cons c calls)
  obtain t k where c: "c = (t, k)" by (cases c)
  obtain b s' where l: "login_allowed t k s = (b, s')" by (cases "login_allowed t k s")
  have s': "s_login_attempts s' key =
      (if k = key then Some (snd (window_step t (s_login_attempts s key))) else s_login_attempts s key)"
    "b = fst (window_step t (s_login_attempts s k))"
    using login_allowed_window [of t k s] l by simp_all
  show ?case
    using l s' by (cases "window_step t (s_login_attempts s key)") (auto simp: c Cons.IH)
qed simp

section \<open>Requests of an administrator\<close>

text \<open>The conditions \<open>require_admin\<close> checks on a live session.\<close>

definition request_ok :: "lib \<Rightarrow> headers \<Rightarrow> http_method \<Rightarrow> admin_session \<Rightarrow> bool" where
  "request_ok L h m session \<longleftrightarrow>
     safe_method m \<or> header_str h ''x-csrf-token'' = Some (as_csrf_token session) \<and> origin_matches L h"

lemma require_admin_cases:
  "require_admin L now h m s =
     (case Option.bind (cookie_value h (lit ''tb_session'')) (s_sessions s) of
        None \<Rightarrow> (Inl Unauthorized, s)
      | Some session \<Rightarrow>
          if as_expires_at session \<le> now
          then (Inl Unauthorized,
                s\<lparr>s_sessions := (s_sessions s)(the (cookie_value h (lit ''tb_session'')) := None)\<rparr>)
          else if request_ok L h m session then (Inr (as_username session, as_csrf_token session), s)
          else (Inl Forbidden, s))"
proof (cases "cookie_value h (lit ''tb_session'')")
  case None
  then show ?thesis by (simp add: require_admin_def seq_def act_simps)
next
  case (Some i)
  show ?thesis
  proof (cases "s_sessions s i")
    case None
    with Some show ?thesis by (simp add: require_admin_def seq_def act_simps)
  next
    case s: (Some session)
    show ?thesis
    proof (cases "safe_method m")
      case True
      with Some s show ?thesis by (simp add: require_admin_def seq_def act_simps request_ok_def)
    next
      case False
      show ?thesis
      proof (cases "header_str h ''x-csrf-token''")
        case None
        with Some s False show ?thesis by (simp add: require_admin_def seq_def act_simps request_ok_def)
      next
        case c: (Some csrf)
        with Some s False show ?thesis
          by (simp add: require_admin_def seq_def act_simps request_ok_def ensure_def)
      qed
    qed
  qed
qed

lemma require_admin_Inr:
  "require_admin L now h m s = (Inr (user, csrf), s') \<longleftrightarrow>
     s' = s \<and> (\<exists>i session. cookie_value h (lit ''tb_session'') = Some i \<and> s_sessions s i = Some session \<and>
       now < as_expires_at session \<and> request_ok L h m session \<and>
       user = as_username session \<and> csrf = as_csrf_token session)"
  by (cases "cookie_value h (lit ''tb_session'')"; cases "s_sessions s (the (cookie_value h (lit ''tb_session'')))")
    (auto simp: require_admin_cases not_le)

lemma device_lookup:
  assumes "db_do (device_by_token k) s = (Inr row, s1)"
  shows "untouched s s1"
    "row = find (\<lambda>r. dr_token_hash r = k \<and> \<not> dr_revoked r) (db_devices (s_db s))"
  using assms unfolding device_by_token_def
  by (auto simp: db_do_eq_Inr untouched_def dest!: select_eq_Inr)

lemma authenticate_Inr:
  assumes "authenticate_device_token L token s = (Inr d, s')"
  shows "untouched s s' \<and> (\<exists>r \<in> set (db_devices (s_db s)).
     dr_token_hash r = hash_token L token \<and> \<not> dr_revoked r \<and>
     l_uuid_parse L (dr_id r) = Some (di_id d) \<and> di_name d = dr_name r)"
proof -
  obtain row s1 r i where a: "db_do (device_by_token (hash_token L token)) s = (Inr row, s1)"
    "row = Some r" "l_uuid_parse L (dr_id r) = Some i" "d = \<lparr>di_id = i, di_name = dr_name r\<rparr>" "s' = s1"
    using assms unfolding authenticate_device_token_def by (auto simp: seq_eq_Inr act_simps)
  note l = device_lookup [OF a(1)]
  have "r \<in> set (db_devices (s_db s))" "dr_token_hash r = hash_token L token" "\<not> dr_revoked r"
    using l(2) [symmetric] unfolding a(2) by (auto simp: find_Some_iff)
  then show ?thesis using l(1) a(3-5) by auto
qed

lemma require_device_authenticates:
  "require_device L h s =
     (case Option.bind (header_str h ''authorization'') (strip_prefix (lit ''Bearer '')) of
        None \<Rightarrow> (Inl Unauthorized, s)
      | Some token \<Rightarrow> authenticate_device_token L token s)"
  by (cases "Option.bind (header_str h ''authorization'') (strip_prefix (lit ''Bearer ''))")
    (simp_all add: require_device_def authenticate_device_token_def seq_def act_simps)

lemma reads_authenticate [reads_intros]: "reads (authenticate_device_token L token)"
  unfolding authenticate_device_token_def device_by_token_def by (intro reads_intros)

lemma reads_require_device [reads_intros]: "reads (require_device L h)"
  unfolding require_device_def device_by_token_def by (intro reads_intros)

section \<open>The cookie\<close>

text \<open>
  What a browser sends back for the cookie \<open>session_cookie\<close> sets, possibly after other cookies
  without the same name.
\<close>

lemma cookie_found:
  assumes "header_str h ''cookie'' = Some (lit ''tb_session='' @ i)"
    and "59 \<notin> set i" "i \<noteq> [] \<Longrightarrow> \<not> is_whitespace (last i)"
  shows "cookie_value h (lit ''tb_session'') = Some i"
proof -
  let ?c = "lit ''tb_session='' @ i"
  have e: "?c = lit ''tb_session'' @ 61 # i" by (simp add: lit_def)
  have "59 \<notin> set ?c" using assms(2) by (simp add: lit_def)
  then have "split_on 59 ?c = [?c]" by (rule split_on_no_sep)
  moreover have "trim ?c = ?c"
  proof (rule trim_id)
    show "?c \<noteq> [] \<longrightarrow> \<not> is_whitespace (hd ?c) \<and> \<not> is_whitespace (last ?c)"
      using assms(3) by (cases "i = []") (simp_all add: lit_def is_whitespace_def)
  qed
  moreover have "split_once 61 ?c = Some (lit ''tb_session'', i)"
    unfolding e by (rule split_once_sep) (simp add: lit_def)
  ultimately show ?thesis
    using assms(1) by (simp add: cookie_value_def map_filter_simps)
qed

section \<open>Properties\<close>

lemma limiter_subset: "set (limiter w ts) \<subseteq> set ts"
  by (induction ts arbitrary: w) (auto split: prod.splits if_splits)

lemma open_window_bound:
  "lw_attempts win \<le> 5 \<Longrightarrow> sorted ts \<Longrightarrow> (\<And>t. t \<in> set ts \<Longrightarrow> lw_started_at win \<le> t) \<Longrightarrow>
     length (filter (\<lambda>t. t \<le> lw_started_at win + secs 60) (limiter (Some win) ts)) \<le> 5 - unat (lw_attempts win)"
proof (induction ts arbitrary: win)
  case (Cons t ts)
  consider (new) "secs 60 < t - lw_started_at win"
    | (full) "t - lw_started_at win \<le> secs 60" "5 \<le> lw_attempts win"
    | (room) "t - lw_started_at win \<le> secs 60" "\<not> 5 \<le> lw_attempts win"
    by linarith
  then show ?case
  proof cases
    case new
    have "\<forall>x \<in> set (t # limiter (Some \<lparr>lw_started_at = t, lw_attempts = 1\<rparr>) ts). \<not> x \<le> lw_started_at win + secs 60"
      using new Cons.prems(2) limiter_subset [of _ ts] by fastforce
    then have "filter (\<lambda>x. x \<le> lw_started_at win + secs 60)
        (t # limiter (Some \<lparr>lw_started_at = t, lw_attempts = 1\<rparr>) ts) = []"
      unfolding filter_empty_conv .
    then show ?thesis using new by (simp add: window_step_def del: filter.simps)
  next
    case full
    then show ?thesis using Cons.IH [of win] Cons.prems by (simp add: window_step_def)
  next
    case room
    have u: "unat (lw_attempts win + 1) = Suc (unat (lw_attempts win))" "Suc (unat (lw_attempts win)) \<le> 5"
      using room(2) by (auto simp: word_le_nat_alt unat_word_ariths)
    then have "lw_attempts win + 1 \<le> 5" "t \<le> lw_started_at win + secs 60"
      using room(1) by (simp_all add: word_le_nat_alt)
    then show ?thesis
      using Cons.IH [of "win\<lparr>lw_attempts := lw_attempts win + 1\<rparr>"] Cons.prems room u
      by (simp add: window_step_def)
  qed
qed simp

lemma fresh_window_bound:
  assumes "sorted (t # ts)"
  shows "length (filter (\<lambda>x. x \<le> t + secs 60) (limiter None (t # ts))) \<le> 5"
  using open_window_bound [of "\<lparr>lw_started_at = t, lw_attempts = 1\<rparr>" ts] assms
  by (simp add: window_step_def)

text \<open>
  C28. The login limiter, for any sequence of attempts at non-decreasing times with other keys in
  between, from a state without a window for the key: at most 5 attempts are let through in the
  first minute, and at most 10 in any span of 60 seconds at all (two windows can meet inside it).
\<close>

theorem login_limit:
  assumes "s_login_attempts s key = None" and "sorted (map fst calls)"
    and "map fst (filter (\<lambda>c. snd c = key) calls) = t0 # ts"
  shows "length (filter (\<lambda>t. t \<le> t0 + secs 60) (attempts key calls s)) \<le> 5 \<and>
     length (filter (\<lambda>t. a \<le> t \<and> t \<le> a + secs 60) (attempts key calls s)) \<le> 10"
proof -
  have e: "attempts key calls s = limiter None (t0 # ts)"
    using assms(1,3) by (simp add: attempts_limiter)
  have "sorted (map fst (filter (\<lambda>c. snd c = key) calls))" by (rule sorted_filter) (rule assms(2))
  then have so: "sorted (t0 # ts)" using assms(3) by simp
  then have "in_span a ([] @ [] @ limiter None (t0 # ts)) \<le> 10"
    by (intro limiter_bound) (auto simp: window_inv_def)
  then show ?thesis using fresh_window_bound [OF so] by (simp add: e in_span_def)
qed

theorem login_limit_witness:
  "length (filter (\<lambda>t. t \<le> 0 + secs 60)
     (attempts (lit ''a'') (map (\<lambda>t. (t, lit ''a'')) [0, 1, 2, 3, 4, 5, 6]) sample_state)) \<le> 5"
  by (rule login_limit [of _ _ _ _ "[1, 2, 3, 4, 5, 6]", THEN conjunct1]) simp_all


text \<open>
  The life of a session: from the moment it is created a GET request with its cookie is accepted
  exactly until the session time-to-live has passed; then it is refused and the session is forgotten.
\<close>

theorem session_lifetime:
  assumes "header_str h ''cookie'' = Some (lit ''tb_session='' @ i)"
    and "59 \<notin> set i" and "i \<noteq> [] \<and> \<not> is_whitespace (last i)"
  shows "fst (require_admin L now h GET (create_session t0 i csrf user s)) =
     (if now < t0 + c_session_ttl (s_config s) then Inr (user, csrf) else Inl Unauthorized) \<and>
   (t0 + c_session_ttl (s_config s) \<le> now \<longrightarrow>
      s_sessions (snd (require_admin L now h GET (create_session t0 i csrf user s))) i = None)"
proof -
  have "cookie_value h (lit ''tb_session'') = Some i"
    using cookie_found [OF assms(1,2)] assms(3) by simp
  then show ?thesis
    by (simp add: require_admin_cases create_session_def session_expiry_def request_ok_def safe_method_def)
qed

theorem session_lifetime_witness:
  "fst (require_admin sample_lib 5 [(lit ''cookie'', Some (lit ''tb_session=abc''))] GET
     (create_session 0 (lit ''abc'') (lit ''csrf'') (lit ''admin'') sample_state)) = Inr (lit ''admin'', lit ''csrf'')"
  using session_lifetime [of "[(lit ''cookie'', Some (lit ''tb_session=abc''))]" "lit ''abc''" sample_lib 5 0
      "lit ''csrf''" "lit ''admin''" sample_state]
  by (simp add: header_str_def header_get_def sample_config_def secs_def lit_def is_whitespace_def)

end
