(* ===== verification/Pumps.thy ===== *)
theory Pumps
  imports State
begin

text \<open>
  The two pumps of a relayed connection. Server (\<open>bridge\<close> in gateway.rs) and desktop (\<open>bridge_local\<close> in
  agent.rs) run the same pair of loops: one reads chunks from a socket and sends each as a frame, the
  other receives frames and writes their payload to the socket. This theory holds the local state of
  such a pair, the changes a step may make to it, and, in the locale \<open>pumps\<close>, what follows for every
  interleaving. The two programs' own steps are interpretations of it.
\<close>

section \<open>Local state\<close>

datatype bridge_error = IdleTimeout | IoError | CarrierClosed | ResetByPeer

text \<open>
  The result of each pump once it has one, the chunk the upstream pump has read and not yet handed to
  the carrier, the bytes written to the socket and whether its write side was shut down. \<open>br_read\<close> and
  \<open>br_frames\<close> (chunks and frames handed to the carrier, in order) and \<open>br_seen\<close> (frames received) record
  the history of the pumps; no step reads them.
\<close>

record bridge =
  br_up :: "(bridge_error + unit) option"
  br_down :: "(bridge_error + unit) option"
  br_held :: "bytes option"
  br_out :: bytes
  br_shutdown :: bool
  br_read :: "bytes list"
  br_frames :: "bytes list"
  br_seen :: "inbound_frame list"

definition bridge_start :: bridge where
  "bridge_start =
     \<lparr>br_up = None, br_down = None, br_held = None, br_out = [], br_shutdown = False,
      br_read = [], br_frames = [], br_seen = []\<rparr>"

definition BUFFER_SIZE :: nat where
  "BUFFER_SIZE = 32 * 1024"

text \<open>
  What can happen to a bridge: a read of the socket returns (\<open>[]\<close> is end of file), fails or
  idles; the carrier is offered the held chunk; the downstream pump receives the next frame, its write
  succeeding or failing after some bytes, or finds the channel closed, or idles; another task runs.
\<close>

datatype 's bridge_event =
    UpRead bytes | UpFail | UpIdle | UpSend
  | DownFrame "nat option" | DownClosed | DownIdle
  | Others "'s \<Rightarrow> 's"

section \<open>The history of the upstream pump\<close>

text \<open>
  What a step can do to the upstream half of \<open>b\<close>: nothing, end with an error, hold a chunk just read,
  or send the held chunk as a frame, which ends the pump when the chunk is empty, that is at end of file.
\<close>

definition same_up :: "bridge \<Rightarrow> bridge \<Rightarrow> bool" where
  "same_up b b' \<longleftrightarrow>
     br_up b' = br_up b \<and> br_held b' = br_held b \<and> br_read b' = br_read b \<and> br_frames b' = br_frames b"

definition up_change :: "(bytes \<Rightarrow> bytes) \<Rightarrow> bridge \<Rightarrow> bridge \<Rightarrow> bool" where
  "up_change frame b b' \<longleftrightarrow>
     same_up b b' \<or>
     br_up b = None \<and>
       ((\<exists>e. same_up (b\<lparr>br_up := Some (Inl e)\<rparr>) b') \<or>
        (\<exists>c. br_held b = None \<and> length c \<le> BUFFER_SIZE \<and> same_up (b\<lparr>br_held := Some c\<rparr>) b') \<or>
        (\<exists>c. br_held b = Some c \<and>
           same_up (b\<lparr>br_held := None, br_read := br_read b @ [c], br_frames := br_frames b @ [frame c],
                      br_up := (if c = [] then Some (Inr ()) else None)\<rparr>) b'))"

definition up_inv :: "(bytes \<Rightarrow> bytes) \<Rightarrow> bridge \<Rightarrow> bool" where
  "up_inv frame b \<longleftrightarrow>
     br_frames b = map frame (br_read b) \<and>
     (\<forall>c \<in> set (br_read b). length c \<le> BUFFER_SIZE) \<and>
     (\<forall>c. br_held b = Some c \<longrightarrow> length c \<le> BUFFER_SIZE) \<and>
     (br_up b = Some (Inr ()) \<longrightarrow> br_held b = None \<and> br_read b \<noteq> [] \<and> last (br_read b) = [] \<and> [] \<notin> set (butlast (br_read b))) \<and>
     (br_up b \<noteq> Some (Inr ()) \<longrightarrow> [] \<notin> set (br_read b))"

lemma up_inv_start: "up_inv frame bridge_start"
  by (simp add: up_inv_def bridge_start_def)

lemma same_up_inv: "same_up b b' \<Longrightarrow> up_inv frame b \<Longrightarrow> up_inv frame b'"
  by (simp add: same_up_def up_inv_def)

lemma up_change_inv:
  assumes "up_change frame b b'" "up_inv frame b"
  shows "up_inv frame b'"
  using assms(1) unfolding up_change_def
proof (elim disjE conjE exE)
  assume "same_up b b'"
  then show ?thesis using assms(2) by (rule same_up_inv)
next
  fix e assume "br_up b = None" "same_up (b\<lparr>br_up := Some (Inl e)\<rparr>) b'"
  then show ?thesis by (elim same_up_inv) (use assms(2) in \<open>simp add: up_inv_def\<close>)
next
  fix c assume "br_up b = None" "length c \<le> BUFFER_SIZE" "same_up (b\<lparr>br_held := Some c\<rparr>) b'"
  then show ?thesis by (elim same_up_inv) (use assms(2) in \<open>simp add: up_inv_def\<close>)
next
  fix c assume c: "br_up b = None" "br_held b = Some c"
    and s: "same_up (b\<lparr>br_held := None, br_read := br_read b @ [c], br_frames := br_frames b @ [frame c],
                      br_up := (if c = [] then Some (Inr ()) else None)\<rparr>) b'"
  show ?thesis by (rule same_up_inv [OF s]) (use assms(2) c in \<open>auto simp: up_inv_def\<close>)
qed

section \<open>The history of the downstream pump\<close>

definition data_bytes :: "inbound_frame list \<Rightarrow> bytes" where
  "data_bytes ms = concat (map if_payload (filter (\<lambda>m. if_kind m = CARRIER_FRAME_DATA) ms))"

lemma data_bytes_append [simp]: "data_bytes (ms @ ns) = data_bytes ms @ data_bytes ns"
  by (simp add: data_bytes_def)

lemma data_bytes_simps [simp]:
  "data_bytes [] = []"
  "data_bytes [m] = (if if_kind m = CARRIER_FRAME_DATA then if_payload m else [])"
  by (simp_all add: data_bytes_def)

definition ends_stream :: "inbound_frame \<Rightarrow> bool" where
  "ends_stream m \<longleftrightarrow> if_kind m = CARRIER_FRAME_FIN \<or> if_kind m = CARRIER_FRAME_RESET"

lemma frame_kinds_distinct [simp]:
  "CARRIER_FRAME_DATA \<noteq> CARRIER_FRAME_FIN" "CARRIER_FRAME_FIN \<noteq> CARRIER_FRAME_DATA"
  "CARRIER_FRAME_DATA \<noteq> CARRIER_FRAME_RESET" "CARRIER_FRAME_RESET \<noteq> CARRIER_FRAME_DATA"
  "CARRIER_FRAME_FIN \<noteq> CARRIER_FRAME_RESET" "CARRIER_FRAME_RESET \<noteq> CARRIER_FRAME_FIN"
  by (simp_all add: frame_kinds)

text \<open>
  What receiving the frame \<open>m\<close> does; \<open>fault\<close> is a failed write, after so many bytes.
\<close>

definition receive_frame :: "inbound_frame \<Rightarrow> nat option \<Rightarrow> bridge \<Rightarrow> bridge" where
  "receive_frame m fault b0 =
     (let b = b0\<lparr>br_seen := br_seen b0 @ [m]\<rparr> in
      if if_kind m = CARRIER_FRAME_DATA then
        (case fault of
           Some n \<Rightarrow> b\<lparr>br_out := br_out b @ take n (if_payload m), br_down := Some (Inl IoError)\<rparr>
         | None \<Rightarrow> b\<lparr>br_out := br_out b @ if_payload m\<rparr>)
      else if if_kind m = CARRIER_FRAME_FIN then
        (case fault of
           Some n \<Rightarrow> b\<lparr>br_down := Some (Inl IoError)\<rparr>
         | None \<Rightarrow> b\<lparr>br_shutdown := True, br_down := Some (Inr ())\<rparr>)
      else if if_kind m = CARRIER_FRAME_RESET then b\<lparr>br_down := Some (Inl ResetByPeer)\<rparr>
      else b)"

definition same_down :: "bridge \<Rightarrow> bridge \<Rightarrow> bool" where
  "same_down b b' \<longleftrightarrow>
     br_down b' = br_down b \<and> br_out b' = br_out b \<and> br_shutdown b' = br_shutdown b \<and> br_seen b' = br_seen b"

definition down_change :: "bridge \<Rightarrow> bridge \<Rightarrow> bool" where
  "down_change b b' \<longleftrightarrow>
     same_down b b' \<or>
     br_down b = None \<and>
       ((\<exists>r. r \<noteq> Inl IoError \<and> same_down (b\<lparr>br_down := Some r\<rparr>) b') \<or>
        (\<exists>m fault. same_down (receive_frame m fault b) b'))"

definition down_inv :: "bridge \<Rightarrow> bool" where
  "down_inv b \<longleftrightarrow>
     (br_down b \<noteq> Some (Inl IoError) \<longrightarrow> br_out b = data_bytes (br_seen b)) \<and>
     take (length (br_out b)) (data_bytes (br_seen b)) = br_out b \<and>
     list_all (\<lambda>m. \<not> ends_stream m) (butlast (br_seen b)) \<and>
     (br_seen b \<noteq> [] \<and> ends_stream (last (br_seen b)) \<longrightarrow> br_down b \<noteq> None) \<and>
     (br_shutdown b \<longrightarrow> br_seen b \<noteq> [] \<and> if_kind (last (br_seen b)) = CARRIER_FRAME_FIN \<and> br_down b = Some (Inr ()))"

lemma down_inv_start: "down_inv bridge_start"
  by (simp add: down_inv_def bridge_start_def)

lemma same_down_inv: "same_down b b' \<Longrightarrow> down_inv b \<Longrightarrow> down_inv b'"
  by (simp add: same_down_def down_inv_def)

lemma butlast_closed: "list_all P (butlast xs) \<Longrightarrow> (xs \<noteq> [] \<Longrightarrow> P (last xs)) \<Longrightarrow> list_all P xs"
  by (cases xs rule: rev_cases) auto

lemma receive_frame_inv:
  assumes "down_inv b" "br_down b = None"
  shows "down_inv (receive_frame m fault b)"
proof -
  have open_seen: "list_all (\<lambda>m. \<not> ends_stream m) (br_seen b)"
    by (rule butlast_closed) (use assms in \<open>auto simp: down_inv_def\<close>)
  have out: "br_out b = data_bytes (br_seen b)" and noshut: "\<not> br_shutdown b"
    using assms by (auto simp: down_inv_def)
  consider (data) "if_kind m = CARRIER_FRAME_DATA" | (fin) "if_kind m = CARRIER_FRAME_FIN"
    | (reset) "if_kind m = CARRIER_FRAME_RESET"
    | (other) "if_kind m \<noteq> CARRIER_FRAME_DATA" "if_kind m \<noteq> CARRIER_FRAME_FIN" "if_kind m \<noteq> CARRIER_FRAME_RESET"
    by blast
  then show ?thesis
    using assms(2) open_seen out noshut
    by cases (auto simp: receive_frame_def Let_def down_inv_def ends_stream_def min_def split: option.splits)
qed

lemma down_change_inv:
  assumes "down_change b b'" "down_inv b"
  shows "down_inv b'"
  using assms(1) unfolding down_change_def
proof (elim disjE conjE exE)
  assume "same_down b b'"
  then show ?thesis using assms(2) by (rule same_down_inv)
next
  fix r assume "br_down b = None" "r \<noteq> Inl IoError" "same_down (b\<lparr>br_down := Some r\<rparr>) b'"
  then show ?thesis by (elim same_down_inv) (use assms(2) in \<open>auto simp: down_inv_def\<close>)
next
  fix m fault assume "br_down b = None" "same_down (receive_frame m fault b) b'"
  then show ?thesis by (elim same_down_inv) (use assms(2) receive_frame_inv in blast)
qed

section \<open>Every interleaving of the two pumps\<close>

text \<open>
  \<open>step\<close> is one event of a bridge in a program state \<open>'s\<close>, \<open>inbound\<close> the bridge's channel in that state,
  and \<open>polite ev\<close> says that what other tasks do in the event only appends to that channel.
\<close>

locale pumps =
  fixes step :: "'ev \<Rightarrow> bridge \<times> 's \<Rightarrow> bridge \<times> 's"
    and frame :: "bytes \<Rightarrow> bytes"
    and inbound :: "'s \<Rightarrow> inbound_frame list option"
    and polite :: "'ev \<Rightarrow> bool"
  assumes up_contract: "step ev (b, s) = (b', s') \<Longrightarrow> up_change frame b b'"
    and down_contract: "step ev (b, s) = (b', s') \<Longrightarrow> down_change b b'"
    and queue_contract: "step ev (b, s) = (b', s') \<Longrightarrow> polite ev \<Longrightarrow> inbound s = Some q \<Longrightarrow>
      \<exists>q' ys. inbound s' = Some q' \<and> br_seen b' @ q' = br_seen b @ q @ ys"
begin

lemma run_induct:
  assumes step: "\<And>ev b s b' s'. ev \<in> set evs \<Longrightarrow> P b s \<Longrightarrow> step ev (b, s) = (b', s') \<Longrightarrow> P b' s'"
    and "P b s" "fold step evs (b, s) = (b', s')"
  shows "P b' s'"
  using assms
proof (induction evs arbitrary: b s)
  case Nil
  then show ?case by simp
next
  case (Cons ev evs)
  obtain b1 s1 where 1: "step ev (b, s) = (b1, s1)" by (cases "step ev (b, s)")
  have "P b1 s1" using Cons.prems(1) [OF _ Cons.prems(2) 1] by simp
  moreover have "fold step evs (b1, s1) = (b', s')" using Cons.prems(3) 1 by simp
  ultimately show ?case using Cons.IH Cons.prems(1) by (metis list.set_intros(2))
qed

lemma run_up: "fold step evs (bridge_start, s) = (b, s') \<Longrightarrow> up_inv frame b"
  by (rule run_induct [where P = "\<lambda>b s. up_inv frame b", OF _ up_inv_start])
    (auto dest: up_contract intro: up_change_inv)

lemma run_down: "fold step evs (bridge_start, s) = (b, s') \<Longrightarrow> down_inv b"
  by (rule run_induct [where P = "\<lambda>b s. down_inv b", OF _ down_inv_start])
    (auto dest: down_contract intro: down_change_inv)

text \<open>
  Frames are received in the order they were queued: what was received followed by what is queued is
  what was queued at the start followed by what was appended.
\<close>

lemma run_queue:
  assumes "fold step evs (b, s) = (b', s')" "\<And>ev. ev \<in> set evs \<Longrightarrow> polite ev" "inbound s = Some q"
  shows "\<exists>q' ys. inbound s' = Some q' \<and> br_seen b' @ q' = br_seen b @ q @ ys"
proof -
  let ?P = "\<lambda>b1 s1. \<exists>q' ys. inbound s1 = Some q' \<and> br_seen b1 @ q' = (br_seen b @ q) @ ys"
  have "?P b' s'"
  proof (rule run_induct [where P = ?P, OF _ _ assms(1)])
    show "?P b s" using assms(3) by simp
    fix ev b1 s1 b2 s2
    assume ev: "ev \<in> set evs" and st: "step ev (b1, s1) = (b2, s2)" and "?P b1 s1"
    then obtain q1 ys where q1: "inbound s1 = Some q1" "br_seen b1 @ q1 = (br_seen b @ q) @ ys" by blast
    obtain q2 zs where "inbound s2 = Some q2" "br_seen b2 @ q2 = br_seen b1 @ q1 @ zs"
      using queue_contract [OF st assms(2) [OF ev] q1(1)] by blast
    then show "?P b2 s2" using q1(2) by (metis append.assoc)
  qed
  then show ?thesis by simp
qed

end

end
