(* ===== verification/Gateway.thy ===== *)
theory Gateway
  imports Tunnels Auth Pumps
begin

text \<open>
  The relay (server/src/gateway.rs): tunnel listeners, the offer of a public connection to the agent
  and its acknowledgement, the routing of carrier frames and the two pumps of a connection. A handler
  is cut at its \<open>await\<close> points into atomic segments; what other tasks do meanwhile is a state
  transformer given to the composed handler. Identifiers, secrets and clock readings are arguments.
\<close>

section \<open>Listeners\<close>

definition stop_listener :: "uuid \<Rightarrow> app_state \<Rightarrow> app_state" where
  "stop_listener i s =
     (case s_listeners s i of
        Some token \<Rightarrow> s\<lparr>s_listeners := (s_listeners s)(i := None), s_cancelled := insert token (s_cancelled s)\<rparr>
      | None \<Rightarrow> s)"

text \<open>Both \<open>start_listener\<close>s (TCP here, UDP in udp.rs) insert a new token and spawn the accept loop.\<close>

definition start_listener :: "nat \<Rightarrow> tunnel \<Rightarrow> app_state \<Rightarrow> app_state" where
  "start_listener token t s = s\<lparr>s_listeners := (s_listeners s)(t_id t \<mapsto> token)\<rparr>"

text \<open>The beginning of the spawned loop, up to a bound socket; \<open>bound\<close> is what the bind returned.\<close>

definition bind_listener :: "bool \<Rightarrow> tunnel \<Rightarrow> app_state \<Rightarrow> bool \<times> app_state" where
  "bind_listener bound t s =
     (case t_remote_port t of
        None \<Rightarrow> (False, s)
      | Some port \<Rightarrow>
          if bound then (True, s)
          else (False, count add_failed (s\<lparr>s_listeners := (s_listeners s)(t_id t := None)\<rparr>)))"

text \<open>\<open>others\<close> is what happens during the 25 ms pause.\<close>

definition reconcile_listener :: "nat \<Rightarrow> (app_state \<Rightarrow> app_state) \<Rightarrow> tunnel \<Rightarrow> app_state \<Rightarrow> app_state" where
  "reconcile_listener token others t s =
     (let s1 = stop_listener (t_id t) s in
      if t_enabled t \<and> t_kind t \<noteq> KWeb then start_listener token t (others s1) else s1)"

fun start_all :: "(tunnel \<times> nat) list \<Rightarrow> app_state \<Rightarrow> app_state" where
  "start_all [] s = s"
| "start_all ((t, token) # ts) s =
     start_all ts (if t_enabled t \<and> t_kind t \<noteq> KWeb then start_listener token t s else s)"

definition restore_listeners :: "lib \<Rightarrow> nat list \<Rightarrow> (app_state, app_error, unit) act" where
  "restore_listeners L tokens =
     seq (list_all_tunnels L) (\<lambda>ts. modify (start_all (zip ts tokens)))"

definition sync_agent :: "lib \<Rightarrow> uuid \<Rightarrow> app_state \<Rightarrow> app_state" where
  "sync_agent L agent s =
     (case list_for_agent L agent s of
        (Inl e, s1) \<Rightarrow> s1
      | (Inr items, s1) \<Rightarrow>
          (case s_agents s1 agent of
             Some p \<Rightarrow> snd (send_ctl (ap_session_id p) (ConfigSync items) s1)
           | None \<Rightarrow> s1))"

section \<open>Offering a connection\<close>

datatype conn_error = SourceRefused | OfflineAgent | SendFailed | AgentRejected ustr | AckTimeout

definition geo_lookup ::
  "instant \<times> instant \<times> http_outcome \<Rightarrow> ipaddr \<Rightarrow> (app_state, 'e, geo_location option) act" where
  "geo_lookup g a s =
     (case g of (now, later, http) \<Rightarrow>
      case lookup now later http a (s_geoip s) of (loc, url, r) \<Rightarrow> (Inr loc, s\<lparr>s_geoip := r\<rparr>))"

text \<open>
  \<open>chrono::Duration::from_std\<close> accepts durations up to \<open>i64::MAX\<close> milliseconds.
\<close>

definition chrono_duration :: "duration \<Rightarrow> int option" where
  "chrono_duration d = (if d \<le> (2 ^ 63 - 1) * 1000000 then Some (int d) else None)"

definition ticket_deadline :: "config \<Rightarrow> utc \<Rightarrow> utc" where
  "ticket_deadline c utc_now = utc_now + unwrap_or (chrono_duration (c_ticket_ttl c)) (int (secs 15))"

text \<open>The inputs of one offer: the new id, its ticket, and the clocks when it is made.\<close>

record offer =
  of_id :: uuid
  of_ticket :: ustr
  of_now :: instant
  of_utc :: utc

definition register_offer :: "lib \<Rightarrow> offer \<Rightarrow> uuid \<Rightarrow> app_state \<Rightarrow> app_state" where
  "register_offer L f agent_id s =
     s\<lparr>s_inbound := (s_inbound s)(of_id f \<mapsto> []), s_streams := insert (of_id f) (s_streams s),
       s_ack := (s_ack s)(of_id f \<mapsto> None),
       s_pending := (s_pending s)(of_id f \<mapsto>
         \<lparr>pc_agent_id = agent_id, pc_ticket_hash = hash_token L (of_ticket f),
          pc_expires_at = of_now f + c_ticket_ttl (s_config s)\<rparr>)\<rparr>"

text \<open>A handler that returns drops its ends of the acknowledgement and frame channels.\<close>

definition drop_receivers :: "uuid \<Rightarrow> app_state \<Rightarrow> app_state" where
  "drop_receivers i s = s\<lparr>s_ack := (s_ack s)(i := None), s_inbound := (s_inbound s)(i := None)\<rparr>"

definition send_offer ::
  "uuid \<Rightarrow> agent_peer \<Rightarrow> agent_control_message \<Rightarrow> (app_state, conn_error, unit) act" where
  "send_offer i agent m s =
     (case send_ctl (ap_session_id agent) m s of
        (True, s') \<Rightarrow> (Inr (), s')
      | (False, s') \<Rightarrow> (Inl SendFailed, drop_receivers i s'))"

definition forget_offer :: "uuid \<Rightarrow> app_state \<Rightarrow> app_state" where
  "forget_offer i s = s\<lparr>s_pending := (s_pending s)(i := None), s_streams := s_streams s - {i}\<rparr>"

text \<open>
  The result of \<open>timeout(connect_timeout, ack_rx)\<close> when the handler resumes: the value sent on the
  acknowledgement channel, or \<open>None\<close> when the time is over or the sender is gone.
\<close>

definition received_ack :: "uuid \<Rightarrow> app_state \<Rightarrow> (ustr + unit) option" where
  "received_ack i s = (case s_ack s i of Some v \<Rightarrow> v | None \<Rightarrow> None)"

section \<open>The public TCP connection\<close>

definition admit :: "lib \<Rightarrow> tunnel \<Rightarrow> socket_addr \<Rightarrow> (app_state, conn_error, agent_peer) act" where
  "admit L t peer =
     (if \<not> source_allowed L t (sock_ip peer)
      then seq (modify (count add_rejected)) (\<lambda>_. fail SourceRefused)
      else seq (peek (\<lambda>s. s_agents s (t_agent_id t))) (\<lambda>agent.
        case agent of
          None \<Rightarrow> seq (modify (count add_failed)) (\<lambda>_. fail OfflineAgent)
        | Some p \<Rightarrow> ok p))"

definition offer_connection ::
  "lib \<Rightarrow> offer \<Rightarrow> tunnel \<Rightarrow> socket_addr \<Rightarrow> geo_location option \<Rightarrow> agent_peer \<Rightarrow>
     (app_state, conn_error, unit) act" where
  "offer_connection L f t peer loc agent =
     seq (modify (register_offer L f (t_agent_id t))) (\<lambda>_.
     seq (peek s_config) (\<lambda>c.
     send_offer (of_id f) agent
       (OpenConnection (of_id f) t (sock_text peer) loc (of_ticket f) (ticket_deadline c (of_utc f)))))"

definition settle_offer :: "uuid \<Rightarrow> (app_state, conn_error, unit) act" where
  "settle_offer i =
     seq (peek (received_ack i)) (\<lambda>a.
     case a of
       Some (Inr _) \<Rightarrow> ok ()
     | Some (Inl e) \<Rightarrow>
         seq (modify (\<lambda>s. drop_receivers i (forget_offer i s))) (\<lambda>_. fail (AgentRejected e))
     | None \<Rightarrow>
         seq (modify (\<lambda>s. count add_failed (drop_receivers i (forget_offer i s)))) (\<lambda>_. fail AckTimeout))"

definition active_entry ::
  "uuid \<Rightarrow> tunnel \<Rightarrow> socket_addr \<Rightarrow> geo_location option \<Rightarrow> utc \<Rightarrow> agent_peer \<Rightarrow> active_connection" where
  "active_entry i t peer loc opened agent =
     \<lparr>ac_id = i, ac_tunnel_id = t_id t, ac_peer_addr = sock_text peer, ac_peer_location = loc,
      ac_opened_at = opened, ac_bytes_up = 0, ac_bytes_down = 0, ac_tunnel_kind = t_kind t,
      ac_transport = Some (ap_transport agent)\<rparr>"

definition activate :: "active_connection \<Rightarrow> app_state \<Rightarrow> app_state" where
  "activate a s = s\<lparr>s_active := (s_active s)(ac_id a \<mapsto> a)\<rparr>"

text \<open>\<open>as i64\<close> reinterprets the 64 bits.\<close>

definition history_of :: "lib \<Rightarrow> utc \<Rightarrow> active_connection \<Rightarrow> history_row" where
  "history_of L closed a =
     \<lparr>hr_id = l_uuid_text L (ac_id a), hr_tunnel_id = l_uuid_text L (ac_tunnel_id a),
      hr_peer_addr = ac_peer_addr a, hr_opened_at = l_time_text L (ac_opened_at a),
      hr_closed_at = l_time_text L closed, hr_bytes_up = sint (ac_bytes_up a),
      hr_bytes_down = sint (ac_bytes_down a)\<rparr>"

definition close_connection :: "lib \<Rightarrow> uuid \<Rightarrow> utc \<Rightarrow> app_state \<Rightarrow> app_state" where
  "close_connection L i closed s =
     (let s1 = (drop_receivers i s)\<lparr>s_streams := s_streams s - {i}\<rparr>;
          s2 = s1\<lparr>s_active := (s_active s1)(i := None)\<rparr> in
      case s_active s1 i of
        Some summary \<Rightarrow> snd (on_db (insert_history (history_of L closed summary)) s2)
      | None \<Rightarrow> s2)"

section \<open>Acknowledgement and frames from the agent\<close>

definition acknowledge_connection ::
  "lib \<Rightarrow> instant \<Rightarrow> uuid \<Rightarrow> uuid \<Rightarrow> ustr option \<Rightarrow> bool \<Rightarrow> ustr option \<Rightarrow> app_state \<Rightarrow> bool \<times> app_state" where
  "acknowledge_connection L now i agent ticket accepted err s =
     (case s_pending s i of
        None \<Rightarrow> (False, s)
      | Some pending \<Rightarrow>
          if pc_agent_id pending \<noteq> agent \<or> pc_expires_at pending \<le> now \<or>
             (case ticket of None \<Rightarrow> True | Some tk \<Rightarrow> pc_ticket_hash pending \<noteq> hash_token L tk)
          then (False, s)
          else
            let s1 = s\<lparr>s_pending := (s_pending s)(i := None)\<rparr>;
                value = (if accepted then Inr () else Inl (unwrap_or err (lit ''local target rejected connection''))) in
            (True, case s_ack s1 i of
                     Some _ \<Rightarrow> s1\<lparr>s_ack := (s_ack s1)(i \<mapsto> Some value)\<rparr>
                   | None \<Rightarrow> s1))"

text \<open>
  \<open>None\<close>: the sender waits for room in the stream's channel.
\<close>

definition route_carrier_frame :: "lib \<Rightarrow> bytes \<Rightarrow> app_state \<Rightarrow> app_state option" where
  "route_carrier_frame L frame s =
     (case decode_carrier_frame (l_uuid_of_slice L) frame of
        None \<Rightarrow> Some s
      | Some (kind, i, payload) \<Rightarrow>
          if i \<in> s_streams s then
            (case send_bounded STREAM_CAPACITY i \<lparr>if_kind = kind, if_payload = payload\<rparr> (s_inbound s) of
               (SendWaits, m) \<Rightarrow> None
             | (r, m) \<Rightarrow> Some (s\<lparr>s_inbound := m\<rparr>))
          else Some s)"

definition parse_forwarded_ip :: "ustr option \<Rightarrow> ipaddr option" where
  "parse_forwarded_ip v =
     (case v of None \<Rightarrow> None | Some text \<Rightarrow> parse_ip (trim (hd (split_on 44 text))))"

section \<open>The two pumps of a connection\<close>

definition add_active :: "uuid \<Rightarrow> (active_connection \<Rightarrow> active_connection) \<Rightarrow> app_state \<Rightarrow> app_state" where
  "add_active i f s =
     (case s_active s i of Some a \<Rightarrow> s\<lparr>s_active := (s_active s)(i \<mapsto> f a)\<rparr> | None \<Rightarrow> s)"

definition up_frame :: "lib \<Rightarrow> uuid \<Rightarrow> bytes \<Rightarrow> bytes" where
  "up_frame L i chunk =
     (if chunk = [] then encode_carrier_frame (l_uuid_bytes L) CARRIER_FRAME_FIN i []
      else encode_carrier_frame (l_uuid_bytes L) CARRIER_FRAME_DATA i chunk)"

definition up_step ::
  "lib \<Rightarrow> uuid \<Rightarrow> uuid \<Rightarrow> app_state bridge_event \<Rightarrow> bridge \<Rightarrow> app_state \<Rightarrow> bridge \<times> app_state" where
  "up_step L sid i ev b s =
     (if br_up b \<noteq> None then (b, s)
      else case br_held b of
        None \<Rightarrow>
          (case ev of
             UpIdle \<Rightarrow> (b\<lparr>br_up := Some (Inl IdleTimeout)\<rparr>, s)
           | UpFail \<Rightarrow> (b\<lparr>br_up := Some (Inl IoError)\<rparr>, s)
           | UpRead bs \<Rightarrow> (if length bs \<le> BUFFER_SIZE then (b\<lparr>br_held := Some bs\<rparr>, s) else (b, s))
           | _ \<Rightarrow> (b, s))
      | Some chunk \<Rightarrow>
          (case ev of
             UpSend \<Rightarrow>
               (case send_bounded BIN_CAPACITY sid (up_frame L i chunk) (s_bin s) of
                  (SendClosed, m) \<Rightarrow> (b\<lparr>br_up := Some (Inl CarrierClosed)\<rparr>, s)
                | (SendWaits, m) \<Rightarrow> (b, s)
                | (Sent, m) \<Rightarrow>
                    let b1 = b\<lparr>br_held := None, br_read := br_read b @ [chunk],
                               br_frames := br_frames b @ [up_frame L i chunk]\<rparr>;
                        s1 = s\<lparr>s_bin := m\<rparr> in
                    if chunk = [] then (b1\<lparr>br_up := Some (Inr ())\<rparr>, s1)
                    else (b1, add_active i (\<lambda>a. a\<lparr>ac_bytes_down := ac_bytes_down a + of_nat (length chunk)\<rparr>)
                                (count (add_down (of_nat (length chunk))) s1)))
           | _ \<Rightarrow> (b, s)))"

definition deliver ::
  "uuid \<Rightarrow> inbound_frame \<Rightarrow> nat option \<Rightarrow> bridge \<Rightarrow> app_state \<Rightarrow> bridge \<times> app_state" where
  "deliver i m fault b s =
     (if if_kind m = CARRIER_FRAME_DATA then
        (case fault of
           Some n \<Rightarrow> (b\<lparr>br_out := br_out b @ take n (if_payload m), br_down := Some (Inl IoError)\<rparr>, s)
         | None \<Rightarrow>
             (b\<lparr>br_out := br_out b @ if_payload m\<rparr>,
              add_active i (\<lambda>a. a\<lparr>ac_bytes_up := ac_bytes_up a + of_nat (length (if_payload m))\<rparr>)
                (count (add_up (of_nat (length (if_payload m)))) s)))
      else if if_kind m = CARRIER_FRAME_FIN then
        (case fault of
           Some n \<Rightarrow> (b\<lparr>br_down := Some (Inl IoError)\<rparr>, s)
         | None \<Rightarrow> (b\<lparr>br_shutdown := True, br_down := Some (Inr ())\<rparr>, s))
      else if if_kind m = CARRIER_FRAME_RESET then (b\<lparr>br_down := Some (Inl ResetByPeer)\<rparr>, s)
      else (b, s))"

definition down_step :: "uuid \<Rightarrow> app_state bridge_event \<Rightarrow> bridge \<Rightarrow> app_state \<Rightarrow> bridge \<times> app_state" where
  "down_step i ev b s =
     (if br_down b \<noteq> None then (b, s)
      else case ev of
        DownIdle \<Rightarrow>
          (if s_inbound s i = Some [] then (b\<lparr>br_down := Some (Inl IdleTimeout)\<rparr>, s) else (b, s))
      | DownFrame fault \<Rightarrow>
          (case s_inbound s i of
             Some (m # q) \<Rightarrow>
               deliver i m fault (b\<lparr>br_seen := br_seen b @ [m]\<rparr>) (s\<lparr>s_inbound := (s_inbound s)(i \<mapsto> q)\<rparr>)
           | _ \<Rightarrow> (b, s))
      | DownClosed \<Rightarrow>
          (if s_inbound s i = Some [] \<and> i \<notin> s_streams s then (b\<lparr>br_down := Some (Inr ())\<rparr>, s) else (b, s))
      | _ \<Rightarrow> (b, s))"

definition bridge_step ::
  "lib \<Rightarrow> uuid \<Rightarrow> uuid \<Rightarrow> app_state bridge_event \<Rightarrow> bridge \<times> app_state \<Rightarrow> bridge \<times> app_state" where
  "bridge_step L sid i ev bs =
     (case bs of (b, s) \<Rightarrow>
      case ev of
        Others f \<Rightarrow> (b, f s)
      | _ \<Rightarrow> (case up_step L sid i ev b s of (b1, s1) \<Rightarrow> down_step i ev b1 s1))"

definition bridge_run ::
  "lib \<Rightarrow> uuid \<Rightarrow> uuid \<Rightarrow> app_state bridge_event list \<Rightarrow> bridge \<times> app_state \<Rightarrow> bridge \<times> app_state" where
  "bridge_run L sid i evs bs = fold (bridge_step L sid i) evs bs"

text \<open>\<open>join!\<close> waits for both pumps; the upstream error comes first. \<open>None\<close> while a pump runs.\<close>

definition bridge_result :: "bridge \<Rightarrow> (bridge_error + unit) option" where
  "bridge_result b =
     (case (br_up b, br_down b) of
        (Some u, Some d) \<Rightarrow> Some (andThen u (\<lambda>_. d))
      | _ \<Rightarrow> None)"

section \<open>The handlers\<close>

text \<open>
  What a connection handler gets from outside: the identifiers and clocks of its offer, the country
  lookup, the effect of the other tasks during the lookup and while it waits for the acknowledgement,
  the time the connection is opened, the events of the bridge, and the time it is closed.
\<close>

record conn_input =
  ci_offer :: offer
  ci_geo :: "instant \<times> instant \<times> http_outcome"
  ci_during_geo :: "app_state \<Rightarrow> app_state"
  ci_during_ack :: "app_state \<Rightarrow> app_state"
  ci_opened :: utc
  ci_events :: "app_state bridge_event list"
  ci_closed :: utc

definition accept_public_connection ::
  "lib \<Rightarrow> conn_input \<Rightarrow> tunnel \<Rightarrow> socket_addr \<Rightarrow> (app_state, conn_error, bridge) act" where
  "accept_public_connection L io t peer =
     seq (admit L t peer) (\<lambda>agent.
     seq (geo_lookup (ci_geo io) (sock_ip peer)) (\<lambda>loc.
     seq (modify (ci_during_geo io)) (\<lambda>_.
     seq (offer_connection L (ci_offer io) t peer loc agent) (\<lambda>_.
     seq (modify (ci_during_ack io)) (\<lambda>_.
     seq (settle_offer (of_id (ci_offer io))) (\<lambda>_.
     seq (modify (activate (active_entry (of_id (ci_offer io)) t peer loc (ci_opened io) agent))) (\<lambda>_.
     seq (\<lambda>s. case bridge_run L (ap_session_id agent) (of_id (ci_offer io)) (ci_events io) (bridge_start, s) of
            (b, s') \<Rightarrow> (Inr b, s')) (\<lambda>b.
     seq (modify (if bridge_result b = None then id else close_connection L (of_id (ci_offer io)) (ci_closed io))) (\<lambda>_.
     ok b)))))))))"

text \<open>
  The stream behind a web request: the offer is registered before the country lookup, a missing
  agent and a timeout are not counted as failures, and no history is written at the end.
\<close>

definition admit_stream :: "lib \<Rightarrow> tunnel \<Rightarrow> socket_addr \<Rightarrow> (app_state, conn_error, agent_peer) act" where
  "admit_stream L t peer =
     (if \<not> source_allowed L t (sock_ip peer)
      then seq (modify (count add_rejected)) (\<lambda>_. fail SourceRefused)
      else seq (peek (\<lambda>s. s_agents s (t_agent_id t))) (\<lambda>agent. lift (ok_or agent OfflineAgent)))"

definition settle_stream :: "uuid \<Rightarrow> (app_state, conn_error, unit) act" where
  "settle_stream i =
     seq (peek (received_ack i)) (\<lambda>a.
     case a of
       Some (Inr _) \<Rightarrow> ok ()
     | _ \<Rightarrow> seq (modify (\<lambda>s. drop_receivers i (forget_offer i s))) (\<lambda>_.
             fail (case a of Some (Inl e) \<Rightarrow> AgentRejected e | _ \<Rightarrow> AckTimeout)))"

definition open_virtual_stream ::
  "lib \<Rightarrow> conn_input \<Rightarrow> tunnel \<Rightarrow> socket_addr \<Rightarrow> (app_state, conn_error, agent_peer) act" where
  "open_virtual_stream L io t peer =
     seq (admit_stream L t peer) (\<lambda>agent.
     seq (modify (register_offer L (ci_offer io) (t_agent_id t))) (\<lambda>_.
     seq (geo_lookup (ci_geo io) (sock_ip peer)) (\<lambda>loc.
     seq (modify (ci_during_geo io)) (\<lambda>_.
     seq (peek s_config) (\<lambda>c.
     seq (send_offer (of_id (ci_offer io)) agent
            (OpenConnection (of_id (ci_offer io)) t (sock_text peer) loc (of_ticket (ci_offer io))
              (ticket_deadline c (of_utc (ci_offer io))))) (\<lambda>_.
     seq (modify (ci_during_ack io)) (\<lambda>_.
     seq (settle_stream (of_id (ci_offer io))) (\<lambda>_.
     seq (modify (activate (active_entry (of_id (ci_offer io)) t peer loc (ci_opened io) agent))) (\<lambda>_.
     ok agent)))))))))"

definition close_stream :: "uuid \<Rightarrow> app_state \<Rightarrow> app_state" where
  "close_stream i s =
     (drop_receivers i s)\<lparr>s_streams := s_streams s - {i}, s_active := (s_active s)(i := None)\<rparr>"

end
