(* ===== verification/Gateway_Facts.thy ===== *)
theory Gateway_Facts
  imports Gateway
begin

text \<open>
  What the relay of \<open>Gateway\<close> guarantees: tickets, the clean-up of offers, the routing of frames, the
  bytes and counters of a bridge, and the life of connections as a transition system.
\<close>

section \<open>Tickets\<close>

text \<open>The conditions under which an acknowledgement is taken.\<close>

definition ticket_valid :: "lib \<Rightarrow> instant \<Rightarrow> uuid \<Rightarrow> ustr option \<Rightarrow> pending_connection \<Rightarrow> bool" where
  "ticket_valid L now agent ticket pending \<longleftrightarrow>
     pc_agent_id pending = agent \<and> now < pc_expires_at pending \<and>
     (\<exists>tk. ticket = Some tk \<and> hash_token L tk = pc_ticket_hash pending)"

lemma acknowledge_refused:
  "fst (acknowledge_connection L now i agent ticket accepted err s) = False \<Longrightarrow>
     snd (acknowledge_connection L now i agent ticket accepted err s) = s"
  by (auto simp: acknowledge_connection_def Let_def split: option.splits if_splits)

lemma acknowledge_taken:
  "fst (acknowledge_connection L now i agent ticket accepted err s) \<longleftrightarrow>
     (\<exists>p. s_pending s i = Some p \<and> ticket_valid L now agent ticket p)"
  by (cases "s_pending s i"; cases ticket)
    (auto simp: acknowledge_connection_def ticket_valid_def Let_def not_le)

definition ack_value :: "bool \<Rightarrow> ustr option \<Rightarrow> ustr + unit" where
  "ack_value accepted err =
     (if accepted then Inr () else Inl (unwrap_or err (lit ''local target rejected connection'')))"

lemma acknowledge_effect:
  assumes "acknowledge_connection L now i agent ticket accepted err s = (True, s')"
  shows "s' = s\<lparr>s_pending := (s_pending s)(i := None),
     s_ack := (if s_ack s i = None then s_ack s else (s_ack s)(i \<mapsto> Some (ack_value accepted err)))\<rparr>"
  using assms
  by (auto simp: acknowledge_connection_def ack_value_def Let_def split: option.splits if_splits)

section \<open>Frames\<close>

lemma route_unknown:
  "decode_carrier_frame (l_uuid_of_slice L) frame = None \<Longrightarrow> route_carrier_frame L frame s = Some s"
  by (simp add: route_carrier_frame_def)

lemma route_effect:
  assumes "decode_carrier_frame (l_uuid_of_slice L) frame = Some (k, i, payload)"
    and "route_carrier_frame L frame s = Some s'"
  shows "s' = s\<lparr>s_inbound := (if i \<in> s_streams s
     then (case s_inbound s i of Some q \<Rightarrow> (s_inbound s)(i \<mapsto> q @ [\<lparr>if_kind = k, if_payload = payload\<rparr>])
           | None \<Rightarrow> s_inbound s)
     else s_inbound s)\<rparr>"
  using assms
  by (auto simp: route_carrier_frame_def send_bounded_def split: option.splits if_splits)

lemma route_waits:
  "route_carrier_frame L frame s = None \<longleftrightarrow>
     (\<exists>k i payload q. decode_carrier_frame (l_uuid_of_slice L) frame = Some (k, i, payload) \<and>
        i \<in> s_streams s \<and> s_inbound s i = Some q \<and> STREAM_CAPACITY \<le> length q)"
  by (auto simp: route_carrier_frame_def send_bounded_def not_less split: option.splits if_splits prod.splits)

lemma route_cap:
  assumes "route_carrier_frame L frame s = Some s'" and "\<forall>j q. s_inbound s j = Some q \<longrightarrow> length q \<le> STREAM_CAPACITY"
  shows "\<forall>j q. s_inbound s' j = Some q \<longrightarrow> length q \<le> STREAM_CAPACITY"
  using assms
  by (auto simp: route_carrier_frame_def send_bounded_def split: option.splits if_splits prod.splits)

section \<open>The bridge\<close>

lemma bridge_cases:
  assumes "bridge_step L sid i ev (b, s) = (b', s')"
  obtains (others) f where "ev = Others f" "b' = b" "s' = f s"
    | (pumps) b1 s1 where "\<forall>f. ev \<noteq> Others f" "up_step L sid i ev b s = (b1, s1)" "down_step i ev b1 s1 = (b', s')"
  using assms by (cases ev) (auto simp: bridge_step_def split: prod.splits)

lemma up_step_down:
  assumes "up_step L sid i ev b s = (b', s')"
  shows "br_down b' = br_down b \<and> br_out b' = br_out b \<and> br_shutdown b' = br_shutdown b \<and> br_seen b' = br_seen b"
  using assms
  by (auto simp: up_step_def Let_def split: bridge_event.splits option.splits send_outcome.splits prod.splits if_splits)

lemma down_step_up:
  assumes "down_step i ev b s = (b', s')"
  shows "br_up b' = br_up b \<and> br_held b' = br_held b \<and> br_read b' = br_read b \<and> br_frames b' = br_frames b"
  using assms
  by (auto simp: down_step_def deliver_def split: bridge_event.splits option.splits list.splits if_splits)

lemma up_step_change:
  assumes "up_step L sid i ev b s = (b', s')"
  shows "up_change (up_frame L i) b b'"
proof (cases "br_up b")
  case (Some r)
  then show ?thesis using assms by (simp add: up_step_def up_change_def same_up_def)
next
  case None
  then show ?thesis using assms
    by (cases "br_held b"; cases ev)
      (auto simp: up_step_def up_change_def same_up_def Let_def split: prod.splits send_outcome.splits if_splits)
qed

lemma deliver_receive:
  "deliver i m fault (b\<lparr>br_seen := br_seen b @ [m]\<rparr>) s = (b', s') \<Longrightarrow> b' = receive_frame m fault b"
  by (auto simp: deliver_def receive_frame_def Let_def split: option.splits if_splits)

lemma down_step_change:
  assumes "down_step i ev b s = (b', s')"
  shows "down_change b b'"
proof (cases "br_down b")
  case (Some r)
  then show ?thesis using assms by (simp add: down_step_def down_change_def same_down_def)
next
  case None
  show ?thesis
  proof (cases "\<exists>fault m q. ev = DownFrame fault \<and> s_inbound s i = Some (m # q)")
    case True
    then obtain fault m q where "ev = DownFrame fault" "s_inbound s i = Some (m # q)" by blast
    then have "b' = receive_frame m fault b"
      using assms None deliver_receive by (simp add: down_step_def)
    then show ?thesis using None by (auto simp: down_change_def same_down_def)
  next
    case False
    then have "b' = b \<or> (\<exists>r. r \<noteq> Inl IoError \<and> b' = b\<lparr>br_down := Some r\<rparr>)"
      using assms None
      by (auto simp: down_step_def split: bridge_event.splits option.splits list.splits if_splits)
    then show ?thesis using None by (auto simp: down_change_def same_down_def)
  qed
qed

lemma bridge_step_up_change:
  assumes "bridge_step L sid i ev (b, s) = (b', s')"
  shows "up_change (up_frame L i) b b'"
  using assms
proof (cases rule: bridge_cases)
  case (pumps b1 s1)
  then show ?thesis
    using up_step_change [OF pumps(2)] down_step_up [OF pumps(3)] by (simp add: up_change_def same_up_def)
qed (simp add: up_change_def same_up_def)

lemma bridge_step_down_change:
  assumes "bridge_step L sid i ev (b, s) = (b', s')"
  shows "down_change b b'"
  using assms
proof (cases rule: bridge_cases)
  case (pumps b1 s1)
  have b1: "br_down b1 = br_down b" "br_out b1 = br_out b" "br_shutdown b1 = br_shutdown b" "br_seen b1 = br_seen b"
    using up_step_down [OF pumps(2)] by simp_all
  have "same_down (receive_frame m fault b) (receive_frame m fault b1)" for m fault
    using b1 by (auto simp: same_down_def receive_frame_def Let_def split: option.splits)
  then show ?thesis
    using down_step_change [OF pumps(3)] b1 unfolding down_change_def same_down_def by fastforce
qed (simp add: down_change_def same_down_def)

text \<open>
  Frames reach the bridge in the order they were queued: the other tasks can only append to its
  channel, and what was received followed by what is queued is what was queued at the start followed
  by what was appended.
\<close>

definition appends :: "uuid \<Rightarrow> (app_state \<Rightarrow> app_state) \<Rightarrow> bool" where
  "appends i f \<longleftrightarrow> (\<forall>s q. s_inbound s i = Some q \<longrightarrow> (\<exists>ys. s_inbound (f s) i = Some (q @ ys)))"

definition arrive :: "lib \<Rightarrow> bytes \<Rightarrow> app_state \<Rightarrow> app_state" where
  "arrive L frame s = (case route_carrier_frame L frame s of Some s' \<Rightarrow> s' | None \<Rightarrow> s)"

lemma arrive_appends: "appends i (arrive L frame)"
  unfolding appends_def arrive_def route_carrier_frame_def send_bounded_def
  by (auto split: option.splits prod.splits if_splits)

lemma add_active_inbound [simp]:
  "s_inbound (add_active i f s) = s_inbound s" "s_streams (add_active i f s) = s_streams s"
  by (auto simp: add_active_def split: option.splits)

lemma up_step_inbound: "up_step L sid i ev b s = (b', s') \<Longrightarrow> s_inbound s' = s_inbound s"
  by (auto simp: up_step_def Let_def split: bridge_event.splits option.splits send_outcome.splits prod.splits if_splits)

lemma deliver_inbound: "deliver i m fault b s = (b', s') \<Longrightarrow> s_inbound s' = s_inbound s \<and> br_seen b' = br_seen b"
  by (auto simp: deliver_def split: option.splits if_splits)

lemma down_step_inbound:
  assumes "down_step i ev b s = (b', s')" "s_inbound s i = Some q"
  shows "\<exists>q'. s_inbound s' i = Some q' \<and> br_seen b' @ q' = br_seen b @ q"
  using assms
  by (auto simp: down_step_def dest!: deliver_inbound split: bridge_event.splits option.splits list.splits if_splits)

lemma bridge_step_queue:
  assumes "bridge_step L sid i ev (b, s) = (b', s')" "\<And>f. ev = Others f \<Longrightarrow> appends i f"
    and "s_inbound s i = Some q"
  shows "\<exists>q' ys. s_inbound s' i = Some q' \<and> br_seen b' @ q' = br_seen b @ q @ ys"
  using assms(1)
proof (cases rule: bridge_cases)
  case (others f)
  then have "appends i f" using assms(2) by blast
  then obtain ys where "s_inbound (f s) i = Some (q @ ys)" using assms(3) unfolding appends_def by blast
  then show ?thesis using others by auto
next
  case (pumps b1 s1)
  have "s_inbound s1 i = Some q" using up_step_inbound [OF pumps(2)] assms(3) by simp
  from down_step_inbound [OF pumps(3) this] show ?thesis
    using up_step_down [OF pumps(2)] by auto
qed

text \<open>What another task does in an event only appends to the bridge's channel.\<close>

definition polite :: "uuid \<Rightarrow> app_state bridge_event \<Rightarrow> bool" where
  "polite i ev \<longleftrightarrow> (\<forall>f. ev = Others f \<longrightarrow> appends i f)"

interpretation public: pumps "bridge_step L sid i" "up_frame L i" "\<lambda>s. s_inbound s i" "polite i" for L sid i
proof
  show "up_change (up_frame L i) b b'" if "bridge_step L sid i ev (b, s) = (b', s')" for ev b s b' s'
    using that by (rule bridge_step_up_change)
  show "down_change b b'" if "bridge_step L sid i ev (b, s) = (b', s')" for ev b s b' s'
    using that by (rule bridge_step_down_change)
  show "\<exists>q' ys. s_inbound s' i = Some q' \<and> br_seen b' @ q' = br_seen b @ q @ ys"
    if "bridge_step L sid i ev (b, s) = (b', s')" "polite i ev" "s_inbound s i = Some q" for ev b s b' s' q
    using that by (intro bridge_step_queue) (auto simp: polite_def)
qed

section \<open>Offers\<close>

lemma settle_offer_cases:
  "settle_offer i s =
     (case received_ack i s of
        Some (Inr _) \<Rightarrow> (Inr (), s)
      | Some (Inl e) \<Rightarrow> (Inl (AgentRejected e), drop_receivers i (forget_offer i s))
      | None \<Rightarrow> (Inl AckTimeout, count add_failed (drop_receivers i (forget_offer i s))))"
  by (auto simp: settle_offer_def seq_def act_simps split: option.splits sum.splits)

lemma settle_stream_cases:
  "settle_stream i s =
     (case received_ack i s of
        Some (Inr _) \<Rightarrow> (Inr (), s)
      | Some (Inl e) \<Rightarrow> (Inl (AgentRejected e), drop_receivers i (forget_offer i s))
      | None \<Rightarrow> (Inl AckTimeout, drop_receivers i (forget_offer i s)))"
  by (auto simp: settle_stream_def seq_def act_simps split: option.splits sum.splits)

lemma forget_sel [simp]:
  "s_pending (drop_receivers i (forget_offer i s)) = (s_pending s)(i := None)"
  "s_streams (drop_receivers i (forget_offer i s)) = s_streams s - {i}"
  "s_ack (drop_receivers i (forget_offer i s)) = (s_ack s)(i := None)"
  "s_inbound (drop_receivers i (forget_offer i s)) = (s_inbound s)(i := None)"
  "s_active (drop_receivers i (forget_offer i s)) = s_active s"
  by (simp_all add: drop_receivers_def forget_offer_def)

lemma register_sel [simp]:
  "s_active (register_offer L f a s) = s_active s"
  "s_streams (register_offer L f a s) = insert (of_id f) (s_streams s)"
  "s_config (register_offer L f a s) = s_config s"
  "s_ack (register_offer L f a s) = (s_ack s)(of_id f \<mapsto> None)"
  "s_inbound (register_offer L f a s) = (s_inbound s)(of_id f \<mapsto> [])"
  "s_ctl (register_offer L f a s) = s_ctl s"
  by (simp_all add: register_offer_def)

lemma send_offer_Inl:
  "send_offer i agent m s = (Inl e, s') \<longleftrightarrow>
     s_ctl s (ap_session_id agent) = None \<and> e = SendFailed \<and> s' = drop_receivers i s"
  by (auto simp: send_offer_def send_ctl_def split: option.splits)

lemma send_offer_Inr:
  "send_offer i agent m s = (Inr u, s') \<longleftrightarrow>
     (\<exists>q. s_ctl s (ap_session_id agent) = Some q \<and> s' = s\<lparr>s_ctl := (s_ctl s)(ap_session_id agent \<mapsto> q @ [m])\<rparr>)"
  by (auto simp: send_offer_def send_ctl_def split: option.splits)

lemma offer_connection_Inl:
  "offer_connection L f t peer loc agent s = (Inl e, s') \<Longrightarrow>
     e = SendFailed \<and> s' = drop_receivers (of_id f) (register_offer L f (t_agent_id t) s)"
  by (auto simp: offer_connection_def seq_eq_Inl act_simps send_offer_Inl)

lemma geo_lookup_Inl: "geo_lookup g a s \<noteq> (Inl e, s')"
  by (auto simp: geo_lookup_def split: prod.splits)

lemma geo_lookup_state: "geo_lookup g a s = (r, s') \<Longrightarrow> \<exists>res. s' = s\<lparr>s_geoip := res\<rparr>"
  by (auto simp: geo_lookup_def split: prod.splits)

lemma admit_Inl:
  "admit L t peer s = (Inl e, s') \<longleftrightarrow>
     (if source_allowed L t (sock_ip peer)
      then s_agents s (t_agent_id t) = None \<and> e = OfflineAgent \<and> s' = count add_failed s
      else e = SourceRefused \<and> s' = count add_rejected s)"
  by (auto simp: admit_def seq_def act_simps split: option.splits)

lemma admit_Inr:
  "admit L t peer s = (Inr p, s') \<longleftrightarrow>
     source_allowed L t (sock_ip peer) \<and> s_agents s (t_agent_id t) = Some p \<and> s' = s"
  by (auto simp: admit_def seq_def act_simps split: option.splits)

text \<open>How \<open>accept_public_connection\<close> can fail, and what each failure leaves behind.\<close>

lemma accept_Inl:
  assumes "accept_public_connection L io t peer s = (Inl e, s')"
  obtains (admission) "admit L t peer s = (Inl e, s')"
    | (sending) agent loc s1 s2 where "admit L t peer s = (Inr agent, s)"
        "geo_lookup (ci_geo io) (sock_ip peer) s = ((Inr loc :: conn_error + geo_location option), s1)" "s2 = ci_during_geo io s1"
        "offer_connection L (ci_offer io) t peer loc agent s2 = (Inl e, s')"
    | (settling) s3 where "settle_offer (of_id (ci_offer io)) s3 = (Inl e, s')"
  using assms unfolding accept_public_connection_def
  by (auto simp: seq_eq_Inl seq_eq_Inr act_simps geo_lookup_Inl admit_Inr split: prod.splits)

end
