(* ===== verification/Relay.thy ===== *)
theory Relay
  imports Tunnel_Facts Gateway_Facts
begin

text \<open>
  The life of relayed connections under arbitrary interleaving: one transition per atomic segment of
  \<open>accept_public_connection\<close>, \<open>open_virtual_stream\<close> and \<open>acknowledge_connection\<close> and per step of a
  bridge or of the frame router, in any order and for any number of connections. Next to the server's
  state the system keeps the running handlers and the log of offers and acknowledgements.
\<close>

section \<open>The system\<close>

text \<open>A handler waits for the acknowledgement of the owning agent, or bridges its connection.\<close>

datatype phase = Waiting uuid | Running

datatype relay_event =
    Offered uuid uuid ustr instant
  | Acked uuid uuid ustr instant bool

record relay =
  r_app :: app_state
  r_tasks :: "uuid \<rightharpoonup> phase"
  r_log :: "relay_event list"

definition offered_id :: "relay_event \<Rightarrow> uuid option" where
  "offered_id e = (case e of Offered i _ _ _ \<Rightarrow> Some i | _ \<Rightarrow> None)"

definition acked_id :: "relay_event \<Rightarrow> uuid option" where
  "acked_id e = (case e of Acked i _ _ _ _ \<Rightarrow> Some i | _ \<Rightarrow> None)"

definition log_offer :: "lib \<Rightarrow> offer \<Rightarrow> uuid \<Rightarrow> app_state \<Rightarrow> relay_event" where
  "log_offer L f owner s =
     Offered (of_id f) owner (hash_token L (of_ticket f)) (of_now f + c_ticket_ttl (s_config s))"

text \<open>
  \<open>relay_same s s'\<close>: the maps the relay owns are as they were; such is every step of the rest of the
  server (sessions, database, agents coming and going, listeners, counters).
\<close>

definition relay_same :: "app_state \<Rightarrow> app_state \<Rightarrow> bool" where
  "relay_same s s' \<longleftrightarrow>
     s_pending s' = s_pending s \<and> s_streams s' = s_streams s \<and> s_active s' = s_active s \<and>
     s_ack s' = s_ack s \<and> s_inbound s' = s_inbound s"

inductive relay_step :: "lib \<Rightarrow> relay \<Rightarrow> relay \<Rightarrow> bool" for L where
  offer: "Some (of_id f) \<notin> offered_id ` set (r_log r) \<Longrightarrow>
     send_offer (of_id f) agent m (register_offer L f owner (r_app r)) = (Inr (), s') \<Longrightarrow>
     relay_step L r \<lparr>r_app = s', r_tasks = (r_tasks r)(of_id f \<mapsto> Waiting owner),
       r_log = log_offer L f owner (r_app r) # r_log r\<rparr>"
| offer_fails: "Some (of_id f) \<notin> offered_id ` set (r_log r) \<Longrightarrow>
     send_offer (of_id f) agent m (register_offer L f owner (r_app r)) = (Inl e, s') \<Longrightarrow>
     relay_step L r \<lparr>r_app = s', r_tasks = r_tasks r, r_log = log_offer L f owner (r_app r) # r_log r\<rparr>"
| ack: "acknowledge_connection L now i agent (Some tk) accepted err (r_app r) = (True, s') \<Longrightarrow>
     relay_step L r (r\<lparr>r_app := s', r_log := Acked i agent tk now accepted # r_log r\<rparr>)"
| opened: "r_tasks r i = Some (Waiting owner) \<Longrightarrow> settle_offer i (r_app r) = (Inr (), s') \<Longrightarrow> ac_id a = i \<Longrightarrow>
     relay_step L r (r\<lparr>r_app := activate a s', r_tasks := (r_tasks r)(i \<mapsto> Running)\<rparr>)"
| refused: "r_tasks r i = Some (Waiting owner) \<Longrightarrow>
     settle_offer i (r_app r) = (Inl e, s') \<or> settle_stream i (r_app r) = (Inl e, s') \<Longrightarrow>
     relay_step L r (r\<lparr>r_app := s', r_tasks := (r_tasks r)(i := None)\<rparr>)"
| pump: "r_tasks r i = Some Running \<Longrightarrow> \<forall>f. ev \<noteq> Others f \<Longrightarrow> bridge_step L sid i ev (b, r_app r) = (b', s') \<Longrightarrow>
     relay_step L r (r\<lparr>r_app := s'\<rparr>)"
| close: "r_tasks r i = Some Running \<Longrightarrow> s' = close_connection L i closed (r_app r) \<or> s' = close_stream i (r_app r) \<Longrightarrow>
     relay_step L r (r\<lparr>r_app := s', r_tasks := (r_tasks r)(i := None)\<rparr>)"
| route: "route_carrier_frame L frame (r_app r) = Some s' \<Longrightarrow> relay_step L r (r\<lparr>r_app := s'\<rparr>)"
| elsewhere: "relay_same (r_app r) s' \<Longrightarrow> relay_step L r (r\<lparr>r_app := s'\<rparr>)"

definition relay_start :: "relay \<Rightarrow> bool" where
  "relay_start r \<longleftrightarrow>
     s_pending (r_app r) = Map.empty \<and> s_streams (r_app r) = {} \<and> s_active (r_app r) = Map.empty \<and>
     s_ack (r_app r) = Map.empty \<and> r_tasks r = Map.empty \<and> r_log r = []"

section \<open>The invariant\<close>

text \<open>The acknowledgement that let a connection through, as the log shows it.\<close>

definition cleared :: "lib \<Rightarrow> relay_event list \<Rightarrow> uuid \<Rightarrow> uuid \<Rightarrow> bool" where
  "cleared L es i owner \<longleftrightarrow>
     (\<exists>h deadline tk now. Offered i owner h deadline \<in> set es \<and> Acked i owner tk now True \<in> set es \<and>
        hash_token L tk = h \<and> now < deadline)"

definition acks :: "uuid \<Rightarrow> relay_event list \<Rightarrow> nat" where
  "acks i es = length (filter (\<lambda>e. acked_id e = Some i) es)"

definition task_ok :: "lib \<Rightarrow> relay \<Rightarrow> uuid \<Rightarrow> bool" where
  "task_ok L r i \<longleftrightarrow>
     (case r_tasks r i of
        Some (Waiting owner) \<Rightarrow>
          s_active (r_app r) i = None \<and> i \<in> s_streams (r_app r) \<and> s_ack (r_app r) i \<noteq> None \<and>
          (\<forall>p. s_pending (r_app r) i = Some p \<longrightarrow> pc_agent_id p = owner) \<and>
          (s_ack (r_app r) i = Some (Some (Inr ())) \<longrightarrow>
             s_pending (r_app r) i = None \<and> cleared L (r_log r) i owner)
      | Some Running \<Rightarrow>
          i \<in> s_streams (r_app r) \<and> s_active (r_app r) i \<noteq> None \<and> s_pending (r_app r) i = None \<and>
          (\<exists>owner. cleared L (r_log r) i owner)
      | None \<Rightarrow> s_active (r_app r) i = None \<and> s_ack (r_app r) i = None)"

definition pending_ok :: "relay \<Rightarrow> uuid \<Rightarrow> bool" where
  "pending_ok r i \<longleftrightarrow>
     (case s_pending (r_app r) i of
        Some p \<Rightarrow> Offered i (pc_agent_id p) (pc_ticket_hash p) (pc_expires_at p) \<in> set (r_log r) \<and>
                  acks i (r_log r) = 0
      | None \<Rightarrow> acks i (r_log r) \<le> 1) \<and>
     (i \<in> s_streams (r_app r) \<or> r_tasks r i \<noteq> None \<or> acks i (r_log r) \<noteq> 0 \<longrightarrow>
        Some i \<in> offered_id ` set (r_log r))"

definition relay_inv :: "lib \<Rightarrow> relay \<Rightarrow> bool" where
  "relay_inv L r \<longleftrightarrow> (\<forall>i. task_ok L r i \<and> pending_ok r i)"

text \<open>What the invariant reads at one id; a step that leaves it alone there keeps the invariant there.\<close>

definition view :: "relay \<Rightarrow> uuid \<Rightarrow>
    phase option \<times> bool \<times> bool \<times> (ustr + unit) option option \<times> pending_connection option" where
  "view r i = (r_tasks r i, s_active (r_app r) i = None, i \<in> s_streams (r_app r), s_ack (r_app r) i,
     s_pending (r_app r) i)"

definition concerns :: "uuid \<Rightarrow> relay_event \<Rightarrow> bool" where
  "concerns i e \<longleftrightarrow> offered_id e = Some i \<or> acked_id e = Some i"

lemma cleared_mono: "cleared L es i owner \<Longrightarrow> set es \<subseteq> set es' \<Longrightarrow> cleared L es' i owner"
  unfolding cleared_def by blast

lemma acks_Cons [simp]: "acks i (e # es) = (if acked_id e = Some i then 1 else 0) + acks i es"
  by (simp add: acks_def)

lemma view_keeps:
  assumes "task_ok L r i \<and> pending_ok r i" "view r' i = view r i"
    and "r_log r' = r_log r \<or> (\<exists>e. r_log r' = e # r_log r \<and> \<not> concerns i e)"
  shows "task_ok L r' i \<and> pending_ok r' i"
proof -
  have v: "r_tasks r' i = r_tasks r i" "s_active (r_app r') i = None \<longleftrightarrow> s_active (r_app r) i = None"
    "i \<in> s_streams (r_app r') \<longleftrightarrow> i \<in> s_streams (r_app r)" "s_ack (r_app r') i = s_ack (r_app r) i"
    "s_pending (r_app r') i = s_pending (r_app r) i"
    using assms(2) by (simp_all add: view_def)
  have log: "set (r_log r) \<subseteq> set (r_log r')" "acks i (r_log r') = acks i (r_log r)"
    using assms(3) by (auto simp: concerns_def)
  have cl: "cleared L (r_log r) i owner \<Longrightarrow> cleared L (r_log r') i owner" for owner
    using cleared_mono log(1) by blast
  have "task_ok L r' i"
    using assms(1) v cl by (auto simp: task_ok_def split: option.splits phase.splits)
  moreover have "pending_ok r' i"
    using assms(1) v log by (auto simp: pending_ok_def split: option.splits)
  ultimately show ?thesis by simp
qed

lemma pending_offered:
  "pending_ok r i \<Longrightarrow> s_pending (r_app r) i = Some p \<Longrightarrow>
     Some i \<in> offered_id ` set (r_log r) \<and>
     Offered i (pc_agent_id p) (pc_ticket_hash p) (pc_expires_at p) \<in> set (r_log r)"
  unfolding pending_ok_def by (force simp: offered_id_def)

text \<open>The segments change the view at their own id only.\<close>

lemma view_other:
  assumes "j \<noteq> i"
  shows "view (r\<lparr>r_app := s, r_tasks := (r_tasks r)(i := x)\<rparr>) j = view (r\<lparr>r_app := s\<rparr>) j"
  using assms by (simp add: view_def)

lemma view_app:
  "s_active s j = None \<longleftrightarrow> s_active (r_app r) j = None \<Longrightarrow> j \<in> s_streams s \<longleftrightarrow> j \<in> s_streams (r_app r) \<Longrightarrow>
     s_ack s j = s_ack (r_app r) j \<Longrightarrow> s_pending s j = s_pending (r_app r) j \<Longrightarrow> r_tasks r' j = r_tasks r j \<Longrightarrow>
     r_app r' = s \<Longrightarrow> view r' j = view r j"
  by (auto simp: view_def)

lemma send_offer_sel:
  assumes "send_offer i agent m s = (x, s')"
  shows "s_pending s' = s_pending s" "s_streams s' = s_streams s" "s_active s' = s_active s"
    "s_ack s' = (case x of Inr _ \<Rightarrow> s_ack s | Inl _ \<Rightarrow> (s_ack s)(i := None))"
  using assms by (cases x; auto simp: send_offer_Inl send_offer_Inr drop_receivers_def)+

lemma offer_keeps:
  assumes "relay_inv L r" and fresh: "Some (of_id f) \<notin> offered_id ` set (r_log r)"
    and send: "send_offer (of_id f) agent m (register_offer L f owner (r_app r)) = (x, s')"
    and tasks: "t = (case x of Inr _ \<Rightarrow> (r_tasks r)(of_id f \<mapsto> Waiting owner) | Inl _ \<Rightarrow> r_tasks r)"
  shows "relay_inv L \<lparr>r_app = s', r_tasks = t, r_log = log_offer L f owner (r_app r) # r_log r\<rparr>"
  unfolding relay_inv_def
proof
  fix j
  let ?r' = "\<lparr>r_app = s', r_tasks = t, r_log = log_offer L f owner (r_app r) # r_log r\<rparr>"
  note s = send_offer_sel [OF send]
  have ok: "task_ok L r j" "pending_ok r j" for j using assms(1) by (auto simp: relay_inv_def)
  show "task_ok L ?r' j \<and> pending_ok ?r' j"
  proof (cases "j = of_id f")
    case False
    have "t j = r_tasks r j" using False by (cases x) (simp_all add: tasks)
    moreover have "s_ack s' j = s_ack (r_app r) j" "s_pending s' j = s_pending (r_app r) j"
      "j \<in> s_streams s' \<longleftrightarrow> j \<in> s_streams (r_app r)" "s_active s' j = s_active (r_app r) j"
      using False by (cases x; simp add: s register_offer_def)+
    ultimately have "view ?r' j = view r j" by (simp add: view_def)
    then show ?thesis
      by (rule view_keeps [of L r, rotated]) (use False ok [of j] in \<open>auto simp: log_offer_def concerns_def offered_id_def acked_id_def\<close>)
  next
    case True
    have new: "Some j \<notin> offered_id ` set (r_log r)" using fresh True by simp
    then have none: "r_tasks r j = None" "acks j (r_log r) = 0"
      using ok(2) [of j] unfolding pending_ok_def by blast+
    have "s_pending (r_app r) j = None"
      using pending_offered [OF ok(2) [of j]] new by (cases "s_pending (r_app r) j") auto
    note none = this none
    then have "s_active (r_app r) j = None" using ok(1) [of j] by (simp add: task_ok_def)
    with none True s show ?thesis
      by (cases x)
        (auto simp: task_ok_def pending_ok_def register_offer_def tasks log_offer_def acked_id_def offered_id_def image_iff)
  qed
qed

lemma relay_invD: "relay_inv L r \<Longrightarrow> task_ok L r j" "relay_inv L r \<Longrightarrow> pending_ok r j"
  by (auto simp: relay_inv_def)

text \<open>A step that leaves the log alone and touches the view at one id at most.\<close>

lemma local_keeps:
  assumes "relay_inv L r" and "r_log r' = r_log r"
    and "\<And>j. j \<noteq> i \<Longrightarrow> view r' j = view r j" and "task_ok L r' i" "pending_ok r' i"
  shows "relay_inv L r'"
  unfolding relay_inv_def
proof
  fix j
  show "task_ok L r' j \<and> pending_ok r' j"
  proof (cases "j = i")
    case False
    then show ?thesis
      using view_keeps [of L r j r'] assms(1-3) by (auto simp: relay_inv_def)
  qed (use assms in simp)
qed

lemma global_keeps:
  assumes "relay_inv L r" and "r_log r' = r_log r" and "\<And>j. view r' j = view r j"
  shows "relay_inv L r'"
  using view_keeps [of L r _ r'] assms by (auto simp: relay_inv_def)

lemma ack_keeps:
  assumes "relay_inv L r"
    and ack: "acknowledge_connection L now i agent (Some tk) accepted err (r_app r) = (True, s')"
  shows "relay_inv L (r\<lparr>r_app := s', r_log := Acked i agent tk now accepted # r_log r\<rparr>)"
  unfolding relay_inv_def
proof
  fix j
  let ?r' = "r\<lparr>r_app := s', r_log := Acked i agent tk now accepted # r_log r\<rparr>"
  note ok = relay_invD [OF assms(1)]
  obtain p where p: "s_pending (r_app r) i = Some p" "ticket_valid L now agent (Some tk) p"
    using acknowledge_taken [of L now i agent "Some tk" accepted err "r_app r"] ack by auto
  have s': "s' = (r_app r)\<lparr>s_pending := (s_pending (r_app r))(i := None),
     s_ack := (if s_ack (r_app r) i = None then s_ack (r_app r)
               else (s_ack (r_app r))(i \<mapsto> Some (ack_value accepted err)))\<rparr>"
    by (rule acknowledge_effect [OF ack])
  show "task_ok L ?r' j \<and> pending_ok ?r' j"
  proof (cases "j = i")
    case False
    then have "view ?r' j = view r j" by (simp add: view_def s')
    then show ?thesis
      by (rule view_keeps [of L r, rotated]) (use False ok [of j] in \<open>auto simp: concerns_def offered_id_def acked_id_def\<close>)
  next
    case True
    have off: "Some i \<in> offered_id ` set (r_log r)"
      "Offered i (pc_agent_id p) (pc_ticket_hash p) (pc_expires_at p) \<in> set (r_log r)"
      using pending_offered [OF ok(2) p(1)] by simp_all
    have v: "pc_agent_id p = agent" "hash_token L tk = pc_ticket_hash p" "now < pc_expires_at p"
      using p(2) by (auto simp: ticket_valid_def)
    have none: "acks i (r_log r) = 0" using ok(2) [of i] p(1) by (simp add: pending_ok_def)
    then have "pending_ok ?r' i" using off(1) by (simp add: pending_ok_def s' acked_id_def)
    moreover have "task_ok L ?r' i"
    proof (cases "r_tasks r i")
      case None
      then show ?thesis using ok(1) [of i] by (simp add: task_ok_def s')
    next
      case (Some ph)
      then obtain owner where w: "ph = Waiting owner"
        using ok(1) [of i] p(1) by (cases ph) (auto simp: task_ok_def)
      have "pc_agent_id p = owner" using ok(1) [of i] p(1) Some w by (simp add: task_ok_def)
      then have "cleared L (Acked i agent tk now True # r_log r) i owner"
        using off(2) v unfolding cleared_def by auto
      then show ?thesis
        using ok(1) [of i] Some w by (cases accepted) (auto simp: task_ok_def s' ack_value_def)
    qed
    ultimately show ?thesis using True by simp
  qed
qed

lemma opened_keeps:
  assumes "relay_inv L r" "r_tasks r i = Some (Waiting owner)"
    and "settle_offer i (r_app r) = (Inr (), s')" "ac_id a = i"
  shows "relay_inv L (r\<lparr>r_app := activate a s', r_tasks := (r_tasks r)(i \<mapsto> Running)\<rparr>)"
proof (rule local_keeps [where i = i, OF assms(1)])
  note ok = relay_invD [OF assms(1), of i]
  have s': "s' = r_app r" and ack: "received_ack i (r_app r) = Some (Inr ())"
    using assms(3) by (auto simp: settle_offer_cases split: option.splits sum.splits)
  have "s_ack (r_app r) i = Some (Some (Inr ()))"
    using ack by (auto simp: received_ack_def split: option.splits)
  then show "task_ok L (r\<lparr>r_app := activate a s', r_tasks := (r_tasks r)(i \<mapsto> Running)\<rparr>) i"
    using ok(1) assms(2,4) by (auto simp: task_ok_def s' activate_def)
  show "pending_ok (r\<lparr>r_app := activate a s', r_tasks := (r_tasks r)(i \<mapsto> Running)\<rparr>) i"
    using ok(2) assms(2) by (simp add: pending_ok_def s' activate_def split: option.splits)
  show "view (r\<lparr>r_app := activate a s', r_tasks := (r_tasks r)(i \<mapsto> Running)\<rparr>) j = view r j" if "j \<noteq> i" for j
    using that assms(4) by (simp add: view_def s' activate_def)
qed simp

lemma settle_Inl:
  assumes "settle_offer i s = (Inl e, s') \<or> settle_stream i s = (Inl e, s')"
  shows "s_pending s' = (s_pending s)(i := None)" "s_streams s' = s_streams s - {i}"
    "s_ack s' = (s_ack s)(i := None)" "s_active s' = s_active s"
  using assms by (auto simp: settle_offer_cases settle_stream_cases split: option.splits sum.splits)

lemma end_keeps:
  assumes "relay_inv L r"
    and "s_pending s' = (s_pending (r_app r))(i := None) \<or> s_pending s' = s_pending (r_app r) \<and> s_pending (r_app r) i = None"
    and "s_streams s' = s_streams (r_app r) - {i}" "s_ack s' = (s_ack (r_app r))(i := None)"
    and "s_active s' = (s_active (r_app r))(i := None)"
  shows "relay_inv L (r\<lparr>r_app := s', r_tasks := (r_tasks r)(i := None)\<rparr>)"
proof (rule local_keeps [where i = i, OF assms(1)])
  note ok = relay_invD [OF assms(1), of i]
  show "task_ok L (r\<lparr>r_app := s', r_tasks := (r_tasks r)(i := None)\<rparr>) i"
    by (simp add: task_ok_def assms)
  show "pending_ok (r\<lparr>r_app := s', r_tasks := (r_tasks r)(i := None)\<rparr>) i"
  proof -
    have "acks i (r_log r) \<le> 1" using ok(2) by (simp add: pending_ok_def split: option.splits)
    moreover have "acks i (r_log r) \<noteq> 0 \<longrightarrow> Some i \<in> offered_id ` set (r_log r)"
      using ok(2) unfolding pending_ok_def by blast
    moreover have "s_pending s' i = None" using assms(2) by (elim disjE) simp_all
    ultimately show ?thesis using assms(3) by (simp add: pending_ok_def)
  qed
  show "view (r\<lparr>r_app := s', r_tasks := (r_tasks r)(i := None)\<rparr>) j = view r j" if "j \<noteq> i" for j
  proof -
    have "s_pending s' j = s_pending (r_app r) j" using assms(2) that by (elim disjE) simp_all
    then show ?thesis using that by (simp add: view_def assms(3-5))
  qed
qed simp

lemma close_sel:
  assumes "s' = close_connection L i closed s \<or> s' = close_stream i s"
  shows "s_pending s' = s_pending s" "s_streams s' = s_streams s - {i}"
    "s_ack s' = (s_ack s)(i := None)" "s_active s' = (s_active s)(i := None)"
  using assms
  by (auto simp: close_connection_def close_stream_def drop_receivers_def on_db_def Let_def split: option.splits prod.splits)

lemma add_active_sel [simp]:
  "s_pending (add_active i f s) = s_pending s" "s_ack (add_active i f s) = s_ack s"
  "s_active (add_active i f s) j = None \<longleftrightarrow> s_active s j = None"
  "s_bin (add_active i f s) = s_bin s"
  by (auto simp: add_active_def split: option.splits)

lemma up_step_sel:
  assumes "up_step L sid i ev b s = (b', s')"
  shows "s_pending s' = s_pending s \<and> s_streams s' = s_streams s \<and> s_ack s' = s_ack s \<and>
    (\<forall>j. s_active s' j = None \<longleftrightarrow> s_active s j = None)"
  using assms
  by (auto simp: up_step_def Let_def split: bridge_event.splits option.splits send_outcome.splits prod.splits if_splits)

lemma down_step_sel:
  assumes "down_step i ev b s = (b', s')"
  shows "s_pending s' = s_pending s \<and> s_streams s' = s_streams s \<and> s_ack s' = s_ack s \<and>
    (\<forall>j. s_active s' j = None \<longleftrightarrow> s_active s j = None)"
  using assms
  by (auto simp: down_step_def deliver_def split: bridge_event.splits option.splits list.splits if_splits)

lemma pump_sel:
  assumes "\<forall>f. ev \<noteq> Others f" "bridge_step L sid i ev (b, s) = (b', s')"
  shows "s_pending s' = s_pending s \<and> s_streams s' = s_streams s \<and> s_ack s' = s_ack s \<and>
    (\<forall>j. s_active s' j = None \<longleftrightarrow> s_active s j = None)"
  using assms(2)
proof (cases rule: bridge_cases)
  case (pumps b1 s1)
  then show ?thesis using up_step_sel [OF pumps(2)] down_step_sel [OF pumps(3)] by simp
qed (use assms(1) in simp)

lemma route_sel:
  assumes "route_carrier_frame L frame s = Some s'"
  shows "s_pending s' = s_pending s \<and> s_streams s' = s_streams s \<and> s_ack s' = s_ack s \<and> s_active s' = s_active s"
  using assms by (auto simp: route_carrier_frame_def split: option.splits prod.splits send_outcome.splits if_splits)

lemma relay_step_inv: "relay_step L r r' \<Longrightarrow> relay_inv L r \<Longrightarrow> relay_inv L r'"
proof (induction rule: relay_step.induct)
  case (offer f r agent m owner s')
  then show ?case using offer_keeps [of L r f agent m owner "Inr ()" s'] by simp
next
  case (offer_fails f r agent m owner e s')
  then show ?case using offer_keeps [of L r f agent m owner "Inl e" s'] by simp
next
  case (ack now i agent tk accepted err r s')
  then show ?case by (intro ack_keeps)
next
  case (opened r i owner s' a)
  then show ?case by (intro opened_keeps)
next
  case (refused r i owner e s')
  note s = settle_Inl [OF refused(2)]
  have "s_active (r_app r) i = None"
    using relay_invD(1) [OF refused(3), of i] refused(1) by (simp add: task_ok_def)
  then show ?case using refused(3) s by (intro end_keeps) (auto simp: fun_eq_iff)
next
  case (pump r i ev sid b b' s')
  then show ?case using pump_sel [OF pump(2,3)] by (intro global_keeps [OF pump(4)]) (auto simp: view_def)
next
  case (close r i s' closed)
  note s = close_sel [OF close(2)]
  have "s_pending (r_app r) i = None"
    using relay_invD(1) [OF close(3), of i] close(1) by (simp add: task_ok_def)
  then show ?case using close(3) s by (intro end_keeps) auto
next
  case (route frame r s')
  then show ?case using route_sel [OF route(1)] by (intro global_keeps [OF route(2)]) (auto simp: view_def)
next
  case (elsewhere r s')
  then show ?case by (intro global_keeps [OF elsewhere(2)]) (auto simp: view_def relay_same_def)
qed

lemma relay_start_inv: "relay_start r \<Longrightarrow> relay_inv L r"
  by (simp add: relay_inv_def relay_start_def task_ok_def pending_ok_def acks_def)

interpretation relay_sys: invariant_system relay_start "relay_step L" "relay_inv L" for L
  by unfold_locales (rule relay_start_inv, assumption, rule relay_step_inv)

section \<open>Counting bytes\<close>

definition flow_ok :: "app_state \<Rightarrow> uuid \<Rightarrow> active_connection \<Rightarrow> bridge \<Rightarrow> app_state \<Rightarrow> bool" where
  "flow_ok s0 i a0 b s \<longleftrightarrow>
     k_bytes_down (s_counters s) = k_bytes_down (s_counters s0) + of_nat (length (concat (br_read b))) \<and>
     (\<exists>a. s_active s i = Some a \<and>
        ac_bytes_down a = ac_bytes_down a0 + of_nat (length (concat (br_read b))) \<and>
        (br_down b \<noteq> Some (Inl IoError) \<longrightarrow>
           ac_bytes_up a = ac_bytes_up a0 + of_nat (length (br_out b)) \<and>
           k_bytes_up (s_counters s) = k_bytes_up (s_counters s0) + of_nat (length (br_out b))))"

lemma up_step_flow:
  assumes "flow_ok s0 i a0 b s" "up_step L sid i ev b s = (b', s')"
  shows "flow_ok s0 i a0 b' s'"
proof -
  obtain a where a: "s_active s i = Some a" using assms(1) by (auto simp: flow_ok_def)
  show ?thesis
    using assms a
    by (auto simp: up_step_def flow_ok_def add_active_def add_down_def count_def Let_def
        split: bridge_event.splits option.splits send_outcome.splits prod.splits if_splits)
qed

lemma down_step_flow:
  assumes "flow_ok s0 i a0 b s" "down_step i ev b s = (b', s')"
  shows "flow_ok s0 i a0 b' s'"
proof -
  obtain a where a: "s_active s i = Some a" using assms(1) by (auto simp: flow_ok_def)
  show ?thesis
    using assms a
    by (auto simp: down_step_def deliver_def flow_ok_def add_active_def add_up_def count_def Let_def
        split: bridge_event.splits option.splits list.splits if_splits)
qed

lemma pump_flow:
  assumes "\<forall>f. ev \<noteq> Others f" "flow_ok s0 i a0 b s" "bridge_step L sid i ev (b, s) = (b', s')"
  shows "flow_ok s0 i a0 b' s'"
  using assms(3)
proof (cases rule: bridge_cases)
  case (pumps b1 s1)
  then show ?thesis using up_step_flow [OF assms(2)] down_step_flow by blast
qed (use assms(1) in simp)

section \<open>What the upstream pump read\<close>

definition accepted_read :: "app_state bridge_event \<Rightarrow> bridge \<Rightarrow> bytes list" where
  "accepted_read ev b =
     (case ev of
        UpRead c \<Rightarrow> if br_up b = None \<and> br_held b = None \<and> length c \<le> BUFFER_SIZE then [c] else []
      | _ \<Rightarrow> [])"

fun chunks_read :: "lib \<Rightarrow> uuid \<Rightarrow> uuid \<Rightarrow> app_state bridge_event list \<Rightarrow> bridge \<times> app_state \<Rightarrow> bytes list" where
  "chunks_read L sid i [] bs = []"
| "chunks_read L sid i (ev # evs) bs =
     accepted_read ev (fst bs) @ chunks_read L sid i evs (bridge_step L sid i ev bs)"

definition held_list :: "bridge \<Rightarrow> bytes list" where
  "held_list b = (case br_held b of Some c \<Rightarrow> [c] | None \<Rightarrow> [])"

lemma up_step_chunks:
  assumes "up_step L sid i ev b s = (b', s')"
  shows "br_read b' @ held_list b' = br_read b @ held_list b @ accepted_read ev b"
  using assms
  by (auto simp: up_step_def held_list_def accepted_read_def Let_def
      split: bridge_event.splits option.splits send_outcome.splits prod.splits if_splits)

lemma bridge_step_chunks:
  assumes "bridge_step L sid i ev (b, s) = (b', s')"
  shows "br_read b' @ held_list b' = br_read b @ held_list b @ accepted_read ev b"
  using assms
proof (cases rule: bridge_cases)
  case (others f)
  then show ?thesis by (simp add: accepted_read_def)
next
  case (pumps b1 s1)
  then show ?thesis using up_step_chunks [OF pumps(2)] down_step_up [OF pumps(3)] by (simp add: held_list_def)
qed

lemma bridge_run_chunks:
  "bridge_run L sid i evs (b, s) = (b', s') \<Longrightarrow>
     br_read b' @ held_list b' = br_read b @ held_list b @ chunks_read L sid i evs (b, s)"
proof (induction evs arbitrary: b s)
  case (Cons ev evs)
  obtain b1 s1 where 1: "bridge_step L sid i ev (b, s) = (b1, s1)" by (cases "bridge_step L sid i ev (b, s)")
  then have "bridge_run L sid i evs (b1, s1) = (b', s')" using Cons.prems by (simp add: bridge_run_def)
  from Cons.IH [OF this] bridge_step_chunks [OF 1] show ?case by (simp add: 1)
qed (simp add: bridge_run_def)

section \<open>Properties\<close>

definition sample_offer :: offer where
  "sample_offer = \<lparr>of_id = 9, of_ticket = lit ''tk'', of_now = 0, of_utc = 0\<rparr>"

definition sample_peer :: agent_peer where
  "sample_peer = \<lparr>ap_session_id = 3, ap_transport = TWss, ap_cancellation = 0\<rparr>"

text \<open>A server with the agent 7 online and the connection 9 offered to it.\<close>

definition sample_offered :: app_state where
  "sample_offered = register_offer sample_lib sample_offer 7
     (sample_busy\<lparr>s_agents := [7 \<mapsto> sample_peer], s_ctl := [3 \<mapsto> []], s_bin := [3 \<mapsto> []]\<rparr>)"

lemma hash_ascii [simp]: "list_all (\<lambda>c. c < 128) s \<Longrightarrow> hash_token sample_lib s = s"
proof (induction s)
  case (Cons c s)
  then have c: "c < 128" by simp
  then have "unat (of_nat c :: u8) = c" by (simp only: unat_of_nat take_bit_nat_eq_self_iff) simp
  then have "map unat (utf8 c) = [c]" using c by (simp add: utf8.simps)
  then show ?case using Cons by (simp add: hash_token_def sample_lib_def as_bytes_def)
qed (simp add: hash_token_def sample_lib_def as_bytes_def)

text \<open>
  C11. A ticket is honoured exactly when the connection is pending, the acknowledging agent is the one it
  was offered to, the deadline has not passed and the ticket hashes to the stored hash. It is
  honoured once: afterwards the entry is gone and every further acknowledgement of that connection is
  refused. A refused acknowledgement changes nothing.
\<close>

theorem ticket_spec:
  "(fst (acknowledge_connection L now i agent ticket accepted err s) \<longleftrightarrow>
      (\<exists>p tk. s_pending s i = Some p \<and> pc_agent_id p = agent \<and> now < pc_expires_at p \<and>
         ticket = Some tk \<and> hash_token L tk = pc_ticket_hash p)) \<and>
   (case acknowledge_connection L now i agent ticket accepted err s of
      (True, s') \<Rightarrow> s_pending s' = (s_pending s)(i := None) \<and>
         \<not> fst (acknowledge_connection L now2 i agent2 ticket2 accepted2 err2 s')
    | (False, s') \<Rightarrow> s' = s)"
proof -
  have "(case acknowledge_connection L now i agent ticket accepted err s of
      (True, s') \<Rightarrow> s_pending s' = (s_pending s)(i := None) \<and>
         \<not> fst (acknowledge_connection L now2 i agent2 ticket2 accepted2 err2 s')
    | (False, s') \<Rightarrow> s' = s)"
  proof (cases "acknowledge_connection L now i agent ticket accepted err s")
    case (Pair b s')
    show ?thesis
    proof (cases b)
      case True
      with Pair have "s_pending s' = (s_pending s)(i := None)"
        using acknowledge_effect [of L now i agent ticket accepted err s s'] by simp
      then show ?thesis using Pair True by (simp add: acknowledge_taken)
    next
      case False
      then show ?thesis using Pair acknowledge_refused [of L now i agent ticket accepted err s] by simp
    qed
  qed
  then show ?thesis unfolding acknowledge_taken ticket_valid_def by blast
qed

text \<open>
  C3. Safety of the relay under every interleaving of any number of connections: a connection is active
  only if it was offered to an agent and that agent, before the deadline and with the ticket of this
  very offer, accepted it; it is then no longer pending, every connection is acknowledged at most
  once, and the active connections are exactly those whose handler is bridging.
\<close>

theorem relay_safe:
  assumes "relay_start r0" and "(relay_step L)\<^sup>*\<^sup>* r0 r"
  shows "(i \<in> dom (s_active (r_app r)) \<longleftrightarrow> r_tasks r i = Some Running) \<and>
     (i \<in> dom (s_active (r_app r)) \<longrightarrow>
        i \<notin> dom (s_pending (r_app r)) \<and>
        (\<exists>owner h deadline tk now. Offered i owner h deadline \<in> set (r_log r) \<and>
           Acked i owner tk now True \<in> set (r_log r) \<and> hash_token L tk = h \<and> now < deadline)) \<and>
     length (filter (\<lambda>e. acked_id e = Some i) (r_log r)) \<le> 1"
proof -
  have inv: "task_ok L r i" "pending_ok r i"
    using relay_sys.reachable_inv [OF assms] by (auto simp: relay_inv_def)
  have "length (filter (\<lambda>e. acked_id e = Some i) (r_log r)) \<le> 1"
    using inv(2) by (auto simp: pending_ok_def acks_def split: option.splits)
  moreover have "i \<in> dom (s_active (r_app r)) \<longleftrightarrow> r_tasks r i = Some Running"
    using inv(1) by (auto simp: task_ok_def split: option.splits phase.splits)
  moreover have "r_tasks r i = Some Running \<longrightarrow> i \<notin> dom (s_pending (r_app r)) \<and> (\<exists>owner. cleared L (r_log r) i owner)"
    using inv(1) by (auto simp: task_ok_def)
  ultimately show ?thesis unfolding cleared_def by blast
qed

definition sample_active :: active_connection where
  "sample_active = active_entry 9 sample_tunnel (SockV4 1 80) None 0 sample_peer"

lemma sample_run:
  "\<exists>r. (relay_step sample_lib)\<^sup>*\<^sup>*
      \<lparr>r_app = sample_busy\<lparr>s_agents := [7 \<mapsto> sample_peer], s_ctl := [3 \<mapsto> []], s_bin := [3 \<mapsto> []]\<rparr>,
       r_tasks = Map.empty, r_log = []\<rparr> r \<and> s_active (r_app r) 9 = Some sample_active"
proof -
  let ?s0 = "sample_busy\<lparr>s_agents := [7 \<mapsto> sample_peer], s_ctl := [3 \<mapsto> []], s_bin := [3 \<mapsto> []]\<rparr>"
  let ?r0 = "\<lparr>r_app = ?s0, r_tasks = Map.empty, r_log = []\<rparr>"
  let ?s1 = "snd (send_offer 9 sample_peer (Ping 0) sample_offered)"
  let ?r1 = "\<lparr>r_app = ?s1, r_tasks = [9 \<mapsto> Waiting 7], r_log = [log_offer sample_lib sample_offer 7 ?s0]\<rparr>"
  have o: "of_id sample_offer = 9" by (simp add: sample_offer_def)
  have s1: "send_offer 9 sample_peer (Ping 0) sample_offered = (Inr (), ?s1)"
    by (simp add: send_offer_def send_ctl_def sample_offered_def sample_peer_def)
  have "relay_step sample_lib ?r0 \<lparr>r_app = ?s1, r_tasks = (r_tasks ?r0)(of_id sample_offer \<mapsto> Waiting 7),
       r_log = log_offer sample_lib sample_offer 7 (r_app ?r0) # r_log ?r0\<rparr>"
    by (rule relay_step.offer [where m = "Ping 0" and agent = sample_peer])
      (use s1 in \<open>simp_all add: o sample_offered_def\<close>)
  then have 1: "relay_step sample_lib ?r0 ?r1" by (simp add: o)
  have pend: "s_pending ?s1 9 = Some \<lparr>pc_agent_id = 7, pc_ticket_hash = lit ''tk'', pc_expires_at = secs 15\<rparr>"
    and ack1: "s_ack ?s1 9 = Some None"
    by (simp_all add: send_offer_def send_ctl_def sample_offered_def sample_peer_def register_offer_def
        sample_offer_def sample_busy_def sample_config_def lit_def)
  obtain b s2 where a: "acknowledge_connection sample_lib 1 9 7 (Some (lit ''tk'')) True None ?s1 = (b, s2)"
    by (cases "acknowledge_connection sample_lib 1 9 7 (Some (lit ''tk'')) True None ?s1")
  have "fst (acknowledge_connection sample_lib 1 9 7 (Some (lit ''tk'')) True None ?s1)"
    unfolding acknowledge_taken ticket_valid_def using pend by (simp add: secs_def lit_def)
  then have b: b using a by simp
  let ?r2 = "?r1\<lparr>r_app := s2, r_log := Acked 9 7 (lit ''tk'') 1 True # r_log ?r1\<rparr>"
  have 2: "relay_step sample_lib ?r1 ?r2"
    by (rule relay_step.ack) (use a b in simp)
  have "s_ack s2 9 = Some (Some (Inr ()))"
    using acknowledge_effect [of sample_lib 1 9 7 "Some (lit ''tk'')" True None ?s1 s2] a b ack1
    by (simp add: ack_value_def)
  then have "settle_offer 9 s2 = (Inr (), s2)" by (simp add: settle_offer_cases received_ack_def)
  then have 3: "relay_step sample_lib ?r2 (?r2\<lparr>r_app := activate sample_active s2, r_tasks := (r_tasks ?r2)(9 \<mapsto> Running)\<rparr>)"
    by (intro relay_step.opened [where owner = 7]) (simp_all add: sample_active_def active_entry_def)
  have "(relay_step sample_lib)\<^sup>*\<^sup>* ?r0 (?r2\<lparr>r_app := activate sample_active s2, r_tasks := (r_tasks ?r2)(9 \<mapsto> Running)\<rparr>)"
    using 1 2 3 by (meson converse_rtranclp_into_rtranclp r_into_rtranclp)
  then show ?thesis
    by (intro exI conjI) (assumption, simp add: activate_def sample_active_def active_entry_def)
qed

theorem relay_safe_witness:
  "\<exists>r :: relay. s_active (r_app r) 9 \<noteq> None \<and> s_pending (r_app r) 9 = None \<and> r_tasks r 9 = Some Running"
proof -
  let ?r0 = "\<lparr>r_app = sample_busy\<lparr>s_agents := [7 \<mapsto> sample_peer], s_ctl := [3 \<mapsto> []], s_bin := [3 \<mapsto> []]\<rparr>,
       r_tasks = Map.empty, r_log = []\<rparr>"
  obtain r where r: "(relay_step sample_lib)\<^sup>*\<^sup>* ?r0 r" "s_active (r_app r) 9 = Some sample_active"
    using sample_run by blast
  have "relay_start ?r0" by (simp add: relay_start_def sample_busy_def)
  from relay_safe [OF this r(1), of 9] r(2)
  have "s_pending (r_app r) 9 = None \<and> r_tasks r 9 = Some Running" by auto
  then show ?thesis using r(2) by (intro exI [of _ r]) simp
qed

text \<open>
  How \<open>accept_public_connection\<close> fails: a refused source and an offline agent only count; after a
  rejection or a timeout neither the pending entry nor the stream nor a channel of the connection is
  left. When the message to the agent cannot be sent, the early return leaves both entries behind,
  although nothing will ever serve them.
\<close>

theorem accept_failures:
  assumes "accept_public_connection L io t peer s = (Inl e, s')"
  shows "case e of
      SourceRefused \<Rightarrow> \<not> source_allowed L t (sock_ip peer) \<and> s' = count add_rejected s
    | OfflineAgent \<Rightarrow> s_agents s (t_agent_id t) = None \<and> s' = count add_failed s
    | SendFailed \<Rightarrow> of_id (ci_offer io) \<in> s_streams s' \<and> s_pending s' (of_id (ci_offer io)) \<noteq> None \<and>
        s_inbound s' (of_id (ci_offer io)) = None \<and> s_ack s' (of_id (ci_offer io)) = None
    | _ \<Rightarrow> of_id (ci_offer io) \<notin> s_streams s' \<and> s_pending s' (of_id (ci_offer io)) = None \<and>
        s_inbound s' (of_id (ci_offer io)) = None \<and> s_ack s' (of_id (ci_offer io)) = None"
  using assms
proof (cases rule: accept_Inl)
  case admission
  then show ?thesis by (auto simp: admit_Inl split: if_splits)
next
  case (sending agent loc s1 s2)
  show ?thesis
    using offer_connection_Inl [OF sending(4)] by (auto simp: drop_receivers_def register_offer_def)
next
  case (settling s3)
  then show ?thesis
    by (auto simp: settle_offer_cases drop_receivers_def forget_offer_def split: option.splits sum.splits)
qed

definition sample_input :: conn_input where
  "sample_input =
     \<lparr>ci_offer = sample_offer, ci_geo = (0, 0, HttpError), ci_during_geo = id, ci_during_ack = id,
      ci_opened = 0, ci_events = [], ci_closed = 0\<rparr>"

theorem accept_failures_witness:
  "\<exists>s'. accept_public_connection sample_lib sample_input sample_tunnel (SockV4 1 80)
       (sample_state\<lparr>s_agents := [7 \<mapsto> sample_peer]\<rparr>) = (Inl SendFailed, s') \<and>
     s_pending s' 9 \<noteq> None \<and> 9 \<in> s_streams s'"
proof -
  let ?s = "sample_state\<lparr>s_agents := [7 \<mapsto> sample_peer]\<rparr>"
  have public: "source_allowed sample_lib sample_tunnel (sock_ip (SockV4 1 80))"
    by (simp add: source_allowed_eq sample_tunnel_def new_tunnel_def sample_request_def)
  have owner: "t_agent_id sample_tunnel = 7" by (simp add: sample_tunnel_def)
  have off: "\<not> gr_enabled (s_geoip ?s)"
    by (simp add: sample_state_def app_state_new_def sample_config_def resolver_new_def eq_ignore_ascii_case_def
        lit_def trim_def drop_while_end_def is_whitespace_def)
  have g: "geo_lookup (0, 0, HttpError) (sock_ip (SockV4 1 80)) ?s = ((Inr None :: conn_error + geo_location option), ?s)"
    using off by (simp add: geo_lookup_def lookup_local)
  have "\<exists>s'. accept_public_connection sample_lib sample_input sample_tunnel (SockV4 1 80) ?s = (Inl SendFailed, s')"
    using public g owner
    by (simp add: accept_public_connection_def seq_def act_simps admit_def sample_input_def
        offer_connection_def send_offer_def send_ctl_def)
  then obtain s' where a: "accept_public_connection sample_lib sample_input sample_tunnel (SockV4 1 80) ?s = (Inl SendFailed, s')"
    by blast
  from accept_failures [OF this] a show ?thesis by (auto simp: sample_input_def sample_offer_def)
qed

text \<open>
  The upstream direction of a bridge, whatever the other tasks do and however reads, sends and
  refusals interleave: the frames handed to the carrier are, in order, one DATA frame of this
  connection per chunk read from the public socket and a FIN frame for end of file, with nothing lost,
  merged or repeated; only a chunk not yet accepted by the carrier is missing; nothing follows FIN, and
  the pump ends well exactly when FIN was handed over.
\<close>

theorem bridge_upstream:
  assumes "frames_ok L" and "bridge_run L sid i evs (bridge_start, s) = (b, s')"
  shows "map (decode_carrier_frame (l_uuid_of_slice L)) (br_frames b) =
       map (\<lambda>c. Some (if c = [] then CARRIER_FRAME_FIN else CARRIER_FRAME_DATA, i, c)) (br_read b) \<and>
     br_read b @ (case br_held b of Some c \<Rightarrow> [c] | None \<Rightarrow> []) = chunks_read L sid i evs (bridge_start, s) \<and>
     [] \<notin> set (butlast (br_read b)) \<and>
     (br_up b = Some (Inr ()) \<longleftrightarrow> br_read b \<noteq> [] \<and> last (br_read b) = [])"
proof -
  have inv: "up_inv (up_frame L i) b"
    using assms(2) unfolding bridge_run_def by (rule public.run_up)
  have codec: "uuid_codec (l_uuid_bytes L) (l_uuid_of_slice L)" using assms(1) by (simp add: frames_ok_def)
  have "decode_carrier_frame (l_uuid_of_slice L) (up_frame L i c) =
      Some (if c = [] then CARRIER_FRAME_FIN else CARRIER_FRAME_DATA, i, c)" for c
    using decode_encode_frame [OF codec] by (simp add: up_frame_def)
  moreover have "br_read b @ held_list b = chunks_read L sid i evs (bridge_start, s)"
    using bridge_run_chunks [OF assms(2)] by (simp add: bridge_start_def held_list_def)
  moreover have "[] \<notin> set (butlast (br_read b))"
    using inv unfolding up_inv_def by (cases "br_up b = Some (Inr ())") (auto dest: in_set_butlastD)
  moreover have "br_up b = Some (Inr ()) \<longleftrightarrow> br_read b \<noteq> [] \<and> last (br_read b) = []"
    using inv unfolding up_inv_def by (metis last_in_set)
  ultimately show ?thesis using inv by (simp add: up_inv_def held_list_def)
qed

text \<open>A bridge over the carrier session 3 that reads two bytes and then end of file.\<close>

definition sample_up :: "app_state bridge_event list" where
  "sample_up = [UpRead [1, 2], UpSend, UpRead [], UpSend]"

definition sample_bridged :: app_state where
  "sample_bridged = activate sample_active sample_offered"

theorem bridge_upstream_witness:
  "br_up (fst (bridge_run sample_lib 3 9 sample_up (bridge_start, sample_bridged))) = Some (Inr ()) \<and>
   map (decode_carrier_frame be_uuid_of_slice)
     (br_frames (fst (bridge_run sample_lib 3 9 sample_up (bridge_start, sample_bridged)))) =
     [Some (CARRIER_FRAME_DATA, 9, [1, 2]), Some (CARRIER_FRAME_FIN, 9, [])]"
proof -
  obtain b s' where r: "bridge_run sample_lib 3 9 sample_up (bridge_start, sample_bridged) = (b, s')"
    by (cases "bridge_run sample_lib 3 9 sample_up (bridge_start, sample_bridged)")
  have "s_bin sample_bridged 3 = Some []" by (simp add: sample_bridged_def activate_def sample_offered_def register_offer_def)
  then have "br_read b = [[1, 2], []]"
    using r by (auto simp: bridge_run_def sample_up_def bridge_step_def up_step_def down_step_def bridge_start_def
        BUFFER_SIZE_def BIN_CAPACITY_def send_bounded_def Let_def)
  then show ?thesis using bridge_upstream [OF sample_frames r] r by (simp add: sample_lib_def)
qed

text \<open>
  The downstream direction of a bridge, while other tasks only append to its channel: the frames it
  has received followed by those still queued are what was queued, in order; what was written to the
  public socket is the payloads of the received DATA frames in order (a prefix of them once a write has
  failed), nothing is received after a FIN or RESET frame, and the write side is shut down only on FIN.
\<close>

theorem bridge_downstream:
  assumes "bridge_run L sid i evs (bridge_start, s) = (b, s')"
    and "\<forall>f. Others f \<in> set evs \<longrightarrow> appends i f" and "s_inbound s i = Some q"
  shows "(\<exists>q' ys. s_inbound s' i = Some q' \<and> br_seen b @ q' = q @ ys) \<and>
     (br_down b \<noteq> Some (Inl IoError) \<longrightarrow> br_out b = data_bytes (br_seen b)) \<and>
     (\<exists>rest. data_bytes (br_seen b) = br_out b @ rest) \<and>
     list_all (\<lambda>m. if_kind m \<notin> {CARRIER_FRAME_FIN, CARRIER_FRAME_RESET}) (butlast (br_seen b)) \<and>
     (br_shutdown b \<longrightarrow> br_seen b \<noteq> [] \<and> if_kind (last (br_seen b)) = CARRIER_FRAME_FIN)"
proof -
  have inv: "down_inv b"
    using assms(1) unfolding bridge_run_def by (rule public.run_down)
  have "\<exists>q' ys. s_inbound s' i = Some q' \<and> br_seen b @ q' = q @ ys"
    using public.run_queue [OF assms(1) [unfolded bridge_run_def] _ assms(3)] assms(2)
    by (auto simp: bridge_start_def polite_def)
  moreover have "\<exists>rest. data_bytes (br_seen b) = br_out b @ rest"
    using inv unfolding down_inv_def by (metis append_take_drop_id)
  ultimately show ?thesis
    using inv by (auto simp: down_inv_def ends_stream_def list_all_iff)
qed

text \<open>Two frames arrive over the carrier while the bridge runs: data, then the end of the stream.\<close>

definition sample_down :: "app_state bridge_event list" where
  "sample_down =
     [Others (arrive sample_lib (encode_carrier_frame be_uuid_bytes CARRIER_FRAME_DATA 9 [5, 6])), DownFrame None,
      Others (arrive sample_lib (encode_carrier_frame be_uuid_bytes CARRIER_FRAME_FIN 9 [])), DownFrame None]"

lemma arrive_sample:
  assumes "i \<in> s_streams s" "s_inbound s i = Some q" "length q < 64"
  shows "arrive sample_lib (encode_carrier_frame be_uuid_bytes k i p) s =
     s\<lparr>s_inbound := (s_inbound s)(i \<mapsto> q @ [\<lparr>if_kind = k, if_payload = p\<rparr>])\<rparr>"
  using assms decode_encode_frame [OF be_uuid_codec, of k i p]
  by (simp add: arrive_def route_carrier_frame_def sample_lib_def send_bounded_def STREAM_CAPACITY_def)

theorem bridge_downstream_witness:
  "\<exists>b s'. bridge_run sample_lib 3 9 sample_down (bridge_start, sample_bridged) = (b, s') \<and>
     br_out b = [5, 6] \<and> br_shutdown b \<and> data_bytes (br_seen b) = [5, 6]"
proof -
  have s: "9 \<in> s_streams sample_bridged" "s_inbound sample_bridged 9 = Some []"
    by (simp_all add: sample_bridged_def activate_def sample_offered_def sample_offer_def)
  obtain b s' where r: "bridge_run sample_lib 3 9 sample_down (bridge_start, sample_bridged) = (b, s')"
    by (cases "bridge_run sample_lib 3 9 sample_down (bridge_start, sample_bridged)")
  then have b: "br_out b = [5, 6]" "br_shutdown b" "br_down b = Some (Inr ())"
    using s by (auto simp: bridge_run_def sample_down_def bridge_step_def up_step_def down_step_def bridge_start_def
        arrive_sample deliver_def)
  have "\<forall>f. Others f \<in> set sample_down \<longrightarrow> appends 9 f" by (auto simp: sample_down_def arrive_appends)
  from bridge_downstream [OF r this s(2)] b r show ?thesis by auto
qed

text \<open>
  The byte counters of a connection: after any run of its pumps the connection's entry and the server's
  totals have grown by exactly the bytes handed to the carrier and the bytes written to the public
  socket (modulo 2 to the 64; the written bytes as long as no write has failed).
\<close>

theorem bridge_counters:
  assumes "bridge_run L sid i evs (bridge_start, s) = (b, s')" and "\<forall>f. Others f \<notin> set evs"
    and "s_active s i = Some a0"
  shows "\<exists>a. s_active s' i = Some a \<and>
     ac_bytes_down a = ac_bytes_down a0 + of_nat (length (concat (br_read b))) \<and>
     k_bytes_down (s_counters s') = k_bytes_down (s_counters s) + of_nat (length (concat (br_read b))) \<and>
     (br_down b \<noteq> Some (Inl IoError) \<longrightarrow>
        ac_bytes_up a = ac_bytes_up a0 + of_nat (length (br_out b)) \<and>
        k_bytes_up (s_counters s') = k_bytes_up (s_counters s) + of_nat (length (br_out b)))"
proof -
  have "flow_ok s i a0 b s'"
  proof (rule public.run_induct [where P = "flow_ok s i a0", OF _ _ assms(1) [unfolded bridge_run_def]])
    show "flow_ok s i a0 bridge_start s" using assms(3) by (simp add: flow_ok_def bridge_start_def)
    show "flow_ok s i a0 b2 s2"
      if "ev \<in> set evs" "flow_ok s i a0 b1 s1" "bridge_step L sid i ev (b1, s1) = (b2, s2)" for ev b1 s1 b2 s2
      using pump_flow [OF _ that(2,3)] that(1) assms(2) by blast
  qed
  then show ?thesis by (auto simp: flow_ok_def)
qed

theorem bridge_counters_witness:
  "\<exists>b s' a. bridge_run sample_lib 3 9 sample_up (bridge_start, sample_bridged) = (b, s') \<and>
     s_active s' 9 = Some a \<and> ac_bytes_down a = of_nat (length (concat (br_read b)))"
proof -
  have a: "s_active sample_bridged 9 = Some sample_active"
    by (simp add: sample_bridged_def activate_def sample_active_def active_entry_def)
  obtain b s' where r: "bridge_run sample_lib 3 9 sample_up (bridge_start, sample_bridged) = (b, s')"
    by (cases "bridge_run sample_lib 3 9 sample_up (bridge_start, sample_bridged)")
  have "\<forall>f. Others f \<notin> set sample_up" by (simp add: sample_up_def)
  from bridge_counters [OF r this a] r show ?thesis by (auto simp: sample_active_def active_entry_def)
qed

text \<open>
  Routing of carrier frames: a frame that is too short or names no open stream is dropped without effect;
  otherwise it is appended, kind and payload unchanged, to the channel of the stream it names and of no
  other, and when that channel holds 64 frames the router waits, so no channel ever holds more.
\<close>

theorem route_spec:
  assumes "frames_ok L"
  shows "(length frame < 17 \<longrightarrow> route_carrier_frame L frame s = Some s) \<and>
     (i \<notin> s_streams s \<longrightarrow> route_carrier_frame L (encode_carrier_frame (l_uuid_bytes L) k i p) s = Some s) \<and>
     (i \<in> s_streams s \<longrightarrow> (\<forall>q. s_inbound s i = Some q \<longrightarrow>
        route_carrier_frame L (encode_carrier_frame (l_uuid_bytes L) k i p) s =
          (if length q < 64 then Some (s\<lparr>s_inbound := (s_inbound s)(i \<mapsto> q @ [\<lparr>if_kind = k, if_payload = p\<rparr>])\<rparr>)
           else None)))"
proof -
  have codec: "uuid_codec (l_uuid_bytes L) (l_uuid_of_slice L)" using assms by (simp add: frames_ok_def)
  show ?thesis
    using decode_encode_frame [OF codec, of k i p] decode_frame_None [OF codec, of frame]
    by (auto simp: route_carrier_frame_def send_bounded_def STREAM_CAPACITY_def)
qed

theorem route_spec_witness:
  "route_carrier_frame sample_lib (encode_carrier_frame be_uuid_bytes CARRIER_FRAME_DATA 9 [1]) sample_state = Some sample_state"
  using route_spec [OF sample_frames, of _ sample_state 9 CARRIER_FRAME_DATA "[1]"] by (simp add: sample_lib_def)

text \<open>
  After \<open>reconcile_listener\<close> the tunnel has a listener exactly if it is enabled and not a web tunnel; it
  is the new one, and the token of the listener that was there is cancelled, so a stale accept loop
  stops. Nothing else in the listener table changes.
\<close>

theorem reconcile_spec:
  assumes "\<forall>s. s_cancelled s \<subseteq> s_cancelled (others s) \<and> s_listeners (others s) = s_listeners s"
  shows "s_listeners (reconcile_listener token others t s) =
       (s_listeners s)(t_id t := (if t_enabled t \<and> t_kind t \<noteq> KWeb then Some token else None)) \<and>
     (\<forall>old. s_listeners s (t_id t) = Some old \<longrightarrow> old \<in> s_cancelled (reconcile_listener token others t s))"
proof -
  have stop: "s_listeners (stop_listener (t_id t) s) = (s_listeners s)(t_id t := None)"
    "\<forall>old. s_listeners s (t_id t) = Some old \<longrightarrow> old \<in> s_cancelled (stop_listener (t_id t) s)"
    by (auto simp: stop_listener_def fun_eq_iff split: option.splits)
  show ?thesis
    using stop assms by (auto simp: reconcile_listener_def start_listener_def Let_def)
qed

theorem reconcile_spec_witness:
  "s_listeners (reconcile_listener 4 id sample_tunnel (start_listener 3 sample_tunnel sample_state)) 1 = Some 4 \<and>
   3 \<in> s_cancelled (reconcile_listener 4 id sample_tunnel (start_listener 3 sample_tunnel sample_state))"
  using reconcile_spec [of id 4 sample_tunnel "start_listener 3 sample_tunnel sample_state"]
  by (simp add: start_listener_def sample_tunnel_def new_tunnel_def sample_request_def)

end
