(* ===== verification/Framing.thy ===== *)
theory Framing
  imports Lib
begin

text \<open>
  The length-prefixed records of the QUIC and KCP carriers: \<open>read_record\<close> and \<open>write_record\<close> of
  server/src/quic.rs and server/src/kcp.rs and \<open>read_direct_record\<close>, \<open>write_direct_record\<close> of
  desktop/src-tauri/src/agent.rs. The 32-bit integer primitives belong to tokio and are the
  parameters of the locale \<open>u32_io\<close>.
\<close>

section \<open>Records\<close>

definition MAX_RECORD :: nat where
  "MAX_RECORD = 16 * 1024 * 1024"

datatype read_error = UnexpectedEof | RecordTooLarge

text \<open>
  \<open>put_u32\<close> and \<open>get_u32\<close> are \<open>write_u32\<close> and \<open>read_u32\<close>. \<open>payload.len() as u32\<close> keeps the low 32 bits,
  as \<open>of_nat\<close> at type \<open>u32\<close> does.
\<close>

definition write_record :: "(u32 \<Rightarrow> bytes) \<Rightarrow> u8 \<Rightarrow> bytes \<Rightarrow> bytes" where
  "write_record put_u32 kind payload = [kind] @ put_u32 (of_nat (length payload)) @ payload"

definition read_record ::
  "(bytes \<Rightarrow> u32) \<Rightarrow> nat \<Rightarrow> bytes \<Rightarrow> read_error + (u8 \<times> bytes) \<times> bytes" where
  "read_record get_u32 limit s =
     (case s of
        [] \<Rightarrow> Inl UnexpectedEof
      | kind # r \<Rightarrow>
          andThen (ensure (4 \<le> length r) UnexpectedEof) (\<lambda>_.
          let len = unat (get_u32 (take 4 r)); body = drop 4 r in
          andThen (ensure (len \<le> limit) RecordTooLarge) (\<lambda>_.
          andThen (ensure (len \<le> length body) UnexpectedEof) (\<lambda>_.
          Inr ((kind, take len body), drop len body)))))"

definition quic_read_record :: "(bytes \<Rightarrow> u32) \<Rightarrow> bytes \<Rightarrow> read_error + (u8 \<times> bytes) \<times> bytes" where
  "quic_read_record get_u32 = read_record get_u32 MAX_RECORD"

definition quic_write_record :: "(u32 \<Rightarrow> bytes) \<Rightarrow> u8 \<Rightarrow> bytes \<Rightarrow> bytes" where
  "quic_write_record = write_record"

definition kcp_read_record :: "(bytes \<Rightarrow> u32) \<Rightarrow> bytes \<Rightarrow> read_error + (u8 \<times> bytes) \<times> bytes" where
  "kcp_read_record get_u32 = read_record get_u32 MAX_RECORD"

definition kcp_write_record :: "(u32 \<Rightarrow> bytes) \<Rightarrow> u8 \<Rightarrow> bytes \<Rightarrow> bytes" where
  "kcp_write_record = write_record"

definition read_direct_record :: "(bytes \<Rightarrow> u32) \<Rightarrow> bytes \<Rightarrow> read_error + (u8 \<times> bytes) \<times> bytes" where
  "read_direct_record get_u32 = read_record get_u32 MAX_RECORD"

definition write_direct_record :: "(u32 \<Rightarrow> bytes) \<Rightarrow> u8 \<Rightarrow> bytes \<Rightarrow> bytes" where
  "write_direct_record = write_record"

lemmas record_defs =
  quic_read_record_def quic_write_record_def kcp_read_record_def kcp_write_record_def
  read_direct_record_def write_direct_record_def

lemma read_record_shorter: "read_record g limit s = Inr (x, r) \<Longrightarrow> length r < length s"
  by (auto simp: read_record_def andThen_eq_Inr Let_def split: list.splits)

lemma read_record_bound: "read_record g limit s = Inr ((k, p), r) \<Longrightarrow> length p \<le> limit"
  by (auto simp: read_record_def andThen_eq_Inr Let_def split: list.splits)

text \<open>A peer's receive loop: records until the first error.\<close>

function read_all :: "(bytes \<Rightarrow> u32) \<Rightarrow> nat \<Rightarrow> bytes \<Rightarrow> (u8 \<times> bytes) list \<times> read_error" where
  "read_all g limit s =
     (case read_record g limit s of
        Inl e \<Rightarrow> ([], e)
      | Inr (x, r) \<Rightarrow> (case read_all g limit r of (xs, e) \<Rightarrow> (x # xs, e)))"
  by pat_completeness auto
termination
  by (relation "measure (\<lambda>(g, limit, s). length s)") (auto dest: read_record_shorter)

declare read_all.simps [simp del]

text \<open>What a peer that writes one record after another has put on the stream.\<close>

definition stream_of :: "(u32 \<Rightarrow> bytes) \<Rightarrow> (u8 \<times> bytes) list \<Rightarrow> bytes" where
  "stream_of put_u32 rs = concat (map (\<lambda>(k, p). write_record put_u32 k p) rs)"

lemma stream_of_simps [simp]:
  "stream_of put_u32 [] = []"
  "stream_of put_u32 ((k, p) # rs) = write_record put_u32 k p @ stream_of put_u32 rs"
  by (simp_all add: stream_of_def)

section \<open>What the records need of tokio\<close>

locale u32_io =
  fixes put_u32 :: "u32 \<Rightarrow> bytes" and get_u32 :: "bytes \<Rightarrow> u32"
  assumes length_put: "length (put_u32 n) = 4"
    and get_put: "get_u32 (put_u32 n) = n"
begin

lemma unat_len: "length p < 2 ^ 32 \<Longrightarrow> unat (of_nat (length p) :: u32) = length p"
  by (simp only: unat_of_nat take_bit_nat_eq_self_iff) simp

lemma read_write:
  assumes "length p \<le> limit" and "limit < 2 ^ 32"
  shows "read_record get_u32 limit (write_record put_u32 k p @ r) = Inr ((k, p), r)"
  using assms by (simp add: write_record_def read_record_def length_put get_put unat_len)

lemma read_oversized:
  assumes "limit < length p" and "length p < 2 ^ 32"
  shows "read_record get_u32 limit (write_record put_u32 k p @ r) = Inl RecordTooLarge"
  using assms by (simp add: write_record_def read_record_def length_put get_put unat_len)

text \<open>A receiver recovers exactly the records a sender wrote, in order.\<close>

lemma read_all_written:
  assumes "limit < 2 ^ 32" and "\<forall>(k, p) \<in> set rs. length p \<le> limit"
  shows "read_all get_u32 limit (stream_of put_u32 rs) = (rs, UnexpectedEof)"
  using assms(2)
proof (induction rs)
  case Nil
  show ?case by (simp add: read_all.simps [of _ _ "[]"] read_record_def)
next
  case (Cons x rs)
  obtain k p where x: "x = (k, p)" by (cases x)
  have "read_record get_u32 limit (write_record put_u32 k p @ r) = Inr ((k, p), r)" for r
    using Cons.prems assms(1) x by (intro read_write) auto
  then show ?case
    using Cons x by (simp add: read_all.simps [of _ _ "write_record _ _ _ @ _"])
qed

lemma length_write_record: "length (write_record put_u32 k p) = 5 + length p"
  by (simp add: write_record_def length_put)

text \<open>A record cut short by the end of the stream is an error, never a shorter record.\<close>

lemma read_cut:
  assumes "length p \<le> limit" and "limit < 2 ^ 32" and "n < length (write_record put_u32 k p)"
  shows "read_record get_u32 limit (take n (write_record put_u32 k p)) = Inl UnexpectedEof"
proof (cases n)
  case 0
  then show ?thesis by (simp add: read_record_def)
next
  case (Suc m)
  have "unat (of_nat (length p) :: u32) = length p" using assms by (intro unat_len) simp
  then show ?thesis
    using assms Suc
    by (cases "m < 4") (auto simp: write_record_def read_record_def length_put get_put min_def Let_def)
qed

lemma read_all_append:
  assumes "limit < 2 ^ 32" "\<forall>(k, p) \<in> set rs. length p \<le> limit"
  shows "fst (read_all get_u32 limit (stream_of put_u32 rs @ later)) = rs @ fst (read_all get_u32 limit later)"
  using assms(2)
proof (induction rs)
  case (Cons x rs)
  obtain k p where x: "x = (k, p)" by (cases x)
  have "read_record get_u32 limit (write_record put_u32 k p @ r) = Inr ((k, p), r)" for r
    using Cons.prems assms(1) x by (intro read_write) auto
  then show ?case
    using Cons x by (auto simp: read_all.simps [of _ _ "write_record _ _ _ @ _"] split: prod.splits)
qed simp

lemma read_all_prefix:
  assumes "limit < 2 ^ 32" and "\<forall>(k, p) \<in> set rs. length p \<le> limit"
  shows "\<exists>m \<le> length rs.
    read_all get_u32 limit (take n (stream_of put_u32 rs)) = (take m rs, UnexpectedEof) \<and>
    length (stream_of put_u32 (take m rs)) \<le> n \<and>
    (m < length rs \<longrightarrow> n < length (stream_of put_u32 (take (Suc m) rs)))"
    (is "\<exists>m \<le> length rs. ?good rs n m")
  using assms(2)
proof (induction rs arbitrary: n)
  case Nil
  show ?case by (simp add: read_all.simps [of _ _ "[]"] read_record_def)
next
  case (Cons x rs)
  obtain k p where x: "x = (k, p)" by (cases x)
  let ?w = "write_record put_u32 k p"
  have small: "length p \<le> limit" using Cons.prems x by simp
  show ?case
  proof (cases "n < length ?w")
    case True
    then have "read_record get_u32 limit (take n ?w) = Inl UnexpectedEof"
      using read_cut [OF small assms(1)] by blast
    with True have "?good (x # rs) n 0" by (simp add: x read_all.simps [of _ _ "take n ?w"])
    then show ?thesis by blast
  next
    case False
    obtain m where m: "m \<le> length rs" "?good rs (n - length ?w) m"
      using Cons.IH [of "n - length ?w"] Cons.prems by auto
    have "?good (x # rs) n (Suc m)"
      using m False read_write [OF small assms(1)]
      by (auto simp: x read_all.simps [of _ _ "?w @ _"])
    with m show ?thesis by (intro exI [of _ "Suc m"]) simp
  qed
qed

end

text \<open>tokio writes and reads the integer in big-endian order.\<close>

definition be_put_u32 :: "u32 \<Rightarrow> bytes" where
  "be_put_u32 n = be_bytes 4 (unat n)"

definition be_get_u32 :: "bytes \<Rightarrow> u32" where
  "be_get_u32 b = of_nat (be_value b)"

interpretation be: u32_io be_put_u32 be_get_u32
proof
  show "length (be_put_u32 n) = 4" for n by (simp add: be_put_u32_def)
  show "be_get_u32 (be_put_u32 n) = n" for n
  proof -
    have "unat n < 256 ^ 4" using unsigned_less [of n] by simp
    then show ?thesis by (simp add: be_put_u32_def be_get_u32_def be_value_bytes)
  qed
qed

lemma MAX_RECORD_small: "MAX_RECORD < 2 ^ 32"
  by (simp add: MAX_RECORD_def)

end
