(* ===== verification/Carrier.thy ===== *)
theory Carrier
  imports Relay Framing
begin

text \<open>
  The carrier sessions of agents: the WebSocket carrier (\<open>run_control_socket\<close> in server/src/api.rs) and
  the direct carriers (\<open>accept\<close> in server/src/quic.rs, \<open>run_stream\<close> in server/src/kcp.rs): handshake,
  registration, the reader loop, the writer and the end of a session.
\<close>

section \<open>Registration\<close>

definition server_capabilities :: capabilities where
  "server_capabilities =
     default_capabilities\<lparr>cap_transports := [TQuic, TKcp, TWss], cap_tunnel_kinds := [KTcp, KUdp, KWeb]\<rparr>"

definition gauge :: "active_transport \<Rightarrow> counters \<Rightarrow> u64" where
  "gauge tr k = (case tr of TQuic \<Rightarrow> k_quic k | TKcp \<Rightarrow> k_kcp k | TWss \<Rightarrow> k_wss k)"

definition add_gauge :: "active_transport \<Rightarrow> u64 \<Rightarrow> counters \<Rightarrow> counters" where
  "add_gauge tr n k =
     (case tr of
        TQuic \<Rightarrow> k\<lparr>k_quic := k_quic k + n\<rparr>
      | TKcp \<Rightarrow> k\<lparr>k_kcp := k_kcp k + n\<rparr>
      | TWss \<Rightarrow> k\<lparr>k_wss := k_wss k + n\<rparr>)"

text \<open>The new session's channels and its entry in \<open>agents\<close>; an older session's entry is replaced.\<close>

definition register_agent :: "uuid \<Rightarrow> uuid \<Rightarrow> active_transport \<Rightarrow> nat \<Rightarrow> app_state \<Rightarrow> app_state" where
  "register_agent agent sid tr token s =
     s\<lparr>s_ctl := (s_ctl s)(sid \<mapsto> []), s_bin := (s_bin s)(sid \<mapsto> []),
       s_agents := (s_agents s)(agent \<mapsto>
         \<lparr>ap_session_id = sid, ap_transport = tr, ap_cancellation = token\<rparr>)\<rparr>"

definition welcome_msg :: "active_transport \<Rightarrow> utc \<Rightarrow> agent_control_message" where
  "welcome_msg tr utc_now = Welcome PROTOCOL_VERSION utc_now server_capabilities (Some tr)"

text \<open>A send on the session's own control channel whose result is ignored.\<close>

definition tell :: "uuid \<Rightarrow> agent_control_message \<Rightarrow> app_state \<Rightarrow> app_state" where
  "tell sid m s = snd (send_ctl sid m s)"

definition touch_device :: "lib \<Rightarrow> uuid \<Rightarrow> utc \<Rightarrow> app_state \<Rightarrow> app_state" where
  "touch_device L agent utc_now s =
     snd (on_db (update_device (l_uuid_text L agent)
       (\<lambda>r. r\<lparr>dr_last_seen_at := Some (l_time_text L utc_now)\<rparr>)) s)"

definition open_wss :: "lib \<Rightarrow> uuid \<Rightarrow> uuid \<Rightarrow> nat \<Rightarrow> utc \<Rightarrow> app_state \<Rightarrow> app_state" where
  "open_wss L agent sid token utc_now s =
     sync_agent L agent
       (count (add_gauge TWss 1)
         (tell sid (welcome_msg TWss utc_now)
           (touch_device L agent utc_now (register_agent agent sid TWss token s))))"

definition open_direct ::
  "lib \<Rightarrow> active_transport \<Rightarrow> uuid \<Rightarrow> uuid \<Rightarrow> nat \<Rightarrow> utc \<Rightarrow> app_state \<Rightarrow> app_state" where
  "open_direct L tr agent sid token utc_now s =
     sync_agent L agent
       (tell sid (welcome_msg tr utc_now)
         (count (add_gauge tr 1) (register_agent agent sid tr token s)))"

section \<open>The handshake of a direct carrier\<close>

datatype handshake_error = MissingAuth | BadAuth | InvalidToken | ProtocolMismatch

definition hello_ok :: "agent_control_message \<Rightarrow> bool" where
  "hello_ok m = (case m of Hello v _ _ _ _ \<Rightarrow> v = PROTOCOL_VERSION | _ \<Rightarrow> False)"

definition handshake :: "lib \<Rightarrow> u8 \<times> bytes \<Rightarrow> (app_state, handshake_error, device_identity) act" where
  "handshake L record =
     seq (lift (ensure (fst record = 0) MissingAuth)) (\<lambda>_.
     seq (lift (ok_or (l_auth_parse L (snd record)) BadAuth)) (\<lambda>auth.
     seq (map_err (\<lambda>_. InvalidToken) (authenticate_device_token L (da_token auth))) (\<lambda>identity.
     seq (lift (ensure (hello_ok (da_hello auth)) ProtocolMismatch)) (\<lambda>_.
     ok identity))))"

section \<open>The reader loops\<close>

text \<open>
  One control message of a direct carrier, and of the WebSocket carrier, which also checks the
  version of a Hello; the flag tells whether the loop goes on. \<open>None\<close> is a text that does not parse.
\<close>

definition direct_message ::
  "lib \<Rightarrow> instant \<Rightarrow> uuid \<Rightarrow> uuid \<Rightarrow> agent_control_message \<Rightarrow> app_state \<Rightarrow> app_state" where
  "direct_message L now agent sid m s =
     (case m of
        Ping sent_at \<Rightarrow> tell sid (Pong sent_at) s
      | ConnectionAck i accepted err ticket \<Rightarrow>
          snd (acknowledge_connection L now i agent ticket accepted err s)
      | _ \<Rightarrow> s)"

definition wss_message ::
  "lib \<Rightarrow> instant \<Rightarrow> uuid \<Rightarrow> uuid \<Rightarrow> agent_control_message option \<Rightarrow> app_state \<Rightarrow> bool \<times> app_state" where
  "wss_message L now agent sid parsed s =
     (case parsed of
        None \<Rightarrow> (True, s)
      | Some (Ping sent_at) \<Rightarrow> (True, tell sid (Pong sent_at) s)
      | Some (Hello v d n c a) \<Rightarrow>
          if v \<noteq> PROTOCOL_VERSION
          then (False, tell sid (ErrorMsg (lit ''protocol_mismatch'')
                  (lit ''server protocol is '' @ decimal (unat PROTOCOL_VERSION))) s)
          else (True, s)
      | Some (ConnectionAck i accepted err ticket) \<Rightarrow>
          (True, snd (acknowledge_connection L now i agent ticket accepted err s))
      | Some _ \<Rightarrow> (True, s))"

text \<open>
  A record of a direct carrier: binary records are carrier frames (\<open>None\<close> while the stream's channel
  is full), anything else a control message if it parses.
\<close>

definition direct_record ::
  "lib \<Rightarrow> instant \<Rightarrow> uuid \<Rightarrow> uuid \<Rightarrow> u8 \<times> bytes \<Rightarrow> app_state \<Rightarrow> app_state option" where
  "direct_record L now agent sid record s =
     (if fst record = 1 then route_carrier_frame L (snd record) s
      else case l_msg_parse L (snd record) of
        None \<Rightarrow> Some s
      | Some m \<Rightarrow> Some (direct_message L now agent sid m s))"

section \<open>The writer\<close>

text \<open>
  The writer takes the next control message or the next frame; a frame goes out as a datagram when
  the transport has them, the frame is a datagram frame and the send succeeds, and as a record
  otherwise.
\<close>

datatype wire = WireRecord u8 bytes | WireDatagram bytes | WireText bytes | WireBinary bytes

definition take_control :: "lib \<Rightarrow> uuid \<Rightarrow> app_state \<Rightarrow> (agent_control_message \<times> app_state) option" where
  "take_control L sid s =
     (case s_ctl s sid of
        Some (m # q) \<Rightarrow> Some (m, s\<lparr>s_ctl := (s_ctl s)(sid \<mapsto> q)\<rparr>)
      | _ \<Rightarrow> None)"

definition take_frame :: "uuid \<Rightarrow> app_state \<Rightarrow> (bytes \<times> app_state) option" where
  "take_frame sid s =
     (case s_bin s sid of
        Some (f # q) \<Rightarrow> Some (f, s\<lparr>s_bin := (s_bin s)(sid \<mapsto> q)\<rparr>)
      | _ \<Rightarrow> None)"

definition control_wire :: "lib \<Rightarrow> active_transport \<Rightarrow> agent_control_message \<Rightarrow> wire" where
  "control_wire L tr m =
     (case tr of TWss \<Rightarrow> WireText (l_msg_json L m) | _ \<Rightarrow> WireRecord 0 (l_msg_json L m))"

definition frame_wire :: "active_transport \<Rightarrow> bool \<Rightarrow> bytes \<Rightarrow> wire" where
  "frame_wire tr datagram_sent f =
     (case tr of
        TWss \<Rightarrow> WireBinary f
      | TKcp \<Rightarrow> WireRecord 1 f
      | TQuic \<Rightarrow> if f \<noteq> [] \<and> hd f = CARRIER_FRAME_DATAGRAM \<and> datagram_sent then WireDatagram f else WireRecord 1 f)"

section \<open>The end of a session\<close>

definition drop_channels :: "uuid \<Rightarrow> app_state \<Rightarrow> app_state" where
  "drop_channels sid s = s\<lparr>s_ctl := (s_ctl s)(sid := None), s_bin := (s_bin s)(sid := None)\<rparr>"

definition unregister_agent :: "uuid \<Rightarrow> uuid \<Rightarrow> app_state \<Rightarrow> app_state" where
  "unregister_agent agent sid s =
     (case s_agents s agent of
        Some p \<Rightarrow> if ap_session_id p = sid then s\<lparr>s_agents := (s_agents s)(agent := None)\<rparr> else s
      | None \<Rightarrow> s)"

definition close_carrier :: "active_transport \<Rightarrow> uuid \<Rightarrow> uuid \<Rightarrow> app_state \<Rightarrow> app_state" where
  "close_carrier tr agent sid s =
     unregister_agent agent sid (count (add_gauge tr (- 1)) (drop_channels sid s))"

section \<open>Sessions over time\<close>

text \<open>
  The open sessions with their agent and transport. Registration uses a fresh session id; an
  administrator may remove an agent at any time; the writer of a session may die first, which closes
  its channels.
\<close>

record carriers =
  cs_app :: app_state
  cs_open :: "(uuid \<times> uuid \<times> active_transport) list"

inductive carrier_step :: "lib \<Rightarrow> carriers \<Rightarrow> carriers \<Rightarrow> bool" for L where
  opened_wss: "sid \<notin> fst ` set (cs_open c) \<Longrightarrow>
     carrier_step L c \<lparr>cs_app = open_wss L agent sid token now (cs_app c), cs_open = (sid, agent, TWss) # cs_open c\<rparr>"
| opened_direct: "sid \<notin> fst ` set (cs_open c) \<Longrightarrow> tr \<noteq> TWss \<Longrightarrow>
     handshake L record (cs_app c) = (Inr identity, s1) \<Longrightarrow>
     carrier_step L c \<lparr>cs_app = open_direct L tr (di_id identity) sid token now s1,
       cs_open = (sid, di_id identity, tr) # cs_open c\<rparr>"
| message: "(sid, agent, tr) \<in> set (cs_open c) \<Longrightarrow> s' = direct_message L now agent sid m (cs_app c) \<or>
       s' = snd (wss_message L now agent sid parsed (cs_app c)) \<Longrightarrow>
     carrier_step L c (c\<lparr>cs_app := s'\<rparr>)"
| frame: "route_carrier_frame L f (cs_app c) = Some s' \<Longrightarrow> carrier_step L c (c\<lparr>cs_app := s'\<rparr>)"
| writer_dies: "carrier_step L c (c\<lparr>cs_app := drop_channels sid (cs_app c)\<rparr>)"
| closed: "(sid, agent, tr) \<in> set (cs_open c) \<Longrightarrow>
     carrier_step L c \<lparr>cs_app = close_carrier tr agent sid (cs_app c),
       cs_open = filter (\<lambda>x. fst x \<noteq> sid) (cs_open c)\<rparr>"
| removed: "carrier_step L c (c\<lparr>cs_app := (cs_app c)\<lparr>s_agents := (s_agents (cs_app c))(agent := None)\<rparr>\<rparr>)"

definition carrier_inv :: "carriers \<Rightarrow> bool" where
  "carrier_inv c \<longleftrightarrow>
     distinct (map fst (cs_open c)) \<and>
     (\<forall>a p. s_agents (cs_app c) a = Some p \<longrightarrow> (ap_session_id p, a, ap_transport p) \<in> set (cs_open c)) \<and>
     (\<forall>tr. gauge tr (s_counters (cs_app c)) = of_nat (length (filter (\<lambda>x. snd (snd x) = tr) (cs_open c))))"

definition carrier_start :: "carriers \<Rightarrow> bool" where
  "carrier_start c \<longleftrightarrow>
     cs_open c = [] \<and> s_agents (cs_app c) = Map.empty \<and> (\<forall>tr. gauge tr (s_counters (cs_app c)) = 0)"

text \<open>What does not touch the two sides of the invariant.\<close>

definition carrier_same :: "app_state \<Rightarrow> app_state \<Rightarrow> bool" where
  "carrier_same s s' \<longleftrightarrow>
     s_agents s' = s_agents s \<and> (\<forall>tr. gauge tr (s_counters s') = gauge tr (s_counters s))"

lemma carrier_same_refl [simp]: "carrier_same s s"
  by (simp add: carrier_same_def)

lemma carrier_same_trans: "carrier_same s t \<Longrightarrow> carrier_same t u \<Longrightarrow> carrier_same s u"
  by (simp add: carrier_same_def)

lemma untouched_carrier: "untouched s s' \<Longrightarrow> carrier_same s s'"
  by (auto simp: untouched_def carrier_same_def)

lemma tell_same: "carrier_same s (tell sid m s)"
  by (auto simp: tell_def send_ctl_def carrier_same_def split: option.splits)

lemma touch_same: "carrier_same s (touch_device L a u s)"
  by (auto simp: touch_device_def on_db_def carrier_same_def split: prod.splits)

lemma sync_same: "carrier_same s (sync_agent L a s)"
proof -
  obtain r s1 where l: "list_for_agent L a s = (r, s1)" by (cases "list_for_agent L a s")
  then have "carrier_same s s1" using readsD [OF reads_queries(4)] untouched_carrier by blast
  moreover have "carrier_same s1 (snd (send_ctl sid m s1))" for sid m
    using tell_same by (simp add: tell_def)
  ultimately show ?thesis
    using l carrier_same_trans by (auto simp: sync_agent_def split: sum.splits option.splits)
qed

lemma ack_same: "carrier_same s (snd (acknowledge_connection L now i agent tk acc err s))"
  by (auto simp: acknowledge_connection_def carrier_same_def Let_def split: option.splits)

lemma message_same:
  "carrier_same s (direct_message L now agent sid m s)"
  "carrier_same s (snd (wss_message L now agent sid parsed s))"
  using tell_same ack_same
  by (auto simp: direct_message_def wss_message_def split: agent_control_message.splits option.splits)

lemma route_same: "route_carrier_frame L f s = Some s' \<Longrightarrow> carrier_same s s'"
  by (auto simp: route_carrier_frame_def carrier_same_def split: option.splits prod.splits send_outcome.splits if_splits)

lemma gauge_add: "gauge tr (add_gauge tr' n k) = (if tr = tr' then gauge tr k + n else gauge tr k)"
  by (cases tr; cases tr') (simp_all add: gauge_def add_gauge_def)

lemma gauge_chain:
  assumes "carrier_same r t" and "carrier_same (count (add_gauge tr' 1) t) u"
  shows "s_agents u = s_agents r"
    and "gauge tr (s_counters u) = gauge tr (s_counters r) + (if tr = tr' then 1 else 0)"
  using assms by (simp_all add: carrier_same_def gauge_add)

lemma open_wss_effect:
  "s_agents (open_wss L agent sid token now s) = (s_agents s)(agent \<mapsto> \<lparr>ap_session_id = sid, ap_transport = TWss, ap_cancellation = token\<rparr>)"
  "gauge tr (s_counters (open_wss L agent sid token now s)) = gauge tr (s_counters s) + (if tr = TWss then 1 else 0)"
proof -
  let ?r = "register_agent agent sid TWss token s"
  let ?t = "tell sid (welcome_msg TWss now) (touch_device L agent now ?r)"
  have 1: "carrier_same ?r ?t" using touch_same tell_same carrier_same_trans by blast
  have 2: "carrier_same (count (add_gauge TWss 1) ?t) (open_wss L agent sid token now s)"
    unfolding open_wss_def by (rule sync_same)
  have r: "s_agents ?r = (s_agents s)(agent \<mapsto> \<lparr>ap_session_id = sid, ap_transport = TWss, ap_cancellation = token\<rparr>)"
    "s_counters ?r = s_counters s"
    by (simp_all add: register_agent_def)
  show "s_agents (open_wss L agent sid token now s) = (s_agents s)(agent \<mapsto> \<lparr>ap_session_id = sid, ap_transport = TWss, ap_cancellation = token\<rparr>)"
    using gauge_chain(1) [OF 1 2] r by simp
  show "gauge tr (s_counters (open_wss L agent sid token now s)) = gauge tr (s_counters s) + (if tr = TWss then 1 else 0)"
    using gauge_chain(2) [OF 1 2, of tr] r by simp
qed

lemma open_direct_effect:
  "s_agents (open_direct L tr' agent sid token now s) = (s_agents s)(agent \<mapsto> \<lparr>ap_session_id = sid, ap_transport = tr', ap_cancellation = token\<rparr>)"
  "gauge tr (s_counters (open_direct L tr' agent sid token now s)) = gauge tr (s_counters s) + (if tr = tr' then 1 else 0)"
proof -
  let ?r = "count (add_gauge tr' 1) (register_agent agent sid tr' token s)"
  have "carrier_same ?r (open_direct L tr' agent sid token now s)"
    unfolding open_direct_def using sync_same tell_same carrier_same_trans by blast
  then show "s_agents (open_direct L tr' agent sid token now s) = (s_agents s)(agent \<mapsto> \<lparr>ap_session_id = sid, ap_transport = tr', ap_cancellation = token\<rparr>)"
    "gauge tr (s_counters (open_direct L tr' agent sid token now s)) = gauge tr (s_counters s) + (if tr = tr' then 1 else 0)"
    by (simp_all add: carrier_same_def gauge_add register_agent_def)
qed

lemma drop_channels_same: "carrier_same s (drop_channels sid s)"
  by (simp add: drop_channels_def carrier_same_def)

lemma close_carrier_effect:
  "s_agents (close_carrier tr' agent sid s) =
     (if \<exists>p. s_agents s agent = Some p \<and> ap_session_id p = sid then (s_agents s)(agent := None) else s_agents s)"
  "gauge tr (s_counters (close_carrier tr' agent sid s)) = gauge tr (s_counters s) - (if tr = tr' then 1 else 0)"
  by (auto simp: close_carrier_def unregister_agent_def drop_channels_def gauge_add split: option.splits)

lemma handshake_reads: "handshake L record s = (r, s') \<Longrightarrow> untouched s s'"
  by (rule readsD [of "handshake L record"]) (unfold handshake_def, intro reads_intros)

lemma carrier_same_keeps: "carrier_inv c \<Longrightarrow> carrier_same (cs_app c) s \<Longrightarrow> carrier_inv (c\<lparr>cs_app := s\<rparr>)"
  by (simp add: carrier_inv_def carrier_same_def)

lemma open_keeps:
  assumes "carrier_inv c" "sid \<notin> fst ` set (cs_open c)" "carrier_same (cs_app c) before"
    and "s_agents s = (s_agents before)(agent \<mapsto> \<lparr>ap_session_id = sid, ap_transport = tr, ap_cancellation = token\<rparr>)"
    and "\<And>t. gauge t (s_counters s) = gauge t (s_counters before) + (if t = tr then 1 else 0)"
  shows "carrier_inv \<lparr>cs_app = s, cs_open = (sid, agent, tr) # cs_open c\<rparr>"
  using assms by (auto simp: carrier_inv_def carrier_same_def)

lemma filter_unique:
  "distinct (map fst xs) \<Longrightarrow> (sid, agent, tr) \<in> set xs \<Longrightarrow>
     length (filter (\<lambda>x. snd (snd x) = t) xs) =
     length (filter (\<lambda>x. snd (snd x) = t) (filter (\<lambda>x. fst x \<noteq> sid) xs)) + (if t = tr then 1 else 0)"
proof (induction xs)
  case (Cons x xs)
  show ?case
  proof (cases "x = (sid, agent, tr)")
    case True
    then have "\<forall>y \<in> set xs. fst y \<noteq> sid" using Cons.prems(1) by force
    then have "filter (\<lambda>y. fst y \<noteq> sid) xs = xs" by simp
    then show ?thesis using True by simp
  next
    case False
    then have m: "(sid, agent, tr) \<in> set xs" using Cons.prems(2) by auto
    have "fst x \<noteq> sid"
    proof
      assume "fst x = sid"
      then have "fst x \<in> fst ` set xs" using m by (metis fst_conv image_eqI)
      then show False using Cons.prems(1) by simp
    qed
    moreover have "length (filter (\<lambda>x. snd (snd x) = t) xs) =
        length (filter (\<lambda>x. snd (snd x) = t) (filter (\<lambda>x. fst x \<noteq> sid) xs)) + (if t = tr then 1 else 0)"
      using Cons.IH Cons.prems(1) m by simp
    ultimately show ?thesis by (cases "t = tr") simp_all
  qed
qed simp

lemma close_keeps:
  assumes "carrier_inv c" "(sid, agent, tr) \<in> set (cs_open c)"
  shows "carrier_inv \<lparr>cs_app = close_carrier tr agent sid (cs_app c), cs_open = filter (\<lambda>x. fst x \<noteq> sid) (cs_open c)\<rparr>"
proof -
  let ?c = "\<lparr>cs_app = close_carrier tr agent sid (cs_app c), cs_open = filter (\<lambda>x. fst x \<noteq> sid) (cs_open c)\<rparr>"
  have d: "distinct (map fst (cs_open c))"
    and e: "\<And>a p. s_agents (cs_app c) a = Some p \<Longrightarrow> (ap_session_id p, a, ap_transport p) \<in> set (cs_open c)"
    and g: "\<And>t. gauge t (s_counters (cs_app c)) = of_nat (length (filter (\<lambda>x. snd (snd x) = t) (cs_open c)))"
    using assms(1) by (auto simp: carrier_inv_def)
  have "distinct (map fst (filter (\<lambda>x. fst x \<noteq> sid) (cs_open c)))"
    using d by (rule distinct_map_filter)
  moreover have "(ap_session_id p, a, ap_transport p) \<in> set (cs_open ?c)" if "s_agents (cs_app ?c) a = Some p" for a p
  proof -
    have p: "s_agents (cs_app c) a = Some p" "\<not> (a = agent \<and> ap_session_id p = sid)"
      using that by (auto simp: close_carrier_effect split: if_splits)
    have "ap_session_id p \<noteq> sid"
    proof
      assume "ap_session_id p = sid"
      then have "a = agent" using e [OF p(1)] assms(2) d eq_key_imp_eq_value by fastforce
      then show False using p(2) \<open>ap_session_id p = sid\<close> by simp
    qed
    then show ?thesis using e [OF p(1)] by simp
  qed
  moreover have "gauge t (s_counters (cs_app ?c)) = of_nat (length (filter (\<lambda>x. snd (snd x) = t) (cs_open ?c)))" for t
    using filter_unique [OF d assms(2), of t] by (simp add: close_carrier_effect g)
  ultimately show ?thesis by (simp add: carrier_inv_def)
qed

lemma carrier_step_inv: "carrier_step L c c' \<Longrightarrow> carrier_inv c \<Longrightarrow> carrier_inv c'"
proof (induction rule: carrier_step.induct)
  case (opened_wss sid c agent token now)
  then show ?case by (intro open_keeps [where before = "cs_app c"]) (auto simp: open_wss_effect)
next
  case (opened_direct sid c tr rec identity s1 token now)
  then show ?case
    using untouched_carrier [OF handshake_reads [OF opened_direct(3)]]
    by (intro open_keeps [where before = "s1"]) (auto simp: open_direct_effect)
next
  case (message sid agent tr c s' now m parsed)
  then show ?case using message_same by (intro carrier_same_keeps) auto
next
  case (frame f c s')
  then show ?case using route_same by (intro carrier_same_keeps) auto
next
  case (writer_dies c sid)
  then show ?case using drop_channels_same by (intro carrier_same_keeps)
next
  case (closed sid agent tr c)
  then show ?case by (intro close_keeps)
next
  case (removed c agent)
  then show ?case by (auto simp: carrier_inv_def)
qed

lemma carrier_start_inv: "carrier_start c \<Longrightarrow> carrier_inv c"
  by (simp add: carrier_start_def carrier_inv_def)

interpretation carrier_sys: invariant_system carrier_start "carrier_step L" carrier_inv for L
  by unfold_locales (rule carrier_start_inv, assumption, rule carrier_step_inv)

section \<open>Properties\<close>



end
