(* ===== verification/Api.thy ===== *)
theory Api
  imports Identity Carrier
begin

text \<open>
  The HTTP interface (server/src/api.rs): login and password, administration of devices and tunnels, the
  agents' tunnel handlers, the internal endpoints of the reverse proxy, and the hourly cleanup. A
  handler is a stateful operation that can fail; its clock readings, fresh identifiers and secrets are
  arguments. A response is the value a handler returns; \<open>into_response\<close> gives the status of an error.
\<close>

section \<open>Requests\<close>

text \<open>
  The headers of a request and the clock readings of its handler: the monotonic clock, the time taken
  before the audit entry, and the time of the audit entry.
\<close>

record call =
  cl_headers :: headers
  cl_now :: instant
  cl_utc :: utc
  cl_audit_utc :: utc

definition audit :: "lib \<Rightarrow> call \<Rightarrow> string \<Rightarrow> ustr \<Rightarrow> ustr \<Rightarrow> (app_state, app_error, unit) act" where
  "audit L c action subject detail =
     db_do (insert_audit (lit action) subject detail (l_time_text L (cl_audit_utc c)))"

text \<open>\<open>HeaderValue::from_str\<close> accepts text without control characters other than tab.\<close>

definition header_value :: "ustr \<Rightarrow> app_error + ustr" where
  "header_value v =
     (if list_all (\<lambda>ch. ch = 9 \<or> 32 \<le> ch \<and> ch \<noteq> 127) v then Inr v else Inl (Internal ''header''))"

definition parse_time :: "lib \<Rightarrow> ustr \<Rightarrow> app_error + utc" where
  "parse_time L v = ok_or (l_time_parse L v) (Internal ''time'')"

definition parse_optional_time :: "lib \<Rightarrow> ustr option \<Rightarrow> app_error + utc option" where
  "parse_optional_time L v =
     (case v of None \<Rightarrow> Inr None | Some t \<Rightarrow> andThen (parse_time L t) (\<lambda>x. Inr (Some x)))"

definition ready :: "(app_state, app_error, unit) act" where
  "ready = db_do (select (\<lambda>d. ()))"

section \<open>Administrator sessions\<close>

definition rate_key :: "headers \<Rightarrow> ipaddr \<Rightarrow> ustr" where
  "rate_key h peer =
     ip_text (case Option.bind (header_str h ''x-real-ip'') parse_ip of
        Some a \<Rightarrow> a
      | None \<Rightarrow>
          (case Option.bind (header_str h ''x-forwarded-for'') (\<lambda>v. parse_forwarded_ip (Some v)) of
             Some a \<Rightarrow> a
           | None \<Rightarrow> peer))"

datatype login_outcome = RateLimited | SignedIn login_response ustr

definition admin_by_name :: "ustr \<Rightarrow> (app_state, app_error, admin_row option) act" where
  "admin_by_name user = db_do (select (\<lambda>d. find (\<lambda>r. am_username r = user) (db_admins d)))"

definition set_cookie :: "ustr \<Rightarrow> (app_state, app_error, ustr) act" where
  "set_cookie v = lift (header_value v)"

text \<open>The end of a login, once the password is verified.\<close>

definition sign_in ::
  "lib \<Rightarrow> call \<Rightarrow> ustr \<Rightarrow> ustr \<Rightarrow> ustr \<Rightarrow> ustr \<Rightarrow> (app_state, app_error, login_outcome) act" where
  "sign_in L c key session_id csrf user =
     seq (modify (\<lambda>s. s\<lparr>s_login_attempts := (s_login_attempts s)(key := None)\<rparr>)) (\<lambda>_.
     seq (modify (create_session (cl_now c) session_id csrf user)) (\<lambda>_.
     seq (audit L c ''auth.login'' user (lit ''administrator signed in'')) (\<lambda>_.
     seq (peek s_config) (\<lambda>cfg.
     seq (set_cookie (session_cookie cfg session_id)) (\<lambda>cookie.
     ok (SignedIn \<lparr>lp_username = user, lp_csrf_token = csrf\<rparr> cookie))))))"

definition valid_login :: "lib \<Rightarrow> login_request \<Rightarrow> admin_row option \<Rightarrow> bool" where
  "valid_login L q row =
     (case row of Some r \<Rightarrow> verify_password L (am_password_hash r) (lr_password q) | None \<Rightarrow> False)"

definition login ::
  "lib \<Rightarrow> call \<Rightarrow> ustr \<Rightarrow> ustr \<Rightarrow> ipaddr \<Rightarrow> login_request \<Rightarrow> (app_state, app_error, login_outcome) act" where
  "login L c session_id csrf peer q =
     (let key = rate_key (cl_headers c) peer; user = lr_username q in
      seq (\<lambda>s. case login_allowed (cl_now c) key s of (b, s') \<Rightarrow> (Inr b, s')) (\<lambda>allowed.
      if \<not> allowed then ok RateLimited
      else
        seq (admin_by_name user) (\<lambda>row.
        if \<not> valid_login L q row then
          seq (audit L c ''auth.login_failed'' user (lit ''invalid credentials'')) (\<lambda>_. fail Unauthorized)
        else sign_in L c key session_id csrf user)))"

definition logout :: "lib \<Rightarrow> call \<Rightarrow> (app_state, app_error, ustr) act" where
  "logout L c =
     seq (require_admin L (cl_now c) (cl_headers c) POST) (\<lambda>(user, _).
     seq (modify (remove_session (cl_headers c))) (\<lambda>_.
     seq (audit L c ''auth.logout'' user (lit ''administrator signed out'')) (\<lambda>_.
     seq (peek s_config) (\<lambda>cfg.
     set_cookie (clear_session_cookie cfg)))))"

definition me :: "lib \<Rightarrow> call \<Rightarrow> (app_state, app_error, login_response) act" where
  "me L c =
     seq (require_admin L (cl_now c) (cl_headers c) GET) (\<lambda>(user, csrf).
     ok \<lparr>lp_username = user, lp_csrf_token = csrf\<rparr>)"

record change_password_request =
  cp_current :: ustr
  cp_new :: ustr

definition change_password ::
  "lib \<Rightarrow> call \<Rightarrow> bytes \<Rightarrow> change_password_request \<Rightarrow> (app_state, app_error, ustr) act" where
  "change_password L c salt q =
     seq (require_admin L (cl_now c) (cl_headers c) PATCH) (\<lambda>(user, _).
     seq (lift (ensure (\<not> byte_len (cp_new q) < 12)
            (BadRequest (lit ''new password must contain at least 12 characters'')))) (\<lambda>_.
     seq (admin_by_name user) (\<lambda>row.
     seq (lift (ok_or row (Internal ''database''))) (\<lambda>r.
     seq (lift (ensure (verify_password L (am_password_hash r) (cp_current q)) Unauthorized)) (\<lambda>_.
     seq (lift (hash_password L salt (cp_new q))) (\<lambda>h.
     seq (db_do (set_password_hash user h)) (\<lambda>_.
     seq (audit L c ''auth.password_change'' user (lit ''administrator password changed'')) (\<lambda>_.
     seq (modify (\<lambda>s. s\<lparr>s_sessions := Map.empty\<rparr>)) (\<lambda>_.
     seq (peek s_config) (\<lambda>cfg.
     set_cookie (clear_session_cookie cfg)))))))))))"

section \<open>Devices\<close>

definition device_of :: "lib \<Rightarrow> (uuid \<rightharpoonup> agent_peer) \<Rightarrow> device_row \<Rightarrow> app_error + device" where
  "device_of L agents r =
     andThen (ok_or (l_uuid_parse L (dr_id r)) (Internal ''uuid'')) (\<lambda>i.
     andThen (parse_optional_time L (dr_last_seen_at r)) (\<lambda>seen.
     andThen (parse_time L (dr_created_at r)) (\<lambda>created.
     Inr \<lparr>dv_id = i, dv_name = dr_name r, dv_online = (agents i \<noteq> None), dv_revoked = dr_revoked r,
          dv_last_seen_at = seen, dv_created_at = created\<rparr>)))"

definition list_devices :: "lib \<Rightarrow> call \<Rightarrow> (app_state, app_error, device list) act" where
  "list_devices L c =
     seq (require_admin L (cl_now c) (cl_headers c) GET) (\<lambda>_.
     seq (db_do (select (\<lambda>d. rev (sort_key dr_created_at (db_devices d))))) (\<lambda>rows.
     seq (peek s_agents) (\<lambda>agents.
     lift (collect (map (device_of L agents) rows)))))"

definition new_device :: "lib \<Rightarrow> call \<Rightarrow> uuid \<Rightarrow> ustr \<Rightarrow> ustr \<Rightarrow> device_row" where
  "new_device L c i token name =
     \<lparr>dr_id = l_uuid_text L i, dr_name = name, dr_token_hash = hash_token L token, dr_revoked = False,
      dr_last_seen_at = None, dr_created_at = l_time_text L (cl_utc c)\<rparr>"

definition create_device ::
  "lib \<Rightarrow> call \<Rightarrow> uuid \<Rightarrow> ustr \<Rightarrow> create_device_request \<Rightarrow> (app_state, app_error, device_token_response) act" where
  "create_device L c i token q =
     seq (require_admin L (cl_now c) (cl_headers c) POST) (\<lambda>(user, _).
     let name = trim (cd_name q) in
     seq (lift (ensure (\<not> (name = [] \<or> char_count name > 80))
            (BadRequest (lit ''device name must contain 1 to 80 characters'')))) (\<lambda>_.
     seq (db_do (insert_device (new_device L c i token name))) (\<lambda>_.
     seq (audit L c ''device.create'' (l_uuid_text L i) (lit ''created by '' @ user)) (\<lambda>_.
     ok \<lparr>dt_id = i, dt_name = name, dt_token = token, dt_created_at = cl_utc c\<rparr>))))"

definition disconnect_agent :: "uuid \<Rightarrow> app_state \<Rightarrow> app_state" where
  "disconnect_agent i s =
     (case s_agents s i of
        Some p \<Rightarrow> s\<lparr>s_agents := (s_agents s)(i := None), s_cancelled := insert (ap_cancellation p) (s_cancelled s)\<rparr>
      | None \<Rightarrow> s)"

definition revoke_device :: "lib \<Rightarrow> call \<Rightarrow> uuid \<Rightarrow> (app_state, app_error, unit) act" where
  "revoke_device L c i =
     seq (require_admin L (cl_now c) (cl_headers c) DELETE) (\<lambda>(user, _).
     seq (db_do (update_device (l_uuid_text L i) (\<lambda>r. r\<lparr>dr_revoked := True\<rparr>))) (\<lambda>n.
     seq (lift (ensure (n \<noteq> 0) NotFound)) (\<lambda>_.
     seq (modify (disconnect_agent i)) (\<lambda>_.
     audit L c ''device.revoke'' (l_uuid_text L i) (lit ''revoked by '' @ user)))))"

text \<open>
  The transaction: its begin, its commit and its explicit rollback are statements that can fail
  like any other.
\<close>

definition plain :: "(database, db_error, 'a) act \<Rightarrow> (database, app_error, 'a) act" where
  "plain m = map_err sqlx_error m"

definition on_database :: "(database, app_error, 'a) act \<Rightarrow> (app_state, app_error, 'a) act" where
  "on_database m s = (case m (s_db s) of (r, d) \<Rightarrow> (r, s\<lparr>s_db := d\<rparr>))"

definition delete_device_rows :: "ustr \<Rightarrow> (database, app_error, unit) act" where
  "delete_device_rows k =
     transaction (
       seq (plain (select (\<lambda>d. ()))) (\<lambda>_.
       seq (plain (delete_tunnel_rows (\<lambda>r. tr_agent_id r = k))) (\<lambda>_.
       seq (plain (delete_device k)) (\<lambda>n.
       if n = 0 then seq (plain (select (\<lambda>d. ()))) (\<lambda>_. fail NotFound)
       else plain (select (\<lambda>d. ()))))))"

text \<open>The message of the refused deletion, by its code points.\<close>

definition revoke_first :: ustr where
  "revoke_first =
     [0x8BF7, 0x5148, 0x64A4, 0x9500, 0x8BBE, 0x5907, 0xFF0C, 0x518D, 0x6C38, 0x4E45, 0x5220, 0x9664]"

text \<open>The handler in two parts: up to the ids of the device's tunnels, and from the transaction on.\<close>

definition device_tunnel_ids :: "lib \<Rightarrow> ustr \<Rightarrow> (app_state, app_error, uuid list) act" where
  "device_tunnel_ids L k =
     seq (db_do (select (\<lambda>d. find (\<lambda>r. dr_id r = k) (db_devices d)))) (\<lambda>row.
     seq (lift (ok_or row NotFound)) (\<lambda>r.
     seq (lift (ensure (dr_revoked r) (BadRequest revoke_first))) (\<lambda>_.
     seq (db_do (select (\<lambda>d. filter (\<lambda>r. tr_agent_id r = k) (db_tunnels d)))) (\<lambda>rows.
     lift (collect (map (\<lambda>r. ok_or (l_uuid_parse L (tr_id r)) (Internal ''uuid'')) rows))))))"

definition purge_device :: "lib \<Rightarrow> call \<Rightarrow> uuid \<Rightarrow> uuid list \<Rightarrow> ustr \<Rightarrow> (app_state, app_error, unit) act" where
  "purge_device L c i ids user =
     seq (on_database (delete_device_rows (l_uuid_text L i))) (\<lambda>_.
     seq (modify (fold stop_listener ids)) (\<lambda>_.
     seq (modify (disconnect_agent i)) (\<lambda>_.
     audit L c ''device.delete'' (l_uuid_text L i) (lit ''permanently deleted by '' @ user))))"

definition delete_device_permanently :: "lib \<Rightarrow> call \<Rightarrow> uuid \<Rightarrow> (app_state, app_error, unit) act" where
  "delete_device_permanently L c i =
     seq (require_admin L (cl_now c) (cl_headers c) DELETE) (\<lambda>(user, _).
     seq (device_tunnel_ids L (l_uuid_text L i)) (\<lambda>ids.
     purge_device L c i ids user))"

section \<open>Tunnels\<close>

definition decorate_tunnel :: "app_state \<Rightarrow> tunnel \<Rightarrow> tunnel" where
  "decorate_tunnel s t =
     t\<lparr>t_status :=
        (if \<not> t_enabled t then Stopped
         else if t_kind t \<noteq> KWeb \<and> s_listeners s (t_id t) = None then StatusError
         else if s_agents s (t_agent_id t) = None then AgentOffline
         else Online)\<rparr>"

definition decorate_tunnels :: "app_state \<Rightarrow> tunnel list \<Rightarrow> tunnel list" where
  "decorate_tunnels s ts = map (decorate_tunnel s) ts"

definition admin_list_tunnels :: "lib \<Rightarrow> call \<Rightarrow> (app_state, app_error, tunnel list) act" where
  "admin_list_tunnels L c =
     seq (require_admin L (cl_now c) (cl_headers c) GET) (\<lambda>_.
     seq (list_all_tunnels L) (\<lambda>ts.
     peek (\<lambda>s. decorate_tunnels s ts)))"

text \<open>
  \<open>token\<close> is the cancellation token of a new listener, \<open>others\<close> what other tasks do during the pause of
  \<open>reconcile_listener\<close>.
\<close>

definition admin_update_tunnel ::
  "lib \<Rightarrow> call \<Rightarrow> nat \<Rightarrow> (app_state \<Rightarrow> app_state) \<Rightarrow> uuid \<Rightarrow> update_tunnel_request \<Rightarrow> (app_state, app_error, tunnel) act" where
  "admin_update_tunnel L c token others i q =
     seq (require_admin L (cl_now c) (cl_headers c) PATCH) (\<lambda>(user, _).
     seq (update L (cl_utc c) i None q) (\<lambda>t.
     seq (modify (reconcile_listener token others t)) (\<lambda>_.
     seq (modify (sync_agent L (t_agent_id t))) (\<lambda>_.
     seq (audit L c ''tunnel.update'' (l_uuid_text L i) (lit ''updated by '' @ user)) (\<lambda>_.
     peek (\<lambda>s. decorate_tunnel s t))))))"

definition admin_delete_tunnel :: "lib \<Rightarrow> call \<Rightarrow> uuid \<Rightarrow> (app_state, app_error, unit) act" where
  "admin_delete_tunnel L c i =
     seq (require_admin L (cl_now c) (cl_headers c) DELETE) (\<lambda>(user, _).
     seq (get_tunnel L i) (\<lambda>t.
     seq (delete_tunnel L i None) (\<lambda>_.
     seq (modify (stop_listener i)) (\<lambda>_.
     seq (modify (sync_agent L (t_agent_id t))) (\<lambda>_.
     audit L c ''tunnel.delete'' (l_uuid_text L i) (lit ''deleted by '' @ user))))))"

definition agent_list_tunnels :: "lib \<Rightarrow> call \<Rightarrow> (app_state, app_error, tunnel list) act" where
  "agent_list_tunnels L c =
     seq (require_device L (cl_headers c)) (\<lambda>agent.
     seq (list_for_agent L (di_id agent)) (\<lambda>ts.
     peek (\<lambda>s. decorate_tunnels s ts)))"

definition agent_create_tunnel ::
  "lib \<Rightarrow> call \<Rightarrow> uuid \<Rightarrow> nat \<Rightarrow> (app_state \<Rightarrow> app_state) \<Rightarrow> create_tunnel_request \<Rightarrow> (app_state, app_error, tunnel) act" where
  "agent_create_tunnel L c new_id token others q =
     seq (require_device L (cl_headers c)) (\<lambda>agent.
     seq (create L new_id (cl_utc c) (di_id agent) q) (\<lambda>t.
     seq (modify (reconcile_listener token others t)) (\<lambda>_.
     seq (modify (sync_agent L (di_id agent))) (\<lambda>_.
     seq (audit L c ''tunnel.create'' (l_uuid_text L (t_id t)) (lit ''created by device '' @ di_name agent)) (\<lambda>_.
     peek (\<lambda>s. decorate_tunnel s t))))))"

definition agent_update_tunnel ::
  "lib \<Rightarrow> call \<Rightarrow> nat \<Rightarrow> (app_state \<Rightarrow> app_state) \<Rightarrow> uuid \<Rightarrow> update_tunnel_request \<Rightarrow> (app_state, app_error, tunnel) act" where
  "agent_update_tunnel L c token others i q =
     seq (require_device L (cl_headers c)) (\<lambda>agent.
     seq (update L (cl_utc c) i (Some (di_id agent)) q) (\<lambda>t.
     seq (modify (reconcile_listener token others t)) (\<lambda>_.
     seq (modify (sync_agent L (di_id agent))) (\<lambda>_.
     seq (audit L c ''tunnel.update'' (l_uuid_text L i) (lit ''updated by device '' @ di_name agent)) (\<lambda>_.
     peek (\<lambda>s. decorate_tunnel s t))))))"

definition agent_delete_tunnel :: "lib \<Rightarrow> call \<Rightarrow> uuid \<Rightarrow> (app_state, app_error, unit) act" where
  "agent_delete_tunnel L c i =
     seq (require_device L (cl_headers c)) (\<lambda>agent.
     seq (delete_tunnel L i (Some (di_id agent))) (\<lambda>_.
     seq (modify (stop_listener i)) (\<lambda>_.
     seq (modify (sync_agent L (di_id agent))) (\<lambda>_.
     audit L c ''tunnel.delete'' (l_uuid_text L i) (lit ''deleted by device '' @ di_name agent)))))"

section \<open>Reports\<close>

definition list_connections :: "lib \<Rightarrow> call \<Rightarrow> (app_state, app_error, active_connection set) act" where
  "list_connections L c =
     seq (require_admin L (cl_now c) (cl_headers c) GET) (\<lambda>_. peek (\<lambda>s. ran (s_active s)))"

definition audit_limit :: "u16 option \<Rightarrow> nat" where
  "audit_limit limit = max 1 (min 500 (unat (unwrap_or limit 100)))"

definition audit_entry_of :: "lib \<Rightarrow> audit_row \<Rightarrow> app_error + audit_entry" where
  "audit_entry_of L r =
     andThen (parse_time L (au_created_at r)) (\<lambda>created.
     Inr \<lparr>ae_id = au_id r, ae_action = au_action r, ae_subject = au_subject r, ae_detail = au_detail r,
          ae_created_at = created\<rparr>)"

definition list_audit :: "lib \<Rightarrow> call \<Rightarrow> u16 option \<Rightarrow> (app_state, app_error, audit_entry list) act" where
  "list_audit L c limit =
     seq (require_admin L (cl_now c) (cl_headers c) GET) (\<lambda>_.
     seq (db_do (select (\<lambda>d. take (audit_limit limit) (rev (sort_key au_id (db_audit d)))))) (\<lambda>rows.
     lift (collect (map (audit_entry_of L) rows))))"

definition admin_metrics :: "lib \<Rightarrow> call \<Rightarrow> (app_state, app_error, metrics_snapshot) act" where
  "admin_metrics L c = seq (require_admin L (cl_now c) (cl_headers c) GET) (\<lambda>_. peek metrics)"

record server_settings =
  ss_port_start :: u16
  ss_port_end :: u16
  ss_ticket_ttl_seconds :: nat
  ss_connect_timeout_seconds :: nat
  ss_idle_timeout_seconds :: nat
  ss_audit_retention_days :: int
  ss_web_base_domain :: ustr
  ss_quic_port :: u16
  ss_kcp_port :: u16

definition admin_settings :: "lib \<Rightarrow> call \<Rightarrow> (app_state, app_error, server_settings) act" where
  "admin_settings L c =
     seq (require_admin L (cl_now c) (cl_headers c) GET) (\<lambda>_.
     peek (\<lambda>s. \<lparr>ss_port_start = c_port_start (s_config s), ss_port_end = c_port_end (s_config s),
        ss_ticket_ttl_seconds = as_secs (c_ticket_ttl (s_config s)),
        ss_connect_timeout_seconds = as_secs (c_connect_timeout (s_config s)),
        ss_idle_timeout_seconds = as_secs (c_idle_timeout (s_config s)),
        ss_audit_retention_days = c_audit_retention_days (s_config s),
        ss_web_base_domain = c_web_base_domain (s_config s),
        ss_quic_port = c_quic_port (s_config s), ss_kcp_port = c_kcp_port (s_config s)\<rparr>))"

definition agent_enrollment ::
  "lib \<Rightarrow> (bytes \<Rightarrow> ustr) \<Rightarrow> transport_identity option \<Rightarrow> call \<Rightarrow> (app_state, app_error, agent_enrollment_response) act" where
  "agent_enrollment L base64 identity c =
     seq (require_device L (cl_headers c)) (\<lambda>agent.
     seq (list_for_agent L (di_id agent)) (\<lambda>ts.
     seq (lift (certificate_base64 base64 identity)) (\<lambda>der.
     peek (\<lambda>s. \<lparr>en_tunnels = decorate_tunnels s ts, en_transport_fingerprint = fingerprint identity,
        en_transport_certificate_der = der, en_quic_port = c_quic_port (s_config s),
        en_kcp_port = c_kcp_port (s_config s), en_capabilities = server_capabilities\<rparr>))))"

section \<open>Internal endpoints\<close>

definition trusted_proxy :: "lib \<Rightarrow> config \<Rightarrow> ipaddr \<Rightarrow> bool" where
  "trusted_proxy L cfg address =
     (let a = (case address of
          V6 v \<Rightarrow> (case to_ipv4_mapped v of Some w \<Rightarrow> V4 w | None \<Rightarrow> V6 v)
        | a \<Rightarrow> a) in
      list_ex (\<lambda>n. l_net_contains L n a) (c_trusted_proxy_cidrs cfg))"

definition require_trusted_proxy :: "lib \<Rightarrow> ipaddr \<Rightarrow> (app_state, app_error, unit) act" where
  "require_trusted_proxy L address =
     seq (peek s_config) (\<lambda>cfg. lift (ensure (trusted_proxy L cfg address) Forbidden))"

definition tls_ask :: "lib \<Rightarrow> ipaddr \<Rightarrow> ustr \<Rightarrow> (app_state, app_error, unit) act" where
  "tls_ask L peer domain =
     seq (require_trusted_proxy L peer) (\<lambda>_.
     seq (hostname_is_enabled domain) (\<lambda>b.
     lift (ensure b Forbidden)))"

definition forwarded_host :: "headers \<Rightarrow> app_error + ustr" where
  "forwarded_host h =
     (let value = (case header_get h ''x-forwarded-host'' of Some v \<Rightarrow> v
                   | None \<Rightarrow> (case header_get h ''host'' of Some v \<Rightarrow> v | None \<Rightarrow> None)) in
      andThen (ok_or (map_option (\<lambda>v. hd (split_on 58 v)) value) (BadRequest (lit ''missing forwarded host''))) (\<lambda>v.
      Inr (to_ascii_lowercase v)))"

definition forwarded_source :: "headers \<Rightarrow> app_error + ipaddr" where
  "forwarded_source h =
     ok_or (Option.bind (header_str h ''x-forwarded-for'') (\<lambda>v. parse_forwarded_ip (Some v)))
       (BadRequest (lit ''missing forwarded source address''))"

text \<open>
  The request that goes to the agent: the original URI where the proxy names one that parses, without
  the three internal headers.
\<close>

definition proxied_uri :: "(ustr \<Rightarrow> 'uri option) \<Rightarrow> headers \<Rightarrow> 'uri \<Rightarrow> 'uri" where
  "proxied_uri parse_uri h uri =
     (case Option.bind (header_str h ''x-tunnelbridge-original-uri'') parse_uri of Some u \<Rightarrow> u | None \<Rightarrow> uri)"

definition proxied_headers :: "headers \<Rightarrow> headers" where
  "proxied_headers h =
     filter (\<lambda>(name, _). name \<notin> {lit ''x-tunnelbridge-original-uri'', lit ''x-tunnelbridge-proxy'', lit ''x-real-ip''}) h"

definition add_http :: "counters \<Rightarrow> counters" where
  "add_http k = k\<lparr>k_http_requests := k_http_requests k + 1\<rparr>"

datatype 'r web_outcome = BadGateway | Proxied 'r

text \<open>
  \<open>exchange\<close> is hyper's HTTP/1 client on the stream of the given connection: the response, or an error of
  its handshake or of the request.
\<close>

definition web_proxy ::
  "lib \<Rightarrow> (ustr \<Rightarrow> 'uri option) \<Rightarrow> (uuid \<Rightarrow> 'uri \<Rightarrow> headers \<Rightarrow> 'r option) \<Rightarrow> conn_input \<Rightarrow> ipaddr \<Rightarrow> 'uri \<Rightarrow> headers \<Rightarrow>
     (app_state, app_error, 'r web_outcome) act" where
  "web_proxy L parse_uri exchange io proxy uri h =
     seq (require_trusted_proxy L proxy) (\<lambda>_.
     seq (lift (forwarded_host h)) (\<lambda>hostname.
     seq (lift (forwarded_source h)) (\<lambda>source.
     seq (get_by_hostname L hostname) (\<lambda>t.
     seq (\<lambda>s. case open_virtual_stream L io t (sock_new source 0) s of (r, s') \<Rightarrow> (Inr r, s')) (\<lambda>opened.
     case opened of
       Inl _ \<Rightarrow> ok BadGateway
     | Inr _ \<Rightarrow>
         seq (lift (ok_or (exchange (of_id (ci_offer io)) (proxied_uri parse_uri h uri) (proxied_headers h))
                (Internal ''http''))) (\<lambda>response.
         seq (modify (count add_http)) (\<lambda>_.
         ok (Proxied response))))))))"

section \<open>Cleanup\<close>

text \<open>
  \<open>chrono::Duration::days\<close> and the subtraction panic outside their ranges; the panic ends the cleanup
  task. A duration holds at most \<open>i64::MAX\<close> milliseconds; a \<open>DateTime\<close> lies between the
  beginning of the year -262143 and the end of the year 262142.
\<close>

definition utc_min :: utc where
  "utc_min = - 8334601228800 * 1000000000"

definition utc_max :: utc where
  "utc_max = 8210266876799 * 1000000000 + 999999999"

definition retention_cutoff :: "int \<Rightarrow> utc \<Rightarrow> utc option" where
  "retention_cutoff days utc_now =
     (let ms = days * 86400000; t = utc_now - days * 86400 * 1000000000 in
      if \<bar>ms\<bar> \<le> 2 ^ 63 - 1 \<and> utc_min \<le> t \<and> t \<le> utc_max then Some t else None)"

definition forget_expired :: "instant \<Rightarrow> app_state \<Rightarrow> app_state" where
  "forget_expired now s =
     s\<lparr>s_sessions := retain (\<lambda>x. now < as_expires_at x) (s_sessions s),
       s_pending := retain (\<lambda>x. now < pc_expires_at x) (s_pending s)\<rparr>"

text \<open>One round of the loop; the flag tells whether the task goes on.\<close>

definition cleanup_round :: "lib \<Rightarrow> instant \<Rightarrow> utc \<Rightarrow> app_state \<Rightarrow> bool \<times> app_state" where
  "cleanup_round L now utc_now s =
     (let s1 = forget_expired now s in
      case retention_cutoff (c_audit_retention_days (s_config s1)) utc_now of
        None \<Rightarrow> (False, s1)
      | Some cutoff \<Rightarrow>
          (True, snd (on_db (purge_history (l_time_text L cutoff))
                   (snd (on_db (purge_audit (l_time_text L cutoff)) s1)))))"

end
