(* ===== verification/Api_Facts.thy ===== *)
theory Api_Facts
  imports Api
begin

text \<open>
  What the handlers of the HTTP interface guarantee: who may call them, what a device loses with its
  revocation or deletion, which listeners run after any sequence of calls, and what login, password
  change, the proxy endpoints and the cleanup do on every branch.
\<close>

section \<open>The parts of the state the handlers share\<close>

text \<open>
  \<open>core\<close> is what an audit entry, a configuration push and a read leave alone.
\<close>

definition core ::
  "app_state \<Rightarrow> (config \<times> tunnel_row list \<times> device_row list \<times> admin_row list) \<times>
     (ustr \<rightharpoonup> admin_session) \<times> (ustr \<rightharpoonup> login_window) \<times> (uuid \<rightharpoonup> agent_peer) \<times> (uuid \<rightharpoonup> nat) \<times> nat set" where
  "core s = ((s_config s, db_tunnels (s_db s), db_devices (s_db s), db_admins (s_db s)),
     s_sessions s, s_login_attempts s, s_agents s, s_listeners s, s_cancelled s)"

lemma core_eq:
  "core s' = core s \<longleftrightarrow>
     s_config s' = s_config s \<and> db_tunnels (s_db s') = db_tunnels (s_db s) \<and>
     db_devices (s_db s') = db_devices (s_db s) \<and> db_admins (s_db s') = db_admins (s_db s) \<and>
     s_sessions s' = s_sessions s \<and> s_login_attempts s' = s_login_attempts s \<and>
     s_agents s' = s_agents s \<and> s_listeners s' = s_listeners s \<and> s_cancelled s' = s_cancelled s"
  by (auto simp: core_def)

lemma core_untouched: "untouched s s' \<Longrightarrow> core s' = core s"
  by (auto simp: untouched_def core_def)

lemma core_reads: "reads m \<Longrightarrow> m s = (r, s') \<Longrightarrow> core s' = core s"
  by (rule core_untouched) (rule readsD)

lemma core_on_db:
  assumes "\<And>d. db_tunnels (snd (m d)) = db_tunnels d \<and> db_devices (snd (m d)) = db_devices d \<and>
     db_admins (snd (m d)) = db_admins d"
  shows "core (snd (on_db m s)) = core s"
  using assms [of "s_db s"] by (auto simp: on_db_def core_def split: prod.splits)

lemma core_audit: "core (snd (audit L c a b d s)) = core s"
  unfolding audit_def db_do_def snd_map_err
  by (rule core_on_db) (auto simp: insert_audit_def stmt_def split: list.splits)

lemma core_audit_eq: "audit L c a b d s = (r, s') \<Longrightarrow> core s' = core s"
  using core_audit [of L c a b d s] by simp

lemma core_send: "core (snd (send_ctl i m s)) = core s"
  by (simp add: send_ctl_def core_def split: option.splits)

lemma core_sync: "core (sync_agent L a s) = core s"
proof -
  obtain r s1 where l: "list_for_agent L a s = (r, s1)" by (cases "list_for_agent L a s")
  then have "core s1 = core s" using reads_queries(4) by (rule core_reads [rotated])
  then show ?thesis using l core_send by (simp add: sync_agent_def split: sum.splits option.splits)
qed

text \<open>The effect of the state transformers the handlers run.\<close>

lemma stop_listener_sel [simp]:
  "s_config (stop_listener i s) = s_config s" "s_db (stop_listener i s) = s_db s"
  "s_sessions (stop_listener i s) = s_sessions s" "s_agents (stop_listener i s) = s_agents s"
  "s_login_attempts (stop_listener i s) = s_login_attempts s"
  "s_listeners (stop_listener i s) = (s_listeners s)(i := None)"
  by (auto simp: stop_listener_def split: option.splits)

lemma stop_listener_cancels:
  "s_listeners s i = Some k \<Longrightarrow> k \<in> s_cancelled (stop_listener i s)"
  "s_cancelled s \<subseteq> s_cancelled (stop_listener i s)"
  by (auto simp: stop_listener_def split: option.splits)

lemma stop_all_sel [simp]:
  "s_config (fold stop_listener ids s) = s_config s" "s_db (fold stop_listener ids s) = s_db s"
  "s_sessions (fold stop_listener ids s) = s_sessions s" "s_agents (fold stop_listener ids s) = s_agents s"
  "s_listeners (fold stop_listener ids s) j = (if j \<in> set ids then None else s_listeners s j)"
  by (induction ids arbitrary: s) auto

lemma stop_all_cancels:
  "s_cancelled s \<subseteq> s_cancelled (fold stop_listener ids s) \<and>
   (i \<in> set ids \<longrightarrow> s_listeners s i = Some k \<longrightarrow> k \<in> s_cancelled (fold stop_listener ids s))"
proof (induction ids arbitrary: s)
  case (Cons j ids)
  have "s_cancelled s \<subseteq> s_cancelled (fold stop_listener ids (stop_listener j s))"
    using Cons.IH [of "stop_listener j s"] stop_listener_cancels(2) [of s j] by blast
  moreover have "k \<in> s_cancelled (fold stop_listener ids (stop_listener j s))"
    if "i \<in> set (j # ids)" "s_listeners s i = Some k"
  proof (cases "i = j")
    case True
    then show ?thesis
      using that stop_listener_cancels(1) Cons.IH [of "stop_listener j s"] by blast
  next
    case False
    then show ?thesis using that Cons.IH [of "stop_listener j s"] by auto
  qed
  ultimately show ?case by simp
qed simp

lemma disconnect_sel [simp]:
  "s_config (disconnect_agent i s) = s_config s" "s_db (disconnect_agent i s) = s_db s"
  "s_sessions (disconnect_agent i s) = s_sessions s" "s_listeners (disconnect_agent i s) = s_listeners s"
  "s_agents (disconnect_agent i s) = (s_agents s)(i := None)"
  by (auto simp: disconnect_agent_def split: option.splits)

lemma disconnect_cancels:
  "s_agents s i = Some p \<Longrightarrow> ap_cancellation p \<in> s_cancelled (disconnect_agent i s)"
  "s_cancelled s \<subseteq> s_cancelled (disconnect_agent i s)"
  by (auto simp: disconnect_agent_def split: option.splits)

lemma reconcile_sel [simp]:
  "s_config (reconcile_listener k id t s) = s_config s" "s_db (reconcile_listener k id t s) = s_db s"
  "s_listeners (reconcile_listener k id t s) =
     (s_listeners s)(t_id t := (if t_enabled t \<and> t_kind t \<noteq> KWeb then Some k else None))"
  by (simp_all add: reconcile_listener_def start_listener_def Let_def)

section \<open>Sequential composition\<close>

lemma seq_cases:
  assumes "seq m k s = (r, s')"
  obtains (failed) e where "m s = (Inl e, s')" "r = Inl e"
    | (continued) x s1 where "m s = (Inr x, s1)" "k x s1 = (r, s')"
  using assms by (cases "m s"; cases "fst (m s)") (auto simp: seq_def)

lemma keeps_case_prod [keeps_intros]: "(\<And>a b. keeps I (f a b)) \<Longrightarrow> keeps I (case p of (a, b) \<Rightarrow> f a b)"
  by (cases p) auto

lemma reads_case_prod [reads_intros]: "(\<And>a b. reads (f a b)) \<Longrightarrow> reads (case p of (a, b) \<Rightarrow> f a b)"
  by (cases p) auto

lemma keeps_seq_modify:
  assumes "\<And>s x s1. I s \<Longrightarrow> m s = (Inr x, s1) \<Longrightarrow> I (f x s1)"
    and "\<And>s e s1. I s \<Longrightarrow> m s = (Inl e, s1) \<Longrightarrow> I s1"
    and "\<And>x. keeps I (k x)"
  shows "keeps I (seq m (\<lambda>x. seq (modify (f x)) (\<lambda>_. k x)))"
proof (rule keepsI)
  fix s assume I: "I s"
  obtain r s' where r: "seq m (\<lambda>x. seq (modify (f x)) (\<lambda>_. k x)) s = (r, s')"
    by (cases "seq m (\<lambda>x. seq (modify (f x)) (\<lambda>_. k x)) s")
  then have "I s'"
  proof (cases rule: seq_cases)
    case (failed e)
    then show ?thesis using assms(2) [OF I] by simp
  next
    case (continued x s1)
    then have "k x (f x s1) = (r, s')" by (simp add: seq_def act_simps)
    then show ?thesis using keepsD [OF assms(3)] assms(1) [OF I continued(1)] by blast
  qed
  then show "I (snd (seq m (\<lambda>x. seq (modify (f x)) (\<lambda>_. k x)) s))" using r by simp
qed


section \<open>Listeners under any sequence of calls\<close>

text \<open>
  \<open>served rows i\<close>: the table has an enabled TCP or UDP tunnel with this id. The invariant of the server
  is that of the tunnel table together with: a listener runs only for such a tunnel.
\<close>

definition served :: "lib \<Rightarrow> tunnel_row list \<Rightarrow> uuid \<Rightarrow> bool" where
  "served L rows i \<longleftrightarrow>
     list_ex (\<lambda>r. tr_id r = l_uuid_text L i \<and> tr_enabled r \<and> tr_kind r \<noteq> lit ''web'') rows"

definition server_inv :: "lib \<Rightarrow> app_state \<Rightarrow> bool" where
  "server_inv L s \<longleftrightarrow>
     (codecs_ok L \<longrightarrow> schema_ok (s_db s) \<and> tunnels_ok L s \<and>
        (\<forall>i. s_listeners s i \<noteq> None \<longrightarrow> served L (db_tunnels (s_db s)) i))"

definition tview :: "app_state \<Rightarrow> config \<times> tunnel_row list \<times> (uuid \<rightharpoonup> nat)" where
  "tview s = (s_config s, db_tunnels (s_db s), s_listeners s)"

lemma inv_tview:
  "server_inv L s \<Longrightarrow> (schema_ok (s_db s) \<Longrightarrow> schema_ok (s_db s')) \<Longrightarrow> tview s' = tview s \<Longrightarrow> server_inv L s'"
  by (simp add: server_inv_def tview_def tunnels_ok_def)

lemma inv_quiet:
  assumes "keeps (\<lambda>s. schema_ok (s_db s)) m" and "\<And>x. keeps (\<lambda>s. tview s = x) m"
  shows "keeps (server_inv L) m"
proof (rule keepsI)
  fix s assume "server_inv L s"
  then show "server_inv L (snd (m s))"
    by (rule inv_tview) (use assms in \<open>simp_all add: keeps_def\<close>)
qed

lemma keeps_tview_db [keeps_intros]:
  assumes "\<And>d. db_tunnels (snd (m d)) = db_tunnels d"
  shows "keeps (\<lambda>s. tview s = x) (db_do m)"
proof (rule keepsI)
  fix s assume "tview s = x"
  then show "tview (snd (db_do m s)) = x"
    using assms [of "s_db s"] by (auto simp: db_do_def on_db_def tview_def split: prod.splits)
qed

lemma keeps_tview_reads: "reads m \<Longrightarrow> keeps (\<lambda>s. tview s = x) m"
  by (rule keeps_queries) (auto simp: tview_def untouched_def)

named_theorems rows_simps \<open>statements that leave the tunnels table alone\<close>

lemma stmt_rows: "(\<And>d. db_tunnels (snd (f d)) = db_tunnels d) \<Longrightarrow> db_tunnels (snd (stmt f d)) = db_tunnels d"
  by (auto simp: stmt_def split: list.splits)

lemma rows_kept [rows_simps]:
  "db_tunnels (snd (insert_audit a b c e d)) = db_tunnels d"
  "db_tunnels (snd (insert_device r d)) = db_tunnels d"
  "db_tunnels (snd (update_device k g d)) = db_tunnels d"
  "db_tunnels (snd (set_password_hash u h d)) = db_tunnels d"
  "db_tunnels (snd (purge_audit t d)) = db_tunnels d"
  "db_tunnels (snd (purge_history t d)) = db_tunnels d"
  "db_tunnels (snd (select q d)) = db_tunnels d"
  unfolding insert_audit_def insert_device_def update_device_def set_password_hash_def purge_audit_def
    purge_history_def select_def
  by (intro stmt_rows; simp)+

lemma require_admin_quiet [keeps_intros]:
  "keeps (\<lambda>s. schema_ok (s_db s)) (require_admin L now h m)" "keeps (\<lambda>s. tview s = x) (require_admin L now h m)"
  by (intro keepsI; auto simp: require_admin_cases tview_def split: option.splits)+

lemma audit_quiet [keeps_intros]:
  "keeps (\<lambda>s. schema_ok (s_db s)) (audit L c a b d)" "keeps (\<lambda>s. tview s = x) (audit L c a b d)"
  unfolding audit_def by (intro keeps_intros; simp add: rows_simps)+

lemma require_device_quiet [keeps_intros]:
  "keeps (\<lambda>s. schema_ok (s_db s)) (require_device L h)" "keeps (\<lambda>s. tview s = x) (require_device L h)"
  by (rule keeps_schema_reads, rule reads_require_device, simp add: schema_untouched)
     (rule keeps_tview_reads, rule reads_require_device)

lemma sync_schema: "schema_ok (s_db s) \<Longrightarrow> schema_ok (s_db (sync_agent L a s))"
proof -
  assume ok: "schema_ok (s_db s)"
  obtain r s1 where l: "list_for_agent L a s = (r, s1)" by (cases "list_for_agent L a s")
  have "untouched s s1" using reads_queries(4) l by (rule readsD)
  then have "schema_ok (s_db s1)" using ok schema_untouched by blast
  then show ?thesis using l by (auto simp: sync_agent_def send_ctl_def split: sum.splits option.splits)
qed

lemma core_tview: "core s' = core s \<Longrightarrow> tview s' = tview s"
  by (simp add: core_eq tview_def)

text \<open>The segments that change tunnels and listeners together.\<close>

lemma inv_sync: "keeps (server_inv L) (modify (sync_agent L a))"
  by (rule keeps_modify, erule inv_tview, erule sync_schema, rule core_tview, rule core_sync)

lemma inv_audit: "keeps (server_inv L) (audit L c a b d)"
  by (rule inv_quiet) (intro keeps_intros)+

lemma inv_admin: "keeps (server_inv L) (require_admin L now h m)"
  by (rule inv_quiet) (intro keeps_intros)+

lemma inv_device: "keeps (server_inv L) (require_device L h)"
  by (rule inv_quiet) (intro keeps_intros)+

lemma inv_untouched: "server_inv L s \<Longrightarrow> untouched s s' \<Longrightarrow> server_inv L s'"
  by (erule inv_tview, simp add: schema_untouched, rule core_tview, erule core_untouched)

lemma inv_reads: "reads m \<Longrightarrow> keeps (server_inv L) m"
  by (rule keeps_queries) (auto intro: inv_untouched)

lemmas inv_intros =
  inv_sync inv_audit inv_admin inv_device keeps_peek keeps_seq keeps_case_prod keeps_ok keeps_fail keeps_lift

lemma kind_str_web [simp]: "kind_str k = lit ''web'' \<longleftrightarrow> k = KWeb"
  by (cases k) (simp_all add: kind_str_def)

lemma served_update:
  assumes "find (\<lambda>r. tr_id r = l_uuid_text L i) rows = Some r" "row_to_tunnel L r = Inr t0"
    and "t_kind t = t_kind t0" "codecs_ok L" "t_id t = i"
    and "j = i \<Longrightarrow> t_enabled t \<and> t_kind t \<noteq> KWeb" "j \<noteq> i \<Longrightarrow> served L rows j"
  shows "served L (update_row (l_uuid_text L (t_id t)) (assign_row L t) rows) j"
proof (cases "j = i")
  case True
  have r: "r \<in> set rows" "tr_id r = l_uuid_text L i" using assms(1) by (auto simp: find_Some_iff)
  have "parse_kind (tr_kind r) = Inr (t_kind t0)"
    using assms(2) by (auto simp: row_to_tunnel_def andThen_eq_Inr)
  then have "tr_kind r = kind_str (t_kind t0)" by (simp add: kind_col.dec_eq_Inr)
  then show ?thesis
    unfolding served_def update_row_def list_ex_iff
    using True assms(3,5,6) r by (intro bexI [of _ "assign_row L t r"]) (auto simp: assign_row_def)
next
  case False
  then obtain r' where r: "r' \<in> set rows" "tr_id r' = l_uuid_text L j" "tr_enabled r'" "tr_kind r' \<noteq> lit ''web''"
    using assms(7) by (auto simp: served_def list_ex_iff)
  have "tr_id r' \<noteq> l_uuid_text L (t_id t)" using False r(2) assms(4,5) codecsD(3) by simp
  then show ?thesis
    unfolding served_def update_row_def list_ex_iff using r by (intro bexI [of _ r']) auto
qed


lemma inv_update:
  assumes "server_inv L s" "time_text_ok L now" "update L now i owner q s = (Inr t, s1)"
  shows "server_inv L (reconcile_listener k id t s1)"
  unfolding server_inv_def
proof (intro impI conjI allI)
  assume c: "codecs_ok L"
  with assms(1) have inv: "schema_ok (s_db s)" "tunnels_ok L s"
      "\<And>j. s_listeners s j \<noteq> None \<Longrightarrow> served L (db_tunnels (s_db s)) j"
    by (simp_all add: server_inv_def)
  show "schema_ok (s_db (reconcile_listener k id t s1))"
    using keepsD [OF keeps_schema_ops(2) inv(1) assms(3)] by simp
  have "tunnels_ok L s1"
    using update_keeps_tunnels [OF inv(2) c _ assms(2,3)] inv(1) by (simp add: schema_ok_def)
  then show "tunnels_ok L (reconcile_listener k id t s1)" by (simp add: tunnels_ok_def)
  fix j assume j: "s_listeners (reconcile_listener k id t s1) j \<noteq> None"
  obtain t0 t1 r fs where u: "find (\<lambda>r. tr_id r = l_uuid_text L i) (db_tunnels (s_db s)) = Some r"
      "row_to_tunnel L r = Inr t0" "apply_update (s_config s) q t0 = Inr t1" "t = t1\<lparr>t_updated_at := now\<rparr>"
      "s1 = s\<lparr>s_db := (s_db s)\<lparr>db_faults := fs,
         db_tunnels := update_row (l_uuid_text L (t_id t)) (assign_row L t) (db_tunnels (s_db s))\<rparr>\<rparr>"
    using assms(3) by (rule update_Inr)
  have i: "t_id t = i" using update_result_ok(2) [OF inv(2) c assms(3)] .
  have kind: "t_kind t = t_kind t0" using apply_update_fixed(3) [OF u(3)] u(4) by simp
  have db: "db_tunnels (s_db (reconcile_listener k id t s1)) =
      update_row (l_uuid_text L (t_id t)) (assign_row L t) (db_tunnels (s_db s))"
    using u(5) by simp
  have "j = i \<Longrightarrow> t_enabled t \<and> t_kind t \<noteq> KWeb" using j i by (auto split: if_splits)
  moreover have "j \<noteq> i \<Longrightarrow> served L (db_tunnels (s_db s)) j" using j i u(5) inv(3) [of j] by (auto split: if_splits)
  ultimately show "served L (db_tunnels (s_db (reconcile_listener k id t s1))) j"
    unfolding db by (intro served_update [OF u(1,2) kind c i])
qed

lemma inv_create:
  assumes "server_inv L s" "time_text_ok L now" "create L i now agent q s = (Inr t, s1)"
  shows "server_inv L (reconcile_listener k id t s1)"
  unfolding server_inv_def
proof (intro impI conjI allI)
  assume c: "codecs_ok L"
  with assms(1) have inv: "schema_ok (s_db s)" "tunnels_ok L s"
      "\<And>j. s_listeners s j \<noteq> None \<Longrightarrow> served L (db_tunnels (s_db s)) j"
    by (simp_all add: server_inv_def)
  show "schema_ok (s_db (reconcile_listener k id t s1))"
    using keepsD [OF keeps_schema_ops(1) inv(1) assms(3)] by simp
  have "tunnels_ok L s1" using inv(2) assms(2,3) by (rule create_keeps_tunnels)
  then show "tunnels_ok L (reconcile_listener k id t s1)" by (simp add: tunnels_ok_def)
  fix j assume j: "s_listeners (reconcile_listener k id t s1) j \<noteq> None"
  obtain fs where u: "s1 = s\<lparr>s_db := (s_db s)\<lparr>db_faults := fs,
      db_tunnels := db_tunnels (s_db s) @ [tunnel_to_row L t]\<rparr>\<rparr>"
    using assms(3) by (rule create_Inr)
  have db: "db_tunnels (s_db (reconcile_listener k id t s1)) = db_tunnels (s_db s) @ [tunnel_to_row L t]"
    using u by simp
  show "served L (db_tunnels (s_db (reconcile_listener k id t s1))) j"
  proof (cases "j = t_id t")
    case True
    then have "t_enabled t \<and> t_kind t \<noteq> KWeb" using j by (simp split: if_splits)
    then show ?thesis unfolding db using True by (simp add: served_def tunnel_to_row_def)
  next
    case False
    then have "s_listeners s j \<noteq> None" using j u by simp
    then show ?thesis unfolding db using inv(3) by (simp add: served_def)
  qed
qed

lemma inv_delete:
  assumes "server_inv L s" "delete_tunnel L i owner s = (Inr u, s1)"
  shows "server_inv L (stop_listener i s1)"
  unfolding server_inv_def
proof (intro impI conjI allI)
  assume c: "codecs_ok L"
  with assms(1) have inv: "schema_ok (s_db s)" "tunnels_ok L s"
      "\<And>j. s_listeners s j \<noteq> None \<Longrightarrow> served L (db_tunnels (s_db s)) j"
    by (simp_all add: server_inv_def)
  show "schema_ok (s_db (stop_listener i s1))" using keepsD [OF keeps_schema_ops(3) inv(1) assms(2)] by simp
  show "tunnels_ok L (stop_listener i s1)"
    using delete_keeps_tunnels [OF inv(2) assms(2)] by (simp add: tunnels_ok_def)
  obtain fs where u: "s1 = s\<lparr>s_db := (s_db s)\<lparr>db_faults := fs,
     db_tunnels := filter (\<lambda>r. tr_id r \<noteq> l_uuid_text L i) (db_tunnels (s_db s))\<rparr>\<rparr>"
    using delete_tunnel_cases [OF assms(2)] by auto
  fix j assume j: "s_listeners (stop_listener i s1) j \<noteq> None"
  then have "j \<noteq> i" "served L (db_tunnels (s_db s)) j" using u inv(3) [of j] by (auto split: if_splits)
  then show "served L (db_tunnels (s_db (stop_listener i s1))) j"
    using u codecsD(3) [OF c] by (auto simp: served_def list_ex_iff)
qed

lemma inv_atomic: "atomic m \<Longrightarrow> server_inv L s \<Longrightarrow> m s = (Inl e, s1) \<Longrightarrow> server_inv L s1"
  by (rule inv_untouched) (auto dest: atomicD)

lemma inv_tunnel_handlers:
  "time_text_ok L (cl_utc c) \<Longrightarrow> keeps (server_inv L) (admin_update_tunnel L c k id i q)"
  "keeps (server_inv L) (admin_delete_tunnel L c i)"
  "time_text_ok L (cl_utc c) \<Longrightarrow> keeps (server_inv L) (agent_create_tunnel L c new k id cq)"
  "time_text_ok L (cl_utc c) \<Longrightarrow> keeps (server_inv L) (agent_update_tunnel L c k id i q)"
  "keeps (server_inv L) (agent_delete_tunnel L c i)"
  unfolding admin_update_tunnel_def admin_delete_tunnel_def agent_create_tunnel_def agent_update_tunnel_def
    agent_delete_tunnel_def
  by ((rule keeps_seq, rule inv_admin inv_device inv_reads [OF reads_queries(1)] | rule keeps_case_prod
       | rule keeps_seq_modify | rule inv_intros
       | erule (2) inv_update inv_create | erule (1) inv_delete inv_atomic [OF update_atomic]
           inv_atomic [OF create_atomic] inv_atomic [OF delete_atomic])+)


section \<open>Deleting a device\<close>

text \<open>The transaction is all or nothing.\<close>

lemma plain_select: "plain (select f) d = (Inr x, d') \<Longrightarrow> \<exists>fs. d' = d\<lparr>db_faults := fs\<rparr> \<and> x = f d'"
  by (auto simp: plain_def dest!: select_eq_Inr)

lemma plain_delete_tunnels:
  assumes "plain (delete_tunnel_rows P) d = (Inr x, d')"
  shows "\<exists>fs. d' = d\<lparr>db_faults := fs, db_tunnels := filter (\<lambda>r. \<not> P r) (db_tunnels d)\<rparr>"
  using assms by (auto simp: plain_def delete_tunnel_rows_def elim!: stmt_cases)

lemma plain_delete_device:
  assumes "plain (delete_device k) d = (Inr n, d')"
  shows "n = length (filter (\<lambda>r. dr_id r = k) (db_devices d))"
    and "\<exists>fs. d' = d\<lparr>db_faults := fs, db_devices := filter (\<lambda>r. dr_id r \<noteq> k) (db_devices d),
        db_tunnels := (if db_foreign_keys d then filter (\<lambda>r. tr_agent_id r \<noteq> k) (db_tunnels d)
                       else db_tunnels d)\<rparr>"
  using assms by (auto simp: plain_def delete_device_def elim!: stmt_cases)

lemma delete_device_rows_failed:
  assumes "delete_device_rows k d = (Inl e, d')"
  shows "\<exists>fs. d' = d\<lparr>db_faults := fs\<rparr>"
proof -
  have "d'\<lparr>db_faults := db_faults d\<rparr> = d"
    using assms unfolding delete_device_rows_def by (rule transaction_atomic)
  then have "d' = d\<lparr>db_faults := db_faults d'\<rparr>" by (metis database.surjective database.update_convs(8))
  then show ?thesis by blast
qed

lemma delete_device_rows_done:
  assumes "delete_device_rows k d = (Inr u, d')"
  shows "\<exists>fs. d' = d\<lparr>db_faults := fs, db_devices := filter (\<lambda>r. dr_id r \<noteq> k) (db_devices d),
        db_tunnels := filter (\<lambda>r. tr_agent_id r \<noteq> k) (db_tunnels d)\<rparr>"
proof -
  let ?body = "seq (plain (select (\<lambda>d. ()))) (\<lambda>_.
       seq (plain (delete_tunnel_rows (\<lambda>r. tr_agent_id r = k))) (\<lambda>_.
       seq (plain (delete_device k)) (\<lambda>n.
       if n = 0 then seq (plain (select (\<lambda>d. ()))) (\<lambda>_. fail NotFound)
       else plain (select (\<lambda>d. ())))))"
  have "?body d = (Inr u, d')"
    using assms unfolding delete_device_rows_def transaction_def
    by (cases "?body d"; cases "fst (?body d)") auto
  then obtain x d1 y d2 n d3 where s: "plain (select (\<lambda>d. ())) d = (Inr x, d1)"
      "plain (delete_tunnel_rows (\<lambda>r. tr_agent_id r = k)) d1 = (Inr y, d2)"
      "plain (delete_device k) d2 = (Inr n, d3)" "plain (select (\<lambda>d. ())) d3 = (Inr u, d')"
    by (auto simp: seq_eq_Inr act_simps split: if_splits)
  obtain fs1 fs2 fs3 fs4 where f: "d1 = d\<lparr>db_faults := fs1\<rparr>"
      "d2 = d1\<lparr>db_faults := fs2, db_tunnels := filter (\<lambda>r. tr_agent_id r \<noteq> k) (db_tunnels d1)\<rparr>"
      "d3 = d2\<lparr>db_faults := fs3, db_devices := filter (\<lambda>r. dr_id r \<noteq> k) (db_devices d2),
        db_tunnels := (if db_foreign_keys d2 then filter (\<lambda>r. tr_agent_id r \<noteq> k) (db_tunnels d2)
                       else db_tunnels d2)\<rparr>"
      "d' = d3\<lparr>db_faults := fs4\<rparr>"
    using plain_select [OF s(1)] plain_delete_tunnels [OF s(2)] plain_delete_device(2) [OF s(3)]
      plain_select [OF s(4)] by blast
  have "db_tunnels d3 = filter (\<lambda>r. tr_agent_id r \<noteq> k) (db_tunnels d)" using f(1-3) by simp
  with f show ?thesis by (intro exI [of _ fs4]) simp
qed

text \<open>
  The outcomes of the handler: nothing happened to the tables, listeners and agents (\<open>untouched\<close> up to the
  expired session), or everything of the device is gone, with the audit entry failing at worst.
\<close>

definition device_gone :: "lib \<Rightarrow> uuid \<Rightarrow> app_state \<Rightarrow> app_state \<Rightarrow> bool" where
  "device_gone L i s s' \<longleftrightarrow>
     s_config s' = s_config s \<and>
     db_devices (s_db s') = filter (\<lambda>r. dr_id r \<noteq> l_uuid_text L i) (db_devices (s_db s)) \<and>
     db_tunnels (s_db s') = filter (\<lambda>r. tr_agent_id r \<noteq> l_uuid_text L i) (db_tunnels (s_db s)) \<and>
     s_agents s' = (s_agents s)(i := None) \<and>
     (\<forall>p. s_agents s i = Some p \<longrightarrow> ap_cancellation p \<in> s_cancelled s') \<and>
     (\<exists>ids. collect (map (\<lambda>r. ok_or (l_uuid_parse L (tr_id r)) (Internal ''uuid''))
               (filter (\<lambda>r. tr_agent_id r = l_uuid_text L i) (db_tunnels (s_db s)))) = Inr ids \<and>
        (\<forall>j. s_listeners s' j = (if j \<in> set ids then None else s_listeners s j)) \<and>
        (\<forall>j k. j \<in> set ids \<and> s_listeners s j = Some k \<longrightarrow> k \<in> s_cancelled s'))"

definition device_kept :: "app_state \<Rightarrow> app_state \<Rightarrow> bool" where
  "device_kept s s' \<longleftrightarrow>
     s_config s' = s_config s \<and> db_devices (s_db s') = db_devices (s_db s) \<and>
     db_tunnels (s_db s') = db_tunnels (s_db s) \<and> s_agents s' = s_agents s \<and>
     s_listeners s' = s_listeners s \<and> s_cancelled s' = s_cancelled s"

lemma core_kept: "core s' = core s \<Longrightarrow> device_kept s s'"
  by (simp add: core_eq device_kept_def)

lemma kept_trans: "device_kept s t \<Longrightarrow> device_kept t u \<Longrightarrow> device_kept s u"
  by (simp add: device_kept_def)

lemma require_admin_kept: "require_admin L now h m s = (r, s') \<Longrightarrow> device_kept s s'"
  by (auto simp: require_admin_cases device_kept_def split: option.splits if_splits)

lemma gone_same_core: "device_gone L i s t \<Longrightarrow> core t' = core t \<Longrightarrow> device_gone L i s t'"
  by (simp add: device_gone_def core_eq)

lemma gone_after_transaction:
  assumes "core s1 = core s"
    and "collect (map (\<lambda>r. ok_or (l_uuid_parse L (tr_id r)) (Internal ''uuid''))
           (filter (\<lambda>r. tr_agent_id r = l_uuid_text L i) (db_tunnels (s_db s)))) = Inr ids"
    and "delete_device_rows (l_uuid_text L i) (s_db s1) = (Inr u, d)"
  shows "device_gone L i s (disconnect_agent i (fold stop_listener ids (s1\<lparr>s_db := d\<rparr>)))"
proof -
  let ?t = "s1\<lparr>s_db := d\<rparr>" let ?f = "fold stop_listener ids ?t"
  obtain fs where d: "d = (s_db s1)\<lparr>db_faults := fs,
      db_devices := filter (\<lambda>r. dr_id r \<noteq> l_uuid_text L i) (db_devices (s_db s1)),
      db_tunnels := filter (\<lambda>r. tr_agent_id r \<noteq> l_uuid_text L i) (db_tunnels (s_db s1))\<rparr>"
    using delete_device_rows_done [OF assms(3)] by blast
  have "k \<in> s_cancelled (disconnect_agent i ?f)" if "j \<in> set ids" "s_listeners s j = Some k" for j k
  proof -
    have "s_listeners ?t j = Some k" using that(2) assms(1) by (simp add: core_eq)
    then have "k \<in> s_cancelled ?f" using stop_all_cancels that(1) by blast
    then show ?thesis using disconnect_cancels(2) by blast
  qed
  moreover have "ap_cancellation p \<in> s_cancelled (disconnect_agent i ?f)" if "s_agents s i = Some p" for p
    using that assms(1) by (intro disconnect_cancels(1)) (simp add: core_eq)
  moreover have "\<forall>j. s_listeners (disconnect_agent i ?f) j = (if j \<in> set ids then None else s_listeners s j)"
    using assms(1) by (simp add: core_eq)
  ultimately show ?thesis
    unfolding device_gone_def using assms(1,2) by (intro conjI exI [of _ ids] allI impI) (auto simp: core_eq d)
qed

lemma reads_device_tunnel_ids [reads_intros]: "reads (device_tunnel_ids L k)"
  unfolding device_tunnel_ids_def by (intro reads_intros)

lemma device_tunnel_ids_Inr:
  assumes "device_tunnel_ids L k s = (Inr ids, s')"
  shows "\<exists>row \<in> set (db_devices (s_db s)). dr_id row = k \<and> dr_revoked row"
    and "collect (map (\<lambda>r. ok_or (l_uuid_parse L (tr_id r)) (Internal ''uuid''))
           (filter (\<lambda>r. tr_agent_id r = k) (db_tunnels (s_db s)))) = Inr ids"
proof -
  obtain row s1 s2 rows where s: "db_do (select (\<lambda>d. find (\<lambda>r. dr_id r = k) (db_devices d))) s = (Inr (Some row), s1)"
      "dr_revoked row" "db_do (select (\<lambda>d. filter (\<lambda>r. tr_agent_id r = k) (db_tunnels d))) s1 = (Inr rows, s2)"
      "collect (map (\<lambda>r. ok_or (l_uuid_parse L (tr_id r)) (Internal ''uuid'')) rows) = Inr ids"
    using assms unfolding device_tunnel_ids_def by (auto simp: seq_eq_Inr act_simps)
  have e: "find (\<lambda>r. dr_id r = k) (db_devices (s_db s1)) = Some row" "rows = filter (\<lambda>r. tr_agent_id r = k) (db_tunnels (s_db s2))"
    using s(1,3) by (auto simp: db_do_eq_Inr dest!: select_eq_Inr)
  have c1: "core s1 = core s" using reads_select s(1) by (rule core_reads)
  moreover have "core s2 = core s1" using reads_select s(3) by (rule core_reads)
  ultimately have c: "db_devices (s_db s1) = db_devices (s_db s)" "db_tunnels (s_db s2) = db_tunnels (s_db s)"
    by (simp_all add: core_eq)
  show "\<exists>row \<in> set (db_devices (s_db s)). dr_id row = k \<and> dr_revoked row"
    using e(1) s(2) unfolding c(1) by (auto simp: find_Some_iff)
  show "collect (map (\<lambda>r. ok_or (l_uuid_parse L (tr_id r)) (Internal ''uuid''))
           (filter (\<lambda>r. tr_agent_id r = k) (db_tunnels (s_db s)))) = Inr ids"
    using s(4) unfolding e(2) c(2) .
qed

lemma purge_device_cases:
  assumes "purge_device L c i ids user s1 = (r, s')" and "core s1 = core s"
    and "collect (map (\<lambda>r. ok_or (l_uuid_parse L (tr_id r)) (Internal ''uuid''))
           (filter (\<lambda>r. tr_agent_id r = l_uuid_text L i) (db_tunnels (s_db s)))) = Inr ids"
  shows "(\<exists>e. r = Inl e) \<and> device_kept s s' \<or> device_gone L i s s'"
proof -
  from assms(1)[unfolded purge_device_def] show ?thesis
  proof (cases rule: seq_cases)
    case (failed e)
    then obtain d where d: "delete_device_rows (l_uuid_text L i) (s_db s1) = (Inl e, d)" "s' = s1\<lparr>s_db := d\<rparr>"
      by (auto simp: on_database_def split: prod.splits)
    obtain fs where "d = (s_db s1)\<lparr>db_faults := fs\<rparr>" using delete_device_rows_failed [OF d(1)] by blast
    with d(2) have "core s' = core s1" by (simp add: core_eq)
    then show ?thesis using failed(2) assms(2) core_kept by simp
  next
    case (continued u s2)
    then obtain d where d: "delete_device_rows (l_uuid_text L i) (s_db s1) = (Inr u, d)" "s2 = s1\<lparr>s_db := d\<rparr>"
      by (auto simp: on_database_def split: prod.splits)
    have "audit L c ''device.delete'' (l_uuid_text L i) (lit ''permanently deleted by '' @ user)
        (disconnect_agent i (fold stop_listener ids s2)) = (r, s')"
      using continued(2) by (simp add: seq_def act_simps)
    then have "core s' = core (disconnect_agent i (fold stop_listener ids s2))" by (rule core_audit_eq)
    then show ?thesis using gone_same_core gone_after_transaction [OF assms(2,3) d(1)] d(2) by simp
  qed
qed

lemma delete_device_cases:
  assumes "delete_device_permanently L c i s = (r, s')"
  obtains (kept) e where "r = Inl e" "device_kept s s'"
    | (gone) row where "device_gone L i s s'" "row \<in> set (db_devices (s_db s))"
        "dr_id row = l_uuid_text L i" "dr_revoked row"
  using assms unfolding delete_device_permanently_def
proof (cases rule: seq_cases)
  case (failed e)
  then show ?thesis using kept require_admin_kept by blast
next
  case (continued p s1)
  then have s1: "s1 = s" by (cases p) (simp add: require_admin_Inr)
  obtain user csrf where p: "p = (user, csrf)" by (cases p)
  from continued(2) [unfolded p s1 prod.case] show ?thesis
  proof (cases rule: seq_cases)
    case (failed e)
    then show ?thesis using kept core_kept core_reads [OF reads_device_tunnel_ids] by blast
  next
    case (continued ids s2)
    note ids = device_tunnel_ids_Inr [OF continued(1)]
    have c: "core s2 = core s" using reads_device_tunnel_ids continued(1) by (rule core_reads)
    show ?thesis using purge_device_cases [OF continued(2) c ids(2)] ids(1) kept gone by blast
  qed
qed


lemma keeps_on_database [keeps_intros]: "keeps I m \<Longrightarrow> keeps (\<lambda>s. I (s_db s)) (on_database m)"
  by (auto simp: keeps_def on_database_def split: prod.splits)

lemma delete_device_schema: "keeps (\<lambda>s. schema_ok (s_db s)) (delete_device_permanently L c i)"
  unfolding delete_device_permanently_def purge_device_def delete_device_rows_def plain_def
  by (intro keeps_intros keeps_modify keeps_schema_reads [OF reads_device_tunnel_ids])
    (auto simp: schema_untouched)

lemma gone_inv:
  assumes "server_inv L s" "device_gone L i s s'" "schema_ok (s_db s) \<Longrightarrow> schema_ok (s_db s')"
  shows "server_inv L s'"
  unfolding server_inv_def
proof (intro impI conjI allI)
  assume c: "codecs_ok L"
  with assms(1) have inv: "schema_ok (s_db s)" "tunnels_ok L s"
      "\<And>j. s_listeners s j \<noteq> None \<Longrightarrow> served L (db_tunnels (s_db s)) j"
    by (simp_all add: server_inv_def)
  show "schema_ok (s_db s')" using inv(1) assms(3) by simp
  have rows: "db_tunnels (s_db s') = filter (\<lambda>r. tr_agent_id r \<noteq> l_uuid_text L i) (db_tunnels (s_db s))"
    and "s_config s' = s_config s"
    using assms(2) by (simp_all add: device_gone_def)
  then show "tunnels_ok L s'" using inv(2) by (simp add: tunnels_ok_def)
  obtain ids where ids: "map (\<lambda>r. ok_or (l_uuid_parse L (tr_id r)) (Internal ''uuid''))
        (filter (\<lambda>r. tr_agent_id r = l_uuid_text L i) (db_tunnels (s_db s))) = map Inr ids"
      "\<And>j. s_listeners s' j = (if j \<in> set ids then None else s_listeners s j)"
    using assms(2) by (auto simp: device_gone_def collect_eq_Inr)
  fix j assume "s_listeners s' j \<noteq> None"
  with ids(2) have j: "j \<notin> set ids" "s_listeners s j \<noteq> None" by (auto split: if_splits)
  then obtain r where r: "r \<in> set (db_tunnels (s_db s))" "tr_id r = l_uuid_text L j" "tr_enabled r"
      "tr_kind r \<noteq> lit ''web''"
    using inv(3) by (auto simp: served_def list_ex_iff)
  have "tr_agent_id r \<noteq> l_uuid_text L i"
  proof
    assume "tr_agent_id r = l_uuid_text L i"
    then have "ok_or (l_uuid_parse L (tr_id r)) (Internal ''uuid'') \<in> set (map Inr ids)"
      using r(1) unfolding ids(1) [symmetric] by auto
    then show False using j(1) r(2) codecsD(1) [OF c] by auto
  qed
  then show "served L (db_tunnels (s_db s')) j"
    unfolding rows served_def list_ex_iff using r by auto
qed

lemma inv_delete_device: "keeps (server_inv L) (delete_device_permanently L c i)"
proof (rule keepsI)
  fix s assume inv: "server_inv L s"
  obtain r s' where r: "delete_device_permanently L c i s = (r, s')"
    by (cases "delete_device_permanently L c i s")
  have schema: "schema_ok (s_db s) \<Longrightarrow> schema_ok (s_db s')"
    using keepsD [OF delete_device_schema _ r] .
  from r have "server_inv L s'"
  proof (cases rule: delete_device_cases)
    case (kept e)
    then show ?thesis using inv_tview [OF inv schema] by (simp add: device_kept_def tview_def)
  next
    case (gone row)
    then show ?thesis using gone_inv [OF inv] schema by blast
  qed
  then show "server_inv L (snd (delete_device_permanently L c i s))" using r by simp
qed

section \<open>The server's calls as a transition system\<close>

lemma inv_quiet_handlers:
  "keeps (server_inv L) (logout L c)" "keeps (server_inv L) (change_password L c salt q)"
  "keeps (server_inv L) (create_device L c i token dq)" "keeps (server_inv L) (revoke_device L c i)"
  unfolding logout_def change_password_def create_device_def revoke_device_def set_cookie_def admin_by_name_def Let_def
  by (rule inv_quiet; intro keeps_intros keeps_modify; simp add: rows_simps tview_def remove_session_def split: option.splits)+

lemma inv_login: "keeps (server_inv L) (login L c sid csrf peer q)"
  unfolding login_def sign_in_def set_cookie_def admin_by_name_def Let_def
  by (rule inv_quiet; intro keeps_intros keeps_modify keepsI;
      simp add: rows_simps tview_def create_session_def login_allowed_def split: prod.splits)

lemma inv_cleanup: "server_inv L s \<Longrightarrow> server_inv L (snd (cleanup_round L now u s))"
proof -
  assume inv: "server_inv L s"
  let ?s1 = "forget_expired now s"
  have 1: "server_inv L ?s1"
    using inv by (rule inv_tview) (simp_all add: forget_expired_def tview_def)
  have "keeps (server_inv L) (db_do (purge_audit t))" "keeps (server_inv L) (db_do (purge_history t))" for t
    by (rule inv_quiet; intro keeps_intros; simp add: rows_simps)+
  then have "server_inv L (snd (on_db (purge_history t) (snd (on_db (purge_audit t) ?s1))))" for t
    using 1 by (simp add: keeps_def db_do_def)
  then show ?thesis using 1 by (simp add: cleanup_round_def Let_def split: option.splits)
qed

lemma start_all_listeners:
  "s_listeners (start_all l s) j \<noteq> None \<Longrightarrow>
     s_listeners s j \<noteq> None \<or> (\<exists>(t, k) \<in> set l. t_id t = j \<and> t_enabled t \<and> t_kind t \<noteq> KWeb)"
proof (induction l arbitrary: s)
  case (Cons x l)
  obtain t k where x: "x = (t, k)" by (cases x)
  from Cons.prems Cons.IH show ?case
    by (cases "t_enabled t \<and> t_kind t \<noteq> KWeb") (force simp: x start_listener_def split: if_splits)+
qed simp

lemma start_all_sel [simp]:
  "s_config (start_all l s) = s_config s" "s_db (start_all l s) = s_db s"
  by (induction l s rule: start_all.induct) (auto simp: start_listener_def)

lemma inv_restore: "keeps (server_inv L) (restore_listeners L tokens)"
proof (rule keepsI)
  fix s assume inv: "server_inv L s"
  obtain r s' where r: "restore_listeners L tokens s = (r, s')" by (cases "restore_listeners L tokens s")
  from r have "server_inv L s'" unfolding restore_listeners_def
  proof (cases rule: seq_cases)
    case (failed e)
    then show ?thesis using inv inv_untouched readsD [OF reads_queries(5)] by blast
  next
    case (continued ts s1)
    have s': "s' = start_all (zip ts tokens) s1" using continued(2) by (simp add: act_simps)
    have un: "untouched s s1" using reads_queries(5) continued(1) by (rule readsD)
    obtain rows s2 where rows: "db_do (select (\<lambda>d. sort_key tr_created_at (db_tunnels d))) s = (Inr rows, s2)"
        "collect (map (row_to_tunnel L) rows) = Inr ts"
      using continued(1) unfolding list_all_tunnels_def by (auto simp: seq_eq_Inr act_simps)
    have "set rows = set (db_tunnels (s_db s))"
      using rows(1) core_reads [OF reads_select rows(1)]
      by (auto simp: db_do_eq_Inr core_eq dest!: select_eq_Inr)
    then have ts: "\<And>t. t \<in> set ts \<Longrightarrow> \<exists>r \<in> set (db_tunnels (s_db s)). row_to_tunnel L r = Inr t"
      using rows(2) unfolding collect_eq_Inr by (metis (no_types, lifting) image_iff list.set_map)
    show ?thesis unfolding server_inv_def
    proof (intro impI conjI allI)
      assume c: "codecs_ok L"
      with inv_untouched [OF inv un] have i: "schema_ok (s_db s1)" "tunnels_ok L s1"
          "\<And>j. s_listeners s1 j \<noteq> None \<Longrightarrow> served L (db_tunnels (s_db s1)) j"
        by (simp_all add: server_inv_def)
      show "schema_ok (s_db s')" "tunnels_ok L s'" using i s' by (simp_all add: tunnels_ok_def)
      fix j assume "s_listeners s' j \<noteq> None"
      then have "s_listeners s1 j \<noteq> None \<or> (\<exists>t \<in> set ts. t_id t = j \<and> t_enabled t \<and> t_kind t \<noteq> KWeb)"
        using start_all_listeners [of "zip ts tokens" s1 j] s' by (blast dest: set_zip_leftD)
      then consider "s_listeners s1 j \<noteq> None" | t where "t \<in> set ts" "t_id t = j" "t_enabled t" "t_kind t \<noteq> KWeb"
        by blast
      then show "served L (db_tunnels (s_db s')) j"
      proof cases
        case 2
        then obtain r where r: "r \<in> set (db_tunnels (s_db s1))" "row_to_tunnel L r = Inr t"
          using ts untouched_sel(2) [OF un] by auto
        then have "stored L (s_config s1) r" using i(2) by (simp add: tunnels_ok_def)
        then have "tunnel_to_row L t = r" using stored_read(2) c r(2) by blast
        then show ?thesis
          using r(1) 2 unfolding served_def list_ex_iff s' by (auto simp: tunnel_to_row_def intro!: bexI [of _ r])
      qed (use i s' in simp)
    qed
  qed
  then show "server_inv L (snd (restore_listeners L tokens s))" using r by simp
qed


lemma inv_bind: "server_inv L s \<Longrightarrow> server_inv L (snd (bind_listener b t s))"
  by (auto simp: bind_listener_def server_inv_def tunnels_ok_def split: option.splits)

text \<open>
  One call of the interface, with any arguments and any outcome, no other handler running during its
  pause; the hourly cleanup, the restart of the listeners, and a listener whose bind fails.
\<close>

inductive server_step :: "lib \<Rightarrow> app_state \<Rightarrow> app_state \<Rightarrow> bool" for L where
  on_login: "server_step L s (snd (login L c sid csrf peer lq s))"
| on_logout: "server_step L s (snd (logout L c s))"
| on_password: "server_step L s (snd (change_password L c salt pq s))"
| on_create_device: "server_step L s (snd (create_device L c i tok dq s))"
| on_revoke_device: "server_step L s (snd (revoke_device L c i s))"
| on_delete_device: "server_step L s (snd (delete_device_permanently L c i s))"
| on_admin_update: "time_text_ok L (cl_utc c) \<Longrightarrow> server_step L s (snd (admin_update_tunnel L c k id i uq s))"
| on_admin_delete: "server_step L s (snd (admin_delete_tunnel L c i s))"
| on_agent_create: "time_text_ok L (cl_utc c) \<Longrightarrow> server_step L s (snd (agent_create_tunnel L c i k id cq s))"
| on_agent_update: "time_text_ok L (cl_utc c) \<Longrightarrow> server_step L s (snd (agent_update_tunnel L c k id i uq s))"
| on_agent_delete: "server_step L s (snd (agent_delete_tunnel L c i s))"
| on_cleanup: "server_step L s (snd (cleanup_round L now u s))"
| on_restore: "server_step L s (snd (restore_listeners L tokens s))"
| on_bind: "server_step L s (snd (bind_listener b t s))"

definition server_start :: "lib \<Rightarrow> app_state \<Rightarrow> bool" where
  "server_start L s \<longleftrightarrow> schema_ok (s_db s) \<and> tunnels_ok L s \<and> s_listeners s = Map.empty"

lemma keeps_snd: "keeps I m \<Longrightarrow> I s \<Longrightarrow> I (snd (m s))"
  by (simp add: keeps_def)

lemma server_step_inv: "server_step L s s' \<Longrightarrow> server_inv L s \<Longrightarrow> server_inv L s'"
  by (induction rule: server_step.induct)
    (simp_all add: keeps_snd inv_login inv_quiet_handlers inv_delete_device inv_tunnel_handlers inv_cleanup
       inv_restore inv_bind)

lemma server_start_inv: "server_start L s \<Longrightarrow> server_inv L s"
  by (simp add: server_start_def server_inv_def)

interpretation server: invariant_system "server_start L" "server_step L" "server_inv L" for L
  using server_start_inv server_step_inv by unfold_locales

lemma trusted_proxy_eq:
  "trusted_proxy L cfg a \<longleftrightarrow> (\<exists>n \<in> set (c_trusted_proxy_cidrs cfg). l_net_contains L n (canonical a))"
  by (cases a) (auto simp: trusted_proxy_def canonical_def list_ex_iff split: option.splits)

interpretation proxy_gate: address_gate "trusted_proxy L cfg" for L cfg
  by unfold_locales (simp add: trusted_proxy_eq)

end
