(* ===== verification/Api_Properties.thy ===== *)
theory Api_Properties
  imports Api_Facts
begin

text \<open>
  The properties of the HTTP interface: what each rests on is in \<open>Api_Facts\<close>.
\<close>

section \<open>An administrator's request\<close>

definition sample_headers :: headers where
  "sample_headers =
     [(lit ''cookie'', Some (lit ''tb_session=abc'')), (lit ''x-csrf-token'', Some (lit ''csrf''))]"

definition sample_call :: call where
  "sample_call = \<lparr>cl_headers = sample_headers, cl_now = 5, cl_utc = 100, cl_audit_utc = 101\<rparr>"

definition signed_in :: "app_state \<Rightarrow> app_state" where
  "signed_in s = create_session 0 (lit ''abc'') (lit ''csrf'') (lit ''admin'') s"

lemma sample_cookie: "cookie_value sample_headers (lit ''tb_session'') = Some (lit ''abc'')"
proof -
  have "header_str sample_headers ''cookie'' = Some (lit ''tb_session='' @ lit ''abc'')"
    by (simp add: header_str_def header_get_def sample_headers_def lit_def)
  then show ?thesis
    using cookie_found by (simp add: lit_def is_whitespace_def)
qed

lemma sample_csrf [simp]: "header_str sample_headers ''x-csrf-token'' = Some (lit ''csrf'')"
  and sample_origin [simp]: "header_str sample_headers ''origin'' = None"
  by (simp_all add: header_str_def header_get_def sample_headers_def lit_def)

lemma sample_call_sel [simp]:
  "cl_headers sample_call = sample_headers" "cl_now sample_call = 5" "cl_utc sample_call = 100"
  "cl_audit_utc sample_call = 101"
  by (simp_all add: sample_call_def)

lemma signed_in_sel [simp]:
  "s_config (signed_in s) = s_config s" "s_db (signed_in s) = s_db s" "s_agents (signed_in s) = s_agents s"
  "s_listeners (signed_in s) = s_listeners s" "s_cancelled (signed_in s) = s_cancelled s"
  "s_sessions (signed_in s) = (s_sessions s)(lit ''abc'' \<mapsto>
     \<lparr>as_username = lit ''admin'', as_csrf_token = lit ''csrf'', as_expires_at = c_session_ttl (s_config s)\<rparr>)"
  by (simp_all add: signed_in_def create_session_def session_expiry_def)

lemma sample_admin:
  "s_config s = sample_config \<Longrightarrow>
     require_admin sample_lib 5 sample_headers m (signed_in s) = (Inr (lit ''admin'', lit ''csrf''), signed_in s)"
  by (simp add: require_admin_Inr sample_cookie request_ok_def origin_matches_def sample_config_def secs_def)


section \<open>Access\<close>

text \<open>The administrator's endpoints as one interface.\<close>

datatype admin_call =
    Logout | Me | Password bytes change_password_request
  | ListDevices | CreateDevice uuid ustr create_device_request | RevokeDevice uuid | DeleteDevice uuid
  | ListTunnels | UpdateTunnel nat "app_state \<Rightarrow> app_state" uuid update_tunnel_request | DeleteTunnel uuid
  | ListConnections | ListAudit "u16 option" | Metrics | Settings

definition method_of :: "admin_call \<Rightarrow> http_method" where
  "method_of a =
     (case a of Logout \<Rightarrow> POST | CreateDevice i t q \<Rightarrow> POST | Password salt q \<Rightarrow> PATCH
      | UpdateTunnel k f i q \<Rightarrow> PATCH | RevokeDevice i \<Rightarrow> DELETE | DeleteDevice i \<Rightarrow> DELETE
      | DeleteTunnel i \<Rightarrow> DELETE | _ \<Rightarrow> GET)"

definition outcome :: "('e + 'a) \<times> app_state \<Rightarrow> ('e + unit) \<times> app_state" where
  "outcome x = (case x of (Inl e, s) \<Rightarrow> (Inl e, s) | (Inr _, s) \<Rightarrow> (Inr (), s))"

definition admin_api :: "lib \<Rightarrow> call \<Rightarrow> admin_call \<Rightarrow> app_state \<Rightarrow> (app_error + unit) \<times> app_state" where
  "admin_api L c a s =
     (case a of
        Logout \<Rightarrow> outcome (logout L c s)
      | Me \<Rightarrow> outcome (me L c s)
      | Password salt q \<Rightarrow> outcome (change_password L c salt q s)
      | ListDevices \<Rightarrow> outcome (list_devices L c s)
      | CreateDevice i t q \<Rightarrow> outcome (create_device L c i t q s)
      | RevokeDevice i \<Rightarrow> outcome (revoke_device L c i s)
      | DeleteDevice i \<Rightarrow> outcome (delete_device_permanently L c i s)
      | ListTunnels \<Rightarrow> outcome (admin_list_tunnels L c s)
      | UpdateTunnel k f i q \<Rightarrow> outcome (admin_update_tunnel L c k f i q s)
      | DeleteTunnel i \<Rightarrow> outcome (admin_delete_tunnel L c i s)
      | ListConnections \<Rightarrow> outcome (list_connections L c s)
      | ListAudit n \<Rightarrow> outcome (list_audit L c n s)
      | Metrics \<Rightarrow> outcome (admin_metrics L c s)
      | Settings \<Rightarrow> outcome (admin_settings L c s))"

lemmas admin_handlers =
  logout_def me_def change_password_def list_devices_def create_device_def revoke_device_def
  delete_device_permanently_def admin_list_tunnels_def admin_update_tunnel_def admin_delete_tunnel_def
  list_connections_def list_audit_def admin_metrics_def admin_settings_def

lemma admin_api_refused:
  assumes "require_admin L (cl_now c) (cl_headers c) (method_of a) s = (Inl e, s')"
  shows "admin_api L c a s = (Inl e, s')"
  using assms
  by (cases a) (simp_all add: admin_api_def method_of_def outcome_def admin_handlers seq_def Let_def)

lemma refused_request:
  assumes "require_admin L now h m s = (Inl e, s')"
  shows "e \<in> {Unauthorized, Forbidden} \<and> (\<exists>f. s' = s\<lparr>s_sessions := f\<rparr> \<and> f \<subseteq>\<^sub>m s_sessions s \<and>
     (\<forall>i session. s_sessions s i = Some session \<and> now < as_expires_at session \<longrightarrow> f i = Some session))"
proof (cases "Option.bind (cookie_value h (lit ''tb_session'')) (s_sessions s)")
  case None
  then have "e = Unauthorized" "s' = s" using assms by (auto simp: require_admin_cases)
  then show ?thesis by (intro conjI exI [of _ "s_sessions s"]) auto
next
  case (Some session)
  then obtain i where i: "cookie_value h (lit ''tb_session'') = Some i" "s_sessions s i = Some session"
    by (auto simp: Option.bind_eq_Some_conv)
  show ?thesis
  proof (cases "as_expires_at session \<le> now")
    case True
    then have "e = Unauthorized" "s' = s\<lparr>s_sessions := (s_sessions s)(i := None)\<rparr>"
      using assms i by (auto simp: require_admin_cases)
    then show ?thesis
      using True i by (intro conjI exI [of _ "(s_sessions s)(i := None)"]) (auto simp: map_le_def)
  next
    case False
    then have "e = Forbidden" "s' = s" using assms i by (auto simp: require_admin_cases split: if_splits)
    then show ?thesis by (intro conjI exI [of _ "s_sessions s"]) auto
  qed
qed

definition only_reads :: "app_state \<Rightarrow> app_state \<Rightarrow> bool" where
  "only_reads s s' \<longleftrightarrow> (\<exists>f fs. s' = s\<lparr>s_sessions := f, s_db := (s_db s)\<lparr>db_faults := fs\<rparr>\<rparr> \<and> f \<subseteq>\<^sub>m s_sessions s)"

lemma untouched_only_reads: "untouched s s' \<Longrightarrow> only_reads s s'"
  unfolding untouched_def only_reads_def by (elim exE, intro exI [of _ "s_sessions s"] exI) auto

lemma outcome_snd [simp]: "snd (outcome x) = snd x"
  by (auto simp: outcome_def split: prod.splits sum.splits)

lemma reading_handler:
  assumes "\<And>p. reads (k p)"
  shows "only_reads s (snd (outcome (seq (require_admin L now h GET) k s)))"
proof (cases "require_admin L now h GET s")
  case (Pair r s1)
  show ?thesis
  proof (cases r)
    case (Inl e)
    then have "s1 = s\<lparr>s_sessions := f\<rparr> \<Longrightarrow> f \<subseteq>\<^sub>m s_sessions s \<Longrightarrow> only_reads s s1" for f
      unfolding only_reads_def by (intro exI [of _ f] exI [of _ "db_faults (s_db s)"]) simp
    then show ?thesis
      using refused_request [OF Pair [unfolded Inl]] Pair Inl by (auto simp: seq_def)
  next
    case (Inr p)
    then have "s1 = s" using Pair by (cases p) (simp add: require_admin_Inr)
    then show ?thesis
      using Pair Inr assms [of p] untouched_only_reads by (simp add: seq_def reads_def)
  qed
qed

lemma reading_calls: "method_of a = GET \<Longrightarrow> only_reads s (snd (admin_api L c a s))"
  by (cases a)
    (simp_all only: method_of_def admin_api_def admin_handlers admin_call.case http_method.distinct,
      (rule reading_handler, (rule reads_case_prod)?, intro reads_intros reads_queries)+)

definition authorised :: "lib \<Rightarrow> call \<Rightarrow> http_method \<Rightarrow> app_state \<Rightarrow> bool" where
  "authorised L c m s \<longleftrightarrow>
     (\<exists>i session. cookie_value (cl_headers c) (lit ''tb_session'') = Some i \<and> s_sessions s i = Some session \<and>
       cl_now c < as_expires_at session \<and>
       (m = GET \<or>
          header_str (cl_headers c) ''x-csrf-token'' = Some (as_csrf_token session) \<and> origin_matches L (cl_headers c)))"

lemma unauthorised_refused:
  assumes "\<not> authorised L c (method_of a) s"
    and "require_admin L (cl_now c) (cl_headers c) (method_of a) s = (r, s')"
  shows "\<exists>e. r = Inl e"
proof (cases r)
  case (Inr p)
  have "safe_method (method_of a) \<longleftrightarrow> method_of a = GET"
    by (cases a) (simp_all add: method_of_def safe_method_def)
  then show ?thesis using assms Inr by (cases p) (auto simp: require_admin_Inr request_ok_def authorised_def)
qed simp

text \<open>
  C5. Access to the administrator's interface. Without a live session, or, for an endpoint that can change
  something, without that session's CSRF token and a matching origin, the answer is 401 or 403 and
  nothing changes except that an expired session may be forgotten; every other session stays. And the
  GET endpoints change nothing else for anyone.
\<close>

theorem admin_access:
  shows "(\<not> authorised L c (method_of a) s \<longrightarrow>
       fst (admin_api L c a s) \<in> {Inl Unauthorized, Inl Forbidden} \<and>
       (\<exists>f. snd (admin_api L c a s) = s\<lparr>s_sessions := f\<rparr> \<and> f \<subseteq>\<^sub>m s_sessions s \<and>
          (\<forall>i session. s_sessions s i = Some session \<and> cl_now c < as_expires_at session \<longrightarrow> f i = Some session))) \<and>
     (method_of a = GET \<longrightarrow> only_reads s (snd (admin_api L c a s)))"
proof (intro conjI impI reading_calls)
  assume no: "\<not> authorised L c (method_of a) s"
  obtain r s' where req: "require_admin L (cl_now c) (cl_headers c) (method_of a) s = (r, s')"
    by (cases "require_admin L (cl_now c) (cl_headers c) (method_of a) s")
  obtain e where e: "r = Inl e" using unauthorised_refused [OF no req] by blast
  note api = admin_api_refused [OF req [unfolded e]]
  show "fst (admin_api L c a s) \<in> {Inl Unauthorized, Inl Forbidden}"
    and "\<exists>f. snd (admin_api L c a s) = s\<lparr>s_sessions := f\<rparr> \<and> f \<subseteq>\<^sub>m s_sessions s \<and>
          (\<forall>i session. s_sessions s i = Some session \<and> cl_now c < as_expires_at session \<longrightarrow> f i = Some session)"
    using refused_request [OF req [unfolded e]] unfolding api by auto
qed

theorem admin_access_witness:
  "fst (admin_api sample_lib sample_call (DeleteDevice 7) sample_state) \<in> {Inl Unauthorized, Inl Forbidden}"
  using admin_access [of sample_lib sample_call "DeleteDevice 7" sample_state] by (simp add: authorised_def)


section \<open>Listeners\<close>

text \<open>
  Which public ports are open, in every state the server's calls can reach after a start without
  listeners: a listener runs only for a tunnel that is in the table, enabled and not a web tunnel, so a
  deleted, disabled or purged tunnel is not listened for. The table keeps its invariant throughout.
\<close>

theorem listeners_served:
  assumes "codecs_ok L" and "server_start L s0" and "(server_step L)\<^sup>*\<^sup>* s0 s"
  shows "(\<forall>i k. s_listeners s i = Some k \<longrightarrow>
       list_ex (\<lambda>r. tr_id r = l_uuid_text L i \<and> tr_enabled r \<and> tr_kind r \<noteq> lit ''web'') (db_tunnels (s_db s))) \<and>
     list_all (stored L (s_config s)) (db_tunnels (s_db s)) \<and> schema_ok (s_db s)"
  using server.reachable_inv [OF assms(2,3)] assms(1)
  by (auto simp: server_inv_def served_def tunnels_ok_def list_all_iff)

lemma sample_busy_db:
  "db_tunnels (s_db sample_busy) = [tunnel_to_row sample_lib sample_tunnel]" "db_faults (s_db sample_busy) = []"
  by (simp_all add: sample_busy_def sample_database_def)

lemma sample_restore:
  "restore_listeners sample_lib [3] sample_busy = (Inr (), sample_busy\<lparr>s_listeners := [1 \<mapsto> 3]\<rparr>)"
proof -
  have "list_all_tunnels sample_lib sample_busy = (Inr [stored_status sample_tunnel], sample_busy)"
    by (simp add: list_all_tunnels_def seq_def db_do_def on_db_def map_err_def select_def sample_busy_db act_simps
        sample_busy_read(2))
  moreover have "t_enabled (stored_status sample_tunnel)" "t_kind (stored_status sample_tunnel) = KTcp"
      "t_id (stored_status sample_tunnel) = 1"
    by (simp_all add: stored_status_def sample_tunnel_def new_tunnel_def sample_request_def)
  ultimately show ?thesis
    by (simp add: restore_listeners_def seq_def act_simps start_listener_def sample_busy_def)
qed

theorem listeners_served_witness:
  "\<exists>s. (server_step sample_lib)\<^sup>*\<^sup>* sample_busy s \<and> s_listeners s 1 = Some 3 \<and>
     list_ex (\<lambda>r. tr_id r = l_uuid_text sample_lib 1 \<and> tr_enabled r \<and> tr_kind r \<noteq> lit ''web'') (db_tunnels (s_db s))"
proof -
  let ?s = "sample_busy\<lparr>s_listeners := [1 \<mapsto> 3]\<rparr>"
  have "server_step sample_lib sample_busy ?s"
    using on_restore [of sample_lib sample_busy "[3]"] by (simp add: sample_restore)
  then have r: "(server_step sample_lib)\<^sup>*\<^sup>* sample_busy ?s" by simp
  have "server_start sample_lib sample_busy"
    using sample_busy_ok by (simp add: server_start_def sample_busy_def)
  from listeners_served [OF sample_codecs this r] have
    "list_ex (\<lambda>r. tr_id r = l_uuid_text sample_lib 1 \<and> tr_enabled r \<and> tr_kind r \<noteq> lit ''web'') (db_tunnels (s_db ?s))"
    by auto
  with r show ?thesis by (intro exI [of _ ?s]) simp
qed

lemma admin_delete_effect:
  assumes "admin_delete_tunnel L c i s = (Inr u, s')"
  shows "\<not> list_ex (\<lambda>r. tr_id r = l_uuid_text L i) (db_tunnels (s_db s'))"
proof -
  obtain user csrf t s1 s2 where s: "require_admin L (cl_now c) (cl_headers c) DELETE s = (Inr (user, csrf), s)"
      "get_tunnel L i s = (Inr t, s1)" "delete_tunnel L i None s1 = (Inr (), s2)"
      "audit L c ''tunnel.delete'' (l_uuid_text L i) (lit ''deleted by '' @ user)
         (sync_agent L (t_agent_id t) (stop_listener i s2)) = (Inr u, s')"
    using assms unfolding admin_delete_tunnel_def
    by (auto simp: seq_eq_Inr act_simps require_admin_Inr)
  have "core s' = core (stop_listener i s2)" using core_audit_eq [OF s(4)] core_sync by simp
  then have "db_tunnels (s_db s') = db_tunnels (s_db s2)" by (simp add: core_eq)
  moreover obtain fs where "s2 = s1\<lparr>s_db := (s_db s1)\<lparr>db_faults := fs,
      db_tunnels := filter (\<lambda>r. tr_id r \<noteq> l_uuid_text L i) (db_tunnels (s_db s1))\<rparr>\<rparr>"
    using delete_tunnel_cases [OF s(3)] by auto
  ultimately show ?thesis by (simp add: list_ex_iff)
qed

text \<open>
  The pause in \<open>reconcile_listener\<close> breaks that guarantee: when an administrator's delete of the tunnel
  completes while an update of it waits its 25 ms, the update then starts a listener for a tunnel that
  is no longer in the table.
\<close>

theorem pause_orphans_listener:
  assumes "t_enabled t" "t_kind t \<noteq> KWeb"
    and "admin_delete_tunnel L c (t_id t) (stop_listener (t_id t) s) = (Inr u, s1)"
  shows "s_listeners (reconcile_listener k (\<lambda>s. snd (admin_delete_tunnel L c (t_id t) s)) t s) (t_id t) = Some k \<and>
     \<not> list_ex (\<lambda>r. tr_id r = l_uuid_text L (t_id t))
         (db_tunnels (s_db (reconcile_listener k (\<lambda>s. snd (admin_delete_tunnel L c (t_id t) s)) t s)))"
  using assms admin_delete_effect [OF assms(3)]
  by (simp add: reconcile_listener_def start_listener_def Let_def)

lemma sample_delete:
  "\<exists>s1. admin_delete_tunnel sample_lib sample_call 1 (signed_in sample_busy) = (Inr (), s1)"
proof -
  have get: "get_tunnel sample_lib 1 (signed_in sample_busy) = (Inr (stored_status sample_tunnel), signed_in sample_busy)"
    using sample_busy_read
    by (simp add: get_tunnel_def seq_def db_do_def on_db_def map_err_def select_def act_simps)
      (simp add: sample_busy_def sample_database_def act_simps signed_in_def create_session_def)
  obtain s2 where del: "delete_tunnel sample_lib 1 None (signed_in sample_busy) = (Inr (), s2)" "db_faults (s_db s2) = []"
    using sample_busy_db(2)
    by (simp add: delete_tunnel_def seq_def get owner_check_def act_simps db_do_def on_db_def map_err_def
        delete_tunnel_rows_def)
  let ?s3 = "sync_agent sample_lib 7 (stop_listener 1 s2)"
  have "s_agents s2 = Map.empty"
    using delete_tunnel_cases [OF del(1)] by (auto simp: sample_busy_def)
  moreover obtain r s' where l: "list_for_agent sample_lib 7 (stop_listener 1 s2) = (r, s')"
    by (cases "list_for_agent sample_lib 7 (stop_listener 1 s2)")
  moreover have "core s' = core (stop_listener 1 s2)" using reads_queries(4) l by (rule core_reads)
  ultimately have s3: "?s3 = s'" by (auto simp: sync_agent_def core_eq split: sum.splits)
  have "db_faults (s_db s') = []"
    using l del(2) unfolding list_for_agent_def
    by (auto simp: seq_def db_do_def on_db_def map_err_def select_def lift_def)
  then have "\<exists>s1. audit sample_lib sample_call ''tunnel.delete'' [1] (lit ''deleted by '' @ lit ''admin'') ?s3 = (Inr (), s1)"
    unfolding s3 by (simp add: audit_def db_do_def on_db_def map_err_def insert_audit_def)
  then show ?thesis
    using sample_admin [of sample_busy DELETE] get del(1)
    by (simp add: admin_delete_tunnel_def seq_def act_simps sample_busy_def sample_lib_def sample_tunnel_def stored_status_def)
qed


theorem pause_orphans_listener_witness:
  "\<exists>s' :: app_state. s_listeners s' 1 = Some 3 \<and> \<not> list_ex (\<lambda>r. tr_id r = l_uuid_text sample_lib 1) (db_tunnels (s_db s'))"
proof -
  let ?t = "stored_status sample_tunnel"
  have t: "t_enabled ?t" "t_kind ?t \<noteq> KWeb" "t_id ?t = 1"
    by (simp_all add: stored_status_def sample_tunnel_def new_tunnel_def sample_request_def)
  have "stop_listener 1 (signed_in sample_busy) = signed_in sample_busy"
    by (simp add: stop_listener_def sample_busy_def)
  then obtain s1 where "admin_delete_tunnel sample_lib sample_call (t_id ?t) (stop_listener (t_id ?t) (signed_in sample_busy)) = (Inr (), s1)"
    using sample_delete unfolding t(3) by auto
  from pause_orphans_listener [OF t(1,2) this, of 3] show ?thesis unfolding t(3) by blast
qed

section \<open>Devices\<close>

definition device_ids_ok :: "lib \<Rightarrow> app_state \<Rightarrow> bool" where
  "device_ids_ok L s \<longleftrightarrow> list_all (\<lambda>r. \<exists>j. dr_id r = l_uuid_text L j) (db_devices (s_db s))"

lemma revoke_effect:
  assumes "revoke_device L c i s = (Inr u, s')"
  obtains fs a n where "s' = (disconnect_agent i s)\<lparr>s_db := (s_db s)\<lparr>db_faults := fs, db_audit := a, db_audit_next := n,
      db_devices := map (\<lambda>r. if dr_id r = l_uuid_text L i then r\<lparr>dr_revoked := True\<rparr> else r) (db_devices (s_db s))\<rparr>\<rparr>"
proof -
  obtain user csrf k s1 where s: "require_admin L (cl_now c) (cl_headers c) DELETE s = (Inr (user, csrf), s)"
      "db_do (update_device (l_uuid_text L i) (\<lambda>r. r\<lparr>dr_revoked := True\<rparr>)) s = (Inr k, s1)"
      "audit L c ''device.revoke'' (l_uuid_text L i) (lit ''revoked by '' @ user) (disconnect_agent i s1) = (Inr u, s')"
    using assms unfolding revoke_device_def by (auto simp: seq_eq_Inr act_simps require_admin_Inr)
  obtain fs where 1: "s1 = s\<lparr>s_db := (s_db s)\<lparr>db_faults := fs,
      db_devices := map (\<lambda>r. if dr_id r = l_uuid_text L i then r\<lparr>dr_revoked := True\<rparr> else r) (db_devices (s_db s))\<rparr>\<rparr>"
    using s(2) by (auto simp: db_do_eq_Inr update_device_def elim!: stmt_cases)
  obtain fs2 a n where "s' = (disconnect_agent i s1)\<lparr>s_db := (s_db s1)\<lparr>db_faults := fs2, db_audit := a, db_audit_next := n\<rparr>\<rparr>"
    using s(3) by (auto simp: audit_def db_do_eq_Inr insert_audit_def elim!: stmt_cases)
  then show thesis
    unfolding 1 by (intro that [of n a fs2]) (simp add: disconnect_agent_def split: option.splits)
qed


lemma sample_revoke:
  "\<exists>s'. revoke_device sample_lib sample_call 7 (signed_in sample_state) = (Inr (), s')"
  using sample_admin [of sample_state DELETE]
  by (simp add: revoke_device_def seq_def act_simps db_do_def on_db_def map_err_def update_device_def audit_def
      insert_audit_def sample_database_def sample_device_def sample_lib_def)




lemma sample_uuid: "l_uuid_text sample_lib i = [unat i]"
  by (simp add: sample_lib_def)

definition sample_revoked :: app_state where
  "sample_revoked =
     signed_in (sample_busy\<lparr>s_listeners := [1 \<mapsto> 3], s_db := (s_db sample_busy)\<lparr>db_devices := [sample_device\<lparr>dr_revoked := True\<rparr>]\<rparr>\<rparr>)"

lemma sample_delete_device:
  "\<exists>s'. delete_device_permanently sample_lib sample_call 7 sample_revoked = (Inr (), s')"
proof -
  let ?base = "sample_busy\<lparr>s_listeners := [1 \<mapsto> 3], s_db := (s_db sample_busy)\<lparr>db_devices := [sample_device\<lparr>dr_revoked := True\<rparr>]\<rparr>\<rparr>"
  have adm: "require_admin sample_lib 5 sample_headers DELETE sample_revoked = (Inr (lit ''admin'', lit ''csrf''), sample_revoked)"
    unfolding sample_revoked_def by (rule sample_admin) (simp add: sample_busy_def)
  have db: "db_faults (s_db sample_revoked) = []" "db_devices (s_db sample_revoked) = [sample_device\<lparr>dr_revoked := True\<rparr>]"
    "db_tunnels (s_db sample_revoked) = [tunnel_to_row sample_lib sample_tunnel]"
    by (simp_all add: sample_revoked_def sample_busy_db)
  have "device_tunnel_ids sample_lib [7] sample_revoked = (Inr [1], sample_revoked)"
    by (simp add: device_tunnel_ids_def seq_def act_simps db_do_def on_db_def map_err_def select_def db
        sample_device_def tunnel_to_row_def sample_tunnel_def sample_lib_def)
  moreover obtain d where "delete_device_rows [7] (s_db sample_revoked) = (Inr (), d)" "db_faults d = []"
    by (simp add: delete_device_rows_def transaction_def plain_def seq_def act_simps map_err_def select_def
        delete_tunnel_rows_def delete_device_def db sample_device_def)
  ultimately show ?thesis
    by (simp add: delete_device_permanently_def purge_device_def on_database_def seq_def act_simps adm
        sample_uuid audit_def db_do_def on_db_def map_err_def insert_audit_def)
qed



section \<open>Login and password\<close>

text \<open>What Argon2 promises: a password verifies against its own hash.\<close>

definition password_law :: "lib \<Rightarrow> bool" where
  "password_law L \<longleftrightarrow> (\<forall>salt p h. l_hash_password L salt p = Some h \<longrightarrow> l_verify_password L h p)"

lemma admin_by_name_eq:
  "admin_by_name user s = (Inr row, s1) \<Longrightarrow>
     row = find (\<lambda>r. am_username r = user) (db_admins (s_db s)) \<and> untouched s s1"
  unfolding admin_by_name_def by (auto simp: db_do_eq_Inr untouched_def dest!: select_eq_Inr)

lemma reads_admin_by_name [reads_intros]: "reads (admin_by_name user)"
  unfolding admin_by_name_def by (rule reads_select)

text \<open>
  C33. Changing the password: success means the request was authorised, the current password was right and the
  new one has at least twelve bytes; from then on the new password verifies, and no session is left, so
  no cookie issued before is accepted for any request at any time.
\<close>

theorem password_change:
  assumes "password_law L" and "change_password L c salt q s = (Inr cookie, s')"
  shows "12 \<le> byte_len (cp_new q) \<and> authorised L c PATCH s \<and>
     (\<exists>row. list_ex ((=) row) (db_admins (s_db s)) \<and> verify_password L (am_password_hash row) (cp_current q) \<and>
        list_ex (\<lambda>r. am_username r = am_username row \<and> verify_password L (am_password_hash r) (cp_new q)) (db_admins (s_db s'))) \<and>
     (\<forall>now h m. fst (require_admin L now h m s') = Inl Unauthorized)"
proof -
  obtain user csrf row s1 s2 h s3 where s: "require_admin L (cl_now c) (cl_headers c) PATCH s = (Inr (user, csrf), s)"
      "\<not> byte_len (cp_new q) < 12" "admin_by_name user s = (Inr (Some row), s1)"
      "verify_password L (am_password_hash row) (cp_current q)" "hash_password L salt (cp_new q) = Inr h"
      "db_do (set_password_hash user h) s1 = (Inr (), s2)"
      "audit L c ''auth.password_change'' user (lit ''administrator password changed'') s2 = (Inr (), s3)"
      "s' = s3\<lparr>s_sessions := Map.empty\<rparr>"
    using assms(2) unfolding change_password_def set_cookie_def
    by (auto simp: seq_eq_Inr act_simps require_admin_Inr)
  have row: "row \<in> set (db_admins (s_db s))" "am_username row = user" and un: "untouched s s1"
    using admin_by_name_eq [OF s(3)] by (auto simp: find_Some_iff2)
  have a2: "db_admins (s_db s2) = map (\<lambda>r. if am_username r = user then r\<lparr>am_password_hash := h\<rparr> else r) (db_admins (s_db s))"
    using s(6) untouched_sel(5) [OF un] by (auto simp: db_do_eq_Inr set_password_hash_def elim!: stmt_cases)
  have "db_admins (s_db s') = db_admins (s_db s2)" using core_audit_eq [OF s(7)] s(8) by (simp add: core_eq)
  moreover have "verify_password L h (cp_new q)"
    using s(5) assms(1) by (simp add: hash_password_def verify_password_def password_law_def)
  ultimately have "list_ex (\<lambda>r. am_username r = am_username row \<and> verify_password L (am_password_hash r) (cp_new q)) (db_admins (s_db s'))"
  proof -
    assume *: "db_admins (s_db s') = db_admins (s_db s2)" "verify_password L h (cp_new q)"
    have "row\<lparr>am_password_hash := h\<rparr> \<in> set (db_admins (s_db s'))"
      unfolding *(1) a2 set_map by (rule image_eqI [of _ _ row]) (use row in auto)
    then show ?thesis unfolding list_ex_iff by (rule rev_bexI) (simp add: *(2))
  qed
  moreover have "authorised L c PATCH s"
    using s(1) by (auto simp: require_admin_Inr authorised_def request_ok_def safe_method_def)
  moreover have "fst (require_admin L now h m s') = Inl Unauthorized" for now h m
    using s(8) by (simp add: require_admin_cases split: option.splits)
  ultimately show ?thesis using s(2,4) row(1) by (auto simp: list_ex_iff)
qed

definition sample_password :: change_password_request where
  "sample_password = \<lparr>cp_current = lit ''secret'', cp_new = lit ''correct horse''\<rparr>"

lemma sample_password_ok:
  "byte_len (cp_new sample_password) = 13"
  "verify_password sample_lib (lit ''secret'') (cp_current sample_password)"
  "hash_password sample_lib salt (cp_new sample_password) = Inr (lit ''correct horse'')"
  by (simp_all add: sample_password_def verify_password_def hash_password_def sample_lib_def lit_def as_bytes_def byte_len_def utf8.simps)

lemma sample_password_law: "password_law sample_lib"
  by (simp add: password_law_def sample_lib_def)

lemma sample_state_faults [simp]: "db_faults sample_database = []"
  by (simp add: sample_database_def)

lemma clear_cookie_valid: "header_value (clear_session_cookie cfg) = Inr (clear_session_cookie cfg)"
  by (simp add: header_value_def clear_session_cookie_def secure_suffix_def lit_def)

theorem password_change_witness:
  "\<exists>cookie s'. change_password sample_lib sample_call [] sample_password (signed_in sample_state) = (Inr cookie, s') \<and>
     fst (require_admin sample_lib 5 sample_headers GET s') = Inl Unauthorized"
proof -
  have "admin_by_name (lit ''admin'') (signed_in sample_state) =
      (Inr (Some \<lparr>am_username = lit ''admin'', am_password_hash = lit ''secret'', am_created_at = []\<rparr>), signed_in sample_state)"
    by (simp add: admin_by_name_def db_do_def on_db_def map_err_def select_def sample_database_def signed_in_def
        create_session_def sample_state_def app_state_new_def)
  then have "\<exists>cookie s'. change_password sample_lib sample_call [] sample_password (signed_in sample_state) = (Inr cookie, s')"
    using sample_admin [of sample_state PATCH] sample_password_ok sample_state_faults
    by (simp add: change_password_def seq_def act_simps db_do_def on_db_def map_err_def set_password_hash_def
        audit_def insert_audit_def set_cookie_def clear_cookie_valid)
  then show ?thesis using password_change [OF sample_password_law] by blast
qed

text \<open>
  The one error that changes the password: when the audit entry cannot be written after the new hash was,
  the answer is an internal error, the new password is in force, and every old session is still
  accepted.
\<close>

theorem password_change_audit_fault:
  assumes "require_admin L (cl_now c) (cl_headers c) PATCH s = (Inr (user, csrf), s)" and "12 \<le> byte_len (cp_new q)"
    and "find (\<lambda>r. am_username r = user) (db_admins (s_db s)) = Some row"
    and "verify_password L (am_password_hash row) (cp_current q)" "hash_password L salt (cp_new q) = Inr h"
    and "db_faults (s_db s) = [False, False, True]"
  shows "change_password L c salt q s =
     (Inl (Internal ''database''), s\<lparr>s_db := (s_db s)\<lparr>db_faults := [],
        db_admins := map (\<lambda>r. if am_username r = user then r\<lparr>am_password_hash := h\<rparr> else r) (db_admins (s_db s))\<rparr>\<rparr>)"
  using assms
  by (simp add: change_password_def seq_def act_simps admin_by_name_def db_do_def on_db_def map_err_def select_def
      stmt_def set_password_hash_def audit_def insert_audit_def sqlx_error_def not_less)

definition faulty :: "bool list \<Rightarrow> app_state \<Rightarrow> app_state" where
  "faulty fs s = s\<lparr>s_db := (s_db s)\<lparr>db_faults := fs\<rparr>\<rparr>"

theorem password_change_audit_fault_witness:
  "\<exists>s'. change_password sample_lib sample_call [] sample_password (signed_in (faulty [False, False, True] sample_state)) =
       (Inl (Internal ''database''), s') \<and>
     map am_password_hash (db_admins (s_db s')) = [lit ''correct horse''] \<and> s_sessions s' (lit ''abc'') \<noteq> None"
proof -
  let ?s = "signed_in (faulty [False, False, True] sample_state)"
  have adm: "require_admin sample_lib (cl_now sample_call) (cl_headers sample_call) PATCH ?s = (Inr (lit ''admin'', lit ''csrf''), ?s)"
    using sample_admin [of "faulty [False, False, True] sample_state" PATCH] by (simp add: faulty_def)
  have row: "find (\<lambda>r. am_username r = lit ''admin'') (db_admins (s_db ?s)) =
      Some \<lparr>am_username = lit ''admin'', am_password_hash = lit ''secret'', am_created_at = []\<rparr>"
    by (simp add: faulty_def sample_database_def)
  have "verify_password sample_lib (am_password_hash \<lparr>am_username = lit ''admin'', am_password_hash = lit ''secret'', am_created_at = []\<rparr>)
      (cp_current sample_password)"
    using sample_password_ok(2) by simp
  from password_change_audit_fault [OF adm _ row this sample_password_ok(3)] show ?thesis
    by (simp add: sample_password_ok(1) faulty_def sample_database_def)
qed


lemma sign_in_outcome:
  assumes "sign_in L c key sid csrf user s = (r, s')"
  shows "core s' = core (create_session (cl_now c) sid csrf user (s\<lparr>s_login_attempts := (s_login_attempts s)(key := None)\<rparr>))"
    and "(\<exists>e. r = Inl e) \<or> r = Inr (SignedIn \<lparr>lp_username = user, lp_csrf_token = csrf\<rparr> (session_cookie (s_config s) sid))"
proof -
  let ?s3 = "create_session (cl_now c) sid csrf user (s\<lparr>s_login_attempts := (s_login_attempts s)(key := None)\<rparr>)"
  have "seq (audit L c ''auth.login'' user (lit ''administrator signed in'')) (\<lambda>_.
      seq (peek s_config) (\<lambda>cfg. seq (set_cookie (session_cookie cfg sid)) (\<lambda>cookie.
      ok (SignedIn \<lparr>lp_username = user, lp_csrf_token = csrf\<rparr> cookie)))) ?s3 = (r, s')"
    using assms by (simp add: sign_in_def seq_def act_simps)
  then have *: "core s' = core ?s3 \<and> ((\<exists>e. r = Inl e) \<or>
      r = Inr (SignedIn \<lparr>lp_username = user, lp_csrf_token = csrf\<rparr> (session_cookie (s_config s') sid)))"
    using core_audit_eq
    by (auto simp: act_simps set_cookie_def header_value_def elim!: seq_cases split: if_splits)
  then show "core s' = core ?s3" by blast
  then have "s_config s' = s_config s" by (simp add: core_eq create_session_def)
  with * show "(\<exists>e. r = Inl e) \<or> r = Inr (SignedIn \<lparr>lp_username = user, lp_csrf_token = csrf\<rparr> (session_cookie (s_config s) sid))"
    by simp
qed

text \<open>An attempt that the limiter let through: refused with the sessions as they are, or signed in with a valid password.\<close>

lemma login_attempted:
  assumes "login L c sid csrf peer q s = (r, s')" and "login_allowed (cl_now c) (rate_key (cl_headers c) peer) s = (True, s1)"
  shows "core s' = core s1 \<and> (\<exists>e. r = Inl e) \<or>
     (\<exists>x s2. x \<in> set (db_admins (s_db s1)) \<and> am_username x = lr_username q \<and>
        verify_password L (am_password_hash x) (lr_password q) \<and> core s2 = core s1 \<and>
        sign_in L c (rate_key (cl_headers c) peer) sid csrf (lr_username q) s2 = (r, s'))"
proof -
  let ?key = "rate_key (cl_headers c) peer" let ?user = "lr_username q"
  from assms have "seq (admin_by_name ?user) (\<lambda>row. if \<not> valid_login L q row
      then seq (audit L c ''auth.login_failed'' ?user (lit ''invalid credentials'')) (\<lambda>_. fail Unauthorized)
      else sign_in L c ?key sid csrf ?user) s1 = (r, s')"
    by (simp add: login_def seq_def Let_def)
  then show ?thesis
  proof (cases rule: seq_cases)
    case (failed e)
    then show ?thesis using core_reads [OF reads_admin_by_name] by blast
  next
    case (continued row s2)
    have c2: "core s2 = core s1" using reads_admin_by_name continued(1) by (rule core_reads)
    show ?thesis
    proof (cases "valid_login L q row")
      case False
      then have "core s' = core s2 \<and> (\<exists>e. r = Inl e)"
        using continued(2) core_audit_eq by (auto simp: act_simps elim!: seq_cases)
      then show ?thesis using c2 by simp
    next
      case True
      then obtain x where x: "row = Some x" "verify_password L (am_password_hash x) (lr_password q)"
        by (cases row) (auto simp: valid_login_def)
      have "Some x = find (\<lambda>r. am_username r = ?user) (db_admins (s_db s1))"
        using admin_by_name_eq [OF continued(1)] x(1) by simp
      then have "x \<in> set (db_admins (s_db s1))" "am_username x = ?user" by (auto simp: find_Some_iff2)
      then show ?thesis using continued(2) True x(2) c2 by auto
    qed
  qed
qed

text \<open>
  C32. Login: a session is created only for an attempt the limiter lets through, with the name of an existing
  administrator and a password that verifies against the stored hash; a successful login answers with
  that session's cookie and CSRF token and forgets the attempts; one that is rate-limited never reaches
  the database.
\<close>

theorem login_outcome:
  assumes "login L c sid csrf peer q s = (r, s')"
  shows "(s_sessions s' = s_sessions s \<or>
       fst (login_allowed (cl_now c) (rate_key (cl_headers c) peer) s) \<and>
       list_ex (\<lambda>row. am_username row = lr_username q \<and> verify_password L (am_password_hash row) (lr_password q)) (db_admins (s_db s)) \<and>
       s_sessions s' = (s_sessions s)(sid \<mapsto> \<lparr>as_username = lr_username q, as_csrf_token = csrf,
          as_expires_at = session_expiry (cl_now c) (c_session_ttl (s_config s))\<rparr>)) \<and>
     (\<forall>resp cookie. r = Inr (SignedIn resp cookie) \<longrightarrow>
        s_sessions s' sid \<noteq> None \<and> resp = \<lparr>lp_username = lr_username q, lp_csrf_token = csrf\<rparr> \<and>
        cookie = session_cookie (s_config s) sid \<and> s_login_attempts s' (rate_key (cl_headers c) peer) = None) \<and>
     (r = Inr RateLimited \<longleftrightarrow> \<not> fst (login_allowed (cl_now c) (rate_key (cl_headers c) peer) s)) \<and>
     (r = Inr RateLimited \<longrightarrow> s_db s' = s_db s)"
proof -
  let ?key = "rate_key (cl_headers c) peer"
  obtain b s1 where la: "login_allowed (cl_now c) ?key s = (b, s1)" by (cases "login_allowed (cl_now c) ?key s")
  have s1: "s_sessions s1 = s_sessions s" "s_db s1 = s_db s" "s_config s1 = s_config s"
    using la by (auto simp: login_allowed_def split: prod.splits)
  show ?thesis
  proof (cases b)
    case False
    then show ?thesis using assms la s1 by (auto simp: login_def seq_def act_simps Let_def)
  next
    case True
    then have "login_allowed (cl_now c) ?key s = (True, s1)" using la by simp
    from login_attempted [OF assms this] consider (refused) "core s' = core s1" "\<exists>e. r = Inl e"
      | (entered) x s2 where "x \<in> set (db_admins (s_db s1))" "am_username x = lr_username q"
          "verify_password L (am_password_hash x) (lr_password q)" "core s2 = core s1"
          "sign_in L c ?key sid csrf (lr_username q) s2 = (r, s')"
      by blast
    then show ?thesis
    proof cases
      case refused
      then show ?thesis using la True s1 by (auto simp: core_eq)
    next
      case entered
      then show ?thesis
        using sign_in_outcome [OF entered(5)] la True s1 by (auto simp: core_eq create_session_def list_ex_iff)
    qed
  qed
qed

theorem login_outcome_witness:
  "\<exists>s'. login sample_lib sample_call (lit ''s1'') (lit ''c1'') (V4 1)
       \<lparr>lr_username = lit ''admin'', lr_password = lit ''wrong''\<rparr> sample_state = (Inl Unauthorized, s') \<and>
     s_sessions s' = Map.empty"
proof -
  let ?q = "\<lparr>lr_username = lit ''admin'', lr_password = lit ''wrong''\<rparr>"
  have no: "\<not> verify_password sample_lib (lit ''secret'') (lit ''wrong'')"
    by (simp add: verify_password_def sample_lib_def lit_def as_bytes_def utf8.simps)
  then have "\<exists>s'. login sample_lib sample_call (lit ''s1'') (lit ''c1'') (V4 1) ?q sample_state = (Inl Unauthorized, s')"
    by (simp add: login_def seq_def login_allowed_def window_step_def admin_by_name_def db_do_def on_db_def
        map_err_def select_def audit_def insert_audit_def act_simps sample_database_def Let_def valid_login_def)
  then obtain s' where l: "login sample_lib sample_call (lit ''s1'') (lit ''c1'') (V4 1) ?q sample_state = (Inl Unauthorized, s')"
    by blast
  from login_outcome [OF l] no have "s_sessions s' = Map.empty"
    by (auto simp: sample_database_def)
  with l show ?thesis by blast
qed


section \<open>The reverse proxy\<close>

lemma get_by_hostname_Inr:
  assumes "get_by_hostname L host s = (Inr t, s')"
  shows "\<exists>r \<in> set (db_tunnels (s_db s)). serves_hostname host r \<and> row_to_tunnel L r = Inr t" and "untouched s s'"
proof -
  show un: "untouched s s'" using reads_queries(2) assms by (rule readsD)
  obtain r s1 where r: "db_do (select (\<lambda>d. find (serves_hostname host) (db_tunnels d))) s = (Inr (Some r), s1)"
      "row_to_tunnel L r = Inr t"
    using assms unfolding get_by_hostname_def by (auto simp: seq_eq_Inr act_simps andThen_eq_Inr)
  have "Some r = find (serves_hostname host) (db_tunnels (s_db s1))" "untouched s s1"
    using r(1) readsD [OF reads_select r(1)] by (auto simp: db_do_eq_Inr dest!: select_eq_Inr)
  then have "Some r = find (serves_hostname host) (db_tunnels (s_db s))" by (simp add: untouched_sel)
  then show "\<exists>r \<in> set (db_tunnels (s_db s)). serves_hostname host r \<and> row_to_tunnel L r = Inr t"
    using r(2) by (auto simp: find_Some_iff2)
qed

lemma attempt_eq: "(case p of (r, s') \<Rightarrow> (Inr r, s')) = (Inr x, s2) \<longleftrightarrow> p = (x, s2)"
  by (cases p) simp

lemma opened_stream_admitted:
  assumes "open_virtual_stream L io t peer s = (Inr p, s')"
  shows "source_allowed L t (sock_ip peer) \<and> s_agents s (t_agent_id t) = Some p"
  using assms unfolding open_virtual_stream_def admit_stream_def
  by (auto simp: seq_eq_Inr act_simps split: if_splits)

text \<open>
  The internal endpoints. Anyone but a trusted proxy (its address compared without the IPv4-mapped form) is
  answered 403 without any effect. A request is proxied only to the enabled web tunnel of the forwarded
  host name, from a source that tunnel admits, over its connected agent, and without the three
  internal headers; and the certificate check says yes exactly for the host name of one enabled web tunnel.
\<close>

theorem web_proxy_guarded:
  fixes exchange :: "uuid \<Rightarrow> 'uri \<Rightarrow> headers \<Rightarrow> 'r option"
  shows "(\<not> trusted_proxy L (s_config s) proxy \<longrightarrow>
       web_proxy L parse_uri exchange io proxy uri h s = (Inl Forbidden, s) \<and>
       tls_ask L proxy domain s = (Inl Forbidden, s)) \<and>
     (\<forall>x s'. web_proxy L parse_uri exchange io proxy uri h s = (Inr (Proxied x), s') \<longrightarrow>
        trusted_proxy L (s_config s) proxy \<and> (\<exists>host src r t p. forwarded_host h = Inr host \<and> forwarded_source h = Inr src \<and>
          r \<in> set (db_tunnels (s_db s)) \<and> serves_hostname host r \<and> row_to_tunnel L r = Inr t \<and>
          source_allowed L t src \<and> s_agents s (t_agent_id t) = Some p \<and>
          exchange (of_id (ci_offer io)) (proxied_uri parse_uri h uri) (proxied_headers h) = Some x)) \<and>
     (\<forall>u s'. tls_ask L proxy domain s = (Inr u, s') \<longrightarrow>
        trusted_proxy L (s_config s) proxy \<and> length (filter (serves_hostname domain) (db_tunnels (s_db s))) = 1)"
proof (intro conjI impI allI)
  assume "\<not> trusted_proxy L (s_config s) proxy"
  then show "web_proxy L parse_uri exchange io proxy uri h s = (Inl Forbidden, s)"
    and "tls_ask L proxy domain s = (Inl Forbidden, s)"
    by (simp_all add: web_proxy_def tls_ask_def require_trusted_proxy_def seq_def act_simps)
next
  fix x s' assume "web_proxy L parse_uri exchange io proxy uri h s = (Inr (Proxied x), s')"
  then obtain host src t s1 opened s2 where w: "trusted_proxy L (s_config s) proxy" "forwarded_host h = Inr host"
      "forwarded_source h = Inr src" "get_by_hostname L host s = (Inr t, s1)"
      "open_virtual_stream L io t (sock_new src 0) s1 = (opened, s2)"
    and rest: "(case opened of Inl _ \<Rightarrow> ok BadGateway | Inr _ \<Rightarrow>
         seq (lift (ok_or (exchange (of_id (ci_offer io)) (proxied_uri parse_uri h uri) (proxied_headers h))
                (Internal ''http''))) (\<lambda>response.
         seq (modify (count add_http)) (\<lambda>_.
         ok (Proxied response)))) s2 = (Inr (Proxied x), s')"
    unfolding web_proxy_def require_trusted_proxy_def
    by (auto simp: seq_eq_Inr act_simps attempt_eq)
  from rest obtain p where p: "opened = Inr p"
      "exchange (of_id (ci_offer io)) (proxied_uri parse_uri h uri) (proxied_headers h) = Some x"
    by (cases opened) (auto simp: seq_eq_Inr act_simps)
  note t = get_by_hostname_Inr [OF w(4)] and o = opened_stream_admitted [OF w(5) [unfolded p(1)]]
  show "trusted_proxy L (s_config s) proxy" by (rule w(1))
  have "s_agents s1 = s_agents s" using t(2) by (auto simp: untouched_def)
  moreover have "sock_ip (sock_new src 0) = src" by (cases src) (simp_all add: sock_new_def sock_ip_def)
  ultimately show "\<exists>host src r t p. forwarded_host h = Inr host \<and> forwarded_source h = Inr src \<and>
          r \<in> set (db_tunnels (s_db s)) \<and> serves_hostname host r \<and> row_to_tunnel L r = Inr t \<and>
          source_allowed L t src \<and> s_agents s (t_agent_id t) = Some p \<and>
          exchange (of_id (ci_offer io)) (proxied_uri parse_uri h uri) (proxied_headers h) = Some x"
    using w(2,3) p(2) t(1) o by auto
next
  fix u s' assume a: "tls_ask L proxy domain s = (Inr u, s')"
  then show "trusted_proxy L (s_config s) proxy" by (simp add: tls_ask_def require_trusted_proxy_def seq_eq_Inr act_simps)
  obtain n s1 where n: "db_do (select (\<lambda>d. length (filter (serves_hostname domain) (db_tunnels d)))) s = (Inr n, s1)" "n = 1"
    using a unfolding tls_ask_def require_trusted_proxy_def hostname_is_enabled_def
    by (auto simp: seq_eq_Inr act_simps)
  then show "length (filter (serves_hostname domain) (db_tunnels (s_db s))) = 1"
    using readsD [OF reads_select n(1)] by (auto simp: db_do_eq_Inr untouched_sel dest!: select_eq_Inr)
qed

theorem web_proxy_guarded_witness:
  "web_proxy sample_lib Some (\<lambda>i u h. Some ()) sample_input (V4 1) [] [] sample_state = (Inl Forbidden, sample_state) \<and>
   (\<forall>u s'. tls_ask sample_lib (V4 1) (lit ''a.example'') sample_state \<noteq> (Inr u, s'))"
proof -
  have "\<not> trusted_proxy sample_lib (s_config sample_state) (V4 1)"
    by (simp add: trusted_proxy_def sample_config_def)
  then show ?thesis
    using web_proxy_guarded [of sample_lib sample_state "V4 1" Some "\<lambda>i u h. Some ()" sample_input "[]" "[]" "lit ''a.example''"]
    by auto
qed

section \<open>Cleanup\<close>



section \<open>The audit log\<close>

text \<open>
  The audit log as the interface shows it: at most as many entries as asked for, between 1 and 500 and 100
  by default, the newest first, and none newer is left out.
\<close>

theorem audit_listing:
  assumes "list_audit L c limit s = (Inr es, s')" and "sorted (map au_id (db_audit (s_db s)))"
  shows "map ae_id es = take (audit_limit limit) (rev (map au_id (db_audit (s_db s)))) \<and>
     length es \<le> 500 \<and> 1 \<le> audit_limit limit"
proof -
  obtain rows s1 s2 where s: "db_do (select (\<lambda>d. take (audit_limit limit) (rev (sort_key au_id (db_audit d))))) s = (Inr rows, s1)"
      "collect (map (audit_entry_of L) rows) = Inr es"
    using assms(1) unfolding list_audit_def by (auto simp: seq_eq_Inr act_simps require_admin_Inr)
  have "rows = take (audit_limit limit) (rev (sort_key au_id (db_audit (s_db s1))))" "db_audit (s_db s1) = db_audit (s_db s)"
    using s(1) readsD [OF reads_select s(1)] by (auto simp: db_do_eq_Inr untouched_def dest!: select_eq_Inr)
  then have rows: "rows = take (audit_limit limit) (rev (db_audit (s_db s)))"
    using assms(2) by (simp add: sorted_sort_id sort_key_id_if_sorted)
  have "map ae_id es = map au_id rows"
    using s(2) unfolding collect_eq_Inr
    by (induction rows arbitrary: es) (auto simp: audit_entry_of_def andThen_eq_Inr Cons_eq_map_conv)
  moreover have "length es = length rows" using calculation by (metis length_map)
  moreover have "audit_limit limit \<le> 500" by (simp add: audit_limit_def)
  ultimately show ?thesis using rows by (simp add: take_map rev_map audit_limit_def)
qed

lemma sample_time_parse: "l_time_parse sample_lib = time_decode"
  by (simp add: sample_lib_def)

definition sample_entry :: "nat \<Rightarrow> audit_row" where
  "sample_entry n = \<lparr>au_id = n, au_action = [], au_subject = [], au_detail = [], au_created_at = [0, n]\<rparr>"

definition sample_logged :: app_state where
  "sample_logged = signed_in (sample_state\<lparr>s_db := sample_database\<lparr>db_audit := [sample_entry 1, sample_entry 2]\<rparr>\<rparr>)"

theorem audit_listing_witness:
  "\<exists>es s'. list_audit sample_lib sample_call (Some 1) sample_logged = (Inr es, s') \<and> map ae_id es = [2]"
proof -
  have adm: "require_admin sample_lib 5 sample_headers GET sample_logged = (Inr (lit ''admin'', lit ''csrf''), sample_logged)"
    unfolding sample_logged_def by (rule sample_admin) simp
  have db: "db_audit (s_db sample_logged) = [sample_entry 1, sample_entry 2]" "db_faults (s_db sample_logged) = []"
    by (simp_all add: sample_logged_def)
  have n: "audit_limit (Some 1) = 1" by (simp add: audit_limit_def unwrap_or_def)
  have "\<exists>es s'. list_audit sample_lib sample_call (Some 1) sample_logged = (Inr es, s')"
    by (simp add: list_audit_def seq_def act_simps adm db_do_def on_db_def map_err_def select_def db n
        sample_entry_def audit_entry_of_def parse_time_def sample_time_parse)
  then obtain es s' where l: "list_audit sample_lib sample_call (Some 1) sample_logged = (Inr es, s')" by blast
  have "sorted (map au_id (db_audit (s_db sample_logged)))" by (simp add: db sample_entry_def)
  from audit_listing [OF l this] have "map ae_id es = [2]" by (simp add: db n sample_entry_def)
  with l show ?thesis by (intro exI [of _ es] exI [of _ s'] conjI)
qed

end
