(* ===== verification/Udp.thy ===== *)
theory Udp
  imports Tunnel_Facts Gateway_Facts "HOL-Library.AList"
begin

text \<open>
  UDP tunnels (server/src/udp.rs): the listener's table of sessions by peer address, the opening of a
  session, the forwarding of datagrams in both directions and the clean-up of idle sessions. The table
  is an association list; a received datagram is the result of \<open>recv_from\<close> on a buffer of
  \<open>MAX_UDP_DATAGRAM\<close> bytes.
\<close>

section \<open>Opening a session\<close>

record udp_session =
  us_id :: uuid
  us_last_seen :: instant

text \<open>
  The inputs of \<open>open_session\<close>: the offer, the two country lookups with what other tasks do during
  each, what they do while it waits for the acknowledgement, and the time the session is opened.
\<close>

record udp_input =
  ui_offer :: offer
  ui_geo :: "instant \<times> instant \<times> http_outcome"
  ui_during_geo :: "app_state \<Rightarrow> app_state"
  ui_during_ack :: "app_state \<Rightarrow> app_state"
  ui_geo_active :: "instant \<times> instant \<times> http_outcome"
  ui_during_active :: "app_state \<Rightarrow> app_state"
  ui_opened :: utc

definition add_udp :: "counters \<Rightarrow> counters" where
  "add_udp k = k\<lparr>k_active_udp := k_active_udp k + 1\<rparr>"

definition sub_udp :: "counters \<Rightarrow> counters" where
  "sub_udp k = k\<lparr>k_active_udp := k_active_udp k - 1\<rparr>"

definition open_session :: "lib \<Rightarrow> udp_input \<Rightarrow> tunnel \<Rightarrow> socket_addr \<Rightarrow> (app_state, conn_error, uuid) act" where
  "open_session L io t peer =
     seq (peek (\<lambda>s. s_agents s (t_agent_id t))) (\<lambda>found.
     seq (lift (ok_or found OfflineAgent)) (\<lambda>agent.
     seq (modify (register_offer L (ui_offer io) (t_agent_id t))) (\<lambda>_.
     seq (geo_lookup (ui_geo io) (sock_ip peer)) (\<lambda>loc.
     seq (modify (ui_during_geo io)) (\<lambda>_.
     seq (peek s_config) (\<lambda>c.
     seq (send_offer (of_id (ui_offer io)) agent
            (OpenUdpSession (of_id (ui_offer io)) t (sock_text peer) loc (of_ticket (ui_offer io))
              (ticket_deadline c (of_utc (ui_offer io))))) (\<lambda>_.
     seq (modify (ui_during_ack io)) (\<lambda>_.
     seq (settle_stream (of_id (ui_offer io))) (\<lambda>_.
     seq (modify (count add_udp)) (\<lambda>_.
     seq (geo_lookup (ui_geo_active io) (sock_ip peer)) (\<lambda>loc2.
     seq (modify (ui_during_active io)) (\<lambda>_.
     seq (modify (activate (active_entry (of_id (ui_offer io)) t peer loc2 (ui_opened io) agent))) (\<lambda>_.
     ok (of_id (ui_offer io)))))))))))))))"

section \<open>The listener loop\<close>

type_synonym session_table = "(socket_addr \<times> udp_session) list"

definition expire :: "duration \<Rightarrow> instant \<Rightarrow> udp_session \<Rightarrow> bool" where
  "expire timeout now u \<longleftrightarrow> \<not> now - us_last_seen u < timeout"

definition drop_session :: "udp_session \<Rightarrow> app_state \<Rightarrow> app_state" where
  "drop_session u s =
     s\<lparr>s_streams := s_streams s - {us_id u}, s_active := (s_active s)(us_id u := None)\<rparr>"

definition expire_session :: "udp_session \<Rightarrow> app_state \<Rightarrow> app_state" where
  "expire_session u s = count sub_udp (drop_session u s)"

definition cleanup_tick :: "instant \<Rightarrow> session_table \<times> app_state \<Rightarrow> session_table \<times> app_state" where
  "cleanup_tick now ts =
     (case ts of (table, s) \<Rightarrow>
        let old = expire (c_udp_session_timeout (s_config s)) now in
        (filter (\<lambda>(a, u). \<not> old u) table,
         fold expire_session (map snd (filter (\<lambda>(a, u). old u) table)) s))"

text \<open>
  The end of a datagram's handling: to the carrier of the agent that is connected now. \<open>None\<close> while the
  carrier's channel is full; a channel that is closed ends the session's entry in the table.
\<close>

definition send_datagram ::
  "lib \<Rightarrow> uuid \<Rightarrow> socket_addr \<Rightarrow> bytes \<Rightarrow> uuid \<Rightarrow> session_table \<times> app_state \<Rightarrow> (session_table \<times> app_state) option" where
  "send_datagram L sid peer payload i ts =
     (case ts of (table, s) \<Rightarrow>
      case send_bounded BIN_CAPACITY sid (encode_carrier_frame (l_uuid_bytes L) CARRIER_FRAME_DATAGRAM i payload) (s_bin s) of
        (SendClosed, m) \<Rightarrow> Some (AList.delete peer table, s)
      | (SendWaits, m) \<Rightarrow> None
      | (Sent, m) \<Rightarrow> Some (table, count (add_down (of_nat (length payload))) (s\<lparr>s_bin := m\<rparr>)))"

definition forward_datagram ::
  "lib \<Rightarrow> tunnel \<Rightarrow> socket_addr \<Rightarrow> bytes \<Rightarrow> uuid \<Rightarrow> session_table \<times> app_state \<Rightarrow> (session_table \<times> app_state) option" where
  "forward_datagram L t peer payload i ts =
     (case s_agents (snd ts) (t_agent_id t) of
        None \<Rightarrow> Some ts
      | Some agent \<Rightarrow> send_datagram L (ap_session_id agent) peer payload i ts)"

text \<open>The session of a datagram: a known one is refreshed, a new one opened; \<open>None\<close> when the datagram is dropped.\<close>

definition find_session ::
  "lib \<Rightarrow> udp_input \<Rightarrow> instant \<Rightarrow> tunnel \<Rightarrow> socket_addr \<Rightarrow> session_table \<times> app_state \<Rightarrow>
     uuid option \<times> session_table \<times> app_state" where
  "find_session L io now t peer ts =
     (case ts of (table, s) \<Rightarrow>
      if \<not> source_allowed L t (sock_ip peer) then (None, table, count add_rejected s)
      else case map_of table peer of
        Some u \<Rightarrow> (Some (us_id u), AList.update peer (u\<lparr>us_last_seen := now\<rparr>) table, s)
      | None \<Rightarrow>
          (case open_session L io t peer s of
             (Inr i, s1) \<Rightarrow> (Some i, AList.update peer \<lparr>us_id = i, us_last_seen = now\<rparr> table, s1)
           | (Inl e, s1) \<Rightarrow> (None, table, count add_failed s1)))"

definition receive_datagram ::
  "lib \<Rightarrow> udp_input \<Rightarrow> instant \<Rightarrow> tunnel \<Rightarrow> socket_addr \<Rightarrow> bytes \<Rightarrow> session_table \<times> app_state \<Rightarrow>
     (session_table \<times> app_state) option" where
  "receive_datagram L io now t peer payload ts =
     (case find_session L io now t peer ts of
        (None, ts1) \<Rightarrow> Some ts1
      | (Some i, ts1) \<Rightarrow> forward_datagram L t peer payload i ts1)"

text \<open>The loop ends when its token is cancelled.\<close>

definition stop_udp :: "session_table \<times> app_state \<Rightarrow> app_state" where
  "stop_udp ts = (case ts of (table, s) \<Rightarrow> fold (\<lambda>(a, u). drop_session u) table s)"

section \<open>Responses\<close>

text \<open>
  One turn of a session's response task. The result tells whether the task goes on: it waits while its queue
  is empty, and it ends, closing its channel, when a send fails or the session is gone and the queue empty.
\<close>

definition respond :: "uuid \<Rightarrow> bool \<Rightarrow> app_state \<Rightarrow> bytes option \<times> bool \<times> app_state" where
  "respond i sent s =
     (case s_inbound s i of
        Some (m # q) \<Rightarrow>
          let s1 = s\<lparr>s_inbound := (s_inbound s)(i \<mapsto> q)\<rparr> in
          if if_kind m = CARRIER_FRAME_DATAGRAM then
            if sent then (Some (if_payload m), True, count (add_up (of_nat (length (if_payload m)))) s1)
            else (None, False, s1\<lparr>s_inbound := (s_inbound s1)(i := None)\<rparr>)
          else (None, True, s1)
      | Some [] \<Rightarrow>
          if i \<in> s_streams s then (None, True, s)
          else (None, False, s\<lparr>s_inbound := (s_inbound s)(i := None)\<rparr>)
      | None \<Rightarrow> (None, False, s))"

section \<open>Clean-up\<close>

lemma drop_session_sel [simp]:
  "s_streams (drop_session u s) = s_streams s - {us_id u}"
  "s_active (drop_session u s) = (s_active s)(us_id u := None)"
  "s_counters (drop_session u s) = s_counters s" "s_config (drop_session u s) = s_config s"
  by (simp_all add: drop_session_def)

lemma fold_expire:
  "s_streams (fold expire_session us s) = s_streams s - us_id ` set us"
  "s_active (fold expire_session us s) j = (if j \<in> us_id ` set us then None else s_active s j)"
  "k_active_udp (s_counters (fold expire_session us s)) = k_active_udp (s_counters s) - of_nat (length us)"
  by (induction us arbitrary: s) (auto simp: expire_session_def sub_udp_def)

lemma fold_drop:
  "s_streams (fold (\<lambda>(a, u). drop_session u) table s) = s_streams s - us_id ` snd ` set table"
  "s_active (fold (\<lambda>(a, u). drop_session u) table s) j = (if j \<in> us_id ` snd ` set table then None else s_active s j)"
  "s_counters (fold (\<lambda>(a, u). drop_session u) table s) = s_counters s"
  by (induction table arbitrary: s) auto

text \<open>
  The periodic clean-up of a UDP listener: exactly the sessions idle for less than the session timeout
  stay; the stream and the connection entry of every other session are gone, other streams are not
  touched, and the gauge of active sessions drops by the number of sessions that ended.
\<close>

theorem udp_cleanup:
  assumes "cleanup_tick now (table, s) = (table', s')"
  shows "table' = filter (\<lambda>(a, u). now - us_last_seen u < c_udp_session_timeout (s_config s)) table \<and>
     (let gone = map snd (filter (\<lambda>(a, u). \<not> now - us_last_seen u < c_udp_session_timeout (s_config s)) table) in
      s_streams s' = s_streams s - us_id ` set gone \<and>
      (\<forall>j. s_active s' j = (if j \<in> us_id ` set gone then None else s_active s j)) \<and>
      k_active_udp (s_counters s') = k_active_udp (s_counters s) - of_nat (length gone))"
proof -
  have "table' = filter (\<lambda>(a, u). now - us_last_seen u < c_udp_session_timeout (s_config s)) table"
    "s' = fold expire_session
       (map snd (filter (\<lambda>(a, u). \<not> now - us_last_seen u < c_udp_session_timeout (s_config s)) table)) s"
    using assms by (simp_all add: cleanup_tick_def expire_def [abs_def] Let_def)
  then show ?thesis unfolding Let_def by (simp only: fold_expire) simp
qed

definition sample_table :: session_table where
  "sample_table = [(SockV4 1 80, \<lparr>us_id = 9, us_last_seen = 0\<rparr>), (SockV4 2 80, \<lparr>us_id = 10, us_last_seen = secs 100\<rparr>)]"

theorem udp_cleanup_witness:
  "fst (cleanup_tick (secs 110) (sample_table, sample_state)) =
     [(SockV4 2 80, \<lparr>us_id = 10, us_last_seen = secs 100\<rparr>)]"
  using udp_cleanup [of "secs 110" sample_table sample_state "fst (cleanup_tick (secs 110) (sample_table, sample_state))"
      "snd (cleanup_tick (secs 110) (sample_table, sample_state))"]
  by (simp add: sample_table_def sample_config_def secs_def)

text \<open>
  A datagram from an admitted peer with a session becomes one DATAGRAM frame of that session, payload
  unchanged, at the end of the queue of the agent's carrier when there is room, and refreshes the
  session; a datagram from a source the tunnel does not admit only counts as rejected.
\<close>

theorem udp_forward:
  assumes "frames_ok L" and "map_of table peer = Some u"
    and "s_agents s (t_agent_id t) = Some agent" and "s_bin s (ap_session_id agent) = Some q" "length q < BIN_CAPACITY"
  shows "\<exists>table' s' f. receive_datagram L io now t peer payload (table, s) = Some (table', s') \<and>
     (if source_allowed L t (sock_ip peer)
      then s_bin s' = (s_bin s)(ap_session_id agent \<mapsto> q @ [f]) \<and>
        decode_carrier_frame (l_uuid_of_slice L) f = Some (CARRIER_FRAME_DATAGRAM, us_id u, payload) \<and>
        k_bytes_down (s_counters s') = k_bytes_down (s_counters s) + of_nat (length payload) \<and>
        map_of table' = (map_of table)(peer \<mapsto> u\<lparr>us_last_seen := now\<rparr>)
      else table' = table \<and> s' = count add_rejected s)"
proof -
  have codec: "uuid_codec (l_uuid_bytes L) (l_uuid_of_slice L)" using assms(1) by (simp add: frames_ok_def)
  show ?thesis
    using assms(2-5) decode_encode_frame [OF codec]
    by (auto simp: receive_datagram_def find_session_def forward_datagram_def send_datagram_def send_bounded_def add_down_def
        update_conv')
qed

definition sample_udp_state :: app_state where
  "sample_udp_state =
     sample_state\<lparr>s_agents := [7 \<mapsto> \<lparr>ap_session_id = 3, ap_transport = TQuic, ap_cancellation = 0\<rparr>], s_bin := [3 \<mapsto> []]\<rparr>"

definition sample_udp_input :: udp_input where
  "sample_udp_input =
     \<lparr>ui_offer = \<lparr>of_id = 11, of_ticket = lit ''t'', of_now = 0, of_utc = 0\<rparr>, ui_geo = (0, 0, HttpError),
      ui_during_geo = id, ui_during_ack = id, ui_geo_active = (0, 0, HttpError), ui_during_active = id,
      ui_opened = 0\<rparr>"

theorem udp_forward_witness:
  "\<exists>table' s' f. receive_datagram sample_lib sample_udp_input 5 sample_tunnel (SockV4 1 80) [1, 2] (sample_table, sample_udp_state) =
       Some (table', s') \<and> s_bin s' 3 = Some [f] \<and>
     decode_carrier_frame be_uuid_of_slice f = Some (CARRIER_FRAME_DATAGRAM, 9, [1, 2])"
proof -
  have "source_allowed sample_lib sample_tunnel (sock_ip (SockV4 1 80))"
    by (simp add: source_allowed_eq sample_tunnel_def new_tunnel_def sample_request_def)
  then show ?thesis
    using udp_forward [OF sample_frames, of sample_table "SockV4 1 80" "\<lparr>us_id = 9, us_last_seen = 0\<rparr>" sample_udp_state
        sample_tunnel "\<lparr>ap_session_id = 3, ap_transport = TQuic, ap_cancellation = 0\<rparr>" "[]" sample_udp_input 5 "[1, 2]"]
    by (force simp: sample_table_def sample_udp_state_def sample_tunnel_def BIN_CAPACITY_def sample_lib_def)
qed

text \<open>
  When a UDP listener is stopped every session's stream and connection entry is removed, but the gauge
  of active UDP sessions keeps counting them, unlike after a clean-up of the same sessions.
\<close>

theorem udp_stop_gauge:
  "s_streams (stop_udp (table, s)) = s_streams s - us_id ` snd ` set table \<and>
   (\<forall>u \<in> snd ` set table. s_active (stop_udp (table, s)) (us_id u) = None) \<and>
   k_active_udp (s_counters (stop_udp (table, s))) = k_active_udp (s_counters s)"
  by (auto simp: stop_udp_def fold_drop)

theorem udp_stop_gauge_witness:
  "k_active_udp (s_counters (stop_udp (sample_table, sample_state))) = k_active_udp (s_counters sample_state)"
  using udp_stop_gauge by blast

end
