(* ===== verification/Listeners.thy ===== *)
theory Listeners
  imports Udp "HOL-Library.Sublist"
begin

text \<open>
  The tasks that \<open>start_listener\<close> spawns, as a whole: the accept loop of a TCP tunnel (server/src/gateway.rs)
  and the loop of a UDP tunnel (server/src/udp.rs), from the bind to the end, on the list of what happens to
  them. \<open>select!\<close> picks any branch that is ready, so a cancellation is an event that counts once the token is
  cancelled.
\<close>

section \<open>The accept loop\<close>

datatype tcp_event = Accepted socket_addr | AcceptFailed | TcpSeesStop | TcpMeanwhile "app_state \<Rightarrow> app_state"

text \<open>The result: whether the loop goes on, and the peers whose handlers were spawned.\<close>

fun tcp_loop :: "nat \<Rightarrow> tcp_event list \<Rightarrow> app_state \<Rightarrow> bool \<times> socket_addr list \<times> app_state" where
  "tcp_loop token [] s = (True, [], s)"
| "tcp_loop token (TcpMeanwhile f # evs) s = tcp_loop token evs (f s)"
| "tcp_loop token (AcceptFailed # evs) s = tcp_loop token evs s"
| "tcp_loop token (TcpSeesStop # evs) s = (if token \<in> s_cancelled s then (False, [], s) else tcp_loop token evs s)"
| "tcp_loop token (Accepted peer # evs) s =
     (case tcp_loop token evs s of (on, peers, s') \<Rightarrow> (on, peer # peers, s'))"

definition tcp_listener :: "nat \<Rightarrow> bool \<Rightarrow> tunnel \<Rightarrow> tcp_event list \<Rightarrow> app_state \<Rightarrow> bool \<times> socket_addr list \<times> app_state" where
  "tcp_listener token bound t evs s =
     (case bind_listener bound t s of
        (False, s1) \<Rightarrow> (False, [], s1)
      | (True, s1) \<Rightarrow> tcp_loop token evs s1)"

section \<open>The loop of a UDP tunnel\<close>

datatype udp_event =
    Datagram udp_input instant socket_addr bytes | ReceiveFailed | CleanupTick instant | UdpSeesStop
  | RoomChecked | UdpMeanwhile "app_state \<Rightarrow> app_state"

text \<open>While the loop waits for room in the queue of a carrier, it looks at nothing else.\<close>

record udp_loop =
  ul_table :: session_table
  ul_waiting :: "(uuid \<times> socket_addr \<times> bytes \<times> uuid) option"
  ul_ended :: bool

definition udp_start :: udp_loop where
  "udp_start = \<lparr>ul_table = [], ul_waiting = None, ul_ended = False\<rparr>"

text \<open>A step also returns the frame it put into the queue of a carrier session.\<close>

type_synonym udp_result = "(uuid \<times> bytes) list \<times> udp_loop \<times> app_state"

definition udp_send :: "lib \<Rightarrow> uuid \<Rightarrow> socket_addr \<Rightarrow> bytes \<Rightarrow> uuid \<Rightarrow> session_table \<times> app_state \<Rightarrow> udp_result" where
  "udp_send L sid peer payload i ts =
     (case send_datagram L sid peer payload i ts of
        None \<Rightarrow> ([], \<lparr>ul_table = fst ts, ul_waiting = Some (sid, peer, payload, i), ul_ended = False\<rparr>, snd ts)
      | Some (table', s') \<Rightarrow>
          (if s_bin (snd ts) sid = None then [] else [(sid, encode_carrier_frame (l_uuid_bytes L) CARRIER_FRAME_DATAGRAM i payload)],
           \<lparr>ul_table = table', ul_waiting = None, ul_ended = False\<rparr>, s'))"

definition udp_datagram ::
  "lib \<Rightarrow> udp_input \<Rightarrow> instant \<Rightarrow> tunnel \<Rightarrow> socket_addr \<Rightarrow> bytes \<Rightarrow> udp_loop \<Rightarrow> app_state \<Rightarrow> udp_result" where
  "udp_datagram L io now t peer payload l s =
     (case find_session L io now t peer (ul_table l, s) of
        (None, table, s1) \<Rightarrow> ([], l\<lparr>ul_table := table\<rparr>, s1)
      | (Some i, table, s1) \<Rightarrow>
          (case s_agents s1 (t_agent_id t) of
             None \<Rightarrow> ([], l\<lparr>ul_table := table\<rparr>, s1)
           | Some agent \<Rightarrow> udp_send L (ap_session_id agent) peer payload i (table, s1)))"

definition udp_select :: "lib \<Rightarrow> tunnel \<Rightarrow> nat \<Rightarrow> udp_event \<Rightarrow> udp_loop \<Rightarrow> app_state \<Rightarrow> udp_result" where
  "udp_select L t token ev l s =
     (case ev of
        Datagram io now peer payload \<Rightarrow> udp_datagram L io now t peer payload l s
      | CleanupTick now \<Rightarrow> (case cleanup_tick now (ul_table l, s) of (table, s1) \<Rightarrow> ([], l\<lparr>ul_table := table\<rparr>, s1))
      | UdpSeesStop \<Rightarrow>
          if token \<in> s_cancelled s then ([], l\<lparr>ul_ended := True\<rparr>, stop_udp (ul_table l, s)) else ([], l, s)
      | UdpMeanwhile f \<Rightarrow> ([], l, f s)
      | _ \<Rightarrow> ([], l, s))"

definition udp_step :: "lib \<Rightarrow> tunnel \<Rightarrow> nat \<Rightarrow> udp_event \<Rightarrow> udp_loop \<Rightarrow> app_state \<Rightarrow> udp_result" where
  "udp_step L t token ev l s =
     (case ul_waiting l of
        None \<Rightarrow> udp_select L t token ev l s
      | Some (sid, peer, payload, i) \<Rightarrow>
          (case ev of
             RoomChecked \<Rightarrow> udp_send L sid peer payload i (ul_table l, s)
           | UdpMeanwhile f \<Rightarrow> ([], l, f s)
           | _ \<Rightarrow> ([], l, s)))"

fun udp_run :: "lib \<Rightarrow> tunnel \<Rightarrow> nat \<Rightarrow> udp_event list \<Rightarrow> udp_loop \<Rightarrow> app_state \<Rightarrow> udp_result" where
  "udp_run L t token [] l s = ([], l, s)"
| "udp_run L t token (ev # evs) l s =
     (if ul_ended l then ([], l, s)
      else case udp_step L t token ev l s of
        (out, l1, s1) \<Rightarrow> (case udp_run L t token evs l1 s1 of (out', l2, s2) \<Rightarrow> (out @ out', l2, s2)))"

definition udp_listener :: "lib \<Rightarrow> nat \<Rightarrow> bool \<Rightarrow> tunnel \<Rightarrow> udp_event list \<Rightarrow> app_state \<Rightarrow> udp_result" where
  "udp_listener L token bound t evs s =
     (case bind_listener bound t s of
        (False, s1) \<Rightarrow> ([], udp_start\<lparr>ul_ended := True\<rparr>, s1)
      | (True, s1) \<Rightarrow> udp_run L t token evs udp_start s1)"

section \<open>What is received and what is sent\<close>

text \<open>The session identifiers that a run may assign, with the peers they would be for, and what a peer sent.\<close>

fun opens :: "udp_event list \<Rightarrow> (uuid \<times> socket_addr) list" where
  "opens [] = []"
| "opens (Datagram io now peer payload # evs) = (of_id (ui_offer io), peer) # opens evs"
| "opens (_ # evs) = opens evs"

fun received :: "socket_addr \<Rightarrow> udp_event list \<Rightarrow> bytes list" where
  "received p [] = []"
| "received p (Datagram io now peer payload # evs) = (if peer = p then payload # received p evs else received p evs)"
| "received p (_ # evs) = received p evs"

definition payload_for :: "lib \<Rightarrow> uuid \<Rightarrow> bytes \<Rightarrow> bytes list" where
  "payload_for L i f =
     (case decode_carrier_frame (l_uuid_of_slice L) f of
        Some (k, j, d) \<Rightarrow> if j = i then [d] else []
      | None \<Rightarrow> [])"

definition datagrams_of :: "lib \<Rightarrow> uuid \<Rightarrow> (uuid \<times> bytes) list \<Rightarrow> bytes list" where
  "datagrams_of L i out = concat (map (\<lambda>(c, f). payload_for L i f) out)"

lemma datagrams_simps [simp]:
  "datagrams_of L i [] = []" "datagrams_of L i (a @ b) = datagrams_of L i a @ datagrams_of L i b"
  "datagrams_of L i [(c, f)] = payload_for L i f"
  by (simp_all add: datagrams_of_def)

lemma payload_encoded:
  "frames_ok L \<Longrightarrow> payload_for L i (encode_carrier_frame (l_uuid_bytes L) k j d) = (if j = i then [d] else [])"
  using decode_encode_frame [of "l_uuid_bytes L" "l_uuid_of_slice L"] by (simp add: frames_ok_def payload_for_def)

lemma open_session_id: "open_session L io t peer s = (Inr i, s') \<Longrightarrow> i = of_id (ui_offer io)"
  unfolding open_session_def by (auto simp: seq_eq_Inr act_simps)

section \<open>The invariant of the loop\<close>

text \<open>
  \<open>A\<close> has the sessions with the peers they were opened for. Every session of the table, and the one of the
  datagram that waits for room, is in it, for an admitted peer.
\<close>

definition loop_ok :: "lib \<Rightarrow> tunnel \<Rightarrow> (uuid \<times> socket_addr) set \<Rightarrow> udp_loop \<Rightarrow> bool" where
  "loop_ok L t A l \<longleftrightarrow>
     distinct (map fst (ul_table l)) \<and>
     (\<forall>(p, u) \<in> set (ul_table l). (us_id u, p) \<in> A \<and> source_allowed L t (sock_ip p)) \<and>
     (\<forall>sid p d i. ul_waiting l = Some (sid, p, d, i) \<longrightarrow> (i, p) \<in> A \<and> source_allowed L t (sock_ip p))"

definition waiting_for :: "uuid \<Rightarrow> udp_loop \<Rightarrow> bytes list" where
  "waiting_for i l = (case ul_waiting l of Some (sid, p, d, j) \<Rightarrow> if j = i then [d] else [] | None \<Rightarrow> [])"

definition sent_ok :: "lib \<Rightarrow> tunnel \<Rightarrow> (uuid \<times> socket_addr) set \<Rightarrow> (uuid \<times> bytes) list \<Rightarrow> bool" where
  "sent_ok L t A out \<longleftrightarrow>
     (\<forall>(c, f) \<in> set out. \<exists>i p d. decode_carrier_frame (l_uuid_of_slice L) f = Some (CARRIER_FRAME_DATAGRAM, i, d) \<and>
        (i, p) \<in> A \<and> source_allowed L t (sock_ip p))"

definition loop_left :: "nat \<Rightarrow> udp_loop \<Rightarrow> app_state \<Rightarrow> bool" where
  "loop_left token l s \<longleftrightarrow>
     (ul_ended l \<longrightarrow> token \<in> s_cancelled s \<and>
        (\<forall>(p, u) \<in> set (ul_table l). us_id u \<notin> s_streams s \<and> s_active s (us_id u) = None))"

lemma sent_simps [simp]: "sent_ok L t A []" "sent_ok L t A (a @ b) \<longleftrightarrow> sent_ok L t A a \<and> sent_ok L t A b"
  unfolding sent_ok_def by (simp_all only: set_append ball_Un list.set ball_simps)

lemma update_set: "set (AList.update k v xs) \<subseteq> insert (k, v) (set xs)"
  by (induction xs) auto

lemma send_ok:
  assumes "frames_ok L" and "udp_send L sid peer payload j (table, s) = (out, l', s')"
    and "loop_ok L t A \<lparr>ul_table = table, ul_waiting = None, ul_ended = False\<rparr>"
    and "(j, peer) \<in> A" "source_allowed L t (sock_ip peer)"
  shows "loop_ok L t A l' \<and> sent_ok L t A out \<and> \<not> ul_ended l' \<and>
     subseq (datagrams_of L i out @ waiting_for i l') (if j = i then [payload] else [])"
proof -
  have dec: "decode_carrier_frame (l_uuid_of_slice L) (encode_carrier_frame (l_uuid_bytes L) k j d) = Some (k, j, d)" for k d
    using assms(1) decode_encode_frame by (simp add: frames_ok_def)
  have "set (AList.delete peer table) \<subseteq> set table" by (auto simp: AList.delete_eq)
  moreover have "distinct (map fst table) \<Longrightarrow> distinct (map fst (AList.delete peer table))" by (simp add: distinct_delete)
  ultimately show ?thesis
    using assms(2-5) dec payload_encoded [OF assms(1)]
    by (auto simp: udp_send_def send_datagram_def send_bounded_def loop_ok_def sent_ok_def waiting_for_def
        split: option.splits if_splits send_outcome.splits)
qed

lemma find_ok:
  assumes "find_session L io now t peer (ul_table l, s) = (r, table, s')" and "loop_ok L t A l"
    and "(of_id (ui_offer io), peer) \<in> A"
  shows "loop_ok L t A (l\<lparr>ul_table := table\<rparr>) \<and> (\<forall>i. r = Some i \<longrightarrow> (i, peer) \<in> A \<and> source_allowed L t (sock_ip peer))"
proof -
  have old: "(us_id u, peer) \<in> A" if "map_of (ul_table l) peer = Some u" for u
    using assms(2) map_of_SomeD [OF that] by (auto simp: loop_ok_def)
  have upd: "loop_ok L t A (l\<lparr>ul_table := AList.update peer u (ul_table l)\<rparr>)"
    if "(us_id u, peer) \<in> A" "source_allowed L t (sock_ip peer)" for u
    using assms(2) that update_set [of peer u "ul_table l"] by (fastforce simp: loop_ok_def distinct_update)
  show ?thesis
    using assms old upd open_session_id [of L io t peer s]
    by (auto simp: find_session_def split: if_splits option.splits prod.splits sum.splits)
qed


lemma stopped_left:
  assumes "token \<in> s_cancelled s"
  shows "loop_left token (l\<lparr>ul_ended := True\<rparr>) (stop_udp (ul_table l, s))"
proof -
  have "s_cancelled (fold (\<lambda>(a, u). drop_session u) table s) = s_cancelled s" for table
    by (induction table arbitrary: s) (auto simp: drop_session_def)
  moreover have "us_id u \<in> us_id ` snd ` set (ul_table l)" if "(p, u) \<in> set (ul_table l)" for p u
    using that by force
  ultimately show ?thesis using assms by (auto simp only: loop_left_def stop_udp_def fold_drop split: prod.splits) simp_all
qed

lemma select_ok:
  assumes "frames_ok L" and "udp_select L t token ev l s = (out, l', s')" and "loop_ok L t A l"
    and "ul_waiting l = None" "\<not> ul_ended l" "set (opens [ev]) \<subseteq> A" "inj_on fst A"
  shows "loop_ok L t A l' \<and> sent_ok L t A out \<and> loop_left token l' s' \<and>
     ((i, p) \<in> A \<longrightarrow> subseq (datagrams_of L i out @ waiting_for i l') (received p [ev]))"
proof (cases ev)
  case (Datagram io now peer payload)
  obtain r table s1 where f: "find_session L io now t peer (ul_table l, s) = (r, table, s1)"
    by (cases "find_session L io now t peer (ul_table l, s)")
  have A: "(of_id (ui_offer io), peer) \<in> A" using assms(6) Datagram by simp
  note found = find_ok [OF f assms(3) A]
  show ?thesis
  proof (cases "r = None \<or> s_agents s1 (t_agent_id t) = None")
    case True
    then show ?thesis
      using assms(2,4,5) found Datagram f
      by (auto simp: udp_select_def udp_datagram_def waiting_for_def loop_left_def split: option.splits)
  next
    case False
    then obtain j agent where j: "r = Some j" "s_agents s1 (t_agent_id t) = Some agent" by auto
    have out: "udp_send L (ap_session_id agent) peer payload j (table, s1) = (out, l', s')"
      using assms(2) Datagram f j by (simp add: udp_select_def udp_datagram_def)
    have "l\<lparr>ul_table := table\<rparr> = \<lparr>ul_table = table, ul_waiting = None, ul_ended = False\<rparr>"
      using assms(4,5) by (cases l) simp
    then have "loop_ok L t A \<lparr>ul_table = table, ul_waiting = None, ul_ended = False\<rparr>" using found by metis
    moreover have "(j, peer) \<in> A" "source_allowed L t (sock_ip peer)" using found j by simp_all
    ultimately have ok: "loop_ok L t A l' \<and> sent_ok L t A out \<and> \<not> ul_ended l' \<and>
        subseq (datagrams_of L i out @ waiting_for i l') (if j = i then [payload] else [])"
      using send_ok [OF assms(1) out] by blast
    have "(i, p) \<in> A \<Longrightarrow> j = i \<Longrightarrow> peer = p"
      using inj_onD [OF assms(7), of "(j, peer)" "(i, p)"] \<open>(j, peer) \<in> A\<close> by simp
    then have "(i, p) \<in> A \<longrightarrow> subseq (datagrams_of L i out @ waiting_for i l') (received p [ev])"
      using ok Datagram by (cases "j = i") auto
    then show ?thesis using ok by (simp add: loop_left_def)
  qed
next
  case (CleanupTick now)
  then show ?thesis
    using assms(2-5)
    by (auto simp: udp_select_def cleanup_tick_def Let_def loop_ok_def waiting_for_def loop_left_def distinct_map_filter)
next
  case UdpSeesStop
  then show ?thesis
    using assms(2-5) stopped_left [of token s l]
    by (auto simp: udp_select_def loop_ok_def waiting_for_def loop_left_def split: if_splits)
qed (use assms(2-5) in \<open>auto simp: udp_select_def waiting_for_def loop_left_def\<close>)

lemma step_ok:
  assumes "frames_ok L" and "udp_step L t token ev l s = (out, l', s')" and "loop_ok L t A l"
    and "\<not> ul_ended l" "set (opens [ev]) \<subseteq> A" "inj_on fst A"
  shows "loop_ok L t A l' \<and> sent_ok L t A out \<and> loop_left token l' s' \<and>
     ((i, p) \<in> A \<longrightarrow> subseq (datagrams_of L i out @ waiting_for i l') (waiting_for i l @ received p [ev]))"
proof (cases "ul_waiting l")
  case None
  then show ?thesis using select_ok [OF assms(1) _ assms(3) None assms(4-6)] assms(2) by (simp add: udp_step_def waiting_for_def)
next
  case (Some w)
  then obtain sid peer payload j where w: "ul_waiting l = Some (sid, peer, payload, j)" by (cases w) auto
  have A: "(j, peer) \<in> A" "source_allowed L t (sock_ip peer)" using assms(3) w by (auto simp: loop_ok_def)
  have idle: "loop_ok L t A l \<and> loop_left token l s2 \<and>
      subseq (waiting_for i l) (waiting_for i l @ received p [ev])" for s2
    using assms(3,4) by (simp add: loop_left_def prefix_imp_subseq)
  show ?thesis
  proof (cases "ev = RoomChecked")
    case True
    then have out: "udp_send L sid peer payload j (ul_table l, s) = (out, l', s')" using assms(2) w by (simp add: udp_step_def)
    have "loop_ok L t A \<lparr>ul_table = ul_table l, ul_waiting = None, ul_ended = False\<rparr>" using assms(3) by (simp add: loop_ok_def)
    from send_ok [OF assms(1) out this A, of i] show ?thesis using True w by (simp add: waiting_for_def loop_left_def)
  next
    case False
    then have "out = [] \<and> l' = l" using assms(2) w by (auto simp: udp_step_def split: udp_event.splits)
    then show ?thesis using idle by simp
  qed
qed

lemma opens_Cons: "opens (ev # evs) = opens [ev] @ opens evs" and received_Cons: "received p (ev # evs) = received p [ev] @ received p evs"
  by (cases ev; simp)+

lemma run_ok:
  assumes "frames_ok L" "inj_on fst A"
  shows "udp_run L t token evs l s = (out, l', s') \<Longrightarrow> loop_ok L t A l \<Longrightarrow> loop_left token l s \<Longrightarrow> set (opens evs) \<subseteq> A \<Longrightarrow>
     loop_ok L t A l' \<and> sent_ok L t A out \<and> loop_left token l' s' \<and>
     ((i, p) \<in> A \<longrightarrow> subseq (datagrams_of L i out @ waiting_for i l') (waiting_for i l @ received p evs))"
proof (induction evs arbitrary: l s out)
  case Nil
  then show ?case by simp
next
  case (Cons ev evs)
  show ?case
  proof (cases "ul_ended l")
    case True
    then show ?thesis using Cons.prems by auto
  next
    case False
    obtain out1 l1 s1 where step: "udp_step L t token ev l s = (out1, l1, s1)" by (cases "udp_step L t token ev l s")
    obtain out2 where rest: "udp_run L t token evs l1 s1 = (out2, l', s')" "out = out1 @ out2"
      using Cons.prems(1) False step by (auto split: prod.splits)
    have sub: "set (opens [ev]) \<subseteq> A" "set (opens evs) \<subseteq> A" using Cons.prems(4) opens_Cons [of ev evs] by auto
    note one = step_ok [OF assms(1) step Cons.prems(2) False sub(1) assms(2)]
    have more: "loop_ok L t A l' \<and> sent_ok L t A out2 \<and> loop_left token l' s' \<and>
        ((i, p) \<in> A \<longrightarrow> subseq (datagrams_of L i out2 @ waiting_for i l') (waiting_for i l1 @ received p evs))"
      using Cons.IH [OF rest(1)] one sub(2) by blast
    have "subseq (datagrams_of L i out @ waiting_for i l') (waiting_for i l @ received p (ev # evs))" if "(i, p) \<in> A"
    proof -
      have "subseq (datagrams_of L i out1 @ datagrams_of L i out2 @ waiting_for i l')
          (datagrams_of L i out1 @ waiting_for i l1 @ received p evs)"
        using more that by (simp add: subseq_append')
      moreover have "subseq ((datagrams_of L i out1 @ waiting_for i l1) @ received p evs)
          ((waiting_for i l @ received p [ev]) @ received p evs)"
        using one that by (simp only: subseq_append)
      ultimately show ?thesis
        unfolding rest(2) received_Cons [of p ev evs] by (simp add: subseq_order.trans)
    qed
    then show ?thesis using one more rest(2) by simp
  qed
qed


section \<open>Properties\<close>

text \<open>
  C36. The peers of a UDP tunnel are kept apart, in any run of its loop, whatever other tasks do meanwhile and
  however long it waits for room: every frame the loop puts into a carrier's queue is a datagram of a session
  that was opened for a source the tunnel admits, and the datagrams sent under a session are a subsequence of
  those received from the one peer it was opened for: none is altered, repeated, reordered or from another
  peer. A loop ends only after its cancellation, and leaves no stream and no connection entry of a session
  of its table.
\<close>

theorem udp_sessions_apart:
  assumes "frames_ok L" and "distinct (map fst (opens evs))"
    and "udp_listener L token True t evs s = (out, l, s')" and "t_remote_port t \<noteq> None"
  shows "(\<forall>(c, f) \<in> set out. \<exists>i p d. decode_carrier_frame (l_uuid_of_slice L) f = Some (CARRIER_FRAME_DATAGRAM, i, d) \<and>
       (i, p) \<in> set (opens evs) \<and> source_allowed L t (sock_ip p)) \<and>
     (\<forall>(i, p) \<in> set (opens evs). subseq (datagrams_of L i out) (received p evs)) \<and>
     (ul_ended l \<longrightarrow> token \<in> s_cancelled s' \<and>
        (\<forall>(p, u) \<in> set (ul_table l). us_id u \<notin> s_streams s' \<and> s_active s' (us_id u) = None))"
proof -
  let ?A = "set (opens evs)"
  have run: "udp_run L t token evs udp_start s = (out, l, s')"
    using assms(3,4) by (auto simp: udp_listener_def bind_listener_def)
  have inj: "inj_on fst ?A" using assms(2) by (simp add: distinct_map)
  have start: "loop_ok L t A udp_start" "loop_left token udp_start s" "waiting_for i udp_start = []" for A i
    by (simp_all add: loop_ok_def loop_left_def waiting_for_def udp_start_def)
  note ran = run_ok [OF assms(1) inj run start(1,2) order.refl]
  have "subseq (datagrams_of L i out) (received p evs)" if "(i, p) \<in> ?A" for i p
    using ran [of i p] that start(3) list_emb_prefix [of "(=)"] subseq_order.trans [of "datagrams_of L i out"] prefix_imp_subseq [of "datagrams_of L i out" "datagrams_of L i out @ waiting_for i l"]
    by simp
  then show ?thesis using ran unfolding sent_ok_def loop_left_def by blast
qed


text \<open>One peer opens a session and sends two datagrams; the loop is then stopped.\<close>

definition opening_input :: udp_input where
  "opening_input = sample_udp_input\<lparr>ui_during_ack := (\<lambda>s. s\<lparr>s_ack := (s_ack s)(11 \<mapsto> Some (Inr ()))\<rparr>)\<rparr>"

definition sample_peer_state :: app_state where
  "sample_peer_state = sample_udp_state\<lparr>s_ctl := [3 \<mapsto> []], s_bin := [3 \<mapsto> []]\<rparr>"

lemma sample_opened:
  "\<exists>s1. open_session sample_lib opening_input sample_tunnel (SockV4 1 80) sample_peer_state = (Inr 11, s1) \<and>
     s_agents s1 7 = s_agents sample_peer_state 7 \<and> s_bin s1 = s_bin sample_peer_state"
  by (simp add: open_session_def seq_def act_simps opening_input_def sample_udp_input_def geo_lookup_def split_def
      sample_peer_state_def sample_udp_state_def register_offer_def send_offer_def send_ctl_def settle_stream_cases
      received_ack_def activate_def sample_tunnel_def new_tunnel_def)

theorem udp_sessions_apart_witness:
  "\<exists>out l s'. udp_listener sample_lib 5 True sample_tunnel [Datagram opening_input 0 (SockV4 1 80) [1, 2], UdpSeesStop] sample_peer_state =
       (out, l, s') \<and> out \<noteq> [] \<and> subseq (datagrams_of sample_lib 11 out) [[1, 2]]"
proof -
  let ?evs = "[Datagram opening_input 0 (SockV4 1 80) [1, 2], UdpSeesStop]"
  obtain s1 where s1: "open_session sample_lib opening_input sample_tunnel (SockV4 1 80) sample_peer_state = (Inr 11, s1)"
      "s_agents s1 7 = s_agents sample_peer_state 7" "s_bin s1 = s_bin sample_peer_state"
    using sample_opened by blast
  have adm: "source_allowed sample_lib sample_tunnel (sock_ip (SockV4 1 80))"
    by (simp add: source_allowed_eq sample_tunnel_def new_tunnel_def sample_request_def)
  have t: "t_agent_id sample_tunnel = 7" "t_remote_port sample_tunnel \<noteq> None"
    by (simp_all add: sample_tunnel_def new_tunnel_def sample_request_def)
  have opened: "opens ?evs = [(11, SockV4 1 80)]" by (simp add: opening_input_def sample_udp_input_def)
  have first: "find_session sample_lib opening_input 0 sample_tunnel (SockV4 1 80) ([], sample_peer_state) =
      (Some 11, [(SockV4 1 80, \<lparr>us_id = 11, us_last_seen = 0\<rparr>)], s1)"
    using adm s1(1) by (simp add: find_session_def)
  have "\<exists>l2 s2. udp_step sample_lib sample_tunnel 5 (Datagram opening_input 0 (SockV4 1 80) [1, 2]) udp_start sample_peer_state =
      ([(3, encode_carrier_frame (l_uuid_bytes sample_lib) CARRIER_FRAME_DATAGRAM 11 [1, 2])], l2, s2)"
    using first s1(2,3) t(1)
    by (simp add: udp_step_def udp_start_def udp_select_def udp_datagram_def udp_send_def send_datagram_def send_bounded_def
        sample_peer_state_def sample_udp_state_def BIN_CAPACITY_def)
  then obtain l2 s2 where step:
      "udp_step sample_lib sample_tunnel 5 (Datagram opening_input 0 (SockV4 1 80) [1, 2]) udp_start sample_peer_state =
       ([(3, encode_carrier_frame (l_uuid_bytes sample_lib) CARRIER_FRAME_DATAGRAM 11 [1, 2])], l2, s2)" by blast
  obtain out2 l s' where rest: "udp_run sample_lib sample_tunnel 5 [UdpSeesStop] l2 s2 = (out2, l, s')"
    by (cases "udp_run sample_lib sample_tunnel 5 [UdpSeesStop] l2 s2")
  let ?out = "(3, encode_carrier_frame (l_uuid_bytes sample_lib) CARRIER_FRAME_DATAGRAM 11 [1, 2]) # out2"
  have "bind_listener True sample_tunnel sample_peer_state = (True, sample_peer_state)" "\<not> ul_ended udp_start"
    using t(2) by (auto simp: bind_listener_def udp_start_def)
  then have run: "udp_listener sample_lib 5 True sample_tunnel ?evs sample_peer_state = (?out, l, s')"
    using step rest by (simp add: udp_listener_def del: udp_run.simps) (simp del: udp_run.simps add: udp_run.simps(2) [of _ _ _ "Datagram opening_input 0 (SockV4 1 80) [1, 2]"])
  have "distinct (map fst (opens ?evs))" by (simp add: opened)
  from udp_sessions_apart [OF sample_frames this run t(2)]
  have "subseq (datagrams_of sample_lib 11 ?out) (received (SockV4 1 80) ?evs)" by (simp only: opened) simp
  then have "subseq (datagrams_of sample_lib 11 ?out) [[1, 2]]" by simp
  with run show ?thesis by blast
qed

end
