(* ===== verification/Agent_Config.thy ===== *)
theory Agent_Config
  imports Lib
begin

text \<open>
  The desktop client's configuration (desktop/src-tauri/src/config.rs): the configuration file with
  its replacement through a temporary file, the normalisation of the server address, and the three
  keychain entries of an installation. The \<open>url\<close>, \<open>keyring\<close> and serde crates are parameters; the file
  operations are those of \<open>std::fs\<close>.
\<close>

section \<open>Configuration and the client's third-party functions\<close>

record agent_config =
  gc_server_url :: ustr
  gc_device_name :: ustr
  gc_installation_id :: uuid
  gc_transport_mode :: transport_mode
  gc_quic_port :: u16
  gc_kcp_port :: u16

definition default_quic_port :: u16 where "default_quic_port = 443"
definition default_kcp_port :: u16 where "default_kcp_port = 4000"

text \<open>
  \<^item> \<open>d_url_parse\<close> to \<open>d_url_text\<close>: \<open>Url::parse\<close>, \<open>scheme\<close>, \<open>host_str\<close>, \<open>set_path\<close>, \<open>set_query(None)\<close>,
    \<open>set_fragment(None)\<close>, \<open>set_scheme\<close> and \<open>as_str\<close> of the \<open>url\<close> crate;
  \<^item> \<open>d_key_set\<close>, \<open>d_key_get\<close>: \<open>set_password\<close> and \<open>get_password\<close> of the entry with this user name in the
    keychain \<open>'k\<close>, with the text of the error;
  \<^item> \<open>d_config_json\<close>, \<open>d_config_parse\<close>: \<open>serde_json\<close> on the configuration;
  \<^item> \<open>d_b64_decode\<close>, \<open>d_sha256_hex\<close>: base64 decoding and the hexadecimal SHA-256 digest;
  \<^item> \<open>d_root_ok\<close>: whether \<open>RootCertStore::add\<close> takes the certificate;
  \<^item> \<open>d_token_header_ok\<close>: whether \<open>HeaderValue::from_str\<close> takes the bearer token;
  \<^item> \<open>d_tunnel_parse\<close>, \<open>d_tunnels_parse\<close>, \<open>d_enrollment_parse\<close>, \<open>d_api_error_parse\<close>: \<open>serde_json\<close> on the
    bodies of the server's answers, with the text of the error;
  \<^item> \<open>d_status_text\<close>: the text of an HTTP status; \<open>d_io_text\<close>, \<open>d_json_text\<close>: the texts of a failed file
    operation and of a configuration that cannot be written as JSON.
\<close>

record ('u, 'k) dlib =
  d_url_parse :: "ustr \<Rightarrow> 'u option"
  d_url_scheme :: "'u \<Rightarrow> ustr"
  d_url_host :: "'u \<Rightarrow> ustr option"
  d_url_set_path :: "ustr \<Rightarrow> 'u \<Rightarrow> 'u"
  d_url_drop_query :: "'u \<Rightarrow> 'u"
  d_url_drop_fragment :: "'u \<Rightarrow> 'u"
  d_url_set_scheme :: "ustr \<Rightarrow> 'u \<Rightarrow> 'u option"
  d_url_text :: "'u \<Rightarrow> ustr"
  d_key_set :: "ustr \<Rightarrow> ustr \<Rightarrow> 'k \<Rightarrow> (ustr + unit) \<times> 'k"
  d_key_get :: "ustr \<Rightarrow> 'k \<Rightarrow> ustr + ustr"
  d_config_json :: "agent_config \<Rightarrow> bytes option"
  d_config_parse :: "bytes \<Rightarrow> agent_config option"
  d_b64_decode :: "ustr \<Rightarrow> bytes option"
  d_sha256_hex :: "bytes \<Rightarrow> ustr"
  d_root_ok :: "bytes \<Rightarrow> bool"
  d_token_header_ok :: "ustr \<Rightarrow> bool"
  d_tunnel_parse :: "bytes \<Rightarrow> ustr + tunnel"
  d_tunnels_parse :: "bytes \<Rightarrow> ustr + tunnel list"
  d_enrollment_parse :: "bytes \<Rightarrow> ustr + agent_enrollment_response"
  d_api_error_parse :: "bytes \<Rightarrow> api_error option"
  d_status_text :: "nat \<Rightarrow> ustr"
  d_io_text :: ustr
  d_json_text :: ustr

section \<open>The server address\<close>

datatype url_error = UrlInvalid | UrlNotHttps | UrlNoHost

definition is_loopback_host :: "ustr \<Rightarrow> bool" where
  "is_loopback_host h \<longleftrightarrow>
     h = lit ''localhost'' \<or> (case parse_ip h of Some a \<Rightarrow> is_loopback a | None \<Rightarrow> False)"

definition normalize_server_url :: "('u, 'k) dlib \<Rightarrow> ustr \<Rightarrow> url_error + ustr" where
  "normalize_server_url D value =
     andThen (ok_or (d_url_parse D (trim value)) UrlInvalid) (\<lambda>url.
     andThen (ensure (\<not> (d_url_scheme D url \<noteq> lit ''https'' \<and>
                \<not> (d_url_scheme D url = lit ''http'' \<and>
                   (case d_url_host D url of Some h \<Rightarrow> is_loopback_host h | None \<Rightarrow> False)))) UrlNotHttps) (\<lambda>_.
     andThen (ensure (d_url_host D url \<noteq> None) UrlNoHost) (\<lambda>_.
     Inr (trim_end_matches 47
       (d_url_text D (d_url_drop_fragment D (d_url_drop_query D (d_url_set_path D [] url))))))))"

text \<open>
  What the code relies on: clearing the path, query and fragment of a parsed web address leaves scheme and
  host, and its text without the final slash parses to an address with the same scheme and host.
\<close>

definition url_law :: "('u, 'k) dlib \<Rightarrow> bool" where
  "url_law D \<longleftrightarrow>
     (\<forall>v u. d_url_parse D v = Some u \<and> d_url_scheme D u \<in> {lit ''http'', lit ''https''} \<and> d_url_host D u \<noteq> None \<longrightarrow>
        (\<exists>w. d_url_parse D (trim_end_matches 47
               (d_url_text D (d_url_drop_fragment D (d_url_drop_query D (d_url_set_path D [] u))))) = Some w \<and>
           d_url_scheme D w = d_url_scheme D u \<and> d_url_host D w = d_url_host D u))"

lemma normalize_server_url_Inr:
  "normalize_server_url D value = Inr s \<longleftrightarrow>
     (\<exists>u h. d_url_parse D (trim value) = Some u \<and> d_url_host D u = Some h \<and>
        (d_url_scheme D u = lit ''https'' \<or> d_url_scheme D u = lit ''http'' \<and> is_loopback_host h) \<and>
        s = trim_end_matches 47 (d_url_text D (d_url_drop_fragment D (d_url_drop_query D (d_url_set_path D [] u)))))"
  by (auto simp: normalize_server_url_def andThen_eq_Inr split: option.splits)

section \<open>The configuration file\<close>

text \<open>
  The data directory, the file \<open>config.json\<close> and its neighbour \<open>config.tmp\<close>. \<open>fs::write\<close> truncates and
  then writes; \<open>fs::rename\<close> replaces the target in one step.
\<close>

record disk =
  dk_dir :: bool
  dk_config :: "bytes option"
  dk_tmp :: "bytes option"

definition write_tmp :: "bytes \<Rightarrow> disk \<Rightarrow> disk" where
  "write_tmp b dk = dk\<lparr>dk_tmp := Some b\<rparr>"

definition rename_tmp :: "disk \<Rightarrow> bool \<times> disk" where
  "rename_tmp dk =
     (case dk_tmp dk of
        Some b \<Rightarrow> (True, dk\<lparr>dk_config := Some b, dk_tmp := None\<rparr>)
      | None \<Rightarrow> (False, dk))"

text \<open>
  How far \<open>save_config\<close> gets: to the end, or it fails, or the process stops, while creating the directory,
  while opening the temporary file, after writing so many bytes of it, or at the rename.
\<close>

datatype save_fault = DirFault | OpenFault | WriteFault nat | RenameFault

datatype config_fault = FileFault | JsonFault

definition save_config ::
  "('u, 'k) dlib \<Rightarrow> save_fault option \<Rightarrow> agent_config \<Rightarrow> disk \<Rightarrow> (config_fault + unit) \<times> disk" where
  "save_config D fault cfg dk =
     (if fault = Some DirFault then (Inl FileFault, dk)
      else
        let dk1 = dk\<lparr>dk_dir := True\<rparr> in
        case d_config_json D cfg of
          None \<Rightarrow> (Inl JsonFault, dk1)
        | Some b \<Rightarrow>
            (case fault of
               Some OpenFault \<Rightarrow> (Inl FileFault, dk1)
             | Some (WriteFault n) \<Rightarrow> (Inl FileFault, write_tmp (take n b) dk1)
             | Some RenameFault \<Rightarrow> (Inl FileFault, write_tmp b dk1)
             | _ \<Rightarrow> (case rename_tmp (write_tmp b dk1) of (done, dk2) \<Rightarrow>
                      (if done then Inr () else Inl FileFault, dk2))))"

definition load_config :: "('u, 'k) dlib \<Rightarrow> bool \<Rightarrow> disk \<Rightarrow> config_fault + agent_config option" where
  "load_config D read_fails dk =
     (case dk_config dk of
        None \<Rightarrow> Inr None
      | Some b \<Rightarrow>
          if read_fails then Inl FileFault
          else (case d_config_parse D b of Some c \<Rightarrow> Inr (Some c) | None \<Rightarrow> Inl JsonFault))"

definition config_json_ok :: "('u, 'k) dlib \<Rightarrow> bool" where
  "config_json_ok D \<longleftrightarrow> (\<forall>c b. d_config_json D c = Some b \<longrightarrow> d_config_parse D b = Some c)"

lemma save_config_cases:
  "save_config D fault cfg dk = (r, dk') \<Longrightarrow>
     (r = Inr () \<and> fault = None \<and> (\<exists>b. d_config_json D cfg = Some b \<and> dk_config dk' = Some b \<and> dk_tmp dk' = None)) \<or>
     ((\<exists>e. r = Inl e) \<and> dk_config dk' = dk_config dk)"
  by (auto simp: save_config_def rename_tmp_def write_tmp_def Let_def
      split: if_splits option.splits save_fault.splits)

lemma load_config_cong: "dk_config dk' = dk_config dk \<Longrightarrow> load_config D f dk' = load_config D f dk"
  by (simp add: load_config_def)

text \<open>
  Two commands that save at the same time share the temporary file: when one renames it while the other
  has only begun to write it, the configuration file holds a fragment.
\<close>

lemma concurrent_saves_tear:
  assumes "d_config_parse D (take n b2) = None"
  shows "rename_tmp (write_tmp (take n b2) (write_tmp b1 dk)) = (True, dk') \<Longrightarrow> load_config D False dk' = Inl JsonFault"
  using assms by (auto simp: rename_tmp_def write_tmp_def load_config_def)

section \<open>The keychain\<close>

definition fingerprint_key :: "lib \<Rightarrow> uuid \<Rightarrow> ustr" where
  "fingerprint_key L i = l_uuid_text L i @ lit '':transport-fingerprint''"

definition certificate_key :: "lib \<Rightarrow> uuid \<Rightarrow> ustr" where
  "certificate_key L i = l_uuid_text L i @ lit '':transport-certificate''"

definition save_token :: "('u, 'k) dlib \<Rightarrow> lib \<Rightarrow> uuid \<Rightarrow> ustr \<Rightarrow> 'k \<Rightarrow> (ustr + unit) \<times> 'k" where
  "save_token D L i token = d_key_set D (l_uuid_text L i) token"

definition load_token :: "('u, 'k) dlib \<Rightarrow> lib \<Rightarrow> uuid \<Rightarrow> 'k \<Rightarrow> ustr + ustr" where
  "load_token D L i = d_key_get D (l_uuid_text L i)"

definition save_transport_fingerprint :: "('u, 'k) dlib \<Rightarrow> lib \<Rightarrow> uuid \<Rightarrow> ustr \<Rightarrow> 'k \<Rightarrow> (ustr + unit) \<times> 'k" where
  "save_transport_fingerprint D L i fp = d_key_set D (fingerprint_key L i) fp"

definition load_transport_fingerprint :: "('u, 'k) dlib \<Rightarrow> lib \<Rightarrow> uuid \<Rightarrow> 'k \<Rightarrow> ustr + ustr" where
  "load_transport_fingerprint D L i = d_key_get D (fingerprint_key L i)"

definition save_transport_certificate :: "('u, 'k) dlib \<Rightarrow> lib \<Rightarrow> uuid \<Rightarrow> ustr \<Rightarrow> 'k \<Rightarrow> (ustr + unit) \<times> 'k" where
  "save_transport_certificate D L i der = d_key_set D (certificate_key L i) der"

definition load_transport_certificate :: "('u, 'k) dlib \<Rightarrow> lib \<Rightarrow> uuid \<Rightarrow> 'k \<Rightarrow> ustr + ustr" where
  "load_transport_certificate D L i = d_key_get D (certificate_key L i)"

text \<open>
  What the code relies on: an entry that was set is read back, others keep their value, and a failed
  write changes nothing.
\<close>

definition keychain_law :: "('u, 'k) dlib \<Rightarrow> bool" where
  "keychain_law D \<longleftrightarrow>
     (\<forall>user v k k'. d_key_set D user v k = (Inr (), k') \<longrightarrow>
        (\<forall>w. d_key_get D w k' = (if w = user then Inr v else d_key_get D w k))) \<and>
     (\<forall>user v k e k'. d_key_set D user v k = (Inl e, k') \<longrightarrow> (\<forall>w. d_key_get D w k' = d_key_get D w k))"

text \<open>The text of a UUID has no colon.\<close>

definition uuid_plain :: "lib \<Rightarrow> bool" where
  "uuid_plain L \<longleftrightarrow> (\<forall>i. 58 \<notin> set (l_uuid_text L i))"

lemma before_colon: "58 \<notin> set a \<Longrightarrow> 58 \<notin> set b \<Longrightarrow> a @ 58 # x = b @ 58 # y \<longleftrightarrow> a = b \<and> x = y"
  by (induction a arbitrary: b; case_tac b) auto

lemma keys_distinct:
  assumes "uuid_plain L" and "uuid_text_ok L"
  shows "fingerprint_key L i \<noteq> l_uuid_text L j" "certificate_key L i \<noteq> l_uuid_text L j"
    "fingerprint_key L i \<noteq> certificate_key L j"
    "fingerprint_key L i = fingerprint_key L j \<longleftrightarrow> i = j" "certificate_key L i = certificate_key L j \<longleftrightarrow> i = j"
    "l_uuid_text L i = l_uuid_text L j \<longleftrightarrow> i = j"
proof -
  have plain: "58 \<notin> set (l_uuid_text L k)" for k using assms(1) by (simp add: uuid_plain_def)
  have keys: "fingerprint_key L k = l_uuid_text L k @ 58 # lit ''transport-fingerprint''"
    "certificate_key L k = l_uuid_text L k @ 58 # lit ''transport-certificate''" for k
    by (simp_all add: fingerprint_key_def certificate_key_def lit_def)
  have "58 \<in> set (fingerprint_key L k)" "58 \<in> set (certificate_key L k)" for k by (simp_all add: keys)
  then show "fingerprint_key L i \<noteq> l_uuid_text L j" "certificate_key L i \<noteq> l_uuid_text L j"
    using plain by metis+
  show inj: "l_uuid_text L i = l_uuid_text L j \<longleftrightarrow> i = j"
    using assms(2) by (simp add: uuid_text_ok_def text_codec_inject)
  show "fingerprint_key L i \<noteq> certificate_key L j"
    "fingerprint_key L i = fingerprint_key L j \<longleftrightarrow> i = j" "certificate_key L i = certificate_key L j \<longleftrightarrow> i = j"
    by (simp_all add: keys before_colon plain inj)
qed

section \<open>A concrete client library for witnesses\<close>

text \<open>
  Addresses with a scheme and a host, a keychain that is a map, and an encoding that knows the
  configurations of one installation.
\<close>

definition sample_url_parse :: "ustr \<Rightarrow> (ustr \<times> ustr) option" where
  "sample_url_parse s =
     (case strip_prefix (lit ''https://'') s of
        Some r \<Rightarrow> let h = takeWhile (\<lambda>c. c \<noteq> 47) r in if h = [] then None else Some (lit ''https'', h)
      | None \<Rightarrow>
          (case strip_prefix (lit ''http://'') s of
             Some r \<Rightarrow> let h = takeWhile (\<lambda>c. c \<noteq> 47) r in if h = [] then None else Some (lit ''http'', h)
           | None \<Rightarrow> None))"

definition sample_agent_config :: "transport_mode \<Rightarrow> agent_config" where
  "sample_agent_config mode =
     \<lparr>gc_server_url = lit ''https://tb.io'', gc_device_name = lit ''Mac'', gc_installation_id = 7,
      gc_transport_mode = mode, gc_quic_port = 443, gc_kcp_port = 4000\<rparr>"

definition mode_code :: "transport_mode \<Rightarrow> u8" where
  "mode_code mode = (case mode of MAuto \<Rightarrow> 0 | MQuic \<Rightarrow> 1 | MKcp \<Rightarrow> 2 | MWss \<Rightarrow> 3)"

definition mode_decode :: "u8 \<Rightarrow> transport_mode" where
  "mode_decode n = (if n = 0 then MAuto else if n = 1 then MQuic else if n = 2 then MKcp else MWss)"

lemma mode_decode_code: "mode_decode (mode_code m) = m"
  by (cases m) (simp_all add: mode_code_def mode_decode_def)

definition sample_dlib :: "(ustr \<times> ustr, ustr \<rightharpoonup> ustr) dlib" where
  "sample_dlib =
     \<lparr>d_url_parse = sample_url_parse, d_url_scheme = fst, d_url_host = (\<lambda>u. Some (snd u)),
      d_url_set_path = (\<lambda>p u. u), d_url_drop_query = (\<lambda>u. u), d_url_drop_fragment = (\<lambda>u. u),
      d_url_set_scheme = (\<lambda>s u. Some (s, snd u)), d_url_text = (\<lambda>u. fst u @ lit ''://'' @ snd u @ lit ''/''),
      d_key_set = (\<lambda>u v k. (Inr (), k(u \<mapsto> v))),
      d_key_get = (\<lambda>u k. case k u of Some v \<Rightarrow> Inr v | None \<Rightarrow> Inl (lit ''no entry'')),
      d_config_json = (\<lambda>c. if c = sample_agent_config (gc_transport_mode c) then Some [mode_code (gc_transport_mode c)] else None),
      d_config_parse = (\<lambda>b. case b of [n] \<Rightarrow> Some (sample_agent_config (mode_decode n)) | _ \<Rightarrow> None),
      d_b64_decode = (\<lambda>s. Some (map of_nat s)), d_sha256_hex = map unat, d_root_ok = (\<lambda>der. True),
      d_token_header_ok = (\<lambda>t. True), d_tunnel_parse = (\<lambda>b. Inl []), d_tunnels_parse = (\<lambda>b. Inr []),
      d_enrollment_parse = (\<lambda>b. Inr \<lparr>en_tunnels = [], en_transport_fingerprint = [5], en_transport_certificate_der = [5],
         en_quic_port = 443, en_kcp_port = 4000, en_capabilities = default_capabilities\<rparr>),
      d_api_error_parse = (\<lambda>b. None), d_status_text = decimal, d_io_text = lit ''io'', d_json_text = lit ''json''\<rparr>"

lemma sample_dlib_sel:
  "d_url_parse sample_dlib = sample_url_parse" "d_url_host sample_dlib u = Some (snd u)"
  "d_b64_decode sample_dlib t = Some (map of_nat t)" "d_sha256_hex sample_dlib b = map unat b"
  "d_root_ok sample_dlib b" "d_url_set_scheme sample_dlib v u = Some (v, snd u)" "d_url_set_path sample_dlib v u = u"
  "d_token_header_ok sample_dlib v"
  "d_enrollment_parse sample_dlib b = Inr \<lparr>en_tunnels = [], en_transport_fingerprint = [5], en_transport_certificate_der = [5],
     en_quic_port = 443, en_kcp_port = 4000, en_capabilities = default_capabilities\<rparr>"
  "d_tunnels_parse sample_dlib b = Inr []"
  by (simp_all add: sample_dlib_def)

text \<open>The entries of that installation, with the digest given.\<close>

definition sample_keys :: "ustr \<Rightarrow> ustr \<rightharpoonup> ustr" where
  "sample_keys digest =
     [l_uuid_text sample_lib 7 \<mapsto> lit ''token'', fingerprint_key sample_lib 7 \<mapsto> digest,
      certificate_key sample_lib 7 \<mapsto> [5]]"

lemma sample_loads:
  "load_token sample_dlib sample_lib 7 (sample_keys digest) = Inr (lit ''token'')"
  "load_transport_fingerprint sample_dlib sample_lib 7 (sample_keys digest) = Inr digest"
  "load_transport_certificate sample_dlib sample_lib 7 (sample_keys digest) = Inr [5]"
  by (simp_all add: load_token_def load_transport_fingerprint_def load_transport_certificate_def sample_dlib_def
      sample_keys_def fingerprint_key_def certificate_key_def sample_lib_def lit_def)

lemma sample_keychain: "keychain_law sample_dlib"
  by (auto simp: keychain_law_def sample_dlib_def)

lemma sample_config_json: "config_json_ok sample_dlib"
  by (auto simp: config_json_ok_def sample_dlib_def mode_decode_code split: if_splits)

lemma trim_end_slash: "47 \<notin> set h \<Longrightarrow> h \<noteq> [] \<Longrightarrow> trim_end_matches 47 (p @ h @ [47]) = p @ h"
  unfolding trim_end_matches_def append_assoc [symmetric] drop_while_end_snoc
  by (simp, rule drop_while_end_id) (auto simp: last_append dest: last_in_set)

lemma sample_url_text:
  assumes "47 \<notin> set h" and "h \<noteq> []" and "p = lit ''https'' \<or> p = lit ''http''"
  shows "sample_url_parse (trim_end_matches 47 (p @ lit ''://'' @ h @ lit ''/'')) = Some (p, h)"
proof -
  have keep: "takeWhile (\<lambda>c. c \<noteq> 47) h = h" using assms(1) by (induction h) auto
  have "lit ''/'' = [47]" by (simp add: lit_def)
  then have t: "trim_end_matches 47 (p @ lit ''://'' @ h @ lit ''/'') = p @ lit ''://'' @ h"
    using trim_end_slash [OF assms(1,2), of "p @ lit ''://''"] by simp
  from assms(3) show ?thesis
  proof
    assume p: "p = lit ''https''"
    have e: "p @ lit ''://'' @ h = lit ''https://'' @ h" by (simp add: p lit_def)
    show ?thesis unfolding t e by (simp add: sample_url_parse_def keep assms(2) p)
  next
    assume p: "p = lit ''http''"
    have e: "p @ lit ''://'' @ h = lit ''http://'' @ h" by (simp add: p lit_def)
    have "strip_prefix (lit ''https://'') (lit ''http://'' @ h) = None"
      by (simp add: strip_prefix_def starts_with_def lit_def)
    then show ?thesis unfolding t e by (simp add: sample_url_parse_def keep assms(2) p)
  qed
qed

lemma sample_url_host: "sample_url_parse v = Some u \<Longrightarrow> 47 \<notin> set (snd u) \<and> snd u \<noteq> []"
  by (auto simp: sample_url_parse_def Let_def dest!: set_takeWhileD split: option.splits if_splits)

lemma sample_url_law: "url_law sample_dlib"
  unfolding url_law_def
proof (intro allI impI)
  fix v :: ustr and u :: "ustr \<times> ustr"
  assume "d_url_parse sample_dlib v = Some u \<and>
     d_url_scheme sample_dlib u \<in> {lit ''http'', lit ''https''} \<and> d_url_host sample_dlib u \<noteq> None"
  then have "sample_url_parse v = Some u" "fst u = lit ''https'' \<or> fst u = lit ''http''"
    by (auto simp: sample_dlib_def)
  with sample_url_host [of v u] sample_url_text [of "snd u" "fst u"]
  show "\<exists>w. d_url_parse sample_dlib (trim_end_matches 47 (d_url_text sample_dlib
        (d_url_drop_fragment sample_dlib (d_url_drop_query sample_dlib (d_url_set_path sample_dlib [] u))))) = Some w \<and>
      d_url_scheme sample_dlib w = d_url_scheme sample_dlib u \<and> d_url_host sample_dlib w = d_url_host sample_dlib u"
    by (intro exI [of _ u]) (simp add: sample_dlib_def)
qed

section \<open>Properties\<close>

text \<open>The host of an IPv6 address comes in brackets, which \<open>IpAddr\<close> does not parse.\<close>

lemma ipv6_loopback_refused:
  "d_url_parse D (trim v) = Some u \<Longrightarrow> d_url_scheme D u = lit ''http'' \<Longrightarrow> d_url_host D u = Some (lit ''[::1]'') \<Longrightarrow>
     normalize_server_url D v = Inl UrlNotHttps"
proof -
  have none: "read_number radix m z n (91 # r) = None" for radix m z n r
    by (simp add: read_number_def to_digit_def hex_digit_def is_ascii_digit_def Let_def split: option.split)
  then have "read_ipv4 (91 # r) = None" for r
    by (simp add: read_ipv4_def eval_nat_numeral read_separator_def)
  moreover from this none have "read_groups 8 0 [] (91 # r) = ([], False, 91 # r)" for r
    by (subst read_groups.simps) (simp add: read_separator_def)
  ultimately have "parse_ip (91 # r) = None" for r
    by (simp add: parse_ip_def parse_all_def read_ip_def read_ipv6_def read_char_def)
  then have "\<not> is_loopback_host (lit ''[::1]'')"
    by (simp add: is_loopback_host_def lit_def)
  then show "d_url_parse D (trim v) = Some u \<Longrightarrow> d_url_scheme D u = lit ''http'' \<Longrightarrow>
     d_url_host D u = Some (lit ''[::1]'') \<Longrightarrow> normalize_server_url D v = Inl UrlNotHttps"
    by (simp add: normalize_server_url_def)
qed

lemma sample_normalized:
  "d_url_parse sample_dlib (trim (lit ''https://tb.io/x'')) = Some (lit ''https'', lit ''tb.io'')"
  "normalize_server_url sample_dlib (lit ''https://tb.io/x'') = Inr (lit ''https://tb.io'')"
proof -
  show parsed: "d_url_parse sample_dlib (trim (lit ''https://tb.io/x'')) = Some (lit ''https'', lit ''tb.io'')"
    by (simp add: sample_dlib_def trim_id sample_url_parse_def strip_prefix_def starts_with_def lit_def is_whitespace_def)
  have "trim_end_matches 47 (lit ''https'' @ lit ''://'' @ lit ''tb.io'' @ lit ''/'') = lit ''https://tb.io''"
    using trim_end_slash [of "lit ''tb.io''" "lit ''https://''"] by (simp add: lit_def)
  then show "normalize_server_url sample_dlib (lit ''https://tb.io/x'') = Inr (lit ''https://tb.io'')"
    unfolding normalize_server_url_Inr
    by (intro exI [of _ "(lit ''https'', lit ''tb.io'')"] exI [of _ "lit ''tb.io''"] conjI parsed)
      (simp_all add: sample_dlib_def)
qed

text \<open>
  The address a desktop accepts. A normalised address parses to a URL with the host that was typed and the
  scheme https, or http and then the host is \<open>localhost\<close> or a loopback IP address: the token
  and the tunnels never cross a network unencrypted. It does not end in a slash, so a path can be
  appended, and normalising it again gives the same scheme and host.
\<close>

theorem server_url_safe:
  assumes "url_law D" and "normalize_server_url D v = Inr s"
  shows "\<exists>u w h. d_url_parse D (trim v) = Some u \<and> d_url_parse D s = Some w \<and>
       d_url_host D u = Some h \<and> d_url_host D w = Some h \<and> d_url_scheme D w = d_url_scheme D u \<and>
       (d_url_scheme D w = lit ''https'' \<or>
        d_url_scheme D w = lit ''http'' \<and> (h = lit ''localhost'' \<or> (\<exists>a. parse_ip h = Some a \<and> is_loopback a))) \<and>
       (s = [] \<or> last s \<noteq> 47)"
proof -
  obtain u h where u: "d_url_parse D (trim v) = Some u" "d_url_host D u = Some h"
      "d_url_scheme D u = lit ''https'' \<or> d_url_scheme D u = lit ''http'' \<and> is_loopback_host h"
      "s = trim_end_matches 47 (d_url_text D (d_url_drop_fragment D (d_url_drop_query D (d_url_set_path D [] u))))"
    using assms(2) unfolding normalize_server_url_Inr by blast
  have "d_url_scheme D u \<in> {lit ''http'', lit ''https''}" using u(3) by blast
  with assms(1) u(1,2,4) obtain w where w: "d_url_parse D s = Some w" "d_url_scheme D w = d_url_scheme D u"
      "d_url_host D w = d_url_host D u"
    unfolding url_law_def by (metis option.distinct(1))
  have "s = [] \<or> last s \<noteq> 47"
    unfolding u(4) trim_end_matches_def using drop_while_end_last by blast
  moreover have "is_loopback_host h \<Longrightarrow> h = lit ''localhost'' \<or> (\<exists>a. parse_ip h = Some a \<and> is_loopback a)"
    by (auto simp: is_loopback_host_def split: option.splits)
  ultimately show ?thesis using u(1,2,3) w by (intro exI [of _ u] exI [of _ w] exI [of _ h]) auto
qed

theorem server_url_safe_witness:
  "\<exists>u w h. d_url_parse sample_dlib (trim (lit ''https://tb.io/x'')) = Some u \<and>
     d_url_parse sample_dlib (lit ''https://tb.io'') = Some w \<and>
     d_url_host sample_dlib u = Some h \<and> d_url_host sample_dlib w = Some h"
  using server_url_safe [OF sample_url_law sample_normalized(2)] by blast

lemma case_snoc: "(case xs @ [x] of [] \<Rightarrow> a | ys \<Rightarrow> f (last ys)) = f x"
  by (cases xs) auto

text \<open>
  The configuration file. After any number of saves, each of which may fail or be cut off by a
  crash at any point (while creating the directory, opening, writing or renaming the temporary file), loading
  gives exactly the last configuration whose save was reported as done, or what was there
  before the first one: a save is never lost and a broken one never seen.
\<close>

theorem config_file_atomic:
  assumes "config_json_ok D"
  shows "load_config D False (fold (\<lambda>(fault, c) dk. snd (save_config D fault c dk)) saves dk) =
     (case filter (\<lambda>(fault, c). fst (save_config D fault c dk) = Inr ()) saves of
        [] \<Rightarrow> load_config D False dk
      | done \<Rightarrow> Inr (Some (snd (last done))))"
proof (induction saves rule: rev_induct)
  case (snoc x saves)
  obtain fault c where x: "x = (fault, c)" by (cases x)
  let ?dk = "fold (\<lambda>(fault, c) dk. snd (save_config D fault c dk)) saves dk"
  have same: "fst (save_config D fault c ?dk) = fst (save_config D fault c dk)"
    by (auto simp: save_config_def rename_tmp_def write_tmp_def Let_def split: option.splits save_fault.splits)
  obtain r dk' where run: "save_config D fault c ?dk = (r, dk')" by (cases "save_config D fault c ?dk")
  from save_config_cases [OF run] show ?case
  proof
    assume finished: "r = Inr () \<and> fault = None \<and>
      (\<exists>b. d_config_json D c = Some b \<and> dk_config dk' = Some b \<and> dk_tmp dk' = None)"
    then have "load_config D False dk' = Inr (Some c)"
      using assms by (auto simp: load_config_def config_json_ok_def)
    moreover have "fst (save_config D fault c dk) = Inr ()" using finished run same by simp
    ultimately show ?thesis using run by (simp add: x case_snoc [where f = "\<lambda>y. Inr (Some (snd y))"])
  next
    assume failed: "(\<exists>e. r = Inl e) \<and> dk_config dk' = dk_config ?dk"
    then have "load_config D False dk' = load_config D False ?dk" by (intro load_config_cong) simp
    then show ?thesis using failed run same snoc.IH by (auto simp: x)
  qed
qed simp

theorem config_file_atomic_witness:
  "load_config sample_dlib False
     (fold (\<lambda>(fault, c) dk. snd (save_config sample_dlib fault c dk))
       [(None, sample_agent_config MAuto), (Some (WriteFault 0), sample_agent_config MKcp)]
       \<lparr>dk_dir = False, dk_config = None, dk_tmp = None\<rparr>) = Inr (Some (sample_agent_config MAuto))"
proof -
  let ?dk = "\<lparr>dk_dir = False, dk_config = None, dk_tmp = None\<rparr>"
  have "fst (save_config sample_dlib None (sample_agent_config MAuto) ?dk) = Inr ()"
    "fst (save_config sample_dlib (Some (WriteFault 0)) (sample_agent_config MKcp) ?dk) = Inl FileFault"
    by (simp_all add: save_config_def sample_dlib_def sample_agent_config_def rename_tmp_def write_tmp_def)
  then show ?thesis by (simp only: config_file_atomic [OF sample_config_json]) simp
qed

end
