(* ===== verification/Agent_Runtime.thy ===== *)
theory Agent_Runtime
  imports Agent_Config
begin

text \<open>
  The desktop client's shared state (desktop/src-tauri/src/runtime.rs): status, tunnels, metrics, the
  event log, the transport in use, the snapshot shown to the user, and, outside \<open>RuntimeState\<close>, the files
  and keychain the commands write and the requests they send. Texts that are not ASCII are given by
  their code points.
\<close>

section \<open>The state\<close>

datatype agent_status = StUnconfigured | StConnecting | StOnline | StOffline | StError

record event_entry =
  ee_at :: utc
  ee_level :: ustr
  ee_message :: ustr
  ee_peer_location :: "geo_location option"

text \<open>
  \<^item> \<open>rs_config\<close> to \<open>rs_transport\<close> are the fields of \<open>RuntimeState\<close>; the events are newest first, the
    cancellation token is a number;
  \<^item> \<open>rs_tray\<close>: title and tooltip of the tray icon, if there is one;
  \<^item> \<open>rs_disk\<close>, \<open>rs_keychain\<close>: the files and the keychain; \<open>rs_cancelled\<close>: the cancelled tokens;
    \<open>rs_restarts\<close>: the tokens of the agents that \<open>restart_agent\<close> has started, in order.
\<close>

record 'k runtime =
  rs_config :: "agent_config option"
  rs_status :: "agent_status \<times> ustr"
  rs_tunnels :: "tunnel list"
  rs_metrics :: metrics_snapshot
  rs_events :: "event_entry list"
  rs_cancellation :: "nat option"
  rs_transport :: "active_transport option \<times> ustr option"
  rs_tray :: "(ustr \<times> ustr) option"
  rs_disk :: disk
  rs_keychain :: 'k
  rs_cancelled :: "nat set"
  rs_restarts :: "nat list"

definition metrics_default :: metrics_snapshot where
  "metrics_default =
     \<lparr>ms_online_agents = 0, ms_active_connections = 0, ms_bytes_up = 0, ms_bytes_down = 0,
      ms_rejected_connections = 0, ms_failed_connections = 0, ms_carrier_sessions = 0,
      ms_active_udp_sessions = 0, ms_http_requests = 0, ms_quic_connections = 0,
      ms_kcp_connections = 0, ms_wss_connections = 0\<rparr>"

definition text_no_server :: ustr where
  "text_no_server = [0x5C1A, 0x672A, 0x8FDE, 0x63A5, 0x670D, 0x52A1, 0x5668]"

definition runtime_new :: "disk \<Rightarrow> 'k \<Rightarrow> (ustr \<times> ustr) option \<Rightarrow> 'k runtime" where
  "runtime_new dk k tray =
     \<lparr>rs_config = None, rs_status = (StUnconfigured, text_no_server), rs_tunnels = [],
      rs_metrics = metrics_default, rs_events = [], rs_cancellation = None, rs_transport = (None, None),
      rs_tray = tray, rs_disk = dk, rs_keychain = k, rs_cancelled = {}, rs_restarts = []\<rparr>"

section \<open>Status, log and transport\<close>

definition tray_status_symbol :: "agent_status \<Rightarrow> ustr" where
  "tray_status_symbol st =
     (case st of
        StOnline \<Rightarrow> [0x1F7E2] | StConnecting \<Rightarrow> [0x1F7E1]
      | StOffline \<Rightarrow> [0x1F534] | StError \<Rightarrow> [0x1F534] | StUnconfigured \<Rightarrow> [0x26AA])"

definition set_status :: "agent_status \<Rightarrow> ustr \<Rightarrow> 'k runtime \<Rightarrow> 'k runtime" where
  "set_status st message rt =
     rt\<lparr>rs_status := (st, message),
        rs_tray := map_option (\<lambda>_. (tray_status_symbol st, lit ''TunnelBridge '' @ [0x2014, 32] @ message)) (rs_tray rt)\<rparr>"

definition log_with_location :: "utc \<Rightarrow> string \<Rightarrow> ustr \<Rightarrow> geo_location option \<Rightarrow> 'k runtime \<Rightarrow> 'k runtime" where
  "log_with_location at level message loc rt =
     rt\<lparr>rs_events := take 200
          (\<lparr>ee_at = at, ee_level = lit level, ee_message = message, ee_peer_location = loc\<rparr> # rs_events rt)\<rparr>"

definition log_event :: "utc \<Rightarrow> string \<Rightarrow> ustr \<Rightarrow> 'k runtime \<Rightarrow> 'k runtime" where
  "log_event at level message = log_with_location at level message None"

definition set_transport :: "active_transport \<Rightarrow> ustr option \<Rightarrow> 'k runtime \<Rightarrow> 'k runtime" where
  "set_transport tr reason rt = rt\<lparr>rs_transport := (Some tr, reason)\<rparr>"

definition with_metrics :: "(metrics_snapshot \<Rightarrow> metrics_snapshot) \<Rightarrow> 'k runtime \<Rightarrow> 'k runtime" where
  "with_metrics f rt = rt\<lparr>rs_metrics := f (rs_metrics rt)\<rparr>"

section \<open>The snapshot\<close>

record app_snapshot =
  sn_configured :: bool
  sn_server_url :: "ustr option"
  sn_status :: agent_status
  sn_status_message :: ustr
  sn_tunnels :: "tunnel list"
  sn_metrics :: metrics_snapshot
  sn_events :: "event_entry list"
  sn_active_transport :: "active_transport option"
  sn_transport_fallback_reason :: "ustr option"
  sn_transport_mode :: "transport_mode option"

definition snapshot :: "'k runtime \<Rightarrow> app_snapshot" where
  "snapshot rt =
     \<lparr>sn_configured = (rs_config rt \<noteq> None),
      sn_server_url = map_option gc_server_url (rs_config rt),
      sn_status = fst (rs_status rt), sn_status_message = snd (rs_status rt),
      sn_tunnels = rs_tunnels rt, sn_metrics = rs_metrics rt, sn_events = rs_events rt,
      sn_active_transport = fst (rs_transport rt), sn_transport_fallback_reason = snd (rs_transport rt),
      sn_transport_mode = map_option gc_transport_mode (rs_config rt)\<rparr>"

section \<open>Facts\<close>

lemma runtime_sel [simp]:
  "rs_config (set_status st m rt) = rs_config rt" "rs_tunnels (set_status st m rt) = rs_tunnels rt"
  "rs_events (set_status st m rt) = rs_events rt" "rs_metrics (set_status st m rt) = rs_metrics rt"
  "rs_disk (set_status st m rt) = rs_disk rt" "rs_keychain (set_status st m rt) = rs_keychain rt"
  "rs_transport (set_status st m rt) = rs_transport rt" "rs_status (set_status st m rt) = (st, m)"
  "rs_cancelled (set_status st m rt) = rs_cancelled rt" "rs_restarts (set_status st m rt) = rs_restarts rt"
  "rs_cancellation (set_status st m rt) = rs_cancellation rt"
  by (simp_all add: set_status_def)

lemma log_sel [simp]:
  "rs_config (log_event t l m rt) = rs_config rt" "rs_tunnels (log_event t l m rt) = rs_tunnels rt"
  "rs_status (log_event t l m rt) = rs_status rt" "rs_metrics (log_event t l m rt) = rs_metrics rt"
  "rs_disk (log_event t l m rt) = rs_disk rt" "rs_keychain (log_event t l m rt) = rs_keychain rt"
  "rs_transport (log_event t l m rt) = rs_transport rt" "rs_cancelled (log_event t l m rt) = rs_cancelled rt"
  "rs_restarts (log_event t l m rt) = rs_restarts rt" "rs_cancellation (log_event t l m rt) = rs_cancellation rt"
  by (simp_all add: log_event_def log_with_location_def)

lemma log_location_sel [simp]:
  "rs_config (log_with_location t l m g rt) = rs_config rt" "rs_tunnels (log_with_location t l m g rt) = rs_tunnels rt"
  "rs_status (log_with_location t l m g rt) = rs_status rt" "rs_metrics (log_with_location t l m g rt) = rs_metrics rt"
  "rs_keychain (log_with_location t l m g rt) = rs_keychain rt"
  by (simp_all add: log_with_location_def)

lemma transport_sel [simp]:
  "rs_config (set_transport tr why rt) = rs_config rt" "rs_tunnels (set_transport tr why rt) = rs_tunnels rt"
  "rs_status (set_transport tr why rt) = rs_status rt" "rs_transport (set_transport tr why rt) = (Some tr, why)"
  "rs_keychain (set_transport tr why rt) = rs_keychain rt"
  by (simp_all add: set_transport_def)

text \<open>The event log after any number of entries: the newest 200, newest first.\<close>

definition entry_of :: "utc \<times> string \<times> ustr \<Rightarrow> event_entry" where
  "entry_of e = (case e of (t, l, m) \<Rightarrow> \<lparr>ee_at = t, ee_level = lit l, ee_message = m, ee_peer_location = None\<rparr>)"

lemma take_Cons_take: "take n (x # take n xs) = take n (x # xs)"
  by (cases n) (auto simp: min_def)

lemma fold_push: "es \<noteq> [] \<Longrightarrow> fold (\<lambda>e xs. take n (f e # xs)) es xs = take n (map f (rev es) @ xs)"
proof (induction es rule: rev_induct)
  case (snoc e es)
  show ?case
  proof (cases "es = []")
    case False
    then show ?thesis
      using snoc take_Cons_take [of n "f e" "map f (rev es) @ xs"] by (simp del: take_append take_Cons')
  qed simp
qed simp

lemma log_all:
  "rs_events (fold (\<lambda>(t, l, m). log_event t l m) es rt) =
     fold (\<lambda>e xs. take 200 (entry_of e # xs)) es (rs_events rt)"
  by (induction es arbitrary: rt) (auto simp: log_event_def log_with_location_def entry_of_def)

lemma log_newest:
  "es \<noteq> [] \<Longrightarrow> rs_events (fold (\<lambda>(t, l, m). log_event t l m) es rt) =
     take 200 (map entry_of (rev es) @ rs_events rt)"
  unfolding log_all by (rule fold_push)

end
