(* ===== verification/Agent_Stream.thy ===== *)
theory Agent_Stream
  imports Agent_Runtime Gateway_Facts
begin

text \<open>
  The desktop side of a carrier session (desktop/src-tauri/src/agent.rs): the queue of outbound messages,
  the control messages of the server, the relay of one connection to its local target
  (\<open>open_multiplexed_stream\<close>, \<open>bridge_local\<close>) and of one UDP session (\<open>open_udp_session\<close>). As in \<open>Gateway\<close> a
  handler is cut at its \<open>await\<close> points and what other tasks do meanwhile is an argument.
\<close>

section \<open>A carrier session\<close>

datatype outbound = OControl agent_control_message | OBinary bytes | OClose

text \<open>
  \<open>se_streams\<close> is the set of ids with an entry in \<open>LocalStreams\<close>, \<open>se_inbound\<close> the channels whose receiver is
  alive, \<open>se_outbound\<close> the queue towards the writer, \<open>None\<close> once the writer has ended.
\<close>

record 'k session =
  se_rt :: "'k runtime"
  se_streams :: "uuid set"
  se_inbound :: "uuid \<rightharpoonup> inbound_frame list"
  se_outbound :: "outbound list option"

definition session_new :: "'k runtime \<Rightarrow> 'k session" where
  "session_new rt = \<lparr>se_rt = rt, se_streams = {}, se_inbound = Map.empty, se_outbound = Some []\<rparr>"

definition OUTBOUND_CAPACITY :: nat where
  "OUTBOUND_CAPACITY = 256"

text \<open>
  The errors of the agent. \<open>Blocked\<close> is none of them: it says that the task is still waiting for room in
  the outbound queue or in a stream's channel.
\<close>

datatype agent_error =
    Blocked
  | OutboundClosed
  | WrongVersion u16
  | BadJson
  | ConnectFailed ustr
  | TlsFailed ustr
  | LocalFailed bridge_error
  | UdpIdle
  | UdpIo
  | CarrierRead
  | ReprobeQuic
  | KeychainFailed ustr
  | BadCertificate
  | FingerprintMismatch
  | BadServerUrl
  | BadTokenHeader

definition send_outbound :: "outbound \<Rightarrow> 'k session \<Rightarrow> send_outcome \<times> 'k session" where
  "send_outbound m se =
     (case se_outbound se of
        None \<Rightarrow> (SendClosed, se)
      | Some q \<Rightarrow>
          if length q < OUTBOUND_CAPACITY then (Sent, se\<lparr>se_outbound := Some (q @ [m])\<rparr>) else (SendWaits, se))"

definition send_out :: "outbound \<Rightarrow> ('k session, agent_error, unit) act" where
  "send_out m se =
     (case send_outbound m se of
        (Sent, se') \<Rightarrow> (Inr (), se')
      | (SendWaits, se') \<Rightarrow> (Inl Blocked, se')
      | (SendClosed, se') \<Rightarrow> (Inl OutboundClosed, se'))"

definition on_rt :: "('k runtime \<Rightarrow> 'k runtime) \<Rightarrow> 'k session \<Rightarrow> 'k session" where
  "on_rt f se = se\<lparr>se_rt := f (se_rt se)\<rparr>"

definition route_local_frame :: "lib \<Rightarrow> bytes \<Rightarrow> 'k session \<Rightarrow> 'k session option" where
  "route_local_frame L frame se =
     (case decode_carrier_frame (l_uuid_of_slice L) frame of
        None \<Rightarrow> Some se
      | Some (kind, i, payload) \<Rightarrow>
          if i \<in> se_streams se then
            (case send_bounded STREAM_CAPACITY i \<lparr>if_kind = kind, if_payload = payload\<rparr> (se_inbound se) of
               (SendWaits, m) \<Rightarrow> None
             | (r, m) \<Rightarrow> Some (se\<lparr>se_inbound := m\<rparr>))
          else Some se)"

section \<open>Control messages\<close>

text \<open>A task that relays one offered connection or UDP session.\<close>

record offer_task =
  ot_udp :: bool
  ot_id :: uuid
  ot_tunnel :: tunnel
  ot_ticket :: ustr
  ot_peer_addr :: ustr
  ot_peer_location :: "geo_location option"

definition text_colon :: ustr where "text_colon = [0xFF1A]"
definition text_server_error :: ustr where
  "text_server_error = [0x670D, 0x52A1, 0x5668, 0x9519, 0x8BEF, 32]"

text \<open>
  \<open>dispatch_control_message\<close> for the direct carriers: the tasks it spawns, or the error that ends the
  carrier; \<open>at\<close> is the time of a log entry.
\<close>

definition dispatch_control_message ::
  "utc \<Rightarrow> agent_control_message \<Rightarrow> ('k session, agent_error, offer_task list) act" where
  "dispatch_control_message at m =
     (case m of
        Welcome v _ _ tr \<Rightarrow>
          seq (lift (ensure (v = PROTOCOL_VERSION) (WrongVersion v))) (\<lambda>_.
          seq (modify (on_rt (set_transport (unwrap_or tr TQuic) None))) (\<lambda>_. ok []))
      | ConfigSync ts \<Rightarrow> seq (modify (on_rt (\<lambda>rt. rt\<lparr>rs_tunnels := ts\<rparr>))) (\<lambda>_. ok [])
      | OpenConnection i t peer loc ticket _ \<Rightarrow>
          ok [\<lparr>ot_udp = False, ot_id = i, ot_tunnel = t, ot_ticket = ticket, ot_peer_addr = peer, ot_peer_location = loc\<rparr>]
      | OpenUdpSession i t peer loc ticket _ \<Rightarrow>
          ok [\<lparr>ot_udp = True, ot_id = i, ot_tunnel = t, ot_ticket = ticket, ot_peer_addr = peer, ot_peer_location = loc\<rparr>]
      | ErrorMsg code message \<Rightarrow>
          seq (modify (on_rt (log_event at ''error'' (text_server_error @ code @ text_colon @ message)))) (\<lambda>_. ok [])
      | _ \<Rightarrow> ok [])"

text \<open>The same messages inside \<open>run_wss_carrier\<close>, where the default transport differs.\<close>

definition wss_control_message ::
  "utc \<Rightarrow> agent_control_message \<Rightarrow> ('k session, agent_error, offer_task list) act" where
  "wss_control_message at m =
     (case m of
        Welcome v _ _ tr \<Rightarrow>
          if v \<noteq> PROTOCOL_VERSION then fail (WrongVersion v)
          else seq (modify (on_rt (set_transport (unwrap_or tr TWss) None))) (\<lambda>_. ok [])
      | _ \<Rightarrow> dispatch_control_message at m)"

section \<open>The pumps of one connection\<close>

definition add_bytes_up :: "nat \<Rightarrow> metrics_snapshot \<Rightarrow> metrics_snapshot" where
  "add_bytes_up n ms = ms\<lparr>ms_bytes_up := ms_bytes_up ms + of_nat n\<rparr>"

definition add_bytes_down :: "nat \<Rightarrow> metrics_snapshot \<Rightarrow> metrics_snapshot" where
  "add_bytes_down n ms = ms\<lparr>ms_bytes_down := ms_bytes_down ms + of_nat n\<rparr>"

definition local_up_step ::
  "lib \<Rightarrow> uuid \<Rightarrow> 'k session bridge_event \<Rightarrow> bridge \<Rightarrow> 'k session \<Rightarrow> bridge \<times> 'k session" where
  "local_up_step L i ev b se =
     (if br_up b \<noteq> None then (b, se)
      else case br_held b of
        None \<Rightarrow>
          (case ev of
             UpIdle \<Rightarrow> (b\<lparr>br_up := Some (Inl IdleTimeout)\<rparr>, se)
           | UpFail \<Rightarrow> (b\<lparr>br_up := Some (Inl IoError)\<rparr>, se)
           | UpRead bs \<Rightarrow> (if length bs \<le> BUFFER_SIZE then (b\<lparr>br_held := Some bs\<rparr>, se) else (b, se))
           | _ \<Rightarrow> (b, se))
      | Some chunk \<Rightarrow>
          (case ev of
             UpSend \<Rightarrow>
               (case send_outbound (OBinary (up_frame L i chunk)) se of
                  (SendClosed, se1) \<Rightarrow> (b\<lparr>br_up := Some (Inl CarrierClosed)\<rparr>, se1)
                | (SendWaits, se1) \<Rightarrow> (b, se1)
                | (Sent, se1) \<Rightarrow>
                    let b1 = b\<lparr>br_held := None, br_read := br_read b @ [chunk],
                               br_frames := br_frames b @ [up_frame L i chunk]\<rparr> in
                    if chunk = [] then (b1\<lparr>br_up := Some (Inr ())\<rparr>, se1)
                    else (b1, on_rt (with_metrics (add_bytes_up (length chunk))) se1))
           | _ \<Rightarrow> (b, se)))"

definition local_deliver ::
  "inbound_frame \<Rightarrow> nat option \<Rightarrow> bridge \<Rightarrow> 'k session \<Rightarrow> bridge \<times> 'k session" where
  "local_deliver m fault b se =
     (if if_kind m = CARRIER_FRAME_DATA then
        (case fault of
           Some n \<Rightarrow> (b\<lparr>br_out := br_out b @ take n (if_payload m), br_down := Some (Inl IoError)\<rparr>, se)
         | None \<Rightarrow>
             (b\<lparr>br_out := br_out b @ if_payload m\<rparr>,
              on_rt (with_metrics (add_bytes_down (length (if_payload m)))) se))
      else if if_kind m = CARRIER_FRAME_FIN then
        (case fault of
           Some n \<Rightarrow> (b\<lparr>br_down := Some (Inl IoError)\<rparr>, se)
         | None \<Rightarrow> (b\<lparr>br_shutdown := True, br_down := Some (Inr ())\<rparr>, se))
      else if if_kind m = CARRIER_FRAME_RESET then (b\<lparr>br_down := Some (Inl ResetByPeer)\<rparr>, se)
      else (b, se))"

definition local_down_step ::
  "uuid \<Rightarrow> 'k session bridge_event \<Rightarrow> bridge \<Rightarrow> 'k session \<Rightarrow> bridge \<times> 'k session" where
  "local_down_step i ev b se =
     (if br_down b \<noteq> None then (b, se)
      else case ev of
        DownIdle \<Rightarrow>
          (if se_inbound se i = Some [] then (b\<lparr>br_down := Some (Inl IdleTimeout)\<rparr>, se) else (b, se))
      | DownFrame fault \<Rightarrow>
          (case se_inbound se i of
             Some (m # q) \<Rightarrow>
               local_deliver m fault (b\<lparr>br_seen := br_seen b @ [m]\<rparr>) (se\<lparr>se_inbound := (se_inbound se)(i \<mapsto> q)\<rparr>)
           | _ \<Rightarrow> (b, se))
      | DownClosed \<Rightarrow>
          (if se_inbound se i = Some [] \<and> i \<notin> se_streams se then (b\<lparr>br_down := Some (Inr ())\<rparr>, se) else (b, se))
      | _ \<Rightarrow> (b, se))"

definition local_step ::
  "lib \<Rightarrow> uuid \<Rightarrow> 'k session bridge_event \<Rightarrow> bridge \<times> 'k session \<Rightarrow> bridge \<times> 'k session" where
  "local_step L i ev bs =
     (case bs of (b, se) \<Rightarrow>
      case ev of
        Others f \<Rightarrow> (b, f se)
      | _ \<Rightarrow> (case local_up_step L i ev b se of (b1, se1) \<Rightarrow> local_down_step i ev b1 se1))"

definition bridge_local ::
  "lib \<Rightarrow> uuid \<Rightarrow> 'k session bridge_event list \<Rightarrow> bridge \<times> 'k session \<Rightarrow> bridge \<times> 'k session" where
  "bridge_local L i evs bs = fold (local_step L i) evs bs"

section \<open>One connection\<close>

text \<open>
  What happens outside: the result of connecting to the local target, what other tasks do until the
  acknowledgement is queued, the result of the TLS handshake with an HTTPS target, the events of the
  bridge.
\<close>

record 'k stream_input =
  si_connect :: "ustr + unit"
  si_others :: "'k session \<Rightarrow> 'k session"
  si_tls :: "ustr + unit"
  si_events :: "'k session bridge_event list"

definition ack_message :: "uuid \<Rightarrow> bool \<Rightarrow> ustr option \<Rightarrow> ustr \<Rightarrow> outbound" where
  "ack_message i accepted err ticket = OControl (ConnectionAck i accepted err (Some ticket))"

definition text_connect_failed :: ustr where
  "text_connect_failed = [0x8FDE, 0x63A5, 0x672C, 0x5730, 0x76EE, 0x6807, 0x5931, 0x8D25, 0xFF1A]"

definition text_udp_connect_failed :: ustr where
  "text_udp_connect_failed =
     [0x8FDE, 0x63A5, 0x672C, 0x5730, 32, 85, 68, 80, 32, 0x76EE, 0x6807, 0x5931, 0x8D25, 0xFF1A]"

definition register_stream :: "uuid \<Rightarrow> 'k session \<Rightarrow> 'k session" where
  "register_stream i se =
     se\<lparr>se_inbound := (se_inbound se)(i \<mapsto> []), se_streams := insert i (se_streams se)\<rparr>"

text \<open>The task's end drops the receiver; only some paths remove the entry.\<close>

definition drop_receiver :: "uuid \<Rightarrow> 'k session \<Rightarrow> 'k session" where
  "drop_receiver i se = se\<lparr>se_inbound := (se_inbound se)(i := None)\<rparr>"

definition remove_stream :: "uuid \<Rightarrow> 'k session \<Rightarrow> 'k session" where
  "remove_stream i se = (drop_receiver i se)\<lparr>se_streams := se_streams se - {i}\<rparr>"

text \<open>An error that leaves the handler after the registration, except waiting, drops the receiver.\<close>

definition leaving :: "uuid \<Rightarrow> ('k session, agent_error, 'a) act \<Rightarrow> ('k session, agent_error, 'a) act" where
  "leaving i m se =
     (case m se of
        (Inl e, se') \<Rightarrow> (Inl e, if e = Blocked then se' else drop_receiver i se')
      | (Inr x, se') \<Rightarrow> (Inr x, se'))"

definition wants_tls :: "tunnel \<Rightarrow> bool" where
  "wants_tls t \<longleftrightarrow> t_kind t = KWeb \<and> t_local_scheme t = SHttps"

definition open_multiplexed_stream ::
  "lib \<Rightarrow> 'k stream_input \<Rightarrow> uuid \<Rightarrow> tunnel \<Rightarrow> ustr \<Rightarrow> ('k session, agent_error, bridge) act" where
  "open_multiplexed_stream L io i t ticket =
     (case si_connect io of
        Inl e \<Rightarrow>
          seq (modify (si_others io)) (\<lambda>_.
          seq (send_out (ack_message i False (Some (text_connect_failed @ e)) ticket)) (\<lambda>_. fail (ConnectFailed e)))
      | Inr _ \<Rightarrow>
          seq (modify (register_stream i)) (\<lambda>_.
          seq (leaving i (
            seq (modify (si_others io)) (\<lambda>_.
            seq (send_out (ack_message i True None ticket)) (\<lambda>_.
            lift (if wants_tls t then (case si_tls io of Inl e \<Rightarrow> Inl (TlsFailed e) | Inr _ \<Rightarrow> Inr ()) else Inr ()))))) (\<lambda>_.
          seq (\<lambda>se. case bridge_local L i (si_events io) (bridge_start, se) of (b, se') \<Rightarrow> (Inr b, se')) (\<lambda>b.
          case bridge_result b of
            None \<Rightarrow> ok b
          | Some r \<Rightarrow>
              seq (modify (remove_stream i)) (\<lambda>_.
              lift (case r of Inl e \<Rightarrow> Inl (LocalFailed e) | Inr _ \<Rightarrow> Inr b))))))"

section \<open>One UDP session\<close>

text \<open>
  The two loops of a UDP session: \<open>ul_since\<close> is when the pending \<open>recv\<close> on the local socket began, \<open>ul_held\<close>
  a datagram read and not yet queued, \<open>ul_sent\<close> and \<open>ul_received\<close> the datagrams sent to the local target and
  queued for the carrier.
\<close>

record udp_local =
  ul_since :: instant
  ul_held :: "bytes option"
  ul_sent :: "bytes list"
  ul_received :: "bytes list"
  ul_end :: "(agent_error + unit) option"

definition udp_local_start :: "instant \<Rightarrow> udp_local" where
  "udp_local_start now = \<lparr>ul_since = now, ul_held = None, ul_sent = [], ul_received = [], ul_end = None\<rparr>"

text \<open>
  The next frame is taken and sent to the target, with success or not; the channel is closed; a datagram
  arrives from the target; the receive fails; the held datagram is offered to the carrier, after which
  the next receive begins; the clock; other tasks.
\<close>

datatype 's udp_event =
    UIn bool | UClosed | URecv bytes | URecvFail | USend instant | UTick instant | UOthers "'s \<Rightarrow> 's"

definition udp_in :: "uuid \<Rightarrow> bool \<Rightarrow> udp_local \<Rightarrow> 'k session \<Rightarrow> udp_local \<times> 'k session" where
  "udp_in i sent u se =
     (case se_inbound se i of
        Some (m # q) \<Rightarrow>
          let se1 = se\<lparr>se_inbound := (se_inbound se)(i \<mapsto> q)\<rparr> in
          if if_kind m = CARRIER_FRAME_DATAGRAM then
            if sent then
              (u\<lparr>ul_sent := ul_sent u @ [if_payload m]\<rparr>,
               on_rt (with_metrics (add_bytes_down (length (if_payload m)))) se1)
            else (u\<lparr>ul_end := Some (Inl UdpIo)\<rparr>, se1)
          else (u, se1)
      | _ \<Rightarrow> (u, se))"

definition udp_out :: "lib \<Rightarrow> uuid \<Rightarrow> instant \<Rightarrow> bytes \<Rightarrow> udp_local \<Rightarrow> 'k session \<Rightarrow> udp_local \<times> 'k session" where
  "udp_out L i now bs u se =
     (case send_outbound (OBinary (encode_carrier_frame (l_uuid_bytes L) CARRIER_FRAME_DATAGRAM i bs)) se of
        (Sent, se1) \<Rightarrow>
          (u\<lparr>ul_held := None, ul_received := ul_received u @ [bs], ul_since := now\<rparr>,
           on_rt (with_metrics (add_bytes_up (length bs))) se1)
      | (SendWaits, se1) \<Rightarrow> (u, se1)
      | (SendClosed, se1) \<Rightarrow> (u\<lparr>ul_end := Some (Inl OutboundClosed)\<rparr>, se1))"

definition udp_local_step ::
  "lib \<Rightarrow> uuid \<Rightarrow> 'k session udp_event \<Rightarrow> udp_local \<times> 'k session \<Rightarrow> udp_local \<times> 'k session" where
  "udp_local_step L i ev us =
     (case us of (u, se) \<Rightarrow>
      if ul_end u \<noteq> None then (case ev of UOthers f \<Rightarrow> (u, f se) | _ \<Rightarrow> (u, se))
      else case ev of
        UOthers f \<Rightarrow> (u, f se)
      | UIn sent \<Rightarrow> udp_in i sent u se
      | UClosed \<Rightarrow>
          (if se_inbound se i = Some [] \<and> i \<notin> se_streams se then (u\<lparr>ul_end := Some (Inr ())\<rparr>, se) else (u, se))
      | URecv bs \<Rightarrow>
          (if ul_held u = None \<and> length bs \<le> MAX_UDP_DATAGRAM then (u\<lparr>ul_held := Some bs\<rparr>, se) else (u, se))
      | URecvFail \<Rightarrow> (if ul_held u = None then (u\<lparr>ul_end := Some (Inl UdpIo)\<rparr>, se) else (u, se))
      | USend now \<Rightarrow> (case ul_held u of Some bs \<Rightarrow> udp_out L i now bs u se | None \<Rightarrow> (u, se))
      | UTick now \<Rightarrow>
          (if ul_held u = None \<and> ul_since u + secs 60 \<le> now then (u\<lparr>ul_end := Some (Inl UdpIdle)\<rparr>, se) else (u, se)))"

definition udp_local_run ::
  "lib \<Rightarrow> uuid \<Rightarrow> 'k session udp_event list \<Rightarrow> udp_local \<times> 'k session \<Rightarrow> udp_local \<times> 'k session" where
  "udp_local_run L i evs us = fold (udp_local_step L i) evs us"

record 'k local_udp_input =
  uo_bind :: "ustr + unit"
  uo_connect :: "ustr + unit"
  uo_others :: "'k session \<Rightarrow> 'k session"
  uo_started :: instant
  uo_events :: "'k session udp_event list"

definition open_udp_session ::
  "lib \<Rightarrow> 'k local_udp_input \<Rightarrow> uuid \<Rightarrow> ustr \<Rightarrow> ('k session, agent_error, udp_local) act" where
  "open_udp_session L io i ticket =
     seq (lift (case uo_bind io of Inl e \<Rightarrow> Inl (ConnectFailed e) | Inr _ \<Rightarrow> Inr ())) (\<lambda>_.
     case uo_connect io of
       Inl e \<Rightarrow>
         seq (modify (uo_others io)) (\<lambda>_.
         seq (send_out (ack_message i False (Some (text_udp_connect_failed @ e)) ticket)) (\<lambda>_. fail (ConnectFailed e)))
     | Inr _ \<Rightarrow>
         seq (modify (register_stream i)) (\<lambda>_.
         seq (leaving i (seq (modify (uo_others io)) (\<lambda>_. send_out (ack_message i True None ticket)))) (\<lambda>_.
         seq (\<lambda>se. case udp_local_run L i (uo_events io) (udp_local_start (uo_started io), se) of (u, se') \<Rightarrow> (Inr u, se')) (\<lambda>u.
         case ul_end u of
           None \<Rightarrow> ok u
         | Some (Inl e) \<Rightarrow> seq (modify (drop_receiver i)) (\<lambda>_. fail e)
         | Some (Inr _) \<Rightarrow> seq (modify (remove_stream i)) (\<lambda>_. ok u)))))"

end
