(* ===== verification/Agent_Stream_Facts.thy ===== *)
theory Agent_Stream_Facts
  imports Agent_Stream
begin

text \<open>
  What the desktop side guarantees: its pumps are an instance of \<open>pumps\<close>, a connection is acknowledged once
  and with its ticket, frames only reach the stream they name, and how a UDP session ends.
\<close>

section \<open>The desktop's pumps\<close>

lemma send_outbound_inbound:
  "send_outbound m se = (r, se') \<Longrightarrow> se_inbound se' = se_inbound se \<and> se_streams se' = se_streams se \<and> se_rt se' = se_rt se"
  by (auto simp: send_outbound_def split: option.splits if_splits)

lemma on_rt_sel [simp]:
  "se_inbound (on_rt f se) = se_inbound se" "se_streams (on_rt f se) = se_streams se"
  "se_outbound (on_rt f se) = se_outbound se" "se_rt (on_rt f se) = f (se_rt se)"
  by (simp_all add: on_rt_def)

lemma local_cases:
  assumes "local_step L i ev (b, se) = (b', se')"
  obtains (others) f where "ev = Others f" "b' = b" "se' = f se"
    | (pumps) b1 se1 where "\<forall>f. ev \<noteq> Others f" "local_up_step L i ev b se = (b1, se1)"
        "local_down_step i ev b1 se1 = (b', se')"
  using assms by (cases ev) (auto simp: local_step_def split: prod.splits)

lemma local_up_step_down:
  assumes "local_up_step L i ev b se = (b', se')"
  shows "br_down b' = br_down b \<and> br_out b' = br_out b \<and> br_shutdown b' = br_shutdown b \<and> br_seen b' = br_seen b \<and>
     se_inbound se' = se_inbound se \<and> se_streams se' = se_streams se"
proof (cases "br_up b = None \<and> br_held b \<noteq> None \<and> ev = UpSend")
  case True
  then obtain c where c: "br_held b = Some c" by auto
  obtain r se1 where r: "send_outbound (OBinary (up_frame L i c)) se = (r, se1)"
    by (cases "send_outbound (OBinary (up_frame L i c)) se")
  show ?thesis
  proof (cases r)
    case Sent
    with assms True c r have "b' = (if c = []
        then b\<lparr>br_held := None, br_read := br_read b @ [c], br_frames := br_frames b @ [up_frame L i c], br_up := Some (Inr ())\<rparr>
        else b\<lparr>br_held := None, br_read := br_read b @ [c], br_frames := br_frames b @ [up_frame L i c]\<rparr>)"
      "se' = (if c = [] then se1 else on_rt (with_metrics (add_bytes_up (length c))) se1)"
      by (simp_all add: local_up_step_def Let_def split: if_splits)
    then show ?thesis using send_outbound_inbound [OF r] by simp
  qed (use assms True c r send_outbound_inbound [OF r] in \<open>auto simp: local_up_step_def\<close>)
next
  case False
  then show ?thesis
    using assms by (auto simp: local_up_step_def split: bridge_event.splits option.splits if_splits)
qed

lemma local_down_step_up:
  assumes "local_down_step i ev b se = (b', se')"
  shows "br_up b' = br_up b \<and> br_held b' = br_held b \<and> br_read b' = br_read b \<and> br_frames b' = br_frames b"
  using assms
  by (auto simp: local_down_step_def local_deliver_def split: bridge_event.splits option.splits list.splits if_splits)

lemma local_up_step_change:
  assumes "local_up_step L i ev b se = (b', se')"
  shows "up_change (up_frame L i) b b'"
proof (cases "br_up b")
  case (Some r)
  then show ?thesis using assms by (simp add: local_up_step_def up_change_def same_up_def)
next
  case None
  then show ?thesis using assms
    by (cases "br_held b"; cases ev)
      (auto simp: local_up_step_def up_change_def same_up_def Let_def split: prod.splits send_outcome.splits if_splits)
qed

lemma local_deliver_receive:
  "local_deliver m fault (b\<lparr>br_seen := br_seen b @ [m]\<rparr>) se = (b', se') \<Longrightarrow>
     b' = receive_frame m fault b \<and> se_inbound se' = se_inbound se"
  by (auto simp: local_deliver_def receive_frame_def Let_def split: option.splits if_splits)

lemma local_down_step_change:
  assumes "local_down_step i ev b se = (b', se')"
  shows "down_change b b'"
proof (cases "br_down b")
  case (Some r)
  then show ?thesis using assms by (simp add: local_down_step_def down_change_def same_down_def)
next
  case None
  show ?thesis
  proof (cases "\<exists>fault m q. ev = DownFrame fault \<and> se_inbound se i = Some (m # q)")
    case True
    then obtain fault m q where "ev = DownFrame fault" "se_inbound se i = Some (m # q)" by blast
    then have "b' = receive_frame m fault b"
      using assms None by (auto simp: local_down_step_def dest: local_deliver_receive)
    then show ?thesis using None by (auto simp: down_change_def same_down_def)
  next
    case False
    then have "b' = b \<or> (\<exists>r. r \<noteq> Inl IoError \<and> b' = b\<lparr>br_down := Some r\<rparr>)"
      using assms None
      by (auto simp: local_down_step_def split: bridge_event.splits option.splits list.splits if_splits)
    then show ?thesis using None by (auto simp: down_change_def same_down_def)
  qed
qed

lemma receive_frame_seen [simp]: "br_seen (receive_frame m fault b) = br_seen b @ [m]"
  by (auto simp: receive_frame_def Let_def split: option.splits)

lemma local_down_step_queue:
  assumes "local_down_step i ev b se = (b', se')" "se_inbound se i = Some q"
  shows "\<exists>q'. se_inbound se' i = Some q' \<and> br_seen b' @ q' = br_seen b @ q"
  using assms
  by (auto simp: local_down_step_def dest!: local_deliver_receive
      split: bridge_event.splits option.splits list.splits if_splits)

text \<open>What another task does in an event only appends to the bridge's channel.\<close>

definition local_polite :: "uuid \<Rightarrow> 'k session bridge_event \<Rightarrow> bool" where
  "local_polite i ev \<longleftrightarrow>
     (\<forall>f. ev = Others f \<longrightarrow> (\<forall>se q. se_inbound se i = Some q \<longrightarrow> (\<exists>ys. se_inbound (f se) i = Some (q @ ys))))"

lemma same_down_receive:
  "same_down b b1 \<Longrightarrow> same_down (receive_frame m fault b) (receive_frame m fault b1)"
  by (auto simp: same_down_def receive_frame_def Let_def split: option.splits)

interpretation local: pumps "local_step L i" "up_frame L i" "\<lambda>se. se_inbound se i" "local_polite i" for L i
proof
  fix ev b and se :: "'a session" and b' se'
  assume st: "local_step L i ev (b, se) = (b', se')"
  show "up_change (up_frame L i) b b'"
    using st
  proof (cases rule: local_cases)
    case (pumps b1 se1)
    then show ?thesis
      using local_up_step_change [OF pumps(2)] local_down_step_up [OF pumps(3)] by (simp add: up_change_def same_up_def)
  qed (simp add: up_change_def same_up_def)
  show "down_change b b'"
    using st
  proof (cases rule: local_cases)
    case (pumps b1 se1)
    have b1: "br_down b1 = br_down b" "br_out b1 = br_out b" "br_shutdown b1 = br_shutdown b" "br_seen b1 = br_seen b"
      using local_up_step_down [OF pumps(2)] by simp_all
    then have "same_down (receive_frame m fault b) (receive_frame m fault b1)" for m fault
      by (intro same_down_receive) (simp add: same_down_def)
    then show ?thesis
      using local_down_step_change [OF pumps(3)] b1 unfolding down_change_def same_down_def by fastforce
  qed (simp add: down_change_def same_down_def)
  show "\<exists>q' ys. se_inbound se' i = Some q' \<and> br_seen b' @ q' = br_seen b @ q @ ys"
    if polite: "local_polite i ev" "se_inbound se i = Some q" for q
    using st
  proof (cases rule: local_cases)
    case (others f)
    then obtain ys where "se_inbound (f se) i = Some (q @ ys)" using polite by (auto simp: local_polite_def)
    then show ?thesis using others by auto
  next
    case (pumps b1 se1)
    have "se_inbound se1 i = Some q" "br_seen b1 = br_seen b"
      using local_up_step_down [OF pumps(2)] polite(2) by simp_all
    with local_down_step_queue [OF pumps(3)] show ?thesis by fastforce
  qed
qed

section \<open>Frames from the server\<close>

lemma route_local_effect:
  assumes "frames_ok L"
  shows "route_local_frame L (encode_carrier_frame (l_uuid_bytes L) k i p) se =
     (if i \<in> se_streams se then
        (case se_inbound se i of
           Some q \<Rightarrow> if length q < STREAM_CAPACITY
             then Some (se\<lparr>se_inbound := (se_inbound se)(i \<mapsto> q @ [\<lparr>if_kind = k, if_payload = p\<rparr>])\<rparr>) else None
         | None \<Rightarrow> Some se)
      else Some se)"
proof -
  have codec: "uuid_codec (l_uuid_bytes L) (l_uuid_of_slice L)" using assms by (simp add: frames_ok_def)
  show ?thesis
    by (auto simp: route_local_frame_def decode_encode_frame [OF codec] send_bounded_def split: option.splits)
qed

text \<open>
  A step of the carrier's read loop as seen by a stream: the frame is routed, or the loop waits.
\<close>

definition local_arrive :: "lib \<Rightarrow> bytes \<Rightarrow> 'k session \<Rightarrow> 'k session" where
  "local_arrive L frame se = (case route_local_frame L frame se of Some se' \<Rightarrow> se' | None \<Rightarrow> se)"

lemma local_arrive_polite: "local_polite i (Others (local_arrive L frame))"
  unfolding local_polite_def local_arrive_def route_local_frame_def send_bounded_def
  by (auto split: option.splits prod.splits if_splits)

section \<open>One connection\<close>

text \<open>Without other tasks, the pumps only append their frames to the outbound queue.\<close>

lemma local_step_outbound:
  assumes "local_step L i ev (b, se) = (b', se')" "\<forall>f. ev \<noteq> Others f"
    and "se_outbound se = Some (q @ map OBinary (br_frames b))"
  shows "se_outbound se' = Some (q @ map OBinary (br_frames b')) \<and> se_streams se' = se_streams se"
  using assms(1)
proof (cases rule: local_cases)
  case (pumps b1 se1)
  have up: "se_outbound se1 = Some (q @ map OBinary (br_frames b1)) \<and> se_streams se1 = se_streams se"
  proof (cases "br_up b = None \<and> br_held b \<noteq> None \<and> ev = UpSend")
    case True
    then obtain c where c: "br_held b = Some c" by auto
    then have "local_up_step L i UpSend b se = (b1, se1)" using pumps(2) True by simp
    then show ?thesis
      using True c assms(3)
      by (cases "c = []") (auto simp: local_up_step_def send_outbound_def split: if_splits)
  next
    case False
    then show ?thesis
      using pumps(2) assms(3)
      by (auto simp: local_up_step_def split: bridge_event.splits option.splits if_splits)
  qed
  have "se_outbound se' = se_outbound se1 \<and> se_streams se' = se_streams se1 \<and> br_frames b' = br_frames b1"
    using pumps(3)
    by (auto simp: local_down_step_def local_deliver_def split: bridge_event.splits option.splits list.splits if_splits)
  with up show ?thesis by simp
qed (use assms(2) in auto)

lemma local_run_outbound:
  assumes "bridge_local L i evs (bridge_start, se) = (b, se')" "\<forall>f. Others f \<notin> set evs"
    and "se_outbound se = Some q"
  shows "se_outbound se' = Some (q @ map OBinary (br_frames b)) \<and> se_streams se' = se_streams se"
proof (rule local.run_induct [where P = "\<lambda>b1 se1. se_outbound se1 = Some (q @ map OBinary (br_frames b1)) \<and>
      se_streams se1 = se_streams se", OF _ _ assms(1) [unfolded bridge_local_def]])
  show "se_outbound se = Some (q @ map OBinary (br_frames bridge_start)) \<and> se_streams se = se_streams se"
    using assms(3) by (simp add: bridge_start_def)
next
  fix ev b1 se1 b2 se2
  assume "ev \<in> set evs" "local_step L i ev (b1, se1) = (b2, se2)"
    and inv: "se_outbound se1 = Some (q @ map OBinary (br_frames b1)) \<and> se_streams se1 = se_streams se"
  moreover from this assms(2) have "\<forall>f. ev \<noteq> Others f" by blast
  ultimately show "se_outbound se2 = Some (q @ map OBinary (br_frames b2)) \<and> se_streams se2 = se_streams se"
    using local_step_outbound by metis
qed

lemma send_out_room:
  "se_outbound se = Some q \<Longrightarrow> length q < OUTBOUND_CAPACITY \<Longrightarrow>
     send_out m se = (Inr (), se\<lparr>se_outbound := Some (q @ [m])\<rparr>)"
  by (simp add: send_out_def send_outbound_def)

lemma register_stream_sel [simp]:
  "se_streams (register_stream i se) = insert i (se_streams se)"
  "se_inbound (register_stream i se) = (se_inbound se)(i \<mapsto> [])"
  "se_outbound (register_stream i se) = se_outbound se" "se_rt (register_stream i se) = se_rt se"
  by (simp_all add: register_stream_def)

lemma remove_stream_sel [simp]:
  "se_streams (remove_stream i se) = se_streams se - {i}" "se_inbound (remove_stream i se) = (se_inbound se)(i := None)"
  "se_outbound (remove_stream i se) = se_outbound se" "se_rt (remove_stream i se) = se_rt se"
  by (simp_all add: remove_stream_def drop_receiver_def)

lemma drop_receiver_sel [simp]:
  "se_streams (drop_receiver i se) = se_streams se" "se_inbound (drop_receiver i se) = (se_inbound se)(i := None)"
  "se_outbound (drop_receiver i se) = se_outbound se"
  by (simp_all add: drop_receiver_def)

lemma leaving_Inl: "m se = (Inl e, se') \<Longrightarrow> leaving i m se = (Inl e, if e = Blocked then se' else drop_receiver i se')"
  by (simp add: leaving_def)

lemma leaving_Inr: "m se = (Inr x, se') \<Longrightarrow> leaving i m se = (Inr x, se')"
  by (simp add: leaving_def)

text \<open>
  What becomes of one offered connection on the desktop, when no other task interferes: if the local target
  cannot be reached the only effect is a negative acknowledgement with the ticket; otherwise the positive one
  is queued once, before any frame of the connection, and what follows it are the connection's frames. For
  an HTTPS target whose certificate is not accepted no frame follows. The stream's entry is removed when the
  connection ends, but not when the TLS handshake fails: then it stays although nobody receives its frames.
\<close>

theorem offer_outcome:
  assumes "open_multiplexed_stream L io i t ticket se = (r, se')"
    and "si_others io = id" "\<forall>f. Others f \<notin> set (si_events io)"
    and "se_outbound se = Some q" "length q < OUTBOUND_CAPACITY"
  shows "case si_connect io of
      Inl e \<Rightarrow> r = Inl (ConnectFailed e) \<and>
        se' = se\<lparr>se_outbound := Some (q @ [ack_message i False (Some (text_connect_failed @ e)) ticket])\<rparr>
    | Inr _ \<Rightarrow> (\<exists>chunks. se_outbound se' =
           Some (q @ ack_message i True None ticket # map (\<lambda>c. OBinary (up_frame L i c)) chunks) \<and>
           [] \<notin> set (butlast chunks) \<and>
           (wants_tls t \<and> (\<exists>e. si_tls io = Inl e) \<longrightarrow> chunks = [] \<and> i \<in> se_streams se' \<and> se_inbound se' i = None)) \<and>
        (i \<in> se_streams se' \<longrightarrow> (\<exists>e. r = Inl (TlsFailed e)) \<or> (\<exists>b. r = Inr b \<and> bridge_result b = None))"
proof (cases "si_connect io")
  case (Inl e)
  then show ?thesis
    using assms by (auto simp: open_multiplexed_stream_def seq_def act_simps send_out_room)
next
  case (Inr u)
  define se1 where "se1 = (register_stream i se)\<lparr>se_outbound := Some (q @ [ack_message i True None ticket])\<rparr>"
  have sent: "send_out (ack_message i True None ticket) (register_stream i se) = (Inr (), se1)"
    using assms(4,5) by (simp add: send_out_room se1_def)
  show ?thesis
  proof (cases "\<exists>e. wants_tls t \<and> si_tls io = Inl e")
    case True
    then obtain e where "wants_tls t" "si_tls io = Inl e" by blast
    then have "r = Inl (TlsFailed e)" "se' = drop_receiver i se1"
      using assms(1,2) Inr sent
      by (auto simp: open_multiplexed_stream_def seq_def act_simps leaving_def)
    then show ?thesis using Inr by (auto simp: se1_def intro!: exI [of _ "[]"])
  next
    case False
    obtain b se2 where run: "bridge_local L i (si_events io) (bridge_start, se1) = (b, se2)"
      by (cases "bridge_local L i (si_events io) (bridge_start, se1)")
    have out: "se_outbound se2 = Some ((q @ [ack_message i True None ticket]) @ map OBinary (br_frames b))"
      "se_streams se2 = se_streams se1"
      using local_run_outbound [OF run assms(3)] by (simp_all add: se1_def)
    have inv: "up_inv (up_frame L i) b" using run unfolding bridge_local_def by (rule local.run_up)
    have rest: "(r, se') = (case bridge_result b of None \<Rightarrow> (Inr b, se2)
        | Some res \<Rightarrow> (case res of Inl e \<Rightarrow> Inl (LocalFailed e) | Inr _ \<Rightarrow> Inr b, remove_stream i se2))"
      using assms(1,2) Inr sent False run
      by (cases "si_tls io") (auto simp: open_multiplexed_stream_def seq_def act_simps leaving_def
          split: option.splits sum.splits if_splits)
    have "[] \<notin> set (butlast (br_read b))"
      using inv unfolding up_inv_def by (cases "br_up b = Some (Inr ())") (auto dest: in_set_butlastD)
    moreover have "br_frames b = map (up_frame L i) (br_read b)" using inv by (simp add: up_inv_def)
    ultimately show ?thesis
      using Inr out rest False
      by (auto simp: se1_def comp_def split: option.splits intro!: exI [of _ "br_read b"])
  qed
qed

definition sample_session :: "unit session" where
  "sample_session = session_new (runtime_new \<lparr>dk_dir = True, dk_config = None, dk_tmp = None\<rparr> () None)"

definition sample_local_tunnel :: tunnel where
  "sample_local_tunnel =
     \<lparr>t_id = 1, t_agent_id = 7, t_name = lit ''blog'', t_local_host = lit ''localhost'', t_local_port = 8443,
      t_kind = KWeb, t_local_scheme = SHttps, t_remote_port = None, t_hostname = Some (lit ''blog.tb.io''),
      t_access_mode = Public, t_allowed_cidrs = [], t_enabled = True, t_status = Online,
      t_created_at = 0, t_updated_at = 0\<rparr>"

text \<open>An HTTPS target with a certificate that is not accepted, and one that sends two bytes and closes.\<close>

theorem offer_outcome_witness:
  "(\<exists>se'. open_multiplexed_stream sample_lib
       \<lparr>si_connect = Inr (), si_others = id, si_tls = Inl (lit ''bad''), si_events = []\<rparr> 9 sample_local_tunnel (lit ''t'')
       sample_session = (Inl (TlsFailed (lit ''bad'')), se') \<and>
     se_outbound se' = Some [ack_message 9 True None (lit ''t'')] \<and> 9 \<in> se_streams se') \<and>
   (\<exists>r se'. open_multiplexed_stream sample_lib
       \<lparr>si_connect = Inr (), si_others = id, si_tls = Inr (), si_events = [UpRead [1, 2], UpSend, UpRead [], UpSend]\<rparr>
       9 sample_local_tunnel (lit ''t'') sample_session = (r, se') \<and>
     se_outbound se' = Some [ack_message 9 True None (lit ''t''), OBinary (up_frame sample_lib 9 [1, 2]),
       OBinary (up_frame sample_lib 9 [])])"
proof -
  let ?bad = "\<lparr>si_connect = Inr (), si_others = id, si_tls = Inl (lit ''bad''), si_events = []\<rparr> :: unit stream_input"
  let ?good = "\<lparr>si_connect = Inr (), si_others = id, si_tls = Inr (),
      si_events = [UpRead [1, 2], UpSend, UpRead [], UpSend]\<rparr> :: unit stream_input"
  have room: "se_outbound sample_session = Some []" "length [] < OUTBOUND_CAPACITY"
    by (simp_all add: sample_session_def session_new_def OUTBOUND_CAPACITY_def)
  obtain r1 s1 where run1: "open_multiplexed_stream sample_lib ?bad 9 sample_local_tunnel (lit ''t'') sample_session = (r1, s1)"
    by (cases "open_multiplexed_stream sample_lib ?bad 9 sample_local_tunnel (lit ''t'') sample_session")
  obtain r2 s2 where run2: "open_multiplexed_stream sample_lib ?good 9 sample_local_tunnel (lit ''t'') sample_session = (r2, s2)"
    by (cases "open_multiplexed_stream sample_lib ?good 9 sample_local_tunnel (lit ''t'') sample_session")
  have tls: "wants_tls sample_local_tunnel" by (simp add: wants_tls_def sample_local_tunnel_def)
  have r1: "r1 = Inl (TlsFailed (lit ''bad''))"
    using run1 tls room
    by (auto simp: open_multiplexed_stream_def seq_def act_simps leaving_def send_out_def send_outbound_def
        register_stream_def)
  have s2: "se_outbound s2 = Some [ack_message 9 True None (lit ''t''), OBinary (up_frame sample_lib 9 [1, 2]),
       OBinary (up_frame sample_lib 9 [])]"
    using run2 tls room
    by (auto simp: open_multiplexed_stream_def seq_def act_simps leaving_def send_out_def send_outbound_def
        OUTBOUND_CAPACITY_def bridge_local_def local_step_def local_up_step_def local_down_step_def bridge_start_def
        BUFFER_SIZE_def bridge_result_def split: option.splits sum.splits if_splits)
  have "se_outbound s1 = Some [ack_message 9 True None (lit ''t'')]" "9 \<in> se_streams s1"
    using offer_outcome [OF run1 _ _ room] tls by auto
  with r1 run1 run2 s2 show ?thesis by blast
qed

section \<open>One UDP session\<close>

text \<open>Events that bring nothing from the local target.\<close>

definition inbound_only :: "'k session udp_event \<Rightarrow> bool" where
  "inbound_only ev \<longleftrightarrow>
     ev = UIn True \<or> (\<exists>now. ev = UTick now) \<or> (\<exists>f. ev = UOthers f \<and> (\<forall>se. se_streams (f se) = se_streams se))"

lemma udp_step_inbound_only:
  assumes "udp_local_step L i ev (u, se) = (u', se')" "inbound_only ev"
    and "ul_held u = None" "ul_since u = t0" "ul_end u \<in> {None, Some (Inl UdpIdle)}"
  shows "ul_held u' = None \<and> ul_since u' = t0 \<and> se_streams se' = se_streams se \<and>
     ul_end u' \<in> {None, Some (Inl UdpIdle)} \<and> (ul_end u = Some (Inl UdpIdle) \<longrightarrow> ul_end u' = Some (Inl UdpIdle)) \<and>
     ((\<exists>now. ev = UTick now \<and> t0 + secs 60 \<le> now) \<longrightarrow> ul_end u' = Some (Inl UdpIdle))"
  using assms
  by (auto simp: udp_local_step_def inbound_only_def udp_in_def Let_def split: option.splits list.splits if_splits)

lemma udp_run_inbound_only:
  assumes "udp_local_run L i evs (u, se) = (u', se')" "\<forall>ev \<in> set evs. inbound_only ev"
    and "ul_held u = None" "ul_since u = t0" "ul_end u \<in> {None, Some (Inl UdpIdle)}"
  shows "se_streams se' = se_streams se \<and>
     (ul_end u = Some (Inl UdpIdle) \<or> (\<exists>now. UTick now \<in> set evs \<and> t0 + secs 60 \<le> now) \<longrightarrow>
        ul_end u' = Some (Inl UdpIdle))"
  using assms
proof (induction evs arbitrary: u se)
  case Nil
  then show ?case by (simp add: udp_local_run_def)
next
  case (Cons ev evs)
  obtain u1 se1 where 1: "udp_local_step L i ev (u, se) = (u1, se1)" by (cases "udp_local_step L i ev (u, se)")
  have st: "ul_held u1 = None" "ul_since u1 = t0" "ul_end u1 \<in> {None, Some (Inl UdpIdle)}" "se_streams se1 = se_streams se"
    "ul_end u = Some (Inl UdpIdle) \<Longrightarrow> ul_end u1 = Some (Inl UdpIdle)"
    "\<exists>now. ev = UTick now \<and> t0 + secs 60 \<le> now \<Longrightarrow> ul_end u1 = Some (Inl UdpIdle)"
    using udp_step_inbound_only [OF 1 _ Cons.prems(3-5)] Cons.prems(2) by simp_all
  have "udp_local_run L i evs (u1, se1) = (u', se')" using Cons.prems(1) 1 by (simp add: udp_local_run_def)
  from Cons.IH [OF this _ st(1-3)] Cons.prems(2) st(4-6) show ?case by fastforce
qed

text \<open>
  A UDP session that only carries datagrams towards the local target dies after 60 seconds however busy it
  is, because only a datagram from the target restarts the timeout. The error leaves the stream's entry
  behind without a receiver, so every later datagram of the session is dropped without any sign.
\<close>

theorem udp_one_way_dies:
  assumes "open_udp_session L io i ticket se = (r, se')"
    and "uo_bind io = Inr ()" "uo_connect io = Inr ()" "uo_others io = id"
    and "se_outbound se = Some q" "length q < OUTBOUND_CAPACITY"
    and "\<forall>ev \<in> set (uo_events io). inbound_only ev"
    and "UTick now \<in> set (uo_events io)" "uo_started io + secs 60 \<le> now" and "frames_ok L"
  shows "r = Inl UdpIdle \<and> i \<in> se_streams se' \<and> se_inbound se' i = None \<and>
     route_local_frame L (encode_carrier_frame (l_uuid_bytes L) k i p) se' = Some se'"
proof -
  define se1 where "se1 = (register_stream i se)\<lparr>se_outbound := Some (q @ [ack_message i True None ticket])\<rparr>"
  have sent: "send_out (ack_message i True None ticket) (register_stream i se) = (Inr (), se1)"
    using assms(5,6) by (simp add: send_out_room se1_def)
  obtain u se2 where run: "udp_local_run L i (uo_events io) (udp_local_start (uo_started io), se1) = (u, se2)"
    by (cases "udp_local_run L i (uo_events io) (udp_local_start (uo_started io), se1)")
  have "se_streams se2 = se_streams se1 \<and> ul_end u = Some (Inl UdpIdle)"
    using udp_run_inbound_only [OF run assms(7), of "uo_started io"] assms(8,9)
    by (auto simp: udp_local_start_def)
  then have "r = Inl UdpIdle" "se' = drop_receiver i se2" "i \<in> se_streams se2"
    using assms(1-4) sent run
    by (auto simp: open_udp_session_def seq_def act_simps leaving_def se1_def)
  then show ?thesis by (simp add: route_local_effect [OF assms(10)])
qed

text \<open>A datagram arrives every 20 seconds and is delivered; after a minute the session is dead.\<close>

definition sample_udp_local :: "unit local_udp_input" where
  "sample_udp_local =
     \<lparr>uo_bind = Inr (), uo_connect = Inr (), uo_others = id, uo_started = 0,
      uo_events =
        [UOthers (local_arrive sample_lib (encode_carrier_frame be_uuid_bytes CARRIER_FRAME_DATAGRAM 9 [1])), UIn True,
         UTick (secs 20),
         UOthers (local_arrive sample_lib (encode_carrier_frame be_uuid_bytes CARRIER_FRAME_DATAGRAM 9 [2])), UIn True,
         UTick (secs 40),
         UOthers (local_arrive sample_lib (encode_carrier_frame be_uuid_bytes CARRIER_FRAME_DATAGRAM 9 [3])), UIn True,
         UTick (secs 60)]\<rparr>"

lemma local_arrive_streams [simp]: "se_streams (local_arrive L frame se) = se_streams se"
  by (auto simp: local_arrive_def route_local_frame_def split: option.splits prod.splits send_outcome.splits)

theorem udp_one_way_dies_witness:
  "\<exists>se'. open_udp_session sample_lib sample_udp_local 9 (lit ''t'') sample_session = (Inl UdpIdle, se') \<and>
     se_inbound se' 9 = None \<and>
     route_local_frame sample_lib (encode_carrier_frame be_uuid_bytes CARRIER_FRAME_DATAGRAM 9 [4]) se' = Some se'"
proof -
  obtain r se' where run: "open_udp_session sample_lib sample_udp_local 9 (lit ''t'') sample_session = (r, se')"
    by (cases "open_udp_session sample_lib sample_udp_local 9 (lit ''t'') sample_session")
  have "\<forall>ev \<in> set (uo_events sample_udp_local). inbound_only ev"
    by (simp add: sample_udp_local_def inbound_only_def)
  then show ?thesis
    using udp_one_way_dies [OF run, of "[]" "secs 60" CARRIER_FRAME_DATAGRAM "[4]"] run sample_frames
    by (simp add: sample_udp_local_def sample_session_def session_new_def OUTBOUND_CAPACITY_def)
      (simp add: sample_lib_def)
qed

end
