(* ===== verification/Agent_Carrier.thy ===== *)
theory Agent_Carrier
  imports Agent_Stream_Facts Carrier Framing
begin

text \<open>
  The desktop's carriers (desktop/src-tauri/src/agent.rs and kcp.rs): what is checked before the device
  token leaves the machine, the loops of the QUIC, KCP and WebSocket carriers, the choice of the carrier
  with its fallback, and the reconnecting loop. A loop is driven by the list of its events.
\<close>

section \<open>Reading records beside other branches\<close>

text \<open>
  \<open>read_direct_record\<close> is one branch of a \<open>select!\<close>. The pending read has taken the bytes that arrived so
  far; when another branch completes first, the read is dropped with them.
\<close>

datatype read_event = Arrives bytes | OtherBranch

function read_ready :: "(bytes \<Rightarrow> u32) \<Rightarrow> bytes \<Rightarrow> (u8 \<times> bytes) list \<times> bytes \<times> read_error option" where
  "read_ready g s =
     (case read_direct_record g s of
        Inl UnexpectedEof \<Rightarrow> ([], s, None)
      | Inl RecordTooLarge \<Rightarrow> ([], s, Some RecordTooLarge)
      | Inr (x, r) \<Rightarrow> (case read_ready g r of (xs, rest, e) \<Rightarrow> (x # xs, rest, e)))"
  by pat_completeness auto
termination
  by (relation "measure (\<lambda>(g, s). length s)") (auto simp: read_direct_record_def dest: read_record_shorter)

declare read_ready.simps [simp del]

fun select_reads ::
  "(bytes \<Rightarrow> u32) \<Rightarrow> bytes \<Rightarrow> read_event list \<Rightarrow> (u8 \<times> bytes) list \<times> read_error option" where
  "select_reads g taken [] = ([], None)"
| "select_reads g taken (Arrives bs # evs) =
     (case read_ready g (taken @ bs) of
        (xs, rest, Some e) \<Rightarrow> (xs, Some e)
      | (xs, rest, None) \<Rightarrow> (case select_reads g rest evs of (ys, e) \<Rightarrow> (xs @ ys, e)))"
| "select_reads g taken (OtherBranch # evs) = select_reads g [] evs"

section \<open>Before the token leaves\<close>

definition pinned_certificate :: "('u, 'k) dlib \<Rightarrow> lib \<Rightarrow> uuid \<Rightarrow> 'k \<Rightarrow> agent_error + bytes" where
  "pinned_certificate D L i k =
     andThen (case load_transport_certificate D L i k of Inl e \<Rightarrow> Inl (KeychainFailed e) | Inr c \<Rightarrow> Inr c) (\<lambda>b64.
     andThen (ok_or (d_b64_decode D (trim b64)) BadCertificate) (\<lambda>der.
     andThen (case load_transport_fingerprint D L i k of Inl e \<Rightarrow> Inl (KeychainFailed e) | Inr c \<Rightarrow> Inr c) (\<lambda>expected.
     andThen (ensure (d_sha256_hex D der = expected) FingerprintMismatch) (\<lambda>_.
     andThen (ensure (d_root_ok D der) BadCertificate) (\<lambda>_.
     Inr der)))))"

definition hello_message :: "agent_config \<Rightarrow> active_transport list \<Rightarrow> agent_control_message" where
  "hello_message config transports =
     Hello PROTOCOL_VERSION (gc_installation_id config) (gc_device_name config)
       (default_capabilities\<lparr>cap_transports := transports, cap_tunnel_kinds := [KTcp, KUdp, KWeb]\<rparr>) 0"

definition port_or :: "u16 \<Rightarrow> u16 \<Rightarrow> u16" where
  "port_or port dflt = (if port = 0 then dflt else port)"

text \<open>
  \<open>dial root host port\<close> looks up the host, connects and completes the TLS handshake with \<open>root\<close> as the only
  trusted root. The result is the first record of the carrier, the one with the token.
\<close>

definition direct_open ::
  "('u, 'k) dlib \<Rightarrow> lib \<Rightarrow> (bytes \<Rightarrow> ustr \<Rightarrow> u16 \<Rightarrow> agent_error + unit) \<Rightarrow> u16 \<Rightarrow> active_transport list \<Rightarrow>
     agent_config \<Rightarrow> ustr \<Rightarrow> 'k \<Rightarrow> agent_error + (u8 \<times> bytes)" where
  "direct_open D L dial port transports config token k =
     andThen (pinned_certificate D L (gc_installation_id config) k) (\<lambda>der.
     andThen (ok_or (d_url_parse D (gc_server_url config)) BadServerUrl) (\<lambda>url.
     andThen (ok_or (d_url_host D url) BadServerUrl) (\<lambda>host.
     andThen (dial der host port) (\<lambda>_.
     Inr (0, l_auth_json L \<lparr>da_token = token, da_hello = hello_message config transports\<rparr>)))))"

definition quic_open ::
  "('u, 'k) dlib \<Rightarrow> lib \<Rightarrow> (bytes \<Rightarrow> ustr \<Rightarrow> u16 \<Rightarrow> agent_error + unit) \<Rightarrow> agent_config \<Rightarrow> ustr \<Rightarrow> 'k \<Rightarrow>
     agent_error + (u8 \<times> bytes)" where
  "quic_open D L dial config = direct_open D L dial (port_or (gc_quic_port config) 443) [TQuic, TWss] config"

definition kcp_open ::
  "('u, 'k) dlib \<Rightarrow> lib \<Rightarrow> (bytes \<Rightarrow> ustr \<Rightarrow> u16 \<Rightarrow> agent_error + unit) \<Rightarrow> agent_config \<Rightarrow> ustr \<Rightarrow> 'k \<Rightarrow>
     agent_error + (u8 \<times> bytes)" where
  "kcp_open D L dial config = direct_open D L dial (port_or (gc_kcp_port config) 4000) [TKcp] config"

definition websocket_url :: "('u, 'k) dlib \<Rightarrow> ustr \<Rightarrow> ustr \<Rightarrow> agent_error + 'u" where
  "websocket_url D server_url path =
     andThen (ok_or (d_url_parse D server_url) BadServerUrl) (\<lambda>url.
     andThen (ok_or (d_url_set_scheme D
       (if d_url_scheme D url = lit ''https'' then lit ''wss'' else lit ''ws'') url) BadServerUrl) (\<lambda>u.
     Inr (d_url_set_path D path u)))"

definition wss_open ::
  "('u, 'k) dlib \<Rightarrow> ('u \<Rightarrow> ustr \<Rightarrow> agent_error + unit) \<Rightarrow> agent_config \<Rightarrow> ustr \<Rightarrow> agent_error + unit" where
  "wss_open D connect config token =
     andThen (websocket_url D (gc_server_url config) (lit ''/api/v2/agent/carrier'')) (\<lambda>url.
     andThen (ensure (d_token_header_ok D token) BadTokenHeader) (\<lambda>_.
     connect url token))"

section \<open>The carrier loops\<close>

datatype 's direct_event =
    DCancelled | DHeartbeat utc | DRecord utc u8 bytes | DRecordFail | DDatagram bytes | DDatagramFail
  | DOthers "'s \<Rightarrow> 's"

definition route_out :: "lib \<Rightarrow> bytes \<Rightarrow> ('k session, agent_error, unit) act" where
  "route_out L frame se =
     (case route_local_frame L frame se of Some se' \<Rightarrow> (Inr (), se') | None \<Rightarrow> (Inl Blocked, se))"

text \<open>The flag tells whether the loop goes on; the list holds the tasks it spawned.\<close>

definition kcp_event ::
  "lib \<Rightarrow> 'k session direct_event \<Rightarrow> ('k session, agent_error, bool \<times> offer_task list) act" where
  "kcp_event L ev =
     (case ev of
        DCancelled \<Rightarrow> ok (False, [])
      | DHeartbeat t \<Rightarrow> seq (send_out (OControl (Ping t))) (\<lambda>_. ok (True, []))
      | DRecord at kind payload \<Rightarrow>
          if kind = 1 then seq (route_out L payload) (\<lambda>_. ok (True, []))
          else
            seq (lift (ok_or (l_msg_parse L payload) BadJson)) (\<lambda>m.
            seq (dispatch_control_message at m) (\<lambda>tasks. ok (True, tasks)))
      | DRecordFail \<Rightarrow> fail CarrierRead
      | DOthers f \<Rightarrow> seq (modify f) (\<lambda>_. ok (True, []))
      | _ \<Rightarrow> ok (True, []))"

definition quic_event ::
  "lib \<Rightarrow> 'k session direct_event \<Rightarrow> ('k session, agent_error, bool \<times> offer_task list) act" where
  "quic_event L ev =
     (case ev of
        DDatagram frame \<Rightarrow> seq (route_out L frame) (\<lambda>_. ok (True, []))
      | DDatagramFail \<Rightarrow> fail CarrierRead
      | _ \<Rightarrow> kcp_event L ev)"

datatype 's wss_event =
    WCancelled | WHeartbeat utc | WProbe | WText utc bytes | WBinary bytes | WPing utc | WOther
  | WClose | WEnd | WReadFail | WOthers "'s \<Rightarrow> 's"

definition wss_event_step ::
  "lib \<Rightarrow> transport_mode \<Rightarrow> 'k session wss_event \<Rightarrow> ('k session, agent_error, bool \<times> offer_task list) act" where
  "wss_event_step L mode ev =
     (case ev of
        WCancelled \<Rightarrow> ok (False, [])
      | WHeartbeat t \<Rightarrow> seq (send_out (OControl (Ping t))) (\<lambda>_. ok (True, []))
      | WProbe \<Rightarrow> if mode = MAuto then fail ReprobeQuic else ok (True, [])
      | WText at text \<Rightarrow>
          seq (lift (ok_or (l_msg_parse L text) BadJson)) (\<lambda>m.
          seq (wss_control_message at m) (\<lambda>tasks. ok (True, tasks)))
      | WBinary frame \<Rightarrow> seq (route_out L frame) (\<lambda>_. ok (True, []))
      | WPing t \<Rightarrow> seq (send_out (OControl (Pong t))) (\<lambda>_. ok (True, []))
      | WOther \<Rightarrow> ok (True, [])
      | WClose \<Rightarrow> ok (False, [])
      | WEnd \<Rightarrow> ok (False, [])
      | WReadFail \<Rightarrow> fail CarrierRead
      | WOthers f \<Rightarrow> seq (modify f) (\<lambda>_. ok (True, [])))"

text \<open>
  A handler that waits for room in a queue holds the loop: later events stay where they are until another
  task has made room. \<open>take_others\<close> finds the next thing another task does.
\<close>

definition direct_others :: "'s direct_event \<Rightarrow> ('s \<Rightarrow> 's) option" where
  "direct_others ev = (case ev of DOthers f \<Rightarrow> Some f | _ \<Rightarrow> None)"

definition wss_others :: "'s wss_event \<Rightarrow> ('s \<Rightarrow> 's) option" where
  "wss_others ev = (case ev of WOthers f \<Rightarrow> Some f | _ \<Rightarrow> None)"

fun take_others :: "('ev \<Rightarrow> ('s \<Rightarrow> 's) option) \<Rightarrow> 'ev list \<Rightarrow> (('s \<Rightarrow> 's) \<times> 'ev list) option" where
  "take_others others [] = None"
| "take_others others (ev # evs) =
     (case others ev of
        Some f \<Rightarrow> Some (f, evs)
      | None \<Rightarrow> map_option (apsnd ((#) ev)) (take_others others evs))"

lemma take_others_length: "take_others others evs = Some (f, evs') \<Longrightarrow> length evs' < length evs"
  by (induction evs arbitrary: evs') (auto split: option.splits)

function carrier_loop ::
  "('ev \<Rightarrow> ('k session \<Rightarrow> 'k session) option) \<Rightarrow>
     ('ev \<Rightarrow> ('k session, agent_error, bool \<times> offer_task list) act) \<Rightarrow> 'ev list \<Rightarrow> 'k session \<Rightarrow>
     (agent_error + unit) option \<times> offer_task list \<times> 'k session" where
  "carrier_loop others step [] se = (None, [], se)"
| "carrier_loop others step (ev # evs) se =
     (case step ev se of
        (Inl e, se') \<Rightarrow>
          if e = Blocked then
            (case take_others others evs of
               Some (f, evs') \<Rightarrow> carrier_loop others step (ev # evs') (f se)
             | None \<Rightarrow> (None, [], se))
          else (Some (Inl e), [], se')
      | (Inr (goes_on, tasks), se') \<Rightarrow>
          if goes_on then (case carrier_loop others step evs se' of (r, ts, se2) \<Rightarrow> (r, tasks @ ts, se2))
          else (Some (Inr ()), tasks, se'))"
  by pat_completeness auto
termination
  by (relation "measure (\<lambda>(others, step, evs, se). length evs)") (auto dest: take_others_length)

section \<open>The writers\<close>

text \<open>
  What a writer task puts on the wire for an entry of the outbound queue, and whether it goes on. The
  argument of \<open>quic_wire\<close> tells whether \<open>send_datagram\<close> took the frame.
\<close>

definition kcp_wire :: "lib \<Rightarrow> outbound \<Rightarrow> wire option" where
  "kcp_wire L m =
     (case m of
        OControl msg \<Rightarrow> Some (WireRecord 0 (l_msg_json L msg))
      | OBinary frame \<Rightarrow> Some (WireRecord 1 frame)
      | OClose \<Rightarrow> None)"

definition quic_wire :: "lib \<Rightarrow> bool \<Rightarrow> outbound \<Rightarrow> wire option" where
  "quic_wire L datagram_sent m =
     (case m of
        OBinary frame \<Rightarrow>
          if frame \<noteq> [] \<and> hd frame = CARRIER_FRAME_DATAGRAM \<and> datagram_sent then Some (WireDatagram frame)
          else Some (WireRecord 1 frame)
      | _ \<Rightarrow> kcp_wire L m)"

definition wss_wire :: "lib \<Rightarrow> outbound \<Rightarrow> wire option" where
  "wss_wire L m =
     (case m of
        OControl msg \<Rightarrow> Some (WireText (l_msg_json L msg))
      | OBinary frame \<Rightarrow> Some (WireBinary frame)
      | OClose \<Rightarrow> None)"

text \<open>What the writer sends of a queue: everything up to the first \<open>OClose\<close>.\<close>

fun write_out :: "(outbound \<Rightarrow> wire option) \<Rightarrow> outbound list \<Rightarrow> wire list" where
  "write_out w [] = []"
| "write_out w (m # q) = (case w m of Some x \<Rightarrow> x # write_out w q | None \<Rightarrow> [])"

section \<open>One carrier\<close>

definition text_quic_online :: ustr where
  "text_quic_online = [81, 85, 73, 67, 32, 0x627F, 0x8F7D, 0x5DF2, 0x8FDE, 0x63A5]"
definition text_quic_connected :: ustr where
  "text_quic_connected =
     [0x5DF2, 0x901A, 0x8FC7, 32, 81, 85, 73, 67, 32, 0x8FDE, 0x63A5, 0x4E2D, 0x7EE7, 0x670D, 0x52A1, 0x5668]"
definition text_kcp_online :: ustr where
  "text_kcp_online = [75, 67, 80, 32, 0x627F, 0x8F7D, 0x5DF2, 0x8FDE, 0x63A5]"
definition text_kcp_connected :: ustr where
  "text_kcp_connected =
     [0x5DF2, 0x901A, 0x8FC7, 32, 75, 67, 80, 47, 84, 76, 83, 32, 0x8FDE, 0x63A5, 0x4E2D, 0x7EE7, 0x670D, 0x52A1, 0x5668]"
definition text_wss_online :: ustr where
  "text_wss_online = [0x63A7, 0x5236, 0x901A, 0x9053, 0x5DF2, 0x8FDE, 0x63A5]"
definition text_wss_connected :: ustr where
  "text_wss_connected = [0x5DF2, 0x8FDE, 0x63A5, 0x4E2D, 0x7EE7, 0x670D, 0x52A1, 0x5668]"

text \<open>
  What a run of the agent gets from outside: the three ways to connect, the time of the log entries, the
  events of each carrier, and whether the token is cancelled when QUIC returns.
\<close>

record ('u, 'k) carrier_input =
  ca_dial :: "bytes \<Rightarrow> ustr \<Rightarrow> u16 \<Rightarrow> agent_error + unit"
  ca_connect :: "'u \<Rightarrow> ustr \<Rightarrow> agent_error + unit"
  ca_at :: utc
  ca_quic :: "'k session direct_event list"
  ca_kcp :: "'k session direct_event list"
  ca_wss :: "'k session wss_event list"
  ca_cancelled :: bool

definition run_quic_carrier ::
  "('u, 'k) dlib \<Rightarrow> lib \<Rightarrow> ('u, 'k) carrier_input \<Rightarrow> agent_config \<Rightarrow> ustr \<Rightarrow> 'k runtime \<Rightarrow>
     (agent_error + unit) option \<times> 'k runtime" where
  "run_quic_carrier D L io config token rt =
     (case quic_open D L (ca_dial io) config token (rs_keychain rt) of
        Inl e \<Rightarrow> (Some (Inl e), rt)
      | Inr auth \<Rightarrow>
          let rt1 = log_event (ca_at io) ''info'' text_quic_connected
                (set_transport TQuic None (set_status StOnline text_quic_online rt)) in
          (case carrier_loop direct_others (quic_event L) (ca_quic io) (session_new rt1) of (r, ts, se) \<Rightarrow> (r, se_rt se)))"

definition run_kcp_carrier ::
  "('u, 'k) dlib \<Rightarrow> lib \<Rightarrow> ('u, 'k) carrier_input \<Rightarrow> agent_config \<Rightarrow> ustr \<Rightarrow> 'k runtime \<Rightarrow>
     (agent_error + unit) option \<times> 'k runtime" where
  "run_kcp_carrier D L io config token rt =
     (case kcp_open D L (ca_dial io) config token (rs_keychain rt) of
        Inl e \<Rightarrow> (Some (Inl e), rt)
      | Inr auth \<Rightarrow>
          let rt1 = log_event (ca_at io) ''info'' text_kcp_connected
                (set_transport TKcp None (set_status StOnline text_kcp_online rt)) in
          (case carrier_loop direct_others (kcp_event L) (ca_kcp io) (session_new rt1) of (r, ts, se) \<Rightarrow> (r, se_rt se)))"

definition run_wss_carrier ::
  "('u, 'k) dlib \<Rightarrow> lib \<Rightarrow> ('u, 'k) carrier_input \<Rightarrow> agent_config \<Rightarrow> ustr \<Rightarrow> 'k runtime \<Rightarrow>
     (agent_error + unit) option \<times> 'k runtime" where
  "run_wss_carrier D L io config token rt =
     (case wss_open D (ca_connect io) config token of
        Inl e \<Rightarrow> (Some (Inl e), rt)
      | Inr _ \<Rightarrow>
          let se = (session_new rt)\<lparr>se_outbound := Some [OControl (hello_message config [TWss])]\<rparr>;
              se1 = on_rt (\<lambda>rt. log_event (ca_at io) ''info'' text_wss_connected
                (set_status StOnline text_wss_online rt)) se in
          (case carrier_loop wss_others (wss_event_step L (gc_transport_mode config)) (ca_wss io) se1 of
             (r, ts, se2) \<Rightarrow> (r, se_rt se2)))"

definition text_quic_unavailable :: ustr where
  "text_quic_unavailable = [81, 85, 73, 67, 32, 0x4E0D, 0x53EF, 0x7528, 0xFF1A]"
definition text_fell_back :: ustr where
  "text_fell_back = [0xFF0C, 0x5DF2, 0x56DE, 0x9000, 32, 87, 83, 83]"

text \<open>\<open>show\<close> is the text of an error.\<close>

definition run_carrier ::
  "('u, 'k) dlib \<Rightarrow> lib \<Rightarrow> (agent_error \<Rightarrow> ustr) \<Rightarrow> ('u, 'k) carrier_input \<Rightarrow> agent_config \<Rightarrow> ustr \<Rightarrow> 'k runtime \<Rightarrow>
     (agent_error + unit) option \<times> 'k runtime" where
  "run_carrier D L show_err io config token rt =
     (case gc_transport_mode config of
        MQuic \<Rightarrow> run_quic_carrier D L io config token rt
      | MKcp \<Rightarrow> run_kcp_carrier D L io config token rt
      | MWss \<Rightarrow> run_wss_carrier D L io config token rt
      | MAuto \<Rightarrow>
          (case run_quic_carrier D L io config token rt of
             (None, rt1) \<Rightarrow> (None, rt1)
           | (Some (Inr _), rt1) \<Rightarrow>
               if ca_cancelled io then (Some (Inr ()), rt1) else run_wss_carrier D L io config token rt1
           | (Some (Inl e), rt1) \<Rightarrow>
               let reason = text_quic_unavailable @ show_err e in
               run_wss_carrier D L io config token
                 (set_transport TWss (Some reason)
                   (log_event (ca_at io) ''warn'' (reason @ text_fell_back) rt1))))"

section \<open>Reconnecting\<close>

definition backoff_ms :: "nat \<Rightarrow> nat \<Rightarrow> nat" where
  "backoff_ms attempt jitter = min (2 ^ attempt) 60 * 1000 + jitter"

definition text_no_token :: ustr where
  "text_no_token = [0x65E0, 0x6CD5, 0x8BFB, 0x53D6, 0x8BBE, 0x5907, 0x4EE4, 0x724C]"
definition text_connecting :: ustr where
  "text_connecting = [0x6B63, 0x5728, 0x5EFA, 0x7ACB, 0x52A0, 0x5BC6, 0x63A7, 0x5236, 0x901A, 0x9053]"
definition text_closed :: ustr where
  "text_closed = [0x63A7, 0x5236, 0x901A, 0x9053, 0x5DF2, 0x5173, 0x95ED]"
definition text_failed :: ustr where
  "text_failed = [0x8FDE, 0x63A5, 0x5931, 0x8D25, 0xFF1A]"
definition text_retrying :: ustr where
  "text_retrying = [0x8FDE, 0x63A5, 0x4E2D, 0x65AD, 0xFF0C, 0x6B63, 0x5728, 0x91CD, 0x8BD5]"

text \<open>
  One turn of the loop: whether the token is cancelled at its start, after the carrier and during the
  pause, the run of the carrier, the jitter, and what other tasks do during the pause.
\<close>

record ('u, 'k) attempt =
  at_cancelled :: bool
  at_input :: "('u, 'k) carrier_input"
  at_cancelled_after :: bool
  at_jitter :: nat
  at_cancelled_pause :: bool
  at_others :: "'k runtime \<Rightarrow> 'k runtime"

text \<open>The pauses in milliseconds, whether the loop has returned, and the state.\<close>

fun run_reconnecting ::
  "('u, 'k) dlib \<Rightarrow> lib \<Rightarrow> (agent_error \<Rightarrow> ustr) \<Rightarrow> ('u, 'k) attempt list \<Rightarrow> nat \<Rightarrow> 'k runtime \<Rightarrow>
     nat list \<times> bool \<times> 'k runtime" where
  "run_reconnecting D L show_err [] attempt rt = ([], False, rt)"
| "run_reconnecting D L show_err (a # as) attempt rt =
     (if at_cancelled a then ([], True, rt)
      else case rs_config rt of
        None \<Rightarrow> ([], True, set_status StUnconfigured text_no_server rt)
      | Some config \<Rightarrow>
          (case load_token D L (gc_installation_id config) (rs_keychain rt) of
             Inl e \<Rightarrow> ([], True, log_event (ca_at (at_input a)) ''error'' e (set_status StError text_no_token rt))
           | Inr token \<Rightarrow>
               (case run_carrier D L show_err (at_input a) config token (set_status StConnecting text_connecting rt) of
                  (None, rt1) \<Rightarrow> ([], False, rt1)
                | (Some r, rt1) \<Rightarrow>
                    if r = Inr () \<and> at_cancelled_after a then ([], True, rt1)
                    else
                      let rt2 = log_event (ca_at (at_input a)) ''warn''
                            (case r of Inr _ \<Rightarrow> text_closed | Inl e \<Rightarrow> text_failed @ show_err e) rt1;
                          rt3 = set_status StOffline text_retrying rt2;
                          n = min (attempt + 1) 8;
                          delay = backoff_ms n (at_jitter a) in
                      if at_cancelled_pause a then ([delay], True, rt3)
                      else (case run_reconnecting D L show_err as n (at_others a rt3) of
                              (ds, done, rt4) \<Rightarrow> (delay # ds, done, rt4)))))"

text \<open>The new agent's token takes the place of the previous one, which is cancelled.\<close>

definition restart_agent :: "nat \<Rightarrow> 'k runtime \<Rightarrow> 'k runtime" where
  "restart_agent token rt =
     rt\<lparr>rs_cancellation := Some token,
        rs_cancelled := (case rs_cancellation rt of Some old \<Rightarrow> insert old (rs_cancelled rt) | None \<Rightarrow> rs_cancelled rt),
        rs_restarts := rs_restarts rt @ [token]\<rparr>"

section \<open>The tasks of the WebSocket carrier\<close>

definition task_begins :: "metrics_snapshot \<Rightarrow> metrics_snapshot" where
  "task_begins ms = ms\<lparr>ms_active_connections := ms_active_connections ms + 1\<rparr>"

definition task_ends :: "bool \<Rightarrow> metrics_snapshot \<Rightarrow> metrics_snapshot" where
  "task_ends failed ms =
     (let ms1 = ms\<lparr>ms_active_connections := (if ms_active_connections ms = 0 then 0 else ms_active_connections ms - 1)\<rparr> in
      if failed then ms1\<lparr>ms_failed_connections := ms_failed_connections ms1 + 1\<rparr> else ms1)"

definition text_connection_from :: ustr where "text_connection_from = [32, 0x6536, 0x5230, 0x6765, 0x81EA, 32]"
definition text_connection :: ustr where "text_connection = [32, 0x7684, 0x8FDE, 0x63A5]"
definition text_relay_failed :: ustr where "text_relay_failed = [0x8F6C, 0x53D1, 0x8FDE, 0x63A5, 0x5931, 0x8D25, 0xFF1A]"

definition text_udp_session :: ustr where "text_udp_session = [32, 0x7684, 32, 85, 68, 80, 32, 0x4F1A, 0x8BDD]"
definition text_udp_failed :: ustr where "text_udp_failed = [85, 68, 80, 32, 0x8F6C, 0x53D1, 0x5931, 0x8D25, 0xFF1A]"

definition log_task :: "utc \<Rightarrow> offer_task \<Rightarrow> 'k session \<Rightarrow> 'k session" where
  "log_task at tk =
     on_rt (log_with_location at ''info''
       (t_name (ot_tunnel tk) @ text_connection_from @ ot_peer_addr tk @
        (if ot_udp tk then text_udp_session else text_connection)) (ot_peer_location tk))"

definition log_failure :: "utc \<Rightarrow> (agent_error \<Rightarrow> ustr) \<Rightarrow> ustr \<Rightarrow> agent_error + 'a \<Rightarrow> 'k session \<Rightarrow> 'k session" where
  "log_failure at show_err what r se =
     (case r of
        Inl e \<Rightarrow> if e = Blocked then se else on_rt (log_event at ''error'' (what @ show_err e)) se
      | Inr _ \<Rightarrow> se)"

definition direct_stream_task ::
  "lib \<Rightarrow> (agent_error \<Rightarrow> ustr) \<Rightarrow> utc \<Rightarrow> 'k stream_input \<Rightarrow> offer_task \<Rightarrow> 'k session \<Rightarrow> 'k session" where
  "direct_stream_task L show_err at io tk se =
     (case open_multiplexed_stream L io (ot_id tk) (ot_tunnel tk) (ot_ticket tk) (log_task at tk se) of
        (r, se1) \<Rightarrow> log_failure at show_err text_relay_failed r se1)"

definition udp_stream_task ::
  "lib \<Rightarrow> (agent_error \<Rightarrow> ustr) \<Rightarrow> utc \<Rightarrow> 'k local_udp_input \<Rightarrow> offer_task \<Rightarrow> 'k session \<Rightarrow> 'k session" where
  "udp_stream_task L show_err at io tk se =
     (case open_udp_session L io (ot_id tk) (ot_ticket tk) (log_task at tk se) of
        (r, se1) \<Rightarrow> log_failure at show_err text_udp_failed r se1)"

text \<open>\<open>None\<close> while the connection is still open.\<close>

definition stream_ended :: "agent_error + bridge \<Rightarrow> bool option" where
  "stream_ended r =
     (case r of
        Inl e \<Rightarrow> if e = Blocked then None else Some True
      | Inr b \<Rightarrow> if bridge_result b = None then None else Some False)"

definition wss_stream_task ::
  "lib \<Rightarrow> (agent_error \<Rightarrow> ustr) \<Rightarrow> utc \<Rightarrow> 'k stream_input \<Rightarrow> offer_task \<Rightarrow> 'k session \<Rightarrow> bool option \<times> 'k session" where
  "wss_stream_task L show_err at io tk se =
     (case open_multiplexed_stream L io (ot_id tk) (ot_tunnel tk) (ot_ticket tk)
             (on_rt (with_metrics task_begins) (log_task at tk se)) of
        (r, se1) \<Rightarrow>
          (case stream_ended r of
             None \<Rightarrow> (None, se1)
           | Some failed \<Rightarrow>
               (Some failed, log_failure at show_err text_relay_failed r (on_rt (with_metrics (task_ends failed)) se1))))"

end
