(* ===== verification/Agent_Commands.thy ===== *)
theory Agent_Commands
  imports Agent_Carrier Auth
begin

text \<open>
  The commands of the desktop's user interface (desktop/src-tauri/src/commands.rs): registering with a server,
  creating, changing and deleting tunnels through the server's agent API, switching all tunnels and
  choosing the carrier. A command runs on the runtime state and the world behind the HTTP client; \<open>net\<close>
  is what the world answers to a request, and it may change the runtime state too, since other tasks run
  while the command waits.
\<close>

section \<open>HTTP requests\<close>

datatype request_body = NoBody | CreateBody create_tunnel_request | UpdateBody update_tunnel_request

record http_request =
  hr_method :: http_method
  hr_url :: ustr
  hr_bearer :: ustr
  hr_body :: request_body

text \<open>The request could not be sent, with the text of the error, or there is a status and a body.\<close>

datatype http_answer = NoAnswer ustr | Answer nat bytes

type_synonym ('k, 'w) net = "http_request \<Rightarrow> 'k runtime \<times> 'w \<Rightarrow> http_answer \<times> 'k runtime \<times> 'w"

type_synonym ('k, 'w, 'a) command = "('k runtime \<times> 'w, ustr, 'a) act"

definition on_runtime :: "('k runtime \<Rightarrow> 'k runtime) \<Rightarrow> ('k, 'w, unit) command" where
  "on_runtime f = modify (apfst f)"

definition text_bad_token :: ustr where
  "text_bad_token = [0x8BBE, 0x5907, 0x4EE4, 0x724C, 0x65E0, 0x6548, 0x6216, 0x5DF2, 0x64A4, 0x9500]"
definition text_server_returned :: ustr where
  "text_server_returned = [0x670D, 0x52A1, 0x5668, 0x8FD4, 0x56DE, 32]"

definition response_error :: "('u, 'k) dlib \<Rightarrow> nat \<Rightarrow> bytes \<Rightarrow> ustr" where
  "response_error D status body =
     (case d_api_error_parse D body of
        Some e \<Rightarrow> er_message e
      | None \<Rightarrow> if status = 401 then text_bad_token else text_server_returned @ d_status_text D status)"

definition is_success :: "nat \<Rightarrow> bool" where
  "is_success status \<longleftrightarrow> 200 \<le> status \<and> status < 300"

definition request_json ::
  "('u, 'k) dlib \<Rightarrow> ('k, 'w) net \<Rightarrow> ustr \<Rightarrow> ustr \<Rightarrow> http_method \<Rightarrow> ustr \<Rightarrow> request_body \<Rightarrow>
     (bytes \<Rightarrow> ustr + 'a) \<Rightarrow> ('k, 'w, 'a) command" where
  "request_json D net server token method path body parse s =
     (case net \<lparr>hr_method = method, hr_url = server @ path, hr_bearer = token, hr_body = body\<rparr> s of
        (NoAnswer e, s') \<Rightarrow> (Inl e, s')
      | (Answer status b, s') \<Rightarrow>
          (if is_success status then parse b else Inl (response_error D status b), s'))"

definition request_empty ::
  "('u, 'k) dlib \<Rightarrow> ('k, 'w) net \<Rightarrow> ustr \<Rightarrow> ustr \<Rightarrow> http_method \<Rightarrow> ustr \<Rightarrow> request_body \<Rightarrow> ('k, 'w, unit) command" where
  "request_empty D net server token method path body =
     request_json D net server token method path body (\<lambda>b. Inr ())"

section \<open>Helpers\<close>

definition text_not_configured :: ustr where
  "text_not_configured = [0x5C1A, 0x672A, 0x914D, 0x7F6E, 0x670D, 0x52A1, 0x5668]"

definition credentials :: "('u, 'k) dlib \<Rightarrow> lib \<Rightarrow> ('k, 'w, agent_config \<times> ustr) command" where
  "credentials D L =
     seq (peek (\<lambda>s. rs_config (fst s))) (\<lambda>c.
     seq (lift (ok_or c text_not_configured)) (\<lambda>config.
     seq (peek (\<lambda>s. load_token D L (gc_installation_id config) (rs_keychain (fst s)))) (\<lambda>r.
     seq (lift r) (\<lambda>token. ok (config, token)))))"

definition tunnels_path :: ustr where "tunnels_path = lit ''/api/v1/agent/tunnels''"

definition tunnel_path :: "lib \<Rightarrow> uuid \<Rightarrow> ustr" where
  "tunnel_path L i = lit ''/api/v1/agent/tunnels/'' @ l_uuid_text L i"

definition refresh_tunnels :: "('u, 'k) dlib \<Rightarrow> lib \<Rightarrow> ('k, 'w) net \<Rightarrow> ('k, 'w, unit) command" where
  "refresh_tunnels D L net =
     seq (credentials D L) (\<lambda>(config, token).
     seq (request_json D net (gc_server_url config) token GET tunnels_path NoBody (d_tunnels_parse D)) (\<lambda>ts.
     on_runtime (\<lambda>rt. rt\<lparr>rs_tunnels := ts\<rparr>)))"

section \<open>Registering with a server\<close>

definition text_url_invalid :: ustr where
  "text_url_invalid = [0x670D, 0x52A1, 0x5668, 0x5730, 0x5740, 0x683C, 0x5F0F, 0x65E0, 0x6548]"
definition text_url_not_https :: ustr where
  "text_url_not_https =
     [0x670D, 0x52A1, 0x5668, 0x5FC5, 0x987B, 0x4F7F, 0x7528, 32, 72, 84, 84, 80, 83, 0xFF1B, 0x4EC5, 0x672C, 0x673A,
      0x5F00, 0x53D1, 0x5730, 0x5740, 0x5141, 0x8BB8, 32, 72, 84, 84, 80]"
definition text_url_no_host :: ustr where
  "text_url_no_host = [0x670D, 0x52A1, 0x5668, 0x5730, 0x5740, 0x7F3A, 0x5C11, 0x4E3B, 0x673A, 0x540D]"
definition text_token_format :: ustr where
  "text_token_format = [0x8BBE, 0x5907, 0x4EE4, 0x724C, 0x683C, 0x5F0F, 0x65E0, 0x6548]"
definition text_device_name :: ustr where
  "text_device_name =
     [0x8BBE, 0x5907, 0x540D, 0x79F0, 0x9700, 0x8981, 0x5305, 0x542B, 32, 49, 32, 0x5230, 32, 56, 48, 32, 0x4E2A, 0x5B57, 0x7B26]"
definition text_configured :: ustr where
  "text_configured = [0x670D, 0x52A1, 0x5668, 0x914D, 0x7F6E, 0x5DF2, 0x9A8C, 0x8BC1, 0x5E76, 0x4FDD, 0x5B58]"

definition url_error_text :: "url_error \<Rightarrow> ustr" where
  "url_error_text e =
     (case e of UrlInvalid \<Rightarrow> text_url_invalid | UrlNotHttps \<Rightarrow> text_url_not_https | UrlNoHost \<Rightarrow> text_url_no_host)"

text \<open>A write to the keychain and the replacement of the configuration file, as steps of a command.\<close>

definition set_key :: "('k \<Rightarrow> (ustr + unit) \<times> 'k) \<Rightarrow> ('k, 'w, unit) command" where
  "set_key f s =
     (case f (rs_keychain (fst s)) of (r, k) \<Rightarrow> (r, (fst s\<lparr>rs_keychain := k\<rparr>, snd s)))"

definition store_config ::
  "('u, 'k) dlib \<Rightarrow> save_fault option \<Rightarrow> agent_config \<Rightarrow> ('k, 'w, unit) command" where
  "store_config D fault config s =
     (case save_config D fault config (rs_disk (fst s)) of
        (r, dk) \<Rightarrow>
          (case r of Inr _ \<Rightarrow> Inr () | Inl FileFault \<Rightarrow> Inl (d_io_text D) | Inl JsonFault \<Rightarrow> Inl (d_json_text D),
           (fst s\<lparr>rs_disk := dk\<rparr>, snd s)))"

text \<open>
  What a command takes from outside: the time of its log entry, whether and where saving the configuration
  fails, a fresh UUID and the cancellation token of the agent it starts.
\<close>

record command_input =
  ci_at :: utc
  ci_fault :: "save_fault option"
  ci_fresh :: uuid
  ci_agent :: nat

definition enrolled_config ::
  "ustr \<Rightarrow> ustr \<Rightarrow> uuid \<Rightarrow> agent_config option \<Rightarrow> agent_enrollment_response \<Rightarrow> agent_config" where
  "enrolled_config server_url name fresh previous enrollment =
     \<lparr>gc_server_url = server_url, gc_device_name = name,
      gc_installation_id = (case previous of Some p \<Rightarrow> gc_installation_id p | None \<Rightarrow> fresh),
      gc_transport_mode = (case previous of Some p \<Rightarrow> gc_transport_mode p | None \<Rightarrow> MAuto),
      gc_quic_port = en_quic_port enrollment, gc_kcp_port = en_kcp_port enrollment\<rparr>"

definition store_enrollment ::
  "('u, 'k) dlib \<Rightarrow> lib \<Rightarrow> command_input \<Rightarrow> agent_config \<Rightarrow> ustr \<Rightarrow> agent_enrollment_response \<Rightarrow> ('k, 'w, unit) command" where
  "store_enrollment D L ci config token enrollment =
     (let i = gc_installation_id config in
      seq (set_key (save_token D L i token)) (\<lambda>_.
      seq (set_key (save_transport_fingerprint D L i (en_transport_fingerprint enrollment))) (\<lambda>_.
      seq (set_key (save_transport_certificate D L i (en_transport_certificate_der enrollment))) (\<lambda>_.
      store_config D (ci_fault ci) config))))"

definition configure_server ::
  "('u, 'k) dlib \<Rightarrow> lib \<Rightarrow> ('k, 'w) net \<Rightarrow> command_input \<Rightarrow> ustr \<Rightarrow> ustr \<Rightarrow> ustr \<Rightarrow> ('k, 'w, unit) command" where
  "configure_server D L net ci server_url token device_name =
     seq (lift (case normalize_server_url D server_url of Inl e \<Rightarrow> Inl (url_error_text e) | Inr u \<Rightarrow> Inr u)) (\<lambda>url.
     seq (lift (ensure (20 \<le> byte_len (trim token)) text_token_format)) (\<lambda>_.
     let name = trim device_name in
     seq (lift (ensure (name \<noteq> [] \<and> char_count name \<le> 80) text_device_name)) (\<lambda>_.
     seq (request_json D net url (trim token) GET (lit ''/api/v1/agent/enrollment'') NoBody (d_enrollment_parse D)) (\<lambda>enrollment.
     seq (peek (\<lambda>s. rs_config (fst s))) (\<lambda>previous.
     let config = enrolled_config url name (ci_fresh ci) previous enrollment in
     seq (store_enrollment D L ci config (trim token) enrollment) (\<lambda>_.
     on_runtime (\<lambda>rt. restart_agent (ci_agent ci) (log_event (ci_at ci) ''info'' text_configured
       (rt\<lparr>rs_config := Some config, rs_tunnels := en_tunnels enrollment\<rparr>)))))))))"

section \<open>Tunnels\<close>

definition text_tunnel_created :: ustr where
  "text_tunnel_created = [0x5DF2, 0x521B, 0x5EFA, 0x5E76, 0x540C, 0x6B65, 0x65B0, 0x96A7, 0x9053]"
definition text_tunnel_deleted :: ustr where
  "text_tunnel_deleted =
     [0x96A7, 0x9053, 0x5DF2, 0x5220, 0x9664, 0xFF0C, 0x8FDC, 0x7A0B, 0x7AEF, 0x53E3, 0x5DF2, 0x91CA, 0x653E]"

definition create_tunnel_inner ::
  "('u, 'k) dlib \<Rightarrow> lib \<Rightarrow> ('k, 'w) net \<Rightarrow> command_input \<Rightarrow> create_tunnel_request \<Rightarrow> ('k, 'w, tunnel) command" where
  "create_tunnel_inner D L net ci q =
     seq (credentials D L) (\<lambda>(config, token).
     seq (request_json D net (gc_server_url config) token POST tunnels_path (CreateBody q) (d_tunnel_parse D)) (\<lambda>t.
     seq (refresh_tunnels D L net) (\<lambda>_.
     seq (on_runtime (log_event (ci_at ci) ''info'' text_tunnel_created)) (\<lambda>_. ok t))))"

definition update_tunnel ::
  "('u, 'k) dlib \<Rightarrow> lib \<Rightarrow> ('k, 'w) net \<Rightarrow> uuid \<Rightarrow> update_tunnel_request \<Rightarrow> ('k, 'w, tunnel) command" where
  "update_tunnel D L net i q =
     seq (credentials D L) (\<lambda>(config, token).
     seq (request_json D net (gc_server_url config) token PATCH (tunnel_path L i) (UpdateBody q) (d_tunnel_parse D)) (\<lambda>t.
     seq (refresh_tunnels D L net) (\<lambda>_. ok t)))"

definition remove_tunnel ::
  "('u, 'k) dlib \<Rightarrow> lib \<Rightarrow> ('k, 'w) net \<Rightarrow> command_input \<Rightarrow> uuid \<Rightarrow> ('k, 'w, unit) command" where
  "remove_tunnel D L net ci i =
     seq (credentials D L) (\<lambda>(config, token).
     seq (request_empty D net (gc_server_url config) token DELETE (tunnel_path L i) NoBody) (\<lambda>_.
     seq (refresh_tunnels D L net) (\<lambda>_.
     on_runtime (log_event (ci_at ci) ''info'' text_tunnel_deleted))))"

definition set_one ::
  "('u, 'k) dlib \<Rightarrow> lib \<Rightarrow> ('k, 'w) net \<Rightarrow> bool \<Rightarrow> tunnel \<Rightarrow> ('k, 'w, unit) command" where
  "set_one D L net enabled t =
     (if t_enabled t \<noteq> enabled then
        seq (credentials D L) (\<lambda>(config, token).
        seq (request_json D net (gc_server_url config) token PATCH (tunnel_path L (t_id t))
          (UpdateBody (default_update_request\<lparr>ur_enabled := Some enabled\<rparr>)) (d_tunnel_parse D)) (\<lambda>_. ok ()))
      else ok ())"

fun set_each ::
  "('u, 'k) dlib \<Rightarrow> lib \<Rightarrow> ('k, 'w) net \<Rightarrow> bool \<Rightarrow> tunnel list \<Rightarrow> ('k, 'w, unit) command" where
  "set_each D L net enabled [] = ok ()"
| "set_each D L net enabled (t # ts) =
     seq (set_one D L net enabled t) (\<lambda>_. set_each D L net enabled ts)"

definition set_all_enabled_inner ::
  "('u, 'k) dlib \<Rightarrow> lib \<Rightarrow> ('k, 'w) net \<Rightarrow> bool \<Rightarrow> ('k, 'w, unit) command" where
  "set_all_enabled_inner D L net enabled =
     seq (peek (\<lambda>s. rs_tunnels (fst s))) (\<lambda>items.
     seq (set_each D L net enabled items) (\<lambda>_. refresh_tunnels D L net))"

section \<open>Choosing the carrier\<close>

definition mode_debug :: "transport_mode \<Rightarrow> ustr" where
  "mode_debug mode =
     (case mode of MAuto \<Rightarrow> lit ''Auto'' | MQuic \<Rightarrow> lit ''Quic'' | MKcp \<Rightarrow> lit ''Kcp'' | MWss \<Rightarrow> lit ''Wss'')"

definition text_mode_changed :: ustr where
  "text_mode_changed = [0x627F, 0x8F7D, 0x7B56, 0x7565, 0x5DF2, 0x5207, 0x6362, 0x4E3A, 32]"

definition set_transport_mode ::
  "('u, 'k) dlib \<Rightarrow> command_input \<Rightarrow> transport_mode \<Rightarrow> ('k, 'w, unit) command" where
  "set_transport_mode D ci mode =
     seq (peek (\<lambda>s. rs_config (fst s))) (\<lambda>c.
     seq (lift (ok_or c text_not_configured)) (\<lambda>config0.
     let config = config0\<lparr>gc_transport_mode := mode\<rparr> in
     seq (store_config D (ci_fault ci) config) (\<lambda>_.
     on_runtime (\<lambda>rt. restart_agent (ci_agent ci)
       (log_event (ci_at ci) ''info'' (text_mode_changed @ mode_debug mode) (rt\<lparr>rs_config := Some config\<rparr>))))))"

end
