(* ===== verification/Agent_Commands_Facts.thy ===== *)
theory Agent_Commands_Facts
  imports Agent_Commands
begin

text \<open>
  What the commands of the desktop leave behind: in memory, in the configuration file, in the keychain and
  on the server's side.
\<close>

section \<open>The secrets of an installation\<close>

text \<open>What the keychain holds for an installation.\<close>

definition secrets_of :: "('u, 'k) dlib \<Rightarrow> lib \<Rightarrow> uuid \<Rightarrow> 'k \<Rightarrow> (ustr + ustr) \<times> (ustr + ustr) \<times> (ustr + ustr)" where
  "secrets_of D L i k =
     (load_token D L i k, load_transport_fingerprint D L i k, load_transport_certificate D L i k)"

lemma key_set_get:
  assumes "keychain_law D" and "d_key_set D u v k = (Inr (), k')"
  shows "d_key_get D w k' = (if w = u then Inr v else d_key_get D w k)"
  using assms unfolding keychain_law_def by blast

lemma secrets_saved:
  assumes "keychain_law D" and "uuid_plain L" and "uuid_text_ok L"
    and "save_token D L i token k = (Inr (), k1)"
    and "save_transport_fingerprint D L i fp k1 = (Inr (), k2)"
    and "save_transport_certificate D L i cert k2 = (Inr (), k3)"
  shows "secrets_of D L j k3 = (if j = i then (Inr token, Inr fp, Inr cert) else secrets_of D L j k)"
proof -
  note distinct = keys_distinct [OF assms(2,3)]
  have k1: "d_key_get D w k1 = (if w = l_uuid_text L i then Inr token else d_key_get D w k)" for w
    using assms(4) unfolding save_token_def by (rule key_set_get [OF assms(1)])
  have k2: "d_key_get D w k2 = (if w = fingerprint_key L i then Inr fp else d_key_get D w k1)" for w
    using assms(5) unfolding save_transport_fingerprint_def by (rule key_set_get [OF assms(1)])
  have k3: "d_key_get D w k3 = (if w = certificate_key L i then Inr cert else d_key_get D w k2)" for w
    using assms(6) unfolding save_transport_certificate_def by (rule key_set_get [OF assms(1)])
  show ?thesis
    by (simp add: secrets_of_def load_token_def load_transport_fingerprint_def load_transport_certificate_def
        k1 k2 k3 distinct distinct(1-3) [THEN not_sym])
qed

lemma store_config_run:
  assumes "store_config D fault config (rt, w) = (r, s')"
  obtains dk where "s' = (rt\<lparr>rs_disk := dk\<rparr>, w)"
    and "(r = Inr () \<and> fault = None \<and> (\<exists>b. d_config_json D config = Some b \<and> dk_config dk = Some b)) \<or>
      ((\<exists>e. r = Inl e) \<and> dk_config dk = dk_config (rs_disk rt))"
proof -
  obtain res dk where save: "save_config D fault config (rs_disk rt) = (res, dk)"
    by (cases "save_config D fault config (rs_disk rt)")
  show ?thesis
    using assms save_config_cases [OF save] save
    by (intro that [of dk]) (auto simp: store_config_def split: sum.splits config_fault.splits)
qed

lemma store_enrollment_run:
  assumes "store_enrollment D L ci config token enrollment (rt, w) = (r, s')"
  obtains k dk where "s' = (rt\<lparr>rs_keychain := k, rs_disk := dk\<rparr>, w)"
    and "(r = Inr () \<and> (\<exists>k1 k2. save_token D L (gc_installation_id config) token (rs_keychain rt) = (Inr (), k1) \<and>
        save_transport_fingerprint D L (gc_installation_id config) (en_transport_fingerprint enrollment) k1 = (Inr (), k2) \<and>
        save_transport_certificate D L (gc_installation_id config) (en_transport_certificate_der enrollment) k2 = (Inr (), k)) \<and>
        (\<exists>b. d_config_json D config = Some b \<and> dk_config dk = Some b)) \<or>
      ((\<exists>e. r = Inl e) \<and> dk_config dk = dk_config (rs_disk rt))"
proof -
  let ?i = "gc_installation_id config"
  obtain r1 k1 where t: "save_token D L ?i token (rs_keychain rt) = (r1, k1)" by (cases "save_token D L ?i token (rs_keychain rt)")
  obtain r2 k2 where f: "save_transport_fingerprint D L ?i (en_transport_fingerprint enrollment) k1 = (r2, k2)"
    by (cases "save_transport_fingerprint D L ?i (en_transport_fingerprint enrollment) k1")
  obtain r3 k3 where c: "save_transport_certificate D L ?i (en_transport_certificate_der enrollment) k2 = (r3, k3)"
    by (cases "save_transport_certificate D L ?i (en_transport_certificate_der enrollment) k2")
  note run = assms [unfolded store_enrollment_def Let_def seq_def set_key_def]
  show ?thesis
  proof (cases r1)
    case (Inl e)
    then show ?thesis using run t by (intro that [of "rs_disk rt" k1]) auto
  next
    case (Inr u1)
    note ok1 = this
    show ?thesis
    proof (cases r2)
      case (Inl e)
      then show ?thesis using run t ok1 f by (intro that [of "rs_disk rt" k2]) auto
    next
      case (Inr u2)
      note ok2 = this
      show ?thesis
      proof (cases r3)
        case (Inl e)
        then show ?thesis using run t ok1 ok2 f c by (intro that [of "rs_disk rt" k3]) auto
      next
        case (Inr u3)
        then have "store_config D (ci_fault ci) config (rt\<lparr>rs_keychain := k3\<rparr>, w) = (r, s')"
          using run t ok1 ok2 f c by simp
        then obtain dk where "s' = (rt\<lparr>rs_keychain := k3, rs_disk := dk\<rparr>, w)"
          "(r = Inr () \<and> ci_fault ci = None \<and> (\<exists>b. d_config_json D config = Some b \<and> dk_config dk = Some b)) \<or>
             ((\<exists>e. r = Inl e) \<and> dk_config dk = dk_config (rs_disk rt))"
          by (rule store_config_run) simp
        then show ?thesis using t f c ok1 ok2 Inr by (intro that [of dk k3]) auto
      qed
    qed
  qed
qed

section \<open>Registering\<close>

definition enroll_request :: "ustr \<Rightarrow> ustr \<Rightarrow> http_request" where
  "enroll_request url token =
     \<lparr>hr_method = GET, hr_url = url @ lit ''/api/v1/agent/enrollment'', hr_bearer = token, hr_body = NoBody\<rparr>"

text \<open>The input that is refused before anything is sent.\<close>

definition input_refused :: "('u, 'k) dlib \<Rightarrow> ustr \<Rightarrow> ustr \<Rightarrow> ustr \<Rightarrow> bool" where
  "input_refused D server_url token device_name \<longleftrightarrow>
     (\<forall>url. normalize_server_url D server_url \<noteq> Inr url) \<or> byte_len (trim token) < 20 \<or>
     trim device_name = [] \<or> 80 < char_count (trim device_name)"

lemma configure_server_refused:
  assumes "input_refused D server_url token device_name"
  shows "\<exists>e. configure_server D L net ci server_url token device_name s = (Inl e, s)"
proof (cases "normalize_server_url D server_url")
  case (Inl e)
  then show ?thesis by (simp add: configure_server_def act_simps)
next
  case (Inr url)
  then show ?thesis using assms
    by (cases "20 \<le> byte_len (trim token)")
      (auto simp: configure_server_def input_refused_def act_simps Let_def ensure_def)
qed

lemma configure_server_sent:
  assumes "normalize_server_url D server_url = Inr url" and "\<not> input_refused D server_url token device_name"
    and "net (enroll_request url (trim token)) s = (a, (rt1, w1))"
  shows "configure_server D L net ci server_url token device_name s =
     (case (case a of NoAnswer e \<Rightarrow> Inl e
        | Answer status b \<Rightarrow> if is_success status then d_enrollment_parse D b else Inl (response_error D status b)) of
        Inl e \<Rightarrow> (Inl e, (rt1, w1))
      | Inr en \<Rightarrow>
          let config = enrolled_config url (trim device_name) (ci_fresh ci) (rs_config rt1) en in
          seq (store_enrollment D L ci config (trim token) en) (\<lambda>_.
          on_runtime (\<lambda>rt. restart_agent (ci_agent ci) (log_event (ci_at ci) ''info'' text_configured
            (rt\<lparr>rs_config := Some config, rs_tunnels := en_tunnels en\<rparr>)))) (rt1, w1))"
  using assms
  by (auto simp: configure_server_def input_refused_def act_simps Let_def not_less request_json_def enroll_request_def
      split: http_answer.splits sum.splits)

lemma commit_run:
  assumes "keychain_law D" and "uuid_plain L" and "uuid_text_ok L" and "config_json_ok D"
    and "seq (store_enrollment D L ci config token en) (\<lambda>_.
       on_runtime (\<lambda>rt. restart_agent (ci_agent ci) (log_event (ci_at ci) ''info'' text_configured
         (rt\<lparr>rs_config := Some config, rs_tunnels := en_tunnels en\<rparr>)))) (rt1, w1) = (r, (rt', w'))"
  shows "w' = w1 \<and> (case r of
       Inl e \<Rightarrow> rs_config rt' = rs_config rt1 \<and> rs_tunnels rt' = rs_tunnels rt1 \<and> rs_restarts rt' = rs_restarts rt1 \<and>
         rs_cancelled rt' = rs_cancelled rt1 \<and> (\<forall>f. load_config D f (rs_disk rt') = load_config D f (rs_disk rt1))
     | Inr _ \<Rightarrow> rs_config rt' = Some config \<and> load_config D False (rs_disk rt') = Inr (Some config) \<and>
         rs_tunnels rt' = en_tunnels en \<and> rs_restarts rt' = rs_restarts rt1 @ [ci_agent ci] \<and>
         (\<forall>j. secrets_of D L j (rs_keychain rt') =
            (if j = gc_installation_id config
             then (Inr token, Inr (en_transport_fingerprint en), Inr (en_transport_certificate_der en))
             else secrets_of D L j (rs_keychain rt1))))"
proof -
  obtain r2 s2 where st: "store_enrollment D L ci config token en (rt1, w1) = (r2, s2)"
    by (cases "store_enrollment D L ci config token en (rt1, w1)")
  then show ?thesis
  proof (rule store_enrollment_run)
    fix k dk
    assume s2: "s2 = (rt1\<lparr>rs_keychain := k, rs_disk := dk\<rparr>, w1)"
      and r2: "(r2 = Inr () \<and> (\<exists>k1 k2. save_token D L (gc_installation_id config) token (rs_keychain rt1) = (Inr (), k1) \<and>
        save_transport_fingerprint D L (gc_installation_id config) (en_transport_fingerprint en) k1 = (Inr (), k2) \<and>
        save_transport_certificate D L (gc_installation_id config) (en_transport_certificate_der en) k2 = (Inr (), k)) \<and>
        (\<exists>b. d_config_json D config = Some b \<and> dk_config dk = Some b)) \<or>
      ((\<exists>e. r2 = Inl e) \<and> dk_config dk = dk_config (rs_disk rt1))"
    from r2 show ?thesis
    proof (elim disjE conjE exE)
      fix e assume "r2 = Inl e" and disk: "dk_config dk = dk_config (rs_disk rt1)"
      then show ?thesis using assms(5) st s2 load_config_cong [OF disk] by (auto simp: seq_def)
    next
      fix k1 k2 b
      assume saved: "save_token D L (gc_installation_id config) token (rs_keychain rt1) = (Inr (), k1)"
        "save_transport_fingerprint D L (gc_installation_id config) (en_transport_fingerprint en) k1 = (Inr (), k2)"
        "save_transport_certificate D L (gc_installation_id config) (en_transport_certificate_der en) k2 = (Inr (), k)"
        and b: "d_config_json D config = Some b" "dk_config dk = Some b" and r2: "r2 = Inr ()"
      have "load_config D False dk = Inr (Some config)"
        using b assms(4) by (simp add: load_config_def config_json_ok_def)
      then show ?thesis
        using assms(5) st s2 r2 secrets_saved [OF assms(1-3) saved]
        by (auto simp: seq_def on_runtime_def modify_def restart_agent_def)
    qed
  qed
qed


text \<open>The world of the witnesses: it keeps the requests and answers 200 to all of them.\<close>

definition sample_net :: "('k, http_request list) net" where
  "sample_net rq s = (Answer 200 [], (fst s, snd s @ [rq]))"

definition sample_command :: "save_fault option \<Rightarrow> command_input" where
  "sample_command fault = \<lparr>ci_at = 0, ci_fault = fault, ci_fresh = 7, ci_agent = 3\<rparr>"

definition colonless_lib :: lib where
  "colonless_lib =
     sample_lib\<lparr>l_uuid_text := (\<lambda>i. [unat i + 128]),
       l_uuid_parse := (\<lambda>s. case s of [n] \<Rightarrow> Some (of_nat (n - 128)) | _ \<Rightarrow> None)\<rparr>"

lemma colonless: "uuid_plain colonless_lib" "uuid_text_ok colonless_lib"
  by (auto simp: uuid_plain_def uuid_text_ok_def text_codec_def colonless_lib_def)

definition fresh_runtime :: "(ustr \<rightharpoonup> ustr) runtime" where
  "fresh_runtime = runtime_new \<lparr>dk_dir = False, dk_config = None, dk_tmp = None\<rparr> Map.empty None"

definition sample_token :: ustr where "sample_token = lit ''01234567890123456789''"

lemma sample_token_ok: "trim sample_token = sample_token" "byte_len sample_token = 20"
  by (simp_all add: sample_token_def lit_def trim_id is_whitespace_def byte_len_ascii)

lemma sample_accepted:
  "\<not> input_refused sample_dlib (lit ''https://tb.io/x'') sample_token (lit ''Mac'')" "trim (lit ''Mac'') = lit ''Mac''"
proof -
  show t: "trim (lit ''Mac'') = lit ''Mac''" by (simp add: lit_def trim_id is_whitespace_def)
  show "\<not> input_refused sample_dlib (lit ''https://tb.io/x'') sample_token (lit ''Mac'')"
    unfolding input_refused_def t sample_token_ok sample_normalized by (simp add: char_count_def lit_def)
qed

lemma sample_configured:
  "\<exists>rt'. configure_server sample_dlib colonless_lib sample_net (sample_command fault) (lit ''https://tb.io/x'')
     sample_token (lit ''Mac'') (fresh_runtime, []) =
     (if fault = None then Inr () else Inl (lit ''io''), (rt', [enroll_request (lit ''https://tb.io'') sample_token]))"
proof -
  have sent: "sample_net (enroll_request (lit ''https://tb.io'') (trim sample_token)) (fresh_runtime, []) =
      (Answer 200 [], (fresh_runtime, [enroll_request (lit ''https://tb.io'') sample_token]))"
    by (simp add: sample_net_def sample_token_ok)
  show ?thesis
    unfolding configure_server_sent [where net = sample_net, OF sample_normalized(2) sample_accepted(1) sent]
    by (cases fault)
      (auto simp: is_success_def sample_dlib_def Let_def seq_def store_enrollment_def set_key_def save_token_def
        save_transport_fingerprint_def save_transport_certificate_def store_config_def save_config_def rename_tmp_def
        write_tmp_def on_runtime_def modify_def fresh_runtime_def runtime_new_def enrolled_config_def sample_command_def
        sample_agent_config_def sample_accepted(2) split: save_fault.splits)
qed


end
