(* ===== verification/Agent_Carrier_Facts.thy ===== *)
theory Agent_Carrier_Facts
  imports Agent_Carrier
begin

text \<open>
  What the desktop's carriers guarantee: which records the reader delivers, whom the device token is sent
  to, what the loops do with the server's messages, and how the agent reconnects.
\<close>

section \<open>Reading records beside other branches\<close>

lemma read_direct_eq: "read_direct_record g = read_record g MAX_RECORD"
  by (simp add: record_defs)

lemma read_ready_none: "read_direct_record g s = Inl UnexpectedEof \<Longrightarrow> read_ready g s = ([], s, None)"
  by (simp add: read_ready.simps)

lemma read_ready_one:
  "read_direct_record g s = Inr (x, r) \<Longrightarrow>
     read_ready g s = (case read_ready g r of (xs, rest, e) \<Rightarrow> (x # xs, rest, e))"
  by (simp add: read_ready.simps [of g s])

context u32_io
begin

text \<open>
  Of the bytes \<open>t\<close> that have arrived of a stream of records, the reader delivers the complete records and
  its pending read holds the rest.
\<close>

lemma ready_prefix:
  assumes "t @ r = stream_of put_u32 rs" and "\<forall>(k, p) \<in> set rs. length p \<le> MAX_RECORD"
  shows "\<exists>m rest. read_ready get_u32 t = (take m rs, rest, None) \<and> rest @ r = stream_of put_u32 (drop m rs) \<and>
     read_direct_record get_u32 rest = Inl UnexpectedEof"
  using assms
proof (induction rs arbitrary: t)
  case Nil
  then have "t = []" "r = []" by simp_all
  moreover have "read_direct_record get_u32 [] = Inl UnexpectedEof" by (simp add: read_direct_eq read_record_def)
  ultimately show ?case by (intro exI [of _ 0] exI [of _ "[]"]) (simp add: read_ready_none)
next
  case (Cons x rs)
  obtain k p where x: "x = (k, p)" by (cases x)
  let ?w = "write_record put_u32 k p"
  have small: "length p \<le> MAX_RECORD" using Cons.prems(2) x by simp
  have tr: "t @ r = ?w @ stream_of put_u32 rs" using Cons.prems(1) x by simp
  show ?case
  proof (cases "length t < length ?w")
    case True
    then have "t = take (length t) ?w" using arg_cong [OF tr, of "take (length t)"] by simp
    then have cut: "read_direct_record get_u32 t = Inl UnexpectedEof"
      using read_cut [OF small MAX_RECORD_small True] by (simp add: read_direct_eq)
    show ?thesis
      using cut Cons.prems(1) by (intro exI [of _ 0] exI [of _ t]) (simp add: read_ready_none)
  next
    case False
    then obtain t' where t: "t = ?w @ t'"
      using tr by (metis append_eq_append_conv_if append_take_drop_id not_less)
    then have "t' @ r = stream_of put_u32 rs" using tr by simp
    then obtain m rest where m: "read_ready get_u32 t' = (take m rs, rest, None)"
        "rest @ r = stream_of put_u32 (drop m rs)" "read_direct_record get_u32 rest = Inl UnexpectedEof"
      using Cons.IH Cons.prems(2) by fastforce
    have "read_direct_record get_u32 t = Inr ((k, p), t')"
      using read_write [OF small MAX_RECORD_small] t by (simp add: read_direct_eq)
    then have "read_ready get_u32 t = (take (Suc m) (x # rs), rest, None)"
      using m(1) x by (simp add: read_ready_one)
    with m show ?thesis by (intro exI [of _ "Suc m"] exI [of _ rest]) simp
  qed
qed

lemma stream_record_first:
  "read_direct_record get_u32 (stream_of put_u32 rs) = Inl UnexpectedEof \<Longrightarrow>
     \<forall>(k, p) \<in> set rs. length p \<le> MAX_RECORD \<Longrightarrow> rs = []"
proof (cases rs)
  case (Cons x rs')
  assume a: "read_direct_record get_u32 (stream_of put_u32 rs) = Inl UnexpectedEof"
    and small: "\<forall>(k, p) \<in> set rs. length p \<le> MAX_RECORD"
  obtain k p where x: "x = (k, p)" by (cases x)
  have "length p \<le> MAX_RECORD" using small Cons x by simp
  from read_write [OF this MAX_RECORD_small, of k "stream_of put_u32 rs'"] a Cons x
  show ?thesis by (simp add: read_direct_eq)
qed

lemma reads_pieces:
  assumes "taken @ concat ps = stream_of put_u32 rs" and "\<forall>(k, p) \<in> set rs. length p \<le> MAX_RECORD"
    and "read_direct_record get_u32 taken = Inl UnexpectedEof"
  shows "select_reads get_u32 taken (map Arrives ps @ evs) =
     (case select_reads get_u32 [] evs of (ys, e) \<Rightarrow> (rs @ ys, e))"
  using assms
proof (induction ps arbitrary: taken rs)
  case Nil
  then have "rs = []" using stream_record_first by simp
  with Nil show ?case by (simp split: prod.splits)
next
  case (Cons b ps)
  obtain m rest where m: "read_ready get_u32 (taken @ b) = (take m rs, rest, None)"
      "rest @ concat ps = stream_of put_u32 (drop m rs)" "read_direct_record get_u32 rest = Inl UnexpectedEof"
    using ready_prefix [of "taken @ b" "concat ps" rs] Cons.prems by auto
  have "\<forall>(k, p) \<in> set (drop m rs). length p \<le> MAX_RECORD" using Cons.prems(2) by (auto dest: in_set_dropD)
  from Cons.IH [OF m(2) this m(3)] m(1) show ?case
    by (auto simp: append_assoc [symmetric] simp del: append_assoc split: prod.splits)
qed

text \<open>
  Groups of records whose bytes arrive in any pieces, with other branches only between the groups.
\<close>

lemma reads_groups:
  assumes "\<forall>(ps, rs) \<in> set groups. concat ps = stream_of put_u32 rs \<and> (\<forall>(k, p) \<in> set rs. length p \<le> MAX_RECORD)"
  shows "select_reads get_u32 [] (concat (map (\<lambda>(ps, rs). map Arrives ps @ [OtherBranch]) groups)) =
     (concat (map snd groups), None)"
  using assms
proof (induction groups)
  case Nil
  then show ?case by simp
next
  case (Cons gr groups)
  obtain ps rs where gr: "gr = (ps, rs)" by (cases gr)
  have empty: "read_direct_record get_u32 [] = Inl UnexpectedEof" by (simp add: read_direct_eq read_record_def)
  show ?case
    using Cons reads_pieces [OF _ _ empty, of ps rs "OtherBranch # concat (map (\<lambda>(ps, rs). map Arrives ps @ [OtherBranch]) groups)"]
    by (simp add: gr)
qed

text \<open>
  Another branch that completes inside a record makes the reader take the record's payload for records.
\<close>

lemma reads_injected:
  assumes "length (pre @ write_record put_u32 0 crafted @ post) \<le> MAX_RECORD"
    and "s = write_record put_u32 1 (pre @ write_record put_u32 0 crafted @ post)" and "n = 5 + length pre"
  shows "\<exists>xs e. select_reads get_u32 [] [Arrives (take n s), OtherBranch, Arrives (drop n s)] = ((0, crafted) # xs, e)"
proof -
  let ?p = "pre @ write_record put_u32 0 crafted @ post"
  have "n < length s" using assms(2,3) by (simp add: length_write_record)
  then have cut: "read_direct_record get_u32 (take n s) = Inl UnexpectedEof"
    using read_cut [OF assms(1) MAX_RECORD_small] assms(2) by (simp add: read_direct_eq)
  have rest: "drop n s = write_record put_u32 0 crafted @ post"
  proof -
    let ?h = "[1] @ put_u32 (of_nat (length ?p)) @ pre"
    have "s = ?h @ write_record put_u32 0 crafted @ post" using assms(2) by (simp only: write_record_def [of _ 1] append_assoc)
    moreover have "length ?h = n" using assms(3) by (simp add: length_put)
    ultimately show ?thesis by (metis append_eq_conv_conj)
  qed
  have "length crafted \<le> MAX_RECORD" using assms(1) by (simp add: length_write_record)
  then have "read_direct_record get_u32 (drop n s) = Inr ((0, crafted), post)"
    using read_write [OF _ MAX_RECORD_small] by (simp add: rest read_direct_eq)
  then have "read_ready get_u32 (drop n s) = (case read_ready get_u32 post of (xs, rest, e) \<Rightarrow> ((0, crafted) # xs, rest, e))"
    by (rule read_ready_one)
  then show ?thesis by (auto simp: read_ready_none [OF cut] split: prod.splits option.splits)
qed

end

text \<open>
  C39. The records a desktop's direct carrier reads. However the bytes are cut into pieces, it delivers exactly the
  records that were written, in order, as long as the loop's other branches complete only between
  records. When another branch (a heartbeat, a datagram) completes inside a record, the bytes read so far
  are lost and the rest of its payload is read as records: a payload can contain a control record, which
  the server never sent.
\<close>

theorem reads_and_interruptions:
  assumes "u32_io put_u32 get_u32"
    and "\<forall>(ps, rs) \<in> set groups. concat ps = stream_of put_u32 rs \<and> (\<forall>(k, p) \<in> set rs. length p \<le> MAX_RECORD)"
    and "length (pre @ write_record put_u32 0 crafted @ post) \<le> MAX_RECORD"
    and "s = write_record put_u32 1 (pre @ write_record put_u32 0 crafted @ post)" and "n = 5 + length pre"
  shows "select_reads get_u32 [] (concat (map (\<lambda>(ps, rs). map Arrives ps @ [OtherBranch]) groups)) =
       (concat (map snd groups), None) \<and>
     (\<exists>xs e. select_reads get_u32 [] [Arrives (take n s), OtherBranch, Arrives (drop n s)] = ((0, crafted) # xs, e)) \<and>
     select_reads get_u32 [] [Arrives (take n s), Arrives (drop n s)] =
       ([(1, pre @ write_record put_u32 0 crafted @ post)], None)"
proof (intro conjI)
  show "select_reads get_u32 [] (concat (map (\<lambda>(ps, rs). map Arrives ps @ [OtherBranch]) groups)) =
       (concat (map snd groups), None)"
    using u32_io.reads_groups [OF assms(1,2)] .
  show "\<exists>xs e. select_reads get_u32 [] [Arrives (take n s), OtherBranch, Arrives (drop n s)] = ((0, crafted) # xs, e)"
    using u32_io.reads_injected [OF assms(1,3,4,5)] .
  have "read_direct_record get_u32 [] = Inl UnexpectedEof" by (simp add: read_direct_eq read_record_def)
  from u32_io.reads_pieces [OF assms(1) _ _ this, of "[take n s, drop n s]"
      "[(1, pre @ write_record put_u32 0 crafted @ post)]" "[]"] assms(3,4)
  show "select_reads get_u32 [] [Arrives (take n s), Arrives (drop n s)] =
       ([(1, pre @ write_record put_u32 0 crafted @ post)], None)"
    by simp
qed

theorem reads_and_interruptions_witness:
  "\<exists>xs e. select_reads be_get_u32 []
      [Arrives (take 6 (write_record be_put_u32 1 ([9] @ write_record be_put_u32 0 [42] @ [7, 8]))), OtherBranch,
       Arrives (drop 6 (write_record be_put_u32 1 ([9] @ write_record be_put_u32 0 [42] @ [7, 8])))] =
     ((0, [42]) # xs, e)"
proof -
  have small: "length ([9] @ write_record be_put_u32 0 [42] @ [7, 8 :: u8]) \<le> MAX_RECORD"
    by (simp add: be.length_write_record MAX_RECORD_def)
  have six: "(6 :: nat) = 5 + length [9 :: u8]" by simp
  have none: "\<forall>(ps, rs) \<in> set []. concat ps = stream_of be_put_u32 rs \<and> (\<forall>(k, p) \<in> set rs. length p \<le> MAX_RECORD)"
    by simp
  show ?thesis
    by (rule conjunct1 [OF conjunct2 [OF reads_and_interruptions [OF be.u32_io_axioms none small refl six]]])
qed

section \<open>Whom the token is sent to\<close>

lemma pinned_certificate_Inr:
  "pinned_certificate D L i k = Inr der \<longleftrightarrow>
     (\<exists>cert. load_transport_certificate D L i k = Inr cert \<and> d_b64_decode D (trim cert) = Some der) \<and>
     load_transport_fingerprint D L i k = Inr (d_sha256_hex D der) \<and> d_root_ok D der"
  by (auto simp: pinned_certificate_def andThen_eq_Inr split: sum.splits)

text \<open>
  C40. The device token leaves the machine over QUIC or KCP only after a connection that was verified against
  one certificate, the one in the keychain, whose SHA-256 digest is the fingerprint stored with it; it then
  goes to the host of the configured address, in the first record. If the digest differs nothing is
  connected: the result does not depend on the network.
\<close>

theorem token_pinned:
  "(\<forall>rec. quic_open D L dial config token k = Inr rec \<or> kcp_open D L dial config token k = Inr rec \<longrightarrow>
      (\<exists>cert der url host port. load_transport_certificate D L (gc_installation_id config) k = Inr cert \<and>
         d_b64_decode D (trim cert) = Some der \<and>
         load_transport_fingerprint D L (gc_installation_id config) k = Inr (d_sha256_hex D der) \<and>
         d_url_parse D (gc_server_url config) = Some url \<and> d_url_host D url = Some host \<and>
         port \<noteq> 0 \<and> dial der host port = Inr () \<and>
         fst rec = 0 \<and> (\<exists>h. snd rec = l_auth_json L \<lparr>da_token = token, da_hello = h\<rparr> \<and>
           (\<exists>caps. h = Hello PROTOCOL_VERSION (gc_installation_id config) (gc_device_name config) caps 0)))) \<and>
   (\<forall>cert der fp. load_transport_certificate D L (gc_installation_id config) k = Inr cert \<and>
      d_b64_decode D (trim cert) = Some der \<and>
      load_transport_fingerprint D L (gc_installation_id config) k = Inr fp \<and> d_sha256_hex D der \<noteq> fp \<longrightarrow>
      quic_open D L dial config token k = Inl FingerprintMismatch \<and>
      kcp_open D L dial config token k = Inl FingerprintMismatch)"
proof (intro conjI allI impI)
  fix rec assume "quic_open D L dial config token k = Inr rec \<or> kcp_open D L dial config token k = Inr rec"
  then obtain port trs where o: "direct_open D L dial port trs config token k = Inr rec" "port \<noteq> 0"
    by (auto simp: quic_open_def kcp_open_def port_or_def split: if_splits)
  from o(1) obtain der url host where d: "pinned_certificate D L (gc_installation_id config) k = Inr der"
      "d_url_parse D (gc_server_url config) = Some url" "d_url_host D url = Some host" "dial der host port = Inr ()"
      "rec = (0, l_auth_json L \<lparr>da_token = token, da_hello = hello_message config trs\<rparr>)"
    by (auto simp: direct_open_def andThen_eq_Inr)
  from d(1) obtain cert where c: "load_transport_certificate D L (gc_installation_id config) k = Inr cert"
      "d_b64_decode D (trim cert) = Some der"
      "load_transport_fingerprint D L (gc_installation_id config) k = Inr (d_sha256_hex D der)"
    unfolding pinned_certificate_Inr by blast
  have snd_h: "\<exists>h. snd rec = l_auth_json L \<lparr>da_token = token, da_hello = h\<rparr> \<and>
      (\<exists>caps. h = Hello PROTOCOL_VERSION (gc_installation_id config) (gc_device_name config) caps 0)"
    by (rule exI [of _ "hello_message config trs"]) (simp add: d(5) hello_message_def)
  show "\<exists>cert der url host port. load_transport_certificate D L (gc_installation_id config) k = Inr cert \<and>
         d_b64_decode D (trim cert) = Some der \<and>
         load_transport_fingerprint D L (gc_installation_id config) k = Inr (d_sha256_hex D der) \<and>
         d_url_parse D (gc_server_url config) = Some url \<and> d_url_host D url = Some host \<and>
         port \<noteq> 0 \<and> dial der host port = Inr () \<and>
         fst rec = 0 \<and> (\<exists>h. snd rec = l_auth_json L \<lparr>da_token = token, da_hello = h\<rparr> \<and>
           (\<exists>caps. h = Hello PROTOCOL_VERSION (gc_installation_id config) (gc_device_name config) caps 0))"
    by (rule exI [of _ cert], rule exI [of _ der], rule exI [of _ url], rule exI [of _ host], rule exI [of _ port])
      (intro conjI c d(2,3,4) o(2) snd_h, simp add: d(5))
next
  fix cert der fp
  assume "load_transport_certificate D L (gc_installation_id config) k = Inr cert \<and>
      d_b64_decode D (trim cert) = Some der \<and>
      load_transport_fingerprint D L (gc_installation_id config) k = Inr fp \<and> d_sha256_hex D der \<noteq> fp"
  then have "direct_open D L dial port trs config token k = Inl FingerprintMismatch" for port trs
    by (simp add: direct_open_def pinned_certificate_def)
  then show "quic_open D L dial config token k = Inl FingerprintMismatch"
    and "kcp_open D L dial config token k = Inl FingerprintMismatch"
    by (simp_all add: quic_open_def kcp_open_def)
qed

lemma sample_pinned:
  "pinned_certificate sample_dlib sample_lib 7 (sample_keys [5]) = Inr [5]"
  "d_url_parse sample_dlib (lit ''https://tb.io'') = Some (lit ''https'', lit ''tb.io'')"
  by (simp_all add: pinned_certificate_def sample_loads trim_id is_whitespace_def sample_dlib_sel)
    (simp add: sample_url_parse_def strip_prefix_def starts_with_def lit_def)

theorem token_pinned_witness:
  "(\<exists>cert der url host port.
      load_transport_certificate sample_dlib sample_lib 7 (sample_keys [5]) = Inr cert \<and>
      d_b64_decode sample_dlib (trim cert) = Some der \<and>
      load_transport_fingerprint sample_dlib sample_lib 7 (sample_keys [5]) = Inr (d_sha256_hex sample_dlib der) \<and>
      d_url_parse sample_dlib (lit ''https://tb.io'') = Some url \<and> d_url_host sample_dlib url = Some host \<and>
      port \<noteq> (0 :: u16)) \<and>
   quic_open sample_dlib sample_lib (\<lambda>der host port. Inr ()) (sample_agent_config MQuic) (lit ''token'') (sample_keys [2]) =
     Inl FingerprintMismatch"
proof -
  let ?dial = "\<lambda>der host port. Inr ()" and ?c = "sample_agent_config MQuic" and ?t = "lit ''token''"
  note all = token_pinned [of sample_dlib sample_lib ?dial ?c ?t]
  have id: "gc_installation_id ?c = 7" "gc_server_url ?c = lit ''https://tb.io''"
    by (simp_all add: sample_agent_config_def)
  have "d_url_host sample_dlib (lit ''https'', lit ''tb.io'') = Some (lit ''tb.io'')" by (simp add: sample_dlib_def)
  then obtain rec where open1: "quic_open sample_dlib sample_lib ?dial ?c ?t (sample_keys [5]) = Inr rec"
    by (simp add: quic_open_def direct_open_def id sample_pinned)
  have bad: "load_transport_certificate sample_dlib sample_lib 7 (sample_keys [2]) = Inr [5] \<and>
      d_b64_decode sample_dlib (trim [5]) = Some [5] \<and>
      load_transport_fingerprint sample_dlib sample_lib 7 (sample_keys [2]) = Inr [2] \<and> d_sha256_hex sample_dlib [5] \<noteq> [2]"
    by (simp add: sample_loads trim_id is_whitespace_def sample_dlib_sel)
  show ?thesis
    using conjunct1 [OF all [of "sample_keys [5]"]] conjunct2 [OF all [of "sample_keys [2]"]] open1 bad
    unfolding id by blast
qed

section \<open>Reconnecting\<close>

lemma reconnect_cases:
  "run_reconnecting D L se (a # as) n rt = (ds, done, rt') \<Longrightarrow>
     ds = [] \<or>
     (ds = [backoff_ms (min (n + 1) 8) (at_jitter a)] \<and> done \<and> at_cancelled_pause a) \<or>
     (\<exists>rt1 ds'. ds = backoff_ms (min (n + 1) 8) (at_jitter a) # ds' \<and>
        run_reconnecting D L se as (min (n + 1) 8) rt1 = (ds', done, rt'))"
  by (auto simp: Let_def split: if_splits option.splits sum.splits prod.splits)

lemma reconnect_pauses:
  "run_reconnecting D L se as n rt = (ds, done, rt') \<Longrightarrow> k < length ds \<Longrightarrow>
     k < length as \<and> ds ! k = backoff_ms (min (n + Suc k) 8) (at_jitter (as ! k))"
proof (induction as arbitrary: n rt ds k)
  case (Cons a as)
  from reconnect_cases [OF Cons.prems(1)] show ?case
  proof (elim disjE exE conjE)
    fix rt1 ds' assume ds: "ds = backoff_ms (min (n + 1) 8) (at_jitter a) # ds'"
      and run: "run_reconnecting D L se as (min (n + 1) 8) rt1 = (ds', done, rt')"
    show ?thesis
    proof (cases k)
      case (Suc j)
      then have "j < length as \<and> ds' ! j = backoff_ms (min (min (n + 1) 8 + Suc j) 8) (at_jitter (as ! j))"
        using Cons.IH [OF run] Cons.prems(2) ds by simp
      moreover have "min (min (n + 1) 8 + Suc j) 8 = min (n + Suc k) 8" using Suc by simp
      ultimately show ?thesis using Suc ds by simp
    qed (simp add: ds)
  qed (use Cons.prems(2) in auto)
qed simp

lemma backoff_bounds:
  assumes "jitter \<le> 1000" and "1 \<le> n" and "n \<le> 8"
  shows "2000 \<le> backoff_ms n jitter" and "backoff_ms n jitter \<le> 61000"
    and "6 \<le> n \<Longrightarrow> 60000 \<le> backoff_ms n jitter"
proof -
  from assms(2,3) have "n \<in> {1, 2, 3, 4, 5, 6, 7, 8}" by auto
  then show "2000 \<le> backoff_ms n jitter" and "backoff_ms n jitter \<le> 61000"
    and "6 \<le> n \<Longrightarrow> 60000 \<le> backoff_ms n jitter"
    using assms(1) by (auto simp: backoff_ms_def)
qed

text \<open>An agent in WSS mode whose connection attempts fail.\<close>

definition sample_attempt :: "(ustr \<times> ustr, ustr \<rightharpoonup> ustr) attempt" where
  "sample_attempt =
     \<lparr>at_cancelled = False,
      at_input = \<lparr>ca_dial = (\<lambda>der host port. Inr ()), ca_connect = (\<lambda>url token. Inl CarrierRead), ca_at = 0,
        ca_quic = [], ca_kcp = [], ca_wss = [], ca_cancelled = False\<rparr>,
      at_cancelled_after = False, at_jitter = 7, at_cancelled_pause = False, at_others = (\<lambda>rt. rt)\<rparr>"

definition sample_runtime :: "transport_mode \<Rightarrow> (ustr \<rightharpoonup> ustr) runtime" where
  "sample_runtime mode =
     (runtime_new \<lparr>dk_dir = True, dk_config = None, dk_tmp = None\<rparr> (sample_keys [5]) None)
       \<lparr>rs_config := Some (sample_agent_config mode)\<rparr>"

lemma sample_runtime_sel [simp]:
  "rs_config (sample_runtime mode) = Some (sample_agent_config mode)"
  "rs_keychain (sample_runtime mode) = sample_keys [5]" "gc_installation_id (sample_agent_config mode) = 7"
  "gc_transport_mode (sample_agent_config mode) = mode" "gc_server_url (sample_agent_config mode) = lit ''https://tb.io''"
  "rs_cancellation (sample_runtime mode) = None" "rs_cancelled (sample_runtime mode) = {}"
  by (simp_all add: sample_runtime_def sample_agent_config_def runtime_new_def)

lemma sample_wss_refused:
  "run_wss_carrier sample_dlib sample_lib (at_input sample_attempt) (sample_agent_config mode) token rt =
     (Some (Inl CarrierRead), rt)"
  by (simp add: sample_attempt_def run_wss_carrier_def wss_open_def websocket_url_def sample_dlib_sel
      sample_pinned(2) [unfolded sample_dlib_sel])

lemma sample_attempt_sel:
  "\<not> at_cancelled sample_attempt" "\<not> at_cancelled_pause sample_attempt" "at_jitter sample_attempt = 7"
  "at_others sample_attempt = (\<lambda>rt. rt)"
  by (simp_all add: sample_attempt_def)

lemma sample_refused:
  assumes "rs_config rt = Some (sample_agent_config MWss)" and "rs_keychain rt = sample_keys [5]"
  shows "\<exists>rt'. rs_config rt' = Some (sample_agent_config MWss) \<and> rs_keychain rt' = sample_keys [5] \<and>
       run_reconnecting sample_dlib sample_lib (\<lambda>e. []) (sample_attempt # as) n rt =
         (case run_reconnecting sample_dlib sample_lib (\<lambda>e. []) as (min (n + 1) 8) rt' of
            (ds, done, rt2) \<Rightarrow> (backoff_ms (min (n + 1) 8) 7 # ds, done, rt2))"
  using assms
  by (intro exI [of _ "set_status StOffline text_retrying
        (log_event (ca_at (at_input sample_attempt)) ''warn'' text_failed (set_status StConnecting text_connecting rt))"])
    (simp add: sample_attempt_sel sample_loads run_carrier_def sample_wss_refused Let_def)

text \<open>
  The pauses between connection attempts: 2, 4, 8, 16 and 32 seconds after the first five
  carriers, 60 seconds after every later one, plus a jitter of at most one second, so always between 2 and
  61 seconds. The position alone counts: a carrier that was connected for days does not bring the pause
  back to 2 seconds.
\<close>

theorem reconnect_backoff:
  assumes "run_reconnecting D L show_err as 0 rt = (ds, done, rt')" and "k < length ds"
    and "at_jitter (as ! k) \<le> 1000"
  shows "ds ! k = (if k < 5 then 2 ^ Suc k else 60) * 1000 + at_jitter (as ! k) \<and>
     2000 \<le> ds ! k \<and> ds ! k \<le> 61000 \<and> (5 \<le> k \<longrightarrow> 60000 \<le> ds ! k)"
proof -
  have pause: "ds ! k = backoff_ms (min (Suc k) 8) (at_jitter (as ! k))"
    using reconnect_pauses [OF assms(1,2)] by simp
  have "min (2 ^ min (Suc k) 8) 60 = (if k < 5 then 2 ^ Suc k else 60 :: nat)"
  proof (cases "k < 5")
    case True
    then have "k \<in> {0, 1, 2, 3, 4}" by auto
    then show ?thesis by auto
  next
    case False
    then have "min (Suc k) 8 \<in> {6, 7, 8}" by auto
    then show ?thesis using False by auto
  qed
  moreover have "1 \<le> min (Suc k) 8" "min (Suc k) 8 \<le> 8" by simp_all
  ultimately show ?thesis
    using backoff_bounds [OF assms(3), of "min (Suc k) 8"] by (simp add: pause backoff_ms_def)
qed

lemma sample_two_pauses:
  "\<exists>rt'. run_reconnecting sample_dlib sample_lib (\<lambda>e. []) [sample_attempt, sample_attempt] 0 (sample_runtime MWss) =
     ([backoff_ms 1 7, backoff_ms 2 7], False, rt')"
proof -
  obtain rt1 where rt1: "rs_config rt1 = Some (sample_agent_config MWss)" "rs_keychain rt1 = sample_keys [5]"
    "run_reconnecting sample_dlib sample_lib (\<lambda>e. []) [sample_attempt, sample_attempt] 0 (sample_runtime MWss) =
       (case run_reconnecting sample_dlib sample_lib (\<lambda>e. []) [sample_attempt] 1 rt1 of
          (ds, done, rt2) \<Rightarrow> (backoff_ms 1 7 # ds, done, rt2))"
    using sample_refused [of "sample_runtime MWss" "[sample_attempt]" 0]
    by (auto simp del: run_reconnecting.simps(2))
  obtain rt2 where rt2: "run_reconnecting sample_dlib sample_lib (\<lambda>e. []) [sample_attempt] 1 rt1 =
       ([backoff_ms 2 7], False, rt2)"
    using sample_refused [OF rt1(1,2), of "[]" 1] by (auto simp del: run_reconnecting.simps(2) simp: numeral_2_eq_2)
  show ?thesis using rt1(3) rt2 by (simp del: run_reconnecting.simps(2))
qed

theorem reconnect_backoff_witness:
  "fst (run_reconnecting sample_dlib sample_lib (\<lambda>e. []) [sample_attempt, sample_attempt] 0 (sample_runtime MWss)) ! 1 = 4007"
proof -
  from sample_two_pauses obtain rt' where run:
    "run_reconnecting sample_dlib sample_lib (\<lambda>e. []) [sample_attempt, sample_attempt] 0 (sample_runtime MWss) =
       ([backoff_ms 1 7, backoff_ms 2 7], False, rt')" by blast
  have "at_jitter ([sample_attempt, sample_attempt] ! 1) \<le> 1000" by (simp add: sample_attempt_def)
  from reconnect_backoff [OF run _ this] show ?thesis unfolding run by (simp add: sample_attempt_sel)
qed

text \<open>A carrier of this turn that has not ended when its events are used up.\<close>

definition carrier_running ::
  "('u, 'k) dlib \<Rightarrow> lib \<Rightarrow> (agent_error \<Rightarrow> ustr) \<Rightarrow> ('u, 'k) attempt \<Rightarrow> bool" where
  "carrier_running D L show_err a \<longleftrightarrow>
     (\<exists>config token rt1 rt2. run_carrier D L show_err (at_input a) config token rt1 = (None, rt2))"

definition turn_cancelled :: "('u, 'k) attempt \<Rightarrow> bool" where
  "turn_cancelled a \<longleftrightarrow> at_cancelled a \<or> at_cancelled_after a \<or> at_cancelled_pause a"

definition cannot_connect :: "('u, 'k) dlib \<Rightarrow> lib \<Rightarrow> 'k runtime \<Rightarrow> bool" where
  "cannot_connect D L rt \<longleftrightarrow>
     rs_config rt = None \<and> rs_status rt = (StUnconfigured, text_no_server) \<or>
     (\<exists>config e. rs_config rt = Some config \<and> load_token D L (gc_installation_id config) (rs_keychain rt) = Inl e \<and>
        rs_status rt = (StError, text_no_token))"

lemma reconnect_turn:
  assumes "run_reconnecting D L show_err (a # as) n rt = (ds, done, rt')"
  shows "(done \<and> ds = [] \<and> (turn_cancelled a \<or> cannot_connect D L rt')) \<or>
     (\<not> done \<and> ds = [] \<and> carrier_running D L show_err a) \<or>
     (done \<and> length ds = 1 \<and> turn_cancelled a) \<or>
     (\<exists>m rt1 ds'. run_reconnecting D L show_err as m rt1 = (ds', done, rt') \<and> length ds = Suc (length ds'))"
proof (cases "at_cancelled a")
  case False
  note go = this
  show ?thesis
  proof (cases "rs_config rt")
    case None
    then show ?thesis using assms go by (auto simp: cannot_connect_def set_status_def)
  next
    case (Some config)
    note config = this
    show ?thesis
    proof (cases "load_token D L (gc_installation_id config) (rs_keychain rt)")
      case (Inl e)
      then show ?thesis using assms go config by (auto simp: cannot_connect_def)
    next
      case (Inr token)
      obtain r rt1 where run: "run_carrier D L show_err (at_input a) config token
          (set_status StConnecting text_connecting rt) = (r, rt1)"
        by (cases "run_carrier D L show_err (at_input a) config token (set_status StConnecting text_connecting rt)")
      show ?thesis
      proof (cases r)
        case None
        then have "carrier_running D L show_err a" using run unfolding carrier_running_def by blast
        then show ?thesis using assms go config Inr run None by simp
      next
        case (Some r')
        show ?thesis
        proof (cases "r' = Inr () \<and> at_cancelled_after a \<or> at_cancelled_pause a")
          case True
          then show ?thesis using assms go config Inr run Some
            by (auto simp: turn_cancelled_def Let_def split: if_splits)
        next
          case False
          then obtain m rt3 ds' where rest: "run_reconnecting D L show_err as m rt3 = (ds', done, rt')" "length ds = Suc (length ds')"
            using assms go config Inr run Some by (simp add: Let_def split: if_splits prod.splits) fastforce+
          then show ?thesis by blast
        qed
      qed
    qed
  qed
qed (use assms in \<open>simp add: turn_cancelled_def\<close>)

text \<open>
  The agent keeps trying. It stops only when it is cancelled, when no server is configured or when the
  token cannot be read from the keychain; no failure of a carrier, of whatever kind, ends it. While it
  goes on there is one pause for each carrier that ended.
\<close>

theorem reconnect_persists:
  "run_reconnecting D L show_err as n rt = (ds, done, rt') \<Longrightarrow>
     (if done then (\<exists>a \<in> set as. turn_cancelled a) \<or> cannot_connect D L rt'
      else length ds = length as \<or> (\<exists>a \<in> set as. carrier_running D L show_err a))"
proof (induction as arbitrary: n rt ds)
  case (Cons a as)
  from reconnect_turn [OF Cons.prems] show ?case
    by (elim disjE exE conjE) (auto dest: Cons.IH)
qed simp

theorem reconnect_persists_witness:
  "length (fst (run_reconnecting sample_dlib sample_lib (\<lambda>e. []) [sample_attempt, sample_attempt] 0 (sample_runtime MWss))) = 2 \<or>
     carrier_running sample_dlib sample_lib (\<lambda>e. []) sample_attempt"
proof -
  from sample_two_pauses obtain rt' where run:
    "run_reconnecting sample_dlib sample_lib (\<lambda>e. []) [sample_attempt, sample_attempt] 0 (sample_runtime MWss) =
       ([backoff_ms 1 7, backoff_ms 2 7], False, rt')" by blast
  from reconnect_persists [OF run] show ?thesis unfolding run by simp
qed

text \<open>
  One agent at a time. After any number of restarts the token of the newest agent is the current
  one and has not been cancelled, and the tokens of all agents before it have.
\<close>

theorem one_agent:
  assumes "distinct (t # ts)" and "rs_cancellation rt = None" and "rs_cancelled rt = {}"
    and "rt' = fold restart_agent (t # ts) rt"
  shows "rs_restarts rt' = rs_restarts rt @ t # ts \<and> rs_cancellation rt' = Some (last (t # ts)) \<and>
     rs_cancelled rt' = set (butlast (t # ts)) \<and> last (t # ts) \<notin> rs_cancelled rt'"
proof -
  have "rs_restarts rt' = rs_restarts rt @ t # ts \<and> rs_cancellation rt' = Some (last (t # ts)) \<and>
     rs_cancelled rt' = set (butlast (t # ts))"
    unfolding assms(4)
  proof (induction ts rule: rev_induct)
    case Nil
    then show ?case using assms(2,3) by (simp add: restart_agent_def)
  next
    case (snoc x ts)
    then show ?case by (cases ts rule: rev_cases) (auto simp: restart_agent_def butlast_append)
  qed
  moreover have "last (t # ts) \<notin> set (butlast (t # ts))"
    using assms(1) by (metis append_butlast_last_id distinct_append disjoint_iff list.distinct(1) list.set_intros(1))
  ultimately show ?thesis by simp
qed

theorem one_agent_witness:
  "rs_cancelled (fold restart_agent [3, 4, 5] (sample_runtime MWss)) = {3, 4} \<and>
     rs_cancellation (fold restart_agent [3, 4, 5] (sample_runtime MWss)) = Some 5"
  using one_agent [of 3 "[4, 5]" "sample_runtime MWss", OF _ _ _ refl] by simp

section \<open>The fallback of the automatic mode\<close>

text \<open>
  Why the automatic mode fell back is forgotten at once. When QUIC fails, the reason is shown with the
  snapshot until the WebSocket carrier is up; the first message of the server there, its welcome, replaces
  the transport together with the reason, so a connected client never shows one.
\<close>

theorem fallback_reason_erased:
  assumes "gc_transport_mode config = MAuto"
    and "quic_open D L (ca_dial io) config token (rs_keychain rt) = Inl e"
    and "wss_open D (ca_connect io) config token = Inr ()"
    and "l_msg_parse L text = Some (Welcome PROTOCOL_VERSION session tick tr)"
  shows "sn_transport_fallback_reason (snapshot (snd (run_carrier D L show_err (io\<lparr>ca_wss := []\<rparr>) config token rt))) =
       Some (text_quic_unavailable @ show_err e) \<and>
     sn_transport_fallback_reason (snapshot (snd (run_carrier D L show_err (io\<lparr>ca_wss := [WText at text]\<rparr>) config token rt))) =
       None \<and>
     sn_active_transport (snapshot (snd (run_carrier D L show_err (io\<lparr>ca_wss := [WText at text]\<rparr>) config token rt))) =
       Some (unwrap_or tr TWss)"
  using assms
  by (simp add: run_carrier_def run_quic_carrier_def run_wss_carrier_def wss_event_step_def wss_control_message_def
      snapshot_def on_rt_def act_simps session_new_def)

definition sample_welcome :: lib where
  "sample_welcome = sample_lib\<lparr>l_msg_parse := (\<lambda>b. Some (Welcome PROTOCOL_VERSION 0 default_capabilities None))\<rparr>"

theorem fallback_reason_erased_witness:
  "sn_transport_fallback_reason (snapshot (snd (run_carrier sample_dlib sample_welcome (\<lambda>e. [])
       \<lparr>ca_dial = (\<lambda>der host port. Inl CarrierRead), ca_connect = (\<lambda>url token. Inr ()), ca_at = 0,
        ca_quic = [], ca_kcp = [], ca_wss = [WText 0 []], ca_cancelled = False\<rparr>
       (sample_agent_config MAuto) (lit ''token'') (sample_runtime MAuto)))) = None"
proof -
  let ?io = "\<lparr>ca_dial = (\<lambda>der host port. Inl CarrierRead), ca_connect = (\<lambda>url token. Inr ()), ca_at = 0,
    ca_quic = [], ca_kcp = [], ca_wss = [WText 0 []], ca_cancelled = False\<rparr>"
  let ?c = "sample_agent_config MAuto" and ?rt = "sample_runtime MAuto"
  have keys: "pinned_certificate sample_dlib sample_welcome i k = pinned_certificate sample_dlib sample_lib i k" for i k
    by (simp add: pinned_certificate_def load_transport_certificate_def load_transport_fingerprint_def
        certificate_key_def fingerprint_key_def sample_welcome_def)
  have "quic_open sample_dlib sample_welcome (ca_dial ?io) ?c (lit ''token'') (rs_keychain ?rt) = Inl CarrierRead"
    using sample_pinned by (simp add: quic_open_def direct_open_def keys sample_dlib_sel)
  moreover have "wss_open sample_dlib (ca_connect ?io) ?c (lit ''token'') = Inr ()"
    using sample_pinned(2) by (simp add: wss_open_def websocket_url_def sample_dlib_sel)
  moreover have "l_msg_parse sample_welcome [] = Some (Welcome PROTOCOL_VERSION 0 default_capabilities None)"
    by (simp add: sample_welcome_def)
  ultimately show ?thesis
    using fallback_reason_erased [of ?c sample_dlib sample_welcome ?io "lit ''token''" ?rt] by simp
qed

end
