(* ===== verification/Agent_Commands_Properties.thy ===== *)
theory Agent_Commands_Properties
  imports Agent_Commands_Facts Agent_Carrier_Facts
begin

text \<open>
  Properties of the commands after registration: a registration that fails half way, the change of the
  carrier, and the switch for all tunnels with the requests it sends.
\<close>

section \<open>A registration that fails half way\<close>

text \<open>
  The keychain is written before the configuration file. When a client that is registered with one
  server registers with another and the file cannot be replaced, the command fails and the
  configuration still names the old server, but the token under its installation id is already the new
  server's: the next connection attempt sends the new server's token to the old server.
\<close>

theorem configure_server_half_done:
  assumes "keychain_law D" and "uuid_plain L" and "uuid_text_ok L"
    and "normalize_server_url D server_url = Inr url" and "\<not> input_refused D server_url token device_name"
    and "net (enroll_request url (trim token)) s = (Answer status body, (rt1, w1))"
    and "is_success status" and "d_enrollment_parse D body = Inr en" and "rs_config rt1 = Some old"
    and "\<forall>u v k. fst (d_key_set D u v k) = Inr ()" and "ci_fault ci \<noteq> None"
  shows "\<exists>e rt'. configure_server D L net ci server_url token device_name s = (Inl e, (rt', w1)) \<and>
     rs_config rt' = Some old \<and> load_config D False (rs_disk rt') = load_config D False (rs_disk rt1) \<and>
     load_token D L (gc_installation_id old) (rs_keychain rt') = Inr (trim token)"
proof -
  define config where "config = enrolled_config url (trim device_name) (ci_fresh ci) (rs_config rt1) en"
  have i: "gc_installation_id config = gc_installation_id old" by (simp add: config_def enrolled_config_def assms(9))
  have set_ok: "\<exists>k'. d_key_set D u v k = (Inr (), k')" for u v k
    using assms(10) by (metis (full_types) prod.collapse old.unit.exhaust)
  obtain k1 where k1: "save_token D L (gc_installation_id old) (trim token) (rs_keychain rt1) = (Inr (), k1)"
    using set_ok unfolding save_token_def by blast
  obtain k2 where k2: "save_transport_fingerprint D L (gc_installation_id old) (en_transport_fingerprint en) k1 = (Inr (), k2)"
    using set_ok unfolding save_transport_fingerprint_def by blast
  obtain k3 where k3: "save_transport_certificate D L (gc_installation_id old) (en_transport_certificate_der en) k2 = (Inr (), k3)"
    using set_ok unfolding save_transport_certificate_def by blast
  obtain r s' where st: "store_config D (ci_fault ci) config (rt1\<lparr>rs_keychain := k3\<rparr>, w1) = (r, s')"
    by (cases "store_config D (ci_fault ci) config (rt1\<lparr>rs_keychain := k3\<rparr>, w1)")
  from st obtain dk e where s': "s' = (rt1\<lparr>rs_keychain := k3, rs_disk := dk\<rparr>, w1)" "r = Inl e"
      "dk_config dk = dk_config (rs_disk rt1)"
    by (rule store_config_run) (use assms(11) in auto)
  have "configure_server D L net ci server_url token device_name s = (Inl e, (rt1\<lparr>rs_keychain := k3, rs_disk := dk\<rparr>, w1))"
    unfolding configure_server_sent [where net = net and s = s, OF assms(4-6)]
    using assms(7,8) st s'(1,2) k1 k2 k3
    by (simp add: Let_def seq_def store_enrollment_def set_key_def config_def [symmetric] i)
  moreover have "load_token D L (gc_installation_id old) k3 = Inr (trim token)"
    using secrets_saved [OF assms(1-3) k1 k2 k3, of "gc_installation_id old"] by (simp add: secrets_of_def)
  ultimately show ?thesis using assms(9) load_config_cong [OF s'(3)] by auto
qed

theorem configure_server_half_done_witness:
  "\<exists>e rt' w'. configure_server sample_dlib colonless_lib sample_net (sample_command (Some RenameFault))
       (lit ''https://tb.io/x'') sample_token (lit ''Mac'') (fresh_runtime\<lparr>rs_config := Some (sample_agent_config MWss)\<rparr>, []) =
       (Inl e, (rt', w')) \<and>
     rs_config rt' = Some (sample_agent_config MWss) \<and>
     load_token sample_dlib colonless_lib 7 (rs_keychain rt') = Inr sample_token"
proof -
  let ?rt = "fresh_runtime\<lparr>rs_config := Some (sample_agent_config MWss)\<rparr>"
  have sent: "sample_net (enroll_request (lit ''https://tb.io'') (trim sample_token)) (?rt, []) =
      (Answer 200 [], (?rt, [enroll_request (lit ''https://tb.io'') sample_token]))"
    by (simp add: sample_net_def sample_token_ok)
  have keys: "\<forall>u v k. fst (d_key_set sample_dlib u v k) = Inr ()" by (simp add: sample_dlib_def)
  have "is_success 200" "rs_config ?rt = Some (sample_agent_config MWss)" "ci_fault (sample_command (Some RenameFault)) \<noteq> None"
    by (simp_all add: is_success_def sample_command_def)
  from configure_server_half_done [where net = sample_net, OF sample_keychain colonless sample_normalized(2)
      sample_accepted(1) sent this(1) sample_dlib_sel(9) this(2) keys this(3)]
  show ?thesis by (auto simp: sample_token_ok sample_agent_config_def)
qed

section \<open>Choosing the carrier\<close>

text \<open>
  Changing the carrier mode. When it succeeds, the file and the memory hold the same configuration, the
  previous one with the new mode, and a new agent is started; when it fails, memory, file and
  agent are what they were. So the two never disagree if they agreed before.
\<close>

theorem set_transport_mode_agrees:
  assumes "config_json_ok D" and "set_transport_mode D ci mode (rt, w) = (r, (rt', w'))"
  shows "w' = w \<and> rs_tunnels rt' = rs_tunnels rt \<and> rs_keychain rt' = rs_keychain rt \<and>
     (case r of
        Inr _ \<Rightarrow> \<exists>old. rs_config rt = Some old \<and> rs_config rt' = Some (old\<lparr>gc_transport_mode := mode\<rparr>) \<and>
          load_config D False (rs_disk rt') = Inr (rs_config rt') \<and> rs_restarts rt' = rs_restarts rt @ [ci_agent ci]
      | Inl e \<Rightarrow> rs_config rt' = rs_config rt \<and> rs_restarts rt' = rs_restarts rt \<and>
          load_config D False (rs_disk rt') = load_config D False (rs_disk rt))"
proof (cases "rs_config rt")
  case None
  then show ?thesis using assms(2) by (auto simp: set_transport_mode_def act_simps)
next
  case (Some old)
  let ?c = "old\<lparr>gc_transport_mode := mode\<rparr>"
  obtain r1 s1 where st: "store_config D (ci_fault ci) ?c (rt, w) = (r1, s1)"
    by (cases "store_config D (ci_fault ci) ?c (rt, w)")
  note run = assms(2) [unfolded set_transport_mode_def seq_def]
  from st show ?thesis
  proof (rule store_config_run)
    fix dk assume s1: "s1 = (rt\<lparr>rs_disk := dk\<rparr>, w)"
      and "(r1 = Inr () \<and> ci_fault ci = None \<and> (\<exists>b. d_config_json D ?c = Some b \<and> dk_config dk = Some b)) \<or>
        ((\<exists>e. r1 = Inl e) \<and> dk_config dk = dk_config (rs_disk rt))"
    then show ?thesis
    proof (elim disjE conjE exE)
      fix b assume b: "d_config_json D ?c = Some b" "dk_config dk = Some b" and r1: "r1 = Inr ()"
      have "load_config D False dk = Inr (Some ?c)" using b assms(1) by (simp add: load_config_def config_json_ok_def)
      then show ?thesis using run Some st s1 r1
        by (auto simp: act_simps Let_def on_runtime_def restart_agent_def)
    next
      fix e assume "r1 = Inl e" and disk: "dk_config dk = dk_config (rs_disk rt)"
      then show ?thesis using run Some st s1 load_config_cong [OF disk] by (auto simp: act_simps Let_def)
    qed
  qed
qed

theorem set_transport_mode_agrees_witness:
  "\<exists>rt' w'. set_transport_mode sample_dlib (sample_command None) MKcp (sample_runtime MAuto, ()) = (Inr (), (rt', w')) \<and>
     load_config sample_dlib False (rs_disk rt') = Inr (Some (sample_agent_config MKcp))"
proof -
  have mode: "sample_agent_config MAuto\<lparr>gc_transport_mode := MKcp\<rparr> = sample_agent_config MKcp"
    by (simp add: sample_agent_config_def)
  obtain rt' where run: "set_transport_mode sample_dlib (sample_command None) MKcp (sample_runtime MAuto, ()) = (Inr (), (rt', ()))"
    by (auto simp: set_transport_mode_def act_simps Let_def mode store_config_def save_config_def sample_dlib_def
        sample_command_def rename_tmp_def write_tmp_def seq_def on_runtime_def)
  from set_transport_mode_agrees [OF sample_config_json run] show ?thesis using run by (auto simp: mode)
qed

section \<open>Switching all tunnels\<close>

text \<open>A world that keeps the requests beside what \<open>net\<close> does.\<close>

definition recorded :: "('k, 'w) net \<Rightarrow> ('k, 'w \<times> http_request list) net" where
  "recorded net rq s =
     (case net rq (fst s, fst (snd s)) of (a, rt, w) \<Rightarrow> (a, rt, w, snd (snd s) @ [rq]))"

definition keeps_runtime :: "('k, 'w) net \<Rightarrow> bool" where
  "keeps_runtime net \<longleftrightarrow> (\<forall>rq s. fst (snd (net rq s)) = fst s)"

lemma recorded_keeps:
  assumes "keeps_runtime net"
  obtains a w' where "recorded net rq (rt, w, log) = (a, rt, w', log @ [rq])"
proof -
  obtain a rt' w' where n: "net rq (rt, w) = (a, rt', w')" by (cases "net rq (rt, w)")
  have "rt' = rt" using assms n unfolding keeps_runtime_def by (metis fst_conv snd_conv)
  then show ?thesis using that n by (simp add: recorded_def)
qed

definition patch_request :: "lib \<Rightarrow> agent_config \<Rightarrow> ustr \<Rightarrow> bool \<Rightarrow> tunnel \<Rightarrow> http_request" where
  "patch_request L config token enabled t =
     \<lparr>hr_method = PATCH, hr_url = gc_server_url config @ lit ''/api/v1/agent/tunnels/'' @ l_uuid_text L (t_id t), hr_bearer = token,
      hr_body = UpdateBody (default_update_request\<lparr>ur_enabled := Some enabled\<rparr>)\<rparr>"

definition list_request :: "agent_config \<Rightarrow> ustr \<Rightarrow> http_request" where
  "list_request config token =
     \<lparr>hr_method = GET, hr_url = gc_server_url config @ lit ''/api/v1/agent/tunnels'', hr_bearer = token, hr_body = NoBody\<rparr>"

lemma credentials_eq:
  "rs_config (fst s) = Some config \<Longrightarrow> load_token D L (gc_installation_id config) (rs_keychain (fst s)) = Inr token \<Longrightarrow>
     credentials D L s = (Inr (config, token), s)"
  by (simp add: credentials_def act_simps)

lemma set_one_run:
  assumes "keeps_runtime net" and "rs_config rt = Some config"
    and "load_token D L (gc_installation_id config) (rs_keychain rt) = Inr token"
  obtains r w' where "set_one D L (recorded net) enabled t (rt, w, log) =
      (r, rt, w', if t_enabled t \<noteq> enabled then log @ [patch_request L config token enabled t] else log)"
    and "t_enabled t = enabled \<Longrightarrow> r = Inr ()"
proof (cases "t_enabled t = enabled")
  case False
  obtain a w' where "recorded net (patch_request L config token enabled t) (rt, w, log) =
      (a, rt, w', log @ [patch_request L config token enabled t])"
    using recorded_keeps [OF assms(1)] by blast
  then have "\<exists>r. set_one D L (recorded net) enabled t (rt, w, log) =
      (r, rt, w', log @ [patch_request L config token enabled t])"
    using False credentials_eq [of "(rt, w, log)" config D L token] assms(2,3)
    by (cases a) (auto simp: set_one_def seq_def request_json_def patch_request_def tunnel_path_def ok_def split: sum.split)
  then show ?thesis using that False by auto
qed (use that in \<open>auto simp: set_one_def ok_def\<close>)

lemma set_each_run:
  assumes "keeps_runtime net" and "rs_config rt = Some config"
    and "load_token D L (gc_installation_id config) (rs_keychain rt) = Inr token"
  shows "\<exists>r w' n. set_each D L (recorded net) enabled ts (rt, w, log) = (r, rt, w',
       log @ take n (map (patch_request L config token enabled) (filter (\<lambda>t. t_enabled t \<noteq> enabled) ts))) \<and>
     (r = Inr () \<longrightarrow> length (filter (\<lambda>t. t_enabled t \<noteq> enabled) ts) \<le> n)"
proof (induction ts arbitrary: w log)
  case Nil
  then show ?case by (simp add: ok_def)
next
  case (Cons t ts)
  let ?here = "if t_enabled t \<noteq> enabled then [patch_request L config token enabled t] else []"
  obtain r w1 where "set_one D L (recorded net) enabled t (rt, w, log) =
      (r, rt, w1, if t_enabled t \<noteq> enabled then log @ [patch_request L config token enabled t] else log)"
    by (rule set_one_run [OF assms])
  then have one: "set_one D L (recorded net) enabled t (rt, w, log) = (r, rt, w1, log @ ?here)"
    by (simp split: if_splits)
  obtain r' w' n where each: "set_each D L (recorded net) enabled ts (rt, w1, log @ ?here) = (r', rt, w', (log @ ?here) @
        take n (map (patch_request L config token enabled) (filter (\<lambda>t. t_enabled t \<noteq> enabled) ts)))"
      "r' = Inr () \<longrightarrow> length (filter (\<lambda>t. t_enabled t \<noteq> enabled) ts) \<le> n"
    using Cons.IH by blast
  show ?case
  proof (cases r)
    case (Inl e)
    then show ?thesis using one
      by (intro exI [of _ "Inl e"] exI [of _ w1] exI [of _ "length ?here"]) (auto simp: seq_def)
  next
    case (Inr u)
    then show ?thesis using one each
      by (intro exI [of _ r'] exI [of _ w'] exI [of _ "n + length ?here"]) (auto simp: seq_def)
  qed
qed

text \<open>
  Switching all tunnels on or off sends one PATCH for each tunnel of the list whose state differs, in the
  order of the list and with nothing but the new state in it, none for the others, and then asks for
  the list. If all of them succeed the tunnels shown are the ones the server answered; if one fails, the
  requests after it are not sent and the list shown stays as it was, although the earlier tunnels
  have been switched on the server.
\<close>

theorem set_all_requests:
  assumes "keeps_runtime net" and "rs_config rt = Some config"
    and "load_token D L (gc_installation_id config) (rs_keychain rt) = Inr token"
    and "set_all_enabled_inner D L (recorded net) enabled (rt, w, []) = (r, (rt', w', sent))"
    and "requests = map (patch_request L config token enabled) (filter (\<lambda>t. t_enabled t \<noteq> enabled) (rs_tunnels rt)) @
       [list_request config token]"
  shows "case r of
       Inr _ \<Rightarrow> sent = requests \<and>
         (\<exists>w1 status body ts. fst (net (list_request config token) (rt, w1)) = Answer status body \<and> is_success status \<and>
            d_tunnels_parse D body = Inr ts \<and> rt' = rt\<lparr>rs_tunnels := ts\<rparr>)
     | Inl _ \<Rightarrow> rt' = rt \<and> (\<exists>n. sent = take n requests)"
proof -
  let ?differ = "map (patch_request L config token enabled) (filter (\<lambda>t. t_enabled t \<noteq> enabled) (rs_tunnels rt))"
  obtain r1 w1 n where each: "set_each D L (recorded net) enabled (rs_tunnels rt) (rt, w, []) = (r1, rt, w1, take n ?differ)"
      "r1 = Inr () \<longrightarrow> length ?differ \<le> n"
    using set_each_run [OF assms(1-3), of enabled "rs_tunnels rt" w "[]"] by auto
  note run = assms(4) [unfolded set_all_enabled_inner_def seq_run(2) [OF act_unfold(4)] fst_conv]
  show ?thesis
  proof (cases r1)
    case (Inl e)
    then have "r = Inl e" "rt' = rt" "sent = take n ?differ" using run each(1) by (auto simp: seq_def)
    moreover have "take n ?differ = take (min n (length ?differ)) requests" by (simp add: assms(5) min_def)
    ultimately show ?thesis by auto
  next
    case (Inr u)
    obtain a w2 where sent: "recorded net (list_request config token) (rt, w1, ?differ) = (a, rt, w2, requests)"
      using recorded_keeps [OF assms(1)] assms(5) by metis
    have answer: "fst (net (list_request config token) (rt, w1)) = a"
      using sent by (auto simp: recorded_def split: prod.splits)
    have "refresh_tunnels D L (recorded net) (rt, w1, ?differ) = (r, (rt', w', sent))"
      using run each Inr by (simp add: seq_def)
    then show ?thesis
      using sent answer credentials_eq [of "(rt, w1, ?differ)" config D L token] assms(2,3)
      by (cases a) (auto simp: refresh_tunnels_def seq_def request_json_def list_request_def tunnels_path_def
          on_runtime_def modify_def assms(5) intro: exI [of _ "length requests"] split: sum.splits if_splits)
  qed
qed

text \<open>One of two tunnels is off.\<close>

definition sample_off :: tunnel where
  "sample_off = sample_local_tunnel\<lparr>t_id := 2, t_enabled := False\<rparr>"

definition sample_tunnels :: "tunnel list" where
  "sample_tunnels = [sample_local_tunnel, sample_off]"

definition sample_answers :: "(ustr \<times> ustr, ustr \<rightharpoonup> ustr) dlib" where
  "sample_answers = sample_dlib\<lparr>d_tunnel_parse := (\<lambda>b. Inr sample_local_tunnel)\<rparr>"

definition sample_deaf :: "('k, unit) net" where
  "sample_deaf rq s = (Answer 200 [], s)"

theorem set_all_requests_witness:
  "\<exists>r rt'. set_all_enabled_inner sample_answers sample_lib (recorded sample_deaf) True
       (sample_runtime MWss\<lparr>rs_tunnels := sample_tunnels\<rparr>, (), []) = (r, (rt', (),
         [patch_request sample_lib (sample_agent_config MWss) (lit ''token'') True sample_off,
          list_request (sample_agent_config MWss) (lit ''token'')])) \<and> r = Inr () \<and> rs_tunnels rt' = []"
proof -
  let ?rt = "sample_runtime MWss\<lparr>rs_tunnels := sample_tunnels\<rparr>"
  have keeps: "keeps_runtime sample_deaf" by (simp add: keeps_runtime_def sample_deaf_def)
  have config: "rs_config ?rt = Some (sample_agent_config MWss)" by simp
  have token: "load_token sample_answers sample_lib (gc_installation_id (sample_agent_config MWss)) (rs_keychain ?rt) =
      Inr (lit ''token'')"
    using sample_loads(1) [of "[5]"] by (simp add: sample_answers_def load_token_def)
  have differ: "filter (\<lambda>t. t_enabled t \<noteq> True) (rs_tunnels ?rt) = [sample_off]"
    by (simp add: sample_tunnels_def sample_off_def sample_local_tunnel_def)
  obtain r s' where "set_all_enabled_inner sample_answers sample_lib (recorded sample_deaf) True (?rt, (), []) = (r, s')"
    by (cases "set_all_enabled_inner sample_answers sample_lib (recorded sample_deaf) True (?rt, (), [])")
  moreover obtain rt' u sent where "s' = (rt', u :: unit, sent)" by (cases s')
  ultimately have run: "set_all_enabled_inner sample_answers sample_lib (recorded sample_deaf) True (?rt, (), []) =
      (r, (rt', (), sent))" by simp
  define rt0 where "rt0 = ?rt"
  have tunnels: "rs_tunnels rt0 = [sample_local_tunnel, sample_off]" by (simp add: rt0_def sample_tunnels_def)
  have enabled: "t_enabled sample_local_tunnel" "\<not> t_enabled sample_off"
    by (simp_all add: sample_off_def sample_local_tunnel_def)
  have parse: "d_tunnel_parse sample_answers b = Inr sample_local_tunnel" "d_tunnels_parse sample_answers b = Inr []" for b
    by (simp_all add: sample_answers_def sample_dlib_sel)
  have cred: "credentials sample_answers sample_lib (rt0, x) = (Inr (sample_agent_config MWss, lit ''token''), (rt0, x))" for x
    using credentials_eq [of "(rt0, x)" _ sample_answers sample_lib] config token by (auto simp: rt0_def)
  have "r = Inr ()" "rs_tunnels rt' = []"
    using run unfolding rt0_def [symmetric]
    by (auto simp: set_all_enabled_inner_def tunnels set_one_def enabled act_simps cred seq_def parse
        request_json_def recorded_def sample_deaf_def is_success_def refresh_tunnels_def on_runtime_def)
  then show ?thesis
    using set_all_requests [OF keeps config token run refl] run differ by auto
qed

end
