(* ===== verification/Pipe.thy ===== *)
theory Pipe
  imports Prelude
begin

text \<open>
  A one-way stream through several queues: what was sent is spread over the sender's queue, the wire, the
  receiver's inbox and what the receiver has seen. The locale states what a step of a larger system may do
  to these five, and concludes that nothing is lost, repeated or reordered in any run. It is
  used once for each direction of a tunnelled connection.
\<close>

section \<open>The five parts of a stream\<close>

text \<open>The inbox is \<open>None\<close> once the receiver is gone.\<close>

record 'f stream_view =
  vw_sent :: "'f list"
  vw_queue :: "'f list"
  vw_wire :: "'f list"
  vw_inbox :: "'f list option"
  vw_seen :: "'f list"

inductive stream_change :: "'f stream_view \<Rightarrow> 'f stream_view \<Rightarrow> bool" where
  stays: "stream_change v v"
| sends: "stream_change v (v\<lparr>vw_sent := vw_sent v @ xs, vw_queue := vw_queue v @ xs\<rparr>)"
| writes: "vw_queue v = xs @ q \<Longrightarrow> stream_change v (v\<lparr>vw_queue := q, vw_wire := vw_wire v @ xs\<rparr>)"
| arrives: "vw_wire v = xs @ w \<Longrightarrow> vw_inbox v = Some b \<Longrightarrow>
     stream_change v (v\<lparr>vw_wire := w, vw_inbox := Some (b @ xs)\<rparr>)"
| drops: "vw_wire v = xs @ w \<Longrightarrow> vw_inbox v = None \<Longrightarrow> stream_change v (v\<lparr>vw_wire := w\<rparr>)"
| receives: "vw_inbox v = Some (xs @ b) \<Longrightarrow>
     stream_change v (v\<lparr>vw_inbox := Some b, vw_seen := vw_seen v @ xs\<rparr>)"
| closes: "stream_change v (v\<lparr>vw_inbox := None\<rparr>)"

text \<open>Arrival and receipt, whether the receiver is still there or not.\<close>

lemma reaches:
  assumes "vw_wire v = xs @ w"
  shows "stream_change v (v\<lparr>vw_wire := w, vw_inbox := map_option (\<lambda>b. b @ xs) (vw_inbox v)\<rparr>)"
proof (cases "vw_inbox v")
  case None
  then have "v\<lparr>vw_wire := w, vw_inbox := map_option (\<lambda>b. b @ xs) (vw_inbox v)\<rparr> = v\<lparr>vw_wire := w\<rparr>" by (cases v) simp
  with drops [OF assms None] show ?thesis by (simp only:)
next
  case (Some b)
  then show ?thesis using arrives [OF assms Some] by simp
qed

lemma taken:
  assumes "case vw_inbox v of Some r \<Rightarrow> (\<exists>r'. r = xs @ r' \<and> b = Some r') | None \<Rightarrow> xs = [] \<and> b = None"
  shows "stream_change v (v\<lparr>vw_inbox := b, vw_seen := vw_seen v @ xs\<rparr>)"
proof (cases "vw_inbox v")
  case None
  then have "v\<lparr>vw_inbox := b, vw_seen := vw_seen v @ xs\<rparr> = v" using assms by (cases v) simp
  then show ?thesis using stays by simp
next
  case (Some r)
  then obtain r' where r': "r = xs @ r'" "b = Some r'" using assms by auto
  with Some have "vw_inbox v = Some (xs @ r')" by simp
  from receives [OF this] show ?thesis using r'(2) by simp
qed

definition stream_intact :: "'f stream_view \<Rightarrow> bool" where
  "stream_intact v \<longleftrightarrow>
     (case vw_inbox v of
        Some b \<Rightarrow> vw_sent v = vw_seen v @ b @ vw_wire v @ vw_queue v
      | None \<Rightarrow> \<exists>rest. vw_sent v = vw_seen v @ rest)"

lemma stream_change_intact: "stream_change v v' \<Longrightarrow> stream_intact v \<Longrightarrow> stream_intact v'"
  by (induction rule: stream_change.induct) (auto simp: stream_intact_def split: option.splits)

lemma intact_prefix: "stream_intact v \<Longrightarrow> \<exists>rest. vw_sent v = vw_seen v @ rest"
  by (auto simp: stream_intact_def split: option.splits)

section \<open>A system that carries a stream\<close>

text \<open>
  \<open>sane\<close> is an invariant the steps need; \<open>view\<close> reads the five parts off a state of the system.
\<close>

locale carries_stream =
  fixes step :: "'j \<Rightarrow> 'j \<Rightarrow> bool" and sane :: "'j \<Rightarrow> bool" and view :: "'j \<Rightarrow> 'f stream_view"
  assumes sane_step: "step x y \<Longrightarrow> sane x \<Longrightarrow> sane y"
    and view_step: "step x y \<Longrightarrow> sane x \<Longrightarrow> stream_change (view x) (view y)"

text \<open>Such a system has an invariant: no frame of the stream is lost, repeated or out of order.\<close>

sublocale carries_stream \<subseteq>
  whole: invariant_system "\<lambda>x. sane x \<and> stream_intact (view x)" step "\<lambda>x. sane x \<and> stream_intact (view x)"
  by unfold_locales (auto intro: sane_step stream_change_intact [OF view_step])

context carries_stream
begin

lemma run_intact: "step\<^sup>*\<^sup>* x y \<Longrightarrow> sane x \<Longrightarrow> stream_intact (view x) \<Longrightarrow> sane y \<and> stream_intact (view y)"
  using whole.reachable_inv [of x y] by blast

lemma run_prefix:
  "step\<^sup>*\<^sup>* x y \<Longrightarrow> sane x \<Longrightarrow> stream_intact (view x) \<Longrightarrow> \<exists>rest. vw_sent (view y) = vw_seen (view y) @ rest"
  by (intro intact_prefix) (simp add: run_intact)

lemma run_delivered:
  "step\<^sup>*\<^sup>* x y \<Longrightarrow> sane x \<Longrightarrow> stream_intact (view x) \<Longrightarrow>
     vw_inbox (view y) = Some [] \<Longrightarrow> vw_wire (view y) = [] \<Longrightarrow> vw_queue (view y) = [] \<Longrightarrow>
     vw_seen (view y) = vw_sent (view y)"
  using run_intact [of x y] by (simp add: stream_intact_def)

end

end
