(* ===== verification/End_To_End.thy ===== *)
theory End_To_End
  imports Pipe Relay Carrier Agent_Stream_Facts
begin

text \<open>
  One tunnelled connection from the public socket to the local target and back: the server's pumps and
  queues (gateway.rs), the carrier, and the desktop's queues and pumps (agent.rs) as one transition
  system. The carrier between the two writers and readers delivers frames in order while it is up, which is
  what WebSocket messages and the records of \<open>Framing\<close> give.
\<close>

section \<open>The whole system\<close>

text \<open>
  \<open>jt_down\<close> and \<open>jt_up\<close> are the frames on their way from the server to the desktop and back.
\<close>

record 'k joint =
  jt_server :: app_state
  jt_public :: bridge
  jt_down :: "bytes list"
  jt_up :: "bytes list"
  jt_session :: "'k session"
  jt_local :: bridge

text \<open>The frames of stream \<open>i\<close> among some frames.\<close>

definition frame_for :: "lib \<Rightarrow> uuid \<Rightarrow> bytes \<Rightarrow> inbound_frame list" where
  "frame_for L i f =
     (case decode_carrier_frame (l_uuid_of_slice L) f of
        Some (k, j, p) \<Rightarrow> if j = i then [\<lparr>if_kind = k, if_payload = p\<rparr>] else []
      | None \<Rightarrow> [])"

definition frames_for :: "lib \<Rightarrow> uuid \<Rightarrow> bytes list \<Rightarrow> inbound_frame list" where
  "frames_for L i fs = concat (map (frame_for L i) fs)"

lemma frames_for_simps [simp]:
  "frames_for L i [] = []" "frames_for L i (f # fs) = frame_for L i f @ frames_for L i fs"
  "frames_for L i (fs @ gs) = frames_for L i fs @ frames_for L i gs"
  by (simp_all add: frames_for_def)

text \<open>The message a chunk becomes; the empty chunk is end of file.\<close>

definition stream_frame :: "bytes \<Rightarrow> inbound_frame" where
  "stream_frame c = \<lparr>if_kind = (if c = [] then CARRIER_FRAME_FIN else CARRIER_FRAME_DATA), if_payload = c\<rparr>"

lemma frame_for_up_frame: "frames_ok L \<Longrightarrow> frame_for L i (up_frame L j c) = (if j = i then [stream_frame c] else [])"
  by (simp add: frame_for_def up_frame_def stream_frame_def frames_ok_def decode_encode_frame)

lemma frames_for_up_frames: "frames_ok L \<Longrightarrow> frames_for L i (map (up_frame L i) cs) = map stream_frame cs"
  by (induction cs) (simp_all add: frame_for_up_frame)

definition outbound_frame :: "outbound \<Rightarrow> bytes list" where
  "outbound_frame m = (case m of OBinary f \<Rightarrow> [f] | _ \<Rightarrow> [])"

definition outbound_frames :: "outbound list \<Rightarrow> bytes list" where
  "outbound_frames ms = concat (map outbound_frame ms)"

lemma outbound_frames_simps [simp]:
  "outbound_frames [] = []" "outbound_frames (m # ms) = outbound_frame m @ outbound_frames ms"
  "outbound_frames (ms @ ns) = outbound_frames ms @ outbound_frames ns"
  "outbound_frames (map OBinary fs) = fs"
  by (simp_all add: outbound_frames_def outbound_frame_def comp_def)

text \<open>
  What the rest of the server may do meanwhile: anything that leaves this stream's channel and entry alone
  and only appends frames of other streams to the carrier's queue; the same on the desktop.
\<close>

definition server_foreign :: "lib \<Rightarrow> uuid \<Rightarrow> uuid \<Rightarrow> app_state \<Rightarrow> app_state \<Rightarrow> bool" where
  "server_foreign L sid i s s' \<longleftrightarrow>
     s_inbound s' i = s_inbound s i \<and> (i \<in> s_streams s' \<longleftrightarrow> i \<in> s_streams s) \<and>
     (\<forall>q. s_bin s sid = Some q \<longrightarrow> (\<exists>fs. s_bin s' sid = Some (q @ fs) \<and> frames_for L i fs = []))"

definition session_foreign :: "lib \<Rightarrow> uuid \<Rightarrow> 'k session \<Rightarrow> 'k session \<Rightarrow> bool" where
  "session_foreign L i se se' \<longleftrightarrow>
     se_inbound se' i = se_inbound se i \<and> (i \<in> se_streams se' \<longleftrightarrow> i \<in> se_streams se) \<and>
     (\<forall>q. se_outbound se = Some q \<longrightarrow> (\<exists>ms. se_outbound se' = Some (q @ ms) \<and> frames_for L i (outbound_frames ms) = []))"

inductive joint_step :: "lib \<Rightarrow> uuid \<Rightarrow> uuid \<Rightarrow> 'k joint \<Rightarrow> 'k joint \<Rightarrow> bool" for L sid i where
  public_pump: "(\<forall>f. ev \<noteq> Others f) \<Longrightarrow> bridge_step L sid i ev (jt_public x, jt_server x) = (b, s) \<Longrightarrow>
     joint_step L sid i x (x\<lparr>jt_public := b, jt_server := s\<rparr>)"
| local_pump: "(\<forall>f. ev \<noteq> Others f) \<Longrightarrow> local_step L i ev (jt_local x, jt_session x) = (b, se) \<Longrightarrow>
     joint_step L sid i x (x\<lparr>jt_local := b, jt_session := se\<rparr>)"
| server_writer: "take_frame sid (jt_server x) = Some (f, s) \<Longrightarrow>
     joint_step L sid i x (x\<lparr>jt_server := s, jt_down := jt_down x @ [f]\<rparr>)"
| desktop_reader: "jt_down x = f # w \<Longrightarrow> route_local_frame L f (jt_session x) = Some se \<Longrightarrow>
     joint_step L sid i x (x\<lparr>jt_down := w, jt_session := se\<rparr>)"
| desktop_writer: "se_outbound (jt_session x) = Some (m # q) \<Longrightarrow>
     joint_step L sid i x (x\<lparr>jt_session := (jt_session x)\<lparr>se_outbound := Some q\<rparr>, jt_up := jt_up x @ outbound_frame m\<rparr>)"
| server_reader: "jt_up x = f # w \<Longrightarrow> route_carrier_frame L f (jt_server x) = Some s \<Longrightarrow>
     joint_step L sid i x (x\<lparr>jt_up := w, jt_server := s\<rparr>)"
| server_closes: "bridge_result (jt_public x) \<noteq> None \<Longrightarrow>
     joint_step L sid i x (x\<lparr>jt_server := close_connection L i closed (jt_server x)\<rparr>)"
| desktop_closes: "bridge_result (jt_local x) \<noteq> None \<Longrightarrow>
     joint_step L sid i x (x\<lparr>jt_session := remove_stream i (jt_session x)\<rparr>)"
| server_others: "server_foreign L sid i (jt_server x) s \<Longrightarrow> joint_step L sid i x (x\<lparr>jt_server := s\<rparr>)"
| desktop_others: "session_foreign L i (jt_session x) se \<Longrightarrow> joint_step L sid i x (x\<lparr>jt_session := se\<rparr>)"

section \<open>The two directions\<close>

definition view_down :: "lib \<Rightarrow> uuid \<Rightarrow> uuid \<Rightarrow> 'k joint \<Rightarrow> inbound_frame stream_view" where
  "view_down L sid i x =
     \<lparr>vw_sent = map stream_frame (br_read (jt_public x)), vw_queue = frames_for L i (unwrap_or (s_bin (jt_server x) sid) []),
      vw_wire = frames_for L i (jt_down x), vw_inbox = se_inbound (jt_session x) i, vw_seen = br_seen (jt_local x)\<rparr>"

definition view_up :: "lib \<Rightarrow> uuid \<Rightarrow> 'k joint \<Rightarrow> inbound_frame stream_view" where
  "view_up L i x =
     \<lparr>vw_sent = map stream_frame (br_read (jt_local x)),
      vw_queue = frames_for L i (outbound_frames (unwrap_or (se_outbound (jt_session x)) [])),
      vw_wire = frames_for L i (jt_up x), vw_inbox = s_inbound (jt_server x) i, vw_seen = br_seen (jt_public x)\<rparr>"

text \<open>The carrier is up, and a stream has its entry exactly as long as its channel has a receiver.\<close>

definition joint_sane :: "uuid \<Rightarrow> uuid \<Rightarrow> 'k joint \<Rightarrow> bool" where
  "joint_sane sid i x \<longleftrightarrow>
     s_bin (jt_server x) sid \<noteq> None \<and> se_outbound (jt_session x) \<noteq> None \<and>
     (i \<in> s_streams (jt_server x) \<longleftrightarrow> s_inbound (jt_server x) i \<noteq> None) \<and>
     (i \<in> se_streams (jt_session x) \<longleftrightarrow> se_inbound (jt_session x) i \<noteq> None)"

section \<open>What each step does to a direction\<close>

lemma public_pump_effect:
  assumes "bridge_step L sid i ev (b, s) = (b', s')" and "\<forall>f. ev \<noteq> Others f" and "s_bin s sid = Some q"
  obtains cs xs where "br_read b' = br_read b @ cs" and "s_bin s' sid = Some (q @ map (up_frame L i) cs)"
    and "s_streams s' = s_streams s" and "br_seen b' = br_seen b @ xs"
    and "case s_inbound s i of Some r \<Rightarrow> (\<exists>r'. r = xs @ r' \<and> s_inbound s' i = Some r') | None \<Rightarrow> xs = [] \<and> s_inbound s' i = None"
proof -
  obtain b1 s1 where up: "up_step L sid i ev b s = (b1, s1)" and down: "down_step i ev b1 s1 = (b', s')"
    using assms(1,2) by (cases ev) (auto simp: bridge_step_def split: prod.splits)
  have "\<exists>cs. br_read b1 = br_read b @ cs \<and> s_bin s1 sid = Some (q @ map (up_frame L i) cs) \<and>
      s_streams s1 = s_streams s \<and> s_inbound s1 = s_inbound s \<and> br_seen b1 = br_seen b"
  proof (cases "\<exists>c. ev = UpSend \<and> br_up b = None \<and> br_held b = Some c \<and> length q < BIN_CAPACITY")
    case True
    then obtain c where "ev = UpSend" "br_up b = None" "br_held b = Some c" "length q < BIN_CAPACITY" by blast
    then show ?thesis using up assms(3)
      by (intro exI [of _ "[c]"]) (auto simp: up_step_def send_bounded_def Let_def split: if_splits)
  next
    case False
    then show ?thesis using up assms(3)
      by (intro exI [of _ "[]"])
        (auto simp: up_step_def send_bounded_def split: bridge_event.splits option.splits if_splits)
  qed
  then obtain cs where cs: "br_read b1 = br_read b @ cs" "s_bin s1 sid = Some (q @ map (up_frame L i) cs)"
      "s_streams s1 = s_streams s" "s_inbound s1 = s_inbound s" "br_seen b1 = br_seen b"
    by blast
  have "\<exists>xs. br_read b' = br_read b1 \<and> s_bin s' = s_bin s1 \<and> s_streams s' = s_streams s1 \<and> br_seen b' = br_seen b1 @ xs \<and>
      (case s_inbound s1 i of Some r \<Rightarrow> (\<exists>r'. r = xs @ r' \<and> s_inbound s' i = Some r') | None \<Rightarrow> xs = [] \<and> s_inbound s' i = None)"
  proof (cases "\<exists>fault m r. ev = DownFrame fault \<and> br_down b1 = None \<and> s_inbound s1 i = Some (m # r)")
    case True
    then obtain fault m r where t: "ev = DownFrame fault" "br_down b1 = None" "s_inbound s1 i = Some (m # r)" by blast
    then have d: "deliver i m fault (b1\<lparr>br_seen := br_seen b1 @ [m]\<rparr>) (s1\<lparr>s_inbound := (s_inbound s1)(i \<mapsto> r)\<rparr>) = (b', s')"
      using down by (simp add: down_step_def)
    then have "s_bin s' = s_bin s1 \<and> s_streams s' = s_streams s1 \<and> br_read b' = br_read b1"
      by (auto simp: deliver_def split: option.splits if_splits)
    then show ?thesis using deliver_inbound [OF d] t(3) by (intro exI [of _ "[m]"]) auto
  next
    case False
    then show ?thesis using down
      by (intro exI [of _ "[]"])
        (auto simp: down_step_def split: bridge_event.splits option.splits list.splits if_splits)
  qed
  then show thesis using that cs by auto
qed

lemma local_pump_effect:
  assumes "local_step L i ev (b, se) = (b', se')" and "\<forall>f. ev \<noteq> Others f" and "se_outbound se = Some q"
  obtains cs xs where "br_read b' = br_read b @ cs" and "se_outbound se' = Some (q @ map (\<lambda>c. OBinary (up_frame L i c)) cs)"
    and "se_streams se' = se_streams se" and "br_seen b' = br_seen b @ xs"
    and "case se_inbound se i of Some r \<Rightarrow> (\<exists>r'. r = xs @ r' \<and> se_inbound se' i = Some r') | None \<Rightarrow> xs = [] \<and> se_inbound se' i = None"
proof -
  obtain b1 se1 where up: "local_up_step L i ev b se = (b1, se1)" and down: "local_down_step i ev b1 se1 = (b', se')"
    using assms(1,2) by (cases ev) (auto simp: local_step_def split: prod.splits)
  have "\<exists>cs. br_read b1 = br_read b @ cs \<and> se_outbound se1 = Some (q @ map (\<lambda>c. OBinary (up_frame L i c)) cs)"
  proof (cases "\<exists>c. ev = UpSend \<and> br_up b = None \<and> br_held b = Some c \<and> length q < OUTBOUND_CAPACITY")
    case True
    then obtain c where "ev = UpSend" "br_up b = None" "br_held b = Some c" "length q < OUTBOUND_CAPACITY" by blast
    then show ?thesis using up assms(3)
      by (intro exI [of _ "[c]"]) (auto simp: local_up_step_def send_outbound_def Let_def split: if_splits)
  next
    case False
    then show ?thesis using up assms(3)
      by (intro exI [of _ "[]"])
        (auto simp: local_up_step_def send_outbound_def split: bridge_event.splits option.splits if_splits)
  qed
  then obtain cs where cs: "br_read b1 = br_read b @ cs" "se_outbound se1 = Some (q @ map (\<lambda>c. OBinary (up_frame L i c)) cs)"
    by blast
  note same = local_up_step_down [OF up]
  have "\<exists>xs. br_read b' = br_read b1 \<and> se_outbound se' = se_outbound se1 \<and> se_streams se' = se_streams se1 \<and>
      br_seen b' = br_seen b1 @ xs \<and>
      (case se_inbound se1 i of Some r \<Rightarrow> (\<exists>r'. r = xs @ r' \<and> se_inbound se' i = Some r') | None \<Rightarrow> xs = [] \<and> se_inbound se' i = None)"
  proof (cases "\<exists>fault m r. ev = DownFrame fault \<and> br_down b1 = None \<and> se_inbound se1 i = Some (m # r)")
    case True
    then obtain fault m r where t: "ev = DownFrame fault" "br_down b1 = None" "se_inbound se1 i = Some (m # r)" by blast
    then have d: "local_deliver m fault (b1\<lparr>br_seen := br_seen b1 @ [m]\<rparr>) (se1\<lparr>se_inbound := (se_inbound se1)(i \<mapsto> r)\<rparr>) = (b', se')"
      using down by (simp add: local_down_step_def)
    then have "se_outbound se' = se_outbound se1 \<and> se_streams se' = se_streams se1 \<and> br_read b' = br_read b1"
      by (auto simp: local_deliver_def split: option.splits if_splits)
    then show ?thesis using local_deliver_receive [OF d] t(3) by (intro exI [of _ "[m]"]) auto
  next
    case False
    then show ?thesis using down
      by (intro exI [of _ "[]"])
        (auto simp: local_down_step_def split: bridge_event.splits option.splits list.splits if_splits)
  qed
  then show thesis using that cs same by auto
qed

lemma route_carrier_change:
  assumes "route_carrier_frame L f s = Some s'" and "i \<in> s_streams s \<longleftrightarrow> s_inbound s i \<noteq> None"
  shows "s_bin s' = s_bin s \<and> s_streams s' = s_streams s \<and>
     s_inbound s' i = map_option (\<lambda>q. q @ frame_for L i f) (s_inbound s i)"
  using assms
  by (cases "s_inbound s i")
    (auto simp: route_carrier_frame_def frame_for_def send_bounded_def split: option.splits prod.splits if_splits)

lemma route_local_change:
  assumes "route_local_frame L f se = Some se'" and "i \<in> se_streams se \<longleftrightarrow> se_inbound se i \<noteq> None"
  shows "se_outbound se' = se_outbound se \<and> se_streams se' = se_streams se \<and>
     se_inbound se' i = map_option (\<lambda>q. q @ frame_for L i f) (se_inbound se i)"
  using assms
  by (cases "se_inbound se i")
    (auto simp: route_local_frame_def frame_for_def send_bounded_def split: option.splits prod.splits if_splits)

lemma close_connection_sel:
  "s_bin (close_connection L i t s) = s_bin s" "s_streams (close_connection L i t s) = s_streams s - {i}"
  "s_inbound (close_connection L i t s) = (s_inbound s)(i := None)"
  by (auto simp: close_connection_def drop_receivers_def on_db_def Let_def split: option.splits prod.splits)

lemma take_frame_Some:
  "take_frame sid s = Some (f, s') \<longleftrightarrow> (\<exists>q. s_bin s sid = Some (f # q) \<and> s' = s\<lparr>s_bin := (s_bin s)(sid \<mapsto> q)\<rparr>)"
  by (auto simp: take_frame_def split: option.splits list.splits)

lemma unwrap_or_Some [simp]: "unwrap_or (Some q) d = q"
  by (simp add: unwrap_or_def)

lemma joint_step_sane:
  assumes "joint_step L sid i x y" and "joint_sane sid i x"
  shows "joint_sane sid i y"
  using assms(1)
proof cases
  case (public_pump ev b s)
  obtain q where "s_bin (jt_server x) sid = Some q" using assms(2) by (auto simp: joint_sane_def)
  from public_pump_effect [OF public_pump(3,2) this] obtain cs xs where
    "s_bin s sid = Some (q @ map (up_frame L i) cs)" "s_streams s = s_streams (jt_server x)"
    "case s_inbound (jt_server x) i of Some r \<Rightarrow> (\<exists>r'. r = xs @ r' \<and> s_inbound s i = Some r')
       | None \<Rightarrow> xs = [] \<and> s_inbound s i = None"
    by blast
  then have "s_bin s sid \<noteq> None" "s_streams s = s_streams (jt_server x)"
    "s_inbound s i = None \<longleftrightarrow> s_inbound (jt_server x) i = None"
    by (auto split: option.splits)
  then show ?thesis using assms(2) public_pump(1) by (simp add: joint_sane_def)
next
  case (local_pump ev b se)
  obtain q where "se_outbound (jt_session x) = Some q" using assms(2) by (auto simp: joint_sane_def)
  from local_pump_effect [OF local_pump(3,2) this] obtain cs xs where
    "se_outbound se = Some (q @ map (\<lambda>c. OBinary (up_frame L i c)) cs)" "se_streams se = se_streams (jt_session x)"
    "case se_inbound (jt_session x) i of Some r \<Rightarrow> (\<exists>r'. r = xs @ r' \<and> se_inbound se i = Some r')
       | None \<Rightarrow> xs = [] \<and> se_inbound se i = None"
    by blast
  then have "se_outbound se \<noteq> None" "se_streams se = se_streams (jt_session x)"
    "se_inbound se i = None \<longleftrightarrow> se_inbound (jt_session x) i = None"
    by (auto split: option.splits)
  then show ?thesis using assms(2) local_pump(1) by (simp add: joint_sane_def)
next
  case (desktop_reader f w se)
  then show ?thesis using assms(2) route_local_change [OF desktop_reader(3), of i] by (auto simp: joint_sane_def)
next
  case (server_reader f w s)
  then show ?thesis using assms(2) route_carrier_change [OF server_reader(3), of i] by (auto simp: joint_sane_def)
qed (use assms(2) in \<open>auto simp: joint_sane_def take_frame_Some close_connection_sel server_foreign_def session_foreign_def\<close>)

lemma view_down_step:
  assumes "frames_ok L" and "joint_step L sid i x y" and "joint_sane sid i x"
  shows "stream_change (view_down L sid i x) (view_down L sid i y)"
  using assms(2)
proof cases
  case (public_pump ev b s)
  obtain q where q: "s_bin (jt_server x) sid = Some q" using assms(3) by (auto simp: joint_sane_def)
  from public_pump_effect [OF public_pump(3,2) this] obtain cs where
    "br_read b = br_read (jt_public x) @ cs" "s_bin s sid = Some (q @ map (up_frame L i) cs)" by blast
  then show ?thesis
    using sends [of "view_down L sid i x" "map stream_frame cs"] public_pump(1) q
    by (simp add: view_down_def frames_for_up_frames [OF assms(1)])
next
  case (local_pump ev b se)
  obtain q where "se_outbound (jt_session x) = Some q" using assms(3) by (auto simp: joint_sane_def)
  from local_pump_effect [OF local_pump(3,2) this] obtain xs where xs: "br_seen b = br_seen (jt_local x) @ xs"
    "case se_inbound (jt_session x) i of Some r \<Rightarrow> (\<exists>r'. r = xs @ r' \<and> se_inbound se i = Some r')
       | None \<Rightarrow> xs = [] \<and> se_inbound se i = None"
    by blast
  show ?thesis
    using taken [where v = "view_down L sid i x" and xs = xs] xs local_pump(1) by (simp add: view_down_def)
next
  case (server_writer f s)
  then obtain q where "s_bin (jt_server x) sid = Some (f # q)" "s = (jt_server x)\<lparr>s_bin := (s_bin (jt_server x))(sid \<mapsto> q)\<rparr>"
    by (auto simp: take_frame_Some)
  then show ?thesis
    using writes [of "view_down L sid i x" "frame_for L i f" "frames_for L i q"] server_writer(1) by (simp add: view_down_def)
next
  case (desktop_reader f w se)
  have "i \<in> se_streams (jt_session x) \<longleftrightarrow> se_inbound (jt_session x) i \<noteq> None" using assms(3) by (simp add: joint_sane_def)
  note r = route_local_change [OF desktop_reader(3) this]
  show ?thesis
    using reaches [where v = "view_down L sid i x" and xs = "frame_for L i f" and w = "frames_for L i w"] r desktop_reader(1,2)
    by (simp add: view_down_def)
next
  case (desktop_closes)
  then show ?thesis using closes [of "view_down L sid i x"] by (simp add: view_down_def)
next
  case (server_reader f w s)
  have "i \<in> s_streams (jt_server x) \<longleftrightarrow> s_inbound (jt_server x) i \<noteq> None" using assms(3) by (simp add: joint_sane_def)
  from route_carrier_change [OF server_reader(3) this] show ?thesis using server_reader(1) stays by (simp add: view_down_def)
next
  case (server_others s)
  obtain q where q: "s_bin (jt_server x) sid = Some q" using assms(3) by (auto simp: joint_sane_def)
  then obtain fs where "s_bin s sid = Some (q @ fs)" "frames_for L i fs = []"
    using server_others(2) by (auto simp: server_foreign_def)
  then show ?thesis using server_others(1) q stays by (simp add: view_down_def)
next
  case (desktop_others se)
  then show ?thesis using stays by (simp add: view_down_def session_foreign_def)
next
  case (desktop_writer m q)
  then show ?thesis using stays by (simp add: view_down_def)
next
  case (server_closes closed)
  then show ?thesis using stays by (simp add: view_down_def close_connection_sel)
qed

lemma frames_for_outbound:
  "frames_ok L \<Longrightarrow> frames_for L i (outbound_frames (map (\<lambda>c. OBinary (up_frame L i c)) cs)) = map stream_frame cs"
  using outbound_frames_simps(4) [of "map (up_frame L i) cs"] by (simp add: comp_def frames_for_up_frames)

lemma view_up_step:
  assumes "frames_ok L" and "joint_step L sid i x y" and "joint_sane sid i x"
  shows "stream_change (view_up L i x) (view_up L i y)"
  using assms(2)
proof cases
  case (local_pump ev b se)
  obtain q where q: "se_outbound (jt_session x) = Some q" using assms(3) by (auto simp: joint_sane_def)
  from local_pump_effect [OF local_pump(3,2) this] obtain cs where
    "br_read b = br_read (jt_local x) @ cs" "se_outbound se = Some (q @ map (\<lambda>c. OBinary (up_frame L i c)) cs)"
    by blast
  then show ?thesis
    using sends [of "view_up L i x" "map stream_frame cs"] local_pump(1) q
    by (simp add: view_up_def frames_for_outbound [OF assms(1)])
next
  case (public_pump ev b s)
  obtain q where "s_bin (jt_server x) sid = Some q" using assms(3) by (auto simp: joint_sane_def)
  from public_pump_effect [OF public_pump(3,2) this] obtain xs where xs: "br_seen b = br_seen (jt_public x) @ xs"
    "case s_inbound (jt_server x) i of Some r \<Rightarrow> (\<exists>r'. r = xs @ r' \<and> s_inbound s i = Some r')
       | None \<Rightarrow> xs = [] \<and> s_inbound s i = None"
    by blast
  show ?thesis
    using taken [where v = "view_up L i x" and xs = xs] xs public_pump(1) by (simp add: view_up_def)
next
  case (desktop_writer m q)
  then show ?thesis
    using writes [of "view_up L i x" "frames_for L i (outbound_frame m)" "frames_for L i (outbound_frames q)"]
    by (simp add: view_up_def)
next
  case (server_reader f w s)
  have "i \<in> s_streams (jt_server x) \<longleftrightarrow> s_inbound (jt_server x) i \<noteq> None" using assms(3) by (simp add: joint_sane_def)
  note r = route_carrier_change [OF server_reader(3) this]
  show ?thesis
    using reaches [where v = "view_up L i x" and xs = "frame_for L i f" and w = "frames_for L i w"] r server_reader(1,2)
    by (simp add: view_up_def)
next
  case (server_closes closed)
  then show ?thesis using closes [of "view_up L i x"] by (simp add: view_up_def close_connection_sel)
next
  case (desktop_reader f w se)
  have "i \<in> se_streams (jt_session x) \<longleftrightarrow> se_inbound (jt_session x) i \<noteq> None" using assms(3) by (simp add: joint_sane_def)
  from route_local_change [OF desktop_reader(3) this] show ?thesis using desktop_reader(1) stays by (simp add: view_up_def)
next
  case (desktop_others se)
  obtain q where q: "se_outbound (jt_session x) = Some q" using assms(3) by (auto simp: joint_sane_def)
  then obtain ms where "se_outbound se = Some (q @ ms)" "frames_for L i (outbound_frames ms) = []"
    using desktop_others(2) by (auto simp: session_foreign_def)
  then show ?thesis using desktop_others(1) q stays by (simp add: view_up_def)
next
  case (server_others s)
  then show ?thesis using stays by (simp add: view_up_def server_foreign_def)
next
  case (server_writer f s)
  then show ?thesis using stays by (auto simp: view_up_def take_frame_Some)
next
  case desktop_closes
  then show ?thesis using stays by (simp add: view_up_def)
qed

section \<open>Every run of the system\<close>

text \<open>
  The pumps alone still satisfy what \<open>Pumps\<close> proves of them, since no other step touches them.
\<close>

definition pumps_ok :: "lib \<Rightarrow> uuid \<Rightarrow> 'k joint \<Rightarrow> bool" where
  "pumps_ok L i x \<longleftrightarrow>
     up_inv (up_frame L i) (jt_public x) \<and> down_inv (jt_public x) \<and>
     up_inv (up_frame L i) (jt_local x) \<and> down_inv (jt_local x)"

lemma joint_step_pumps:
  assumes "joint_step L sid i x y" and "pumps_ok L i x"
  shows "pumps_ok L i y"
  using assms(1)
proof cases
  case (public_pump ev b s)
  then show ?thesis
    using assms(2) up_change_inv [OF public.up_contract] down_change_inv [OF public.down_contract]
    unfolding pumps_ok_def by simp
next
  case (local_pump ev b se)
  then show ?thesis
    using assms(2) up_change_inv [OF local.up_contract] down_change_inv [OF local.down_contract]
    unfolding pumps_ok_def by auto
qed (use assms(2) in \<open>simp_all add: pumps_ok_def\<close>)

text \<open>
  The start: the connection has been accepted, its ticket acknowledged, and no frame of it is anywhere.
\<close>

definition joint_start :: "lib \<Rightarrow> uuid \<Rightarrow> uuid \<Rightarrow> 'k joint \<Rightarrow> bool" where
  "joint_start L sid i x \<longleftrightarrow>
     jt_public x = bridge_start \<and> jt_local x = bridge_start \<and>
     i \<in> s_streams (jt_server x) \<and> s_inbound (jt_server x) i = Some [] \<and>
     i \<in> se_streams (jt_session x) \<and> se_inbound (jt_session x) i = Some [] \<and>
     (\<exists>q. s_bin (jt_server x) sid = Some q \<and> frames_for L i q = []) \<and>
     (\<exists>q. se_outbound (jt_session x) = Some q \<and> frames_for L i (outbound_frames q) = []) \<and>
     frames_for L i (jt_down x) = [] \<and> frames_for L i (jt_up x) = []"

interpretation down: carries_stream "joint_step L sid i" "\<lambda>x. frames_ok L \<and> joint_sane sid i x" "view_down L sid i"
  for L sid i
  by unfold_locales (auto intro: joint_step_sane view_down_step)

interpretation up: carries_stream "joint_step L sid i" "\<lambda>x. frames_ok L \<and> joint_sane sid i x" "view_up L i"
  for L sid i
  by unfold_locales (auto intro: joint_step_sane view_up_step)

lemma bridge_start_sel [simp]:
  "br_read bridge_start = []" "br_seen bridge_start = []"
  by (simp_all add: bridge_start_def)

lemma joint_start_ok:
  "joint_start L sid i x \<Longrightarrow> joint_sane sid i x \<and> pumps_ok L i x \<and>
     stream_intact (view_down L sid i x) \<and> stream_intact (view_up L i x)"
  by (auto simp: joint_start_def joint_sane_def pumps_ok_def up_inv_start down_inv_start stream_intact_def
      view_down_def view_up_def)

lemma run_pumps_ok: "(joint_step L sid i)\<^sup>*\<^sup>* x y \<Longrightarrow> pumps_ok L i x \<Longrightarrow> pumps_ok L i y"
  by (induction rule: rtranclp_induct) (auto intro: joint_step_pumps)

lemma data_bytes_stream: "data_bytes (map stream_frame cs) = concat cs"
  by (induction cs) (simp_all add: data_bytes_def stream_frame_def)

lemma ends_stream_frame: "if_kind (stream_frame c) = CARRIER_FRAME_FIN \<longleftrightarrow> c = []"
  by (simp add: stream_frame_def)

text \<open>What one pump reads and the other writes, when the frames the second has seen are a prefix.\<close>

lemma delivered_prefix:
  assumes "down_inv to" and "map stream_frame (br_read src) = br_seen to @ rest"
  shows "\<exists>more. concat (br_read src) = br_out to @ more"
proof -
  have "concat (br_read src) = data_bytes (br_seen to) @ data_bytes rest"
    using arg_cong [OF assms(2), of data_bytes] by (simp add: data_bytes_stream)
  moreover have "\<exists>m. data_bytes (br_seen to) = br_out to @ m"
    using assms(1) unfolding down_inv_def by (metis append_take_drop_id)
  ultimately show ?thesis by auto
qed

lemma delivered_all:
  assumes "down_inv to" and "map stream_frame (br_read src) = br_seen to" and "br_down to \<noteq> Some (Inl IoError)"
  shows "br_out to = concat (br_read src)"
proof -
  have "br_out to = data_bytes (br_seen to)" using assms(1,3) by (simp add: down_inv_def)
  then show ?thesis by (simp add: assms(2) [symmetric] data_bytes_stream)
qed

lemma delivered_shutdown:
  assumes "up_inv frame src" and "down_inv to" and "map stream_frame (br_read src) = br_seen to @ rest" and "br_shutdown to"
  shows "br_out to = concat (br_read src) \<and> br_up src = Some (Inr ())"
proof -
  from assms(2,4) have seen: "br_seen to \<noteq> []" "if_kind (last (br_seen to)) = CARRIER_FRAME_FIN"
      "br_down to = Some (Inr ())" by (simp_all add: down_inv_def)
  then obtain ms m where ms: "br_seen to = ms @ [m]" "if_kind m = CARRIER_FRAME_FIN"
    by (cases "br_seen to" rule: rev_cases) auto
  then have split: "map stream_frame (br_read src) = ms @ m # rest" using assms(3) by simp
  then obtain cs c ds where cs: "br_read src = cs @ c # ds" "stream_frame c = m" "map stream_frame ds = rest"
    by (auto simp: map_eq_append_conv)
  then have c: "c = []" using ms(2) ends_stream_frame by blast
  have up: "br_up src = Some (Inr ())"
    using assms(1) cs(1) c by (auto simp: up_inv_def)
  then have "[] \<notin> set (butlast (br_read src))" using assms(1) by (simp add: up_inv_def)
  then have "ds = []" using cs(1) c by (cases ds rule: rev_cases) (auto simp: butlast_append)
  then have "map stream_frame (br_read src) = br_seen to" using assms(3) cs(3) by simp
  then show ?thesis using delivered_all [OF assms(2)] seen(3) up by simp
qed


text \<open>
  C2. From the local target back to the public client, in the same generality: the bytes written to the
  client are a prefix of those read from the target, the client's connection is shut down only after the
  target's end of file with every byte written, and when nothing is under way every byte handed to the
  carrier has been written unless a write to the client failed.
\<close>

theorem target_to_client:
  assumes "frames_ok L" and "joint_start L sid i x" and "(joint_step L sid i)\<^sup>*\<^sup>* x y"
  shows "(\<exists>more. concat (br_read (jt_local y)) = br_out (jt_public y) @ more) \<and>
     (br_shutdown (jt_public y) \<longrightarrow>
        br_out (jt_public y) = concat (br_read (jt_local y)) \<and> br_up (jt_local y) = Some (Inr ())) \<and>
     (s_inbound (jt_server y) i = Some [] \<and> frames_for L i (jt_up y) = [] \<and>
      (\<forall>q. se_outbound (jt_session y) = Some q \<longrightarrow> frames_for L i (outbound_frames q) = []) \<and>
      br_down (jt_public y) \<noteq> Some (Inl IoError) \<longrightarrow>
        br_out (jt_public y) = concat (br_read (jt_local y)))"
proof -
  note start = joint_start_ok [OF assms(2)]
  have pumps: "pumps_ok L i y" using run_pumps_ok [OF assms(3)] start by blast
  then have inv: "up_inv (up_frame L i) (jt_local y)" "down_inv (jt_public y)" by (simp_all add: pumps_ok_def)
  obtain rest where rest: "map stream_frame (br_read (jt_local y)) = br_seen (jt_public y) @ rest"
    using up.run_prefix [OF assms(3)] start assms(1) by (auto simp: view_up_def)
  have all: "map stream_frame (br_read (jt_local y)) = br_seen (jt_public y)"
    if "s_inbound (jt_server y) i = Some []" "frames_for L i (jt_up y) = []"
      "\<forall>q. se_outbound (jt_session y) = Some q \<longrightarrow> frames_for L i (outbound_frames q) = []"
  proof -
    have "frames_for L i (outbound_frames (unwrap_or (se_outbound (jt_session y)) [])) = []"
      using that(3) by (cases "se_outbound (jt_session y)") (simp_all add: unwrap_or_def)
    then show ?thesis
      using up.run_delivered [OF assms(3)] start assms(1) that(1,2) by (simp add: view_up_def)
  qed
  show ?thesis
    using delivered_prefix [OF inv(2) rest] delivered_shutdown [OF inv rest] delivered_all [OF inv(2)] all by blast
qed

section \<open>Other connections are foreign\<close>

text \<open>
  The steps of other connections are among those the theorems allow: their pumps, and frames of theirs
  that arrive.
\<close>

lemma other_public_pump:
  assumes "frames_ok L" and "j \<noteq> i" and "\<forall>f. ev \<noteq> Others f" and "bridge_step L sid j ev (b, s) = (b', s')"
  shows "server_foreign L sid i s s'"
proof (cases "s_bin s sid")
  case None
  have "s_inbound s' i = s_inbound s i \<and> s_streams s' = s_streams s"
    using assms(2,3,4) unfolding bridge_step_def
    by (auto simp: up_step_def down_step_def deliver_def send_bounded_def None Let_def
        split: bridge_event.splits option.splits list.splits if_splits prod.splits)
  then show ?thesis using None by (simp add: server_foreign_def)
next
  case (Some q)
  have inbound: "s_inbound s' i = s_inbound s i"
  proof -
    obtain b1 s1 where up: "up_step L sid j ev b s = (b1, s1)" and down: "down_step j ev b1 s1 = (b', s')"
      using assms(3,4) by (cases ev) (auto simp: bridge_step_def split: prod.splits)
    have "s_inbound s' i = s_inbound s1 i"
      using down assms(2)
      by (auto simp: down_step_def deliver_def split: bridge_event.splits option.splits list.splits if_splits)
    then show ?thesis using up_step_inbound [OF up] by simp
  qed
  from public_pump_effect [OF assms(4,3) Some] obtain cs where cs: "s_bin s' sid = Some (q @ map (up_frame L j) cs)"
    "s_streams s' = s_streams s" by blast
  moreover have "frames_for L i (map (up_frame L j) cs) = []"
    using assms(1,2) by (induction cs) (simp_all add: frame_for_up_frame)
  ultimately show ?thesis using Some inbound by (auto simp: server_foreign_def)
qed

lemma other_frame_arrives:
  assumes "frame_for L i f = []" and "route_carrier_frame L f s = Some s'"
  shows "server_foreign L sid i s s'"
  using assms
  by (auto simp: server_foreign_def route_carrier_frame_def frame_for_def send_bounded_def intro!: exI [of _ "[]"]
      split: option.splits prod.splits if_splits)

lemma other_local_frame:
  assumes "frame_for L i f = []" and "route_local_frame L f se = Some se'"
  shows "session_foreign L i se se'"
  using assms
  by (auto simp: session_foreign_def route_local_frame_def frame_for_def send_bounded_def intro!: exI [of _ "[]"]
      split: option.splits prod.splits if_splits)

section \<open>A concrete run\<close>

definition sample_joint :: "unit joint" where
  "sample_joint =
     \<lparr>jt_server = sample_bridged, jt_public = bridge_start, jt_down = [], jt_up = [],
      jt_session = register_stream 9 sample_session, jt_local = bridge_start\<rparr>"

lemma sample_joint_start: "joint_start sample_lib 3 9 sample_joint"
  by (auto simp: joint_start_def sample_joint_def sample_bridged_def activate_def sample_offered_def register_offer_def
      sample_offer_def sample_session_def session_new_def)

text \<open>The client sends two bytes, which reach the target.\<close>

lemma sample_joint_run:
  "\<exists>y. (joint_step sample_lib 3 9)\<^sup>*\<^sup>* sample_joint y \<and> br_read (jt_public y) = [[1, 2]] \<and> br_out (jt_local y) = [1, 2]"
proof -
  let ?f = "up_frame sample_lib 9 [1, 2]"
  let ?J = "joint_step sample_lib 3 9"
  have bin: "s_bin sample_bridged 3 = Some []"
    by (simp add: sample_bridged_def activate_def sample_offered_def register_offer_def)
  obtain b1 s1 where one: "bridge_step sample_lib 3 9 (UpRead [1, 2]) (bridge_start, sample_bridged) = (b1, s1)"
    "br_held b1 = Some [1, 2]" "br_up b1 = None" "br_down b1 = None" "br_read b1 = []" "s_bin s1 3 = Some []"
    by (auto simp: bridge_step_def up_step_def down_step_def bridge_start_def BUFFER_SIZE_def bin)
  obtain b2 s2 where two: "bridge_step sample_lib 3 9 UpSend (b1, s1) = (b2, s2)" "br_read b2 = [[1, 2]]" "s_bin s2 3 = Some [?f]"
    using one by (auto simp: bridge_step_def up_step_def down_step_def send_bounded_def BIN_CAPACITY_def Let_def)
  obtain s3 where three: "take_frame 3 s2 = Some (?f, s3)" using two(3) by (auto simp: take_frame_Some)
  obtain se where four: "route_local_frame sample_lib ?f (register_stream 9 sample_session) = Some se"
    "se_inbound se 9 = Some [\<lparr>if_kind = CARRIER_FRAME_DATA, if_payload = [1, 2]\<rparr>]"
    using route_local_effect [OF sample_frames, of CARRIER_FRAME_DATA 9 "[1, 2]" "register_stream 9 sample_session"]
    by (auto simp: up_frame_def STREAM_CAPACITY_def)
  obtain b5 se5 where five: "local_step sample_lib 9 (DownFrame None) (bridge_start, se) = (b5, se5)" "br_out b5 = [1, 2]"
    using four(2) by (auto simp: local_step_def local_up_step_def local_down_step_def local_deliver_def bridge_start_def)
  let ?x1 = "sample_joint\<lparr>jt_public := b1, jt_server := s1\<rparr>"
  let ?x2 = "?x1\<lparr>jt_public := b2, jt_server := s2\<rparr>"
  let ?x3 = "?x2\<lparr>jt_server := s3, jt_down := jt_down ?x2 @ [?f]\<rparr>"
  let ?x4 = "?x3\<lparr>jt_down := [], jt_session := se\<rparr>"
  let ?x5 = "?x4\<lparr>jt_local := b5, jt_session := se5\<rparr>"
  have "?J sample_joint ?x1" by (rule joint_step.public_pump [of "UpRead [1, 2]"]) (simp_all add: sample_joint_def one(1))
  moreover have "?J ?x1 ?x2" by (rule joint_step.public_pump [of UpSend]) (simp_all add: two(1))
  moreover have "?J ?x2 ?x3" by (rule joint_step.server_writer) (simp add: three)
  moreover have "?J ?x3 ?x4" by (rule joint_step.desktop_reader) (simp add: sample_joint_def, use four(1) in \<open>simp add: sample_joint_def\<close>)
  moreover have "?J ?x4 ?x5" by (rule joint_step.local_pump [of "DownFrame None"]) (simp_all add: sample_joint_def five(1))
  ultimately have "?J\<^sup>*\<^sup>* sample_joint ?x5" by (meson rtranclp.rtrancl_into_rtrancl rtranclp.rtrancl_refl)
  then show ?thesis using two(2) five(2) by (intro exI [of _ ?x5]) simp
qed


theorem target_to_client_witness:
  "\<exists>y. (joint_step sample_lib 3 9)\<^sup>*\<^sup>* sample_joint y \<and> (\<exists>more. concat (br_read (jt_local y)) = br_out (jt_public y) @ more)"
proof -
  obtain y where y: "(joint_step sample_lib 3 9)\<^sup>*\<^sup>* sample_joint y" using sample_joint_run by blast
  from conjunct1 [OF target_to_client [OF sample_frames sample_joint_start y]] y show ?thesis by blast
qed

end
