(* ===== verification/Desktop_Server.thy ===== *)
theory Desktop_Server
  imports Agent_Commands_Facts Api_Facts "HOL-Library.Countable"
begin

text \<open>
  The desktop's commands over the server's agent API: the routes of \<open>router\<close> in server/src/api.rs that the
  desktop calls, answering from the server's state, and what the two programs agree on after a command.
\<close>

section \<open>The agent routes\<close>

text \<open>
  The bodies of the answers: \<open>serde_json\<close> on the server's side. The desktop's decoder reads them back,
  being derived from the same types.
\<close>

record answer_codec =
  an_tunnel :: "tunnel \<Rightarrow> bytes"
  an_tunnels :: "tunnel list \<Rightarrow> bytes"
  an_enrollment :: "agent_enrollment_response \<Rightarrow> bytes"
  an_error :: "api_error \<Rightarrow> bytes"

definition answers_agree :: "('u, 'k) dlib \<Rightarrow> answer_codec \<Rightarrow> bool" where
  "answers_agree D A \<longleftrightarrow>
     (\<forall>t. d_tunnel_parse D (an_tunnel A t) = Inr t) \<and> (\<forall>ts. d_tunnels_parse D (an_tunnels A ts) = Inr ts)"

text \<open>
  What the server takes from outside for one request: the clocks of the handler, a fresh tunnel id and
  listener token, and the transport identity with its base64 function.
\<close>

record server_input =
  sv_now :: instant
  sv_utc :: utc
  sv_audit_utc :: utc
  sv_tunnel_id :: uuid
  sv_listener :: nat
  sv_identity :: "transport_identity option"
  sv_base64 :: "bytes \<Rightarrow> ustr"

definition call_of :: "server_input \<Rightarrow> http_request \<Rightarrow> call" where
  "call_of v rq =
     \<lparr>cl_headers = [(lit ''authorization'', Some (lit ''Bearer '' @ hr_bearer rq))],
      cl_now = sv_now v, cl_utc = sv_utc v, cl_audit_utc = sv_audit_utc v\<rparr>"

definition answer :: "answer_codec \<Rightarrow> nat \<Rightarrow> ('a \<Rightarrow> bytes) \<Rightarrow> (app_error + 'a) \<times> app_state \<Rightarrow> http_answer \<times> app_state" where
  "answer A status enc r =
     (case r of
        (Inr x, s) \<Rightarrow> (Answer status (enc x), s)
      | (Inl e, s) \<Rightarrow> (case into_response e of (st, body) \<Rightarrow> Answer st (an_error A body), s))"

text \<open>
  The routes, one request at a time. A body that is not the one the handler extracts is refused with 422,
  an id that is no UUID with 400, an unknown path or method with 404 or 405.
\<close>

definition agent_routes ::
  "lib \<Rightarrow> answer_codec \<Rightarrow> server_input \<Rightarrow> ustr \<Rightarrow> http_request \<Rightarrow> app_state \<Rightarrow> http_answer \<times> app_state" where
  "agent_routes L A v path rq s =
     (let c = call_of v rq in
      if path = lit ''/api/v1/agent/tunnels'' then
        (case hr_method rq of
           GET \<Rightarrow> answer A 200 (an_tunnels A) (agent_list_tunnels L c s)
         | POST \<Rightarrow>
             (case hr_body rq of
                CreateBody q \<Rightarrow> answer A 201 (an_tunnel A) (agent_create_tunnel L c (sv_tunnel_id v) (sv_listener v) id q s)
              | _ \<Rightarrow> (Answer 422 [], s))
         | _ \<Rightarrow> (Answer 405 [], s))
      else if path = lit ''/api/v1/agent/enrollment'' then
        (case hr_method rq of
           GET \<Rightarrow> answer A 200 (an_enrollment A) (agent_enrollment L (sv_base64 v) (sv_identity v) c s)
         | _ \<Rightarrow> (Answer 405 [], s))
      else
        (case strip_prefix (lit ''/api/v1/agent/tunnels/'') path of
           None \<Rightarrow> (Answer 404 [], s)
         | Some text_id \<Rightarrow>
             (case l_uuid_parse L text_id of
                None \<Rightarrow> (Answer 400 [], s)
              | Some i \<Rightarrow>
                  (case hr_method rq of
                     PATCH \<Rightarrow>
                       (case hr_body rq of
                          UpdateBody q \<Rightarrow> answer A 200 (an_tunnel A) (agent_update_tunnel L c (sv_listener v) id i q s)
                        | _ \<Rightarrow> (Answer 422 [], s))
                   | DELETE \<Rightarrow> answer A 204 (\<lambda>_. []) (agent_delete_tunnel L c i s)
                   | _ \<Rightarrow> (Answer 405 [], s)))))"

text \<open>
  The network of a desktop whose server is at \<open>base\<close>; \<open>v\<close> may depend on the request and on the state.
\<close>

definition server_net ::
  "lib \<Rightarrow> answer_codec \<Rightarrow> (http_request \<Rightarrow> app_state \<Rightarrow> server_input) \<Rightarrow> ustr \<Rightarrow> ('k, app_state) net" where
  "server_net L A v base rq s =
     (case strip_prefix base (hr_url rq) of
        None \<Rightarrow> (NoAnswer [], s)
      | Some path \<Rightarrow>
          (case agent_routes L A (v rq (snd s)) path rq (snd s) of (a, s') \<Rightarrow> (a, (fst s, s'))))"

section \<open>The device behind a request\<close>

definition device_of_token :: "lib \<Rightarrow> ustr \<Rightarrow> app_state \<Rightarrow> uuid option" where
  "device_of_token L token s =
     Option.bind (find (\<lambda>r. dr_token_hash r = hash_token L token \<and> \<not> dr_revoked r) (db_devices (s_db s)))
       (\<lambda>r. l_uuid_parse L (dr_id r))"

lemma select_Inr: "db_do (select f) s = (Inr x, s') \<Longrightarrow> untouched s s' \<and> (\<exists>d. db_tunnels d = db_tunnels (s_db s) \<and>
    db_devices d = db_devices (s_db s) \<and> x = f d)"
  by (auto simp: db_do_def on_db_def select_def untouched_def split: prod.splits elim!: stmt_cases
      intro!: exI [of _ "(s_db s)\<lparr>db_faults := _\<rparr>"])

lemma require_device_Inr:
  assumes "require_device L (cl_headers (call_of v rq)) s = (Inr a, s')"
  shows "untouched s s' \<and> device_of_token L (hr_bearer rq) s = Some (di_id a)"
proof -
  have h: "header_str (cl_headers (call_of v rq)) ''authorization'' = Some (lit ''Bearer '' @ hr_bearer rq)"
    by (simp add: call_of_def header_str_def header_get_def)
  obtain row r s1 where row: "db_do (device_by_token (hash_token L (hr_bearer rq))) s = (Inr row, s1)"
      "row = Some r" "l_uuid_parse L (dr_id r) = Some (di_id a)" "s' = s1"
    using assms by (auto simp: require_device_def h seq_eq_Inr act_simps)
  from select_Inr [OF row(1) [unfolded device_by_token_def]]
  have u: "untouched s s'"
    and f: "find (\<lambda>r. dr_token_hash r = hash_token L (hr_bearer rq) \<and> \<not> dr_revoked r) (db_devices (s_db s)) = Some r"
    using row(2,4) by auto
  show ?thesis using u row(3) by (simp add: device_of_token_def f)
qed

section \<open>The lists\<close>

definition device_rows :: "lib \<Rightarrow> uuid \<Rightarrow> app_state \<Rightarrow> tunnel_row list" where
  "device_rows L agent s =
     sort_key tr_created_at (filter (\<lambda>r. tr_agent_id r = l_uuid_text L agent) (db_tunnels (s_db s)))"

lemma list_for_agent_Inr:
  assumes "list_for_agent L agent s = (Inr ts, s')"
  shows "untouched s s' \<and> map (row_to_tunnel L) (device_rows L agent s) = map Inr ts"
proof -
  obtain rows where rows: "db_do (select (\<lambda>d. sort_key tr_created_at
      (filter (\<lambda>r. tr_agent_id r = l_uuid_text L agent) (db_tunnels d)))) s = (Inr rows, s')"
      "collect (map (row_to_tunnel L) rows) = Inr ts"
    using assms by (auto simp: list_for_agent_def seq_eq_Inr act_simps)
  from select_Inr [OF rows(1)] rows(2) show ?thesis
    by (auto simp: device_rows_def collect_eq_Inr)
qed

text \<open>The server's own view of a device's tunnels, and the desktop's agreement with it.\<close>

definition shows_device :: "lib \<Rightarrow> uuid \<Rightarrow> tunnel list \<Rightarrow> app_state \<Rightarrow> bool" where
  "shows_device L agent ts s \<longleftrightarrow>
     (\<exists>stored. map (row_to_tunnel L) (device_rows L agent s) = map Inr stored \<and> ts = decorate_tunnels s stored)"

lemma decorate_core: "core s' = core s \<Longrightarrow> decorate_tunnel s' t = decorate_tunnel s t"
  by (simp add: decorate_tunnel_def core_eq)

lemma shows_device_core: "core s' = core s \<Longrightarrow> shows_device L agent ts s' = shows_device L agent ts s"
proof -
  assume c: "core s' = core s"
  have "decorate_tunnel s' = decorate_tunnel s" using decorate_core [OF c] by (rule ext)
  moreover have "device_rows L agent s' = device_rows L agent s" using c by (simp add: device_rows_def core_eq)
  ultimately show ?thesis by (simp add: shows_device_def decorate_tunnels_def)
qed

lemma device_of_token_core: "core s' = core s \<Longrightarrow> device_of_token L token s' = device_of_token L token s"
  by (simp add: device_of_token_def core_eq)

lemma agent_list_Inr:
  assumes "agent_list_tunnels L (call_of v rq) s = (Inr ts, s')"
  shows "core s' = core s \<and> (\<exists>agent. device_of_token L (hr_bearer rq) s = Some agent \<and> shows_device L agent ts s')"
proof -
  obtain a s1 stored where
    a: "require_device L (cl_headers (call_of v rq)) s = (Inr a, s1)" "list_for_agent L (di_id a) s1 = (Inr stored, s')"
      "ts = decorate_tunnels s' stored"
    using assms by (auto simp: agent_list_tunnels_def seq_eq_Inr act_simps)
  note r = require_device_Inr [OF a(1)] and l = list_for_agent_Inr [OF a(2)]
  have "device_rows L (di_id a) s' = device_rows L (di_id a) s1"
    using untouched_sel(2) [OF conjunct1 [OF l]] by (simp add: device_rows_def)
  with l a(3) have "shows_device L (di_id a) ts s'" by (auto simp: shows_device_def)
  then show ?thesis using r l core_untouched by metis
qed


lemma decorate_stored: "decorate_tunnel s (stored_status t) = decorate_tunnel s t"
  by (simp add: decorate_tunnel_def stored_status_def)

lemma shows_row:
  assumes "shows_device L agent ts s" "r \<in> set (db_tunnels (s_db s))" "tr_agent_id r = l_uuid_text L agent"
    and "row_to_tunnel L r = Inr t"
  shows "decorate_tunnel s t \<in> set ts"
proof -
  obtain stored where st: "map (row_to_tunnel L) (device_rows L agent s) = map Inr stored" "ts = decorate_tunnels s stored"
    using assms(1) by (auto simp: shows_device_def)
  have "Inr t \<in> set (map (row_to_tunnel L) (device_rows L agent s))"
    using assms(2-4) by (force simp: device_rows_def)
  then have "t \<in> set stored" unfolding st(1) by auto
  then show ?thesis by (simp add: st(2) decorate_tunnels_def)
qed

lemma shows_member:
  assumes "shows_device L agent ts s" "t \<in> set ts"
  shows "\<exists>r t0. r \<in> set (db_tunnels (s_db s)) \<and> tr_agent_id r = l_uuid_text L agent \<and> row_to_tunnel L r = Inr t0 \<and>
    t = decorate_tunnel s t0"
proof -
  obtain stored where st: "map (row_to_tunnel L) (device_rows L agent s) = map Inr stored" "ts = decorate_tunnels s stored"
    using assms(1) by (auto simp: shows_device_def)
  obtain t0 where t0: "t0 \<in> set stored" "t = decorate_tunnel s t0" using assms(2) st(2) by (auto simp: decorate_tunnels_def)
  then have "Inr t0 \<in> set (map (row_to_tunnel L) (device_rows L agent s))" unfolding st(1) by auto
  then show ?thesis using t0(2) by (force simp: device_rows_def)
qed

section \<open>The writing handlers\<close>

lemma agent_create_Inr:
  assumes "agent_create_tunnel L (call_of v rq) i k id q s = (Inr t, s')"
  obtains agent t0 s0 s1 where "untouched s s0" "device_of_token L (hr_bearer rq) s = Some agent"
    "create L i (sv_utc v) agent q s0 = (Inr t0, s1)" "core s' = core (reconcile_listener k id t0 s1)"
    "t = decorate_tunnel s' t0"
proof -
  obtain a s0 t0 s1 where
    a: "require_device L (cl_headers (call_of v rq)) s = (Inr a, s0)" "create L i (cl_utc (call_of v rq)) (di_id a) q s0 = (Inr t0, s1)"
      "audit L (call_of v rq) ''tunnel.create'' (l_uuid_text L (t_id t0)) (lit ''created by device '' @ di_name a)
         (sync_agent L (di_id a) (reconcile_listener k id t0 s1)) = (Inr (), s')" "t = decorate_tunnel s' t0"
    using assms by (auto simp: agent_create_tunnel_def seq_eq_Inr act_simps)
  note r = require_device_Inr [OF a(1)]
  have "core s' = core (reconcile_listener k id t0 s1)"
    using core_audit_eq [OF a(3)] core_sync by simp
  moreover have "cl_utc (call_of v rq) = sv_utc v" by (simp add: call_of_def)
  ultimately show ?thesis using a(2,4) by (intro that [OF conjunct1 [OF r] conjunct2 [OF r]]) simp_all
qed

lemma agent_update_Inr:
  assumes "agent_update_tunnel L (call_of v rq) k id i q s = (Inr t, s')"
  obtains agent t0 s0 s1 where "untouched s s0" "device_of_token L (hr_bearer rq) s = Some agent"
    "update L (sv_utc v) i (Some agent) q s0 = (Inr t0, s1)" "core s' = core (reconcile_listener k id t0 s1)"
    "t = decorate_tunnel s' t0"
proof -
  obtain a s0 t0 s1 where
    a: "require_device L (cl_headers (call_of v rq)) s = (Inr a, s0)"
      "update L (cl_utc (call_of v rq)) i (Some (di_id a)) q s0 = (Inr t0, s1)"
      "audit L (call_of v rq) ''tunnel.update'' (l_uuid_text L i) (lit ''updated by device '' @ di_name a)
         (sync_agent L (di_id a) (reconcile_listener k id t0 s1)) = (Inr (), s')" "t = decorate_tunnel s' t0"
    using assms by (auto simp: agent_update_tunnel_def seq_eq_Inr act_simps)
  note r = require_device_Inr [OF a(1)]
  have "core s' = core (reconcile_listener k id t0 s1)"
    using core_audit_eq [OF a(3)] core_sync by simp
  moreover have "cl_utc (call_of v rq) = sv_utc v" by (simp add: call_of_def)
  ultimately show ?thesis using a(2,4) by (intro that [OF conjunct1 [OF r] conjunct2 [OF r]]) simp_all
qed

lemma agent_delete_Inr:
  assumes "agent_delete_tunnel L (call_of v rq) i s = (Inr u, s')"
  obtains agent s0 s1 where "untouched s s0" "device_of_token L (hr_bearer rq) s = Some agent"
    "delete_tunnel L i (Some agent) s0 = (Inr (), s1)" "core s' = core (stop_listener i s1)"
proof -
  obtain a s0 s1 where
    a: "require_device L (cl_headers (call_of v rq)) s = (Inr a, s0)" "delete_tunnel L i (Some (di_id a)) s0 = (Inr (), s1)"
      "audit L (call_of v rq) ''tunnel.delete'' (l_uuid_text L i) (lit ''deleted by device '' @ di_name a)
         (sync_agent L (di_id a) (stop_listener i s1)) = (Inr u, s')"
    using assms by (auto simp: agent_delete_tunnel_def seq_eq_Inr act_simps)
  note r = require_device_Inr [OF a(1)]
  have "core s' = core (stop_listener i s1)"
    using core_audit_eq [OF a(3)] core_sync by simp
  then show ?thesis by (rule that [OF conjunct1 [OF r] conjunct2 [OF r] a(2)])
qed

section \<open>A request over the network\<close>

lemma error_no_success: "\<not> is_success (fst (into_response e))"
  by (cases e) (simp_all add: is_success_def)

lemma answer_success:
  assumes "answer A status enc r = (Answer st b, s')" "is_success st"
  shows "\<exists>x. r = (Inr x, s') \<and> b = enc x"
  using assms error_no_success by (auto simp: answer_def split: prod.splits sum.splits) (metis fst_conv)+

lemma server_request_Inr:
  assumes "request_json D (server_net L A v base) base token m path body parse (rt, s) = (Inr x, (rt', s'))"
  shows "rt' = rt \<and> (\<exists>vi st b. vi = v \<lparr>hr_method = m, hr_url = base @ path, hr_bearer = token, hr_body = body\<rparr> s \<and>
    agent_routes L A vi path \<lparr>hr_method = m, hr_url = base @ path, hr_bearer = token, hr_body = body\<rparr> s = (Answer st b, s') \<and>
    is_success st \<and> parse b = Inr x)"
  using assms by (auto simp: request_json_def server_net_def split: prod.splits http_answer.splits if_splits)

lemma credentials_Inr:
  "credentials D L (rt, w) = (Inr (c, token), s') \<longleftrightarrow>
     s' = (rt, w) \<and> rs_config rt = Some c \<and> load_token D L (gc_installation_id c) (rs_keychain rt) = Inr token"
  by (auto simp: credentials_def seq_eq_Inr act_simps)


lemma paths_differ:
  "tunnel_path L i \<noteq> lit ''/api/v1/agent/tunnels''" "tunnel_path L i \<noteq> lit ''/api/v1/agent/enrollment''"
  by (auto simp: tunnel_path_def lit_def)

lemma strip_tunnel_path: "strip_prefix (lit ''/api/v1/agent/tunnels/'') (tunnel_path L i) = Some (l_uuid_text L i)"
  by (simp add: tunnel_path_def)

lemma route_list:
  assumes "agent_routes L A vi tunnels_path rq s = (Answer st b, s')" "is_success st" "hr_method rq = GET"
  shows "\<exists>ts. agent_list_tunnels L (call_of vi rq) s = (Inr ts, s') \<and> b = an_tunnels A ts"
  using assms(1,3) by (auto simp: agent_routes_def tunnels_path_def dest!: answer_success [OF _ assms(2)])

lemma route_create:
  assumes "agent_routes L A vi tunnels_path rq s = (Answer st b, s')" "is_success st" "hr_method rq = POST"
    "hr_body rq = CreateBody q"
  shows "\<exists>t. agent_create_tunnel L (call_of vi rq) (sv_tunnel_id vi) (sv_listener vi) id q s = (Inr t, s') \<and> b = an_tunnel A t"
  using assms(1,3,4) by (auto simp: agent_routes_def tunnels_path_def dest!: answer_success [OF _ assms(2)])

lemma route_update:
  assumes "codecs_ok L" "agent_routes L A vi (tunnel_path L i) rq s = (Answer st b, s')" "is_success st" "hr_method rq = PATCH"
    "hr_body rq = UpdateBody q"
  shows "\<exists>t. agent_update_tunnel L (call_of vi rq) (sv_listener vi) id i q s = (Inr t, s') \<and> b = an_tunnel A t"
  using assms(2,4,5) codecsD(1) [OF assms(1)]
  by (auto simp: agent_routes_def paths_differ strip_tunnel_path dest!: answer_success [OF _ assms(3)])

lemma route_delete:
  assumes "codecs_ok L" "agent_routes L A vi (tunnel_path L i) rq s = (Answer st b, s')" "is_success st" "hr_method rq = DELETE"
  shows "agent_delete_tunnel L (call_of vi rq) i s = (Inr (), s')"
  using assms(2,4) codecsD(1) [OF assms(1)]
  by (auto simp: agent_routes_def paths_differ strip_tunnel_path dest!: answer_success [OF _ assms(3)])

text \<open>Every command ends with \<open>refresh_tunnels\<close>: it reads the list of the token's device and nothing else.\<close>

lemma refresh_server:
  assumes "answers_agree D A" "rs_config rt = Some c"
    and "load_token D L (gc_installation_id c) (rs_keychain rt) = Inr token"
    and "refresh_tunnels D L (server_net L A v (gc_server_url c)) (rt, s) = (Inr u, (rt', s'))"
  shows "core s' = core s \<and> (\<exists>ts agent. rt' = rt\<lparr>rs_tunnels := ts\<rparr> \<and> device_of_token L token s = Some agent \<and>
     shows_device L agent ts s')"
proof -
  obtain ts rt1 where r:
    "request_json D (server_net L A v (gc_server_url c)) (gc_server_url c) token GET tunnels_path NoBody
       (d_tunnels_parse D) (rt, s) = (Inr ts, (rt1, s'))" "rt' = rt1\<lparr>rs_tunnels := ts\<rparr>"
    using assms(2-4)
    by (auto simp: refresh_tunnels_def seq_eq_Inr credentials_Inr on_runtime_def act_simps)
  let ?rq = "\<lparr>hr_method = GET, hr_url = gc_server_url c @ tunnels_path, hr_bearer = token, hr_body = NoBody\<rparr>"
  obtain vi st b where q: "rt1 = rt" "agent_routes L A vi tunnels_path ?rq s = (Answer st b, s')" "is_success st"
      "d_tunnels_parse D b = Inr ts"
    using server_request_Inr [OF r(1)] by auto
  obtain ts' where l: "agent_list_tunnels L (call_of vi ?rq) s = (Inr ts', s')" "b = an_tunnels A ts'"
    using route_list [OF q(2,3)] by auto
  then have "ts' = ts" using q(4) assms(1) by (simp add: answers_agree_def)
  then show ?thesis using agent_list_Inr [OF l(1)] r(2) q(1) by auto
qed


lemma rows_core: "core s' = core s \<Longrightarrow> db_tunnels (s_db s') = db_tunnels (s_db s) \<and> s_config s' = s_config s \<and>
    s_listeners s' = s_listeners s"
  by (simp add: core_eq)

lemma devices_reconcile: "device_of_token L token (reconcile_listener k id t s) = device_of_token L token s"
  by (simp add: device_of_token_def)

section \<open>The commands over the server\<close>



lemma row_id:
  assumes "codecs_ok L" "stored L c r" "row_to_tunnel L r = Inr t"
  shows "tr_id r = l_uuid_text L (t_id t)" "t_enabled t = tr_enabled r"
  using stored_read(2) [OF assms] by (auto simp: tunnel_to_row_def)

text \<open>
  Deleting a tunnel, end to end. When the desktop's command succeeds, the server had the tunnel under the
  device that owns the desktop's token; exactly its row is gone, its listener is stopped, and the list the
  desktop then shows is the server's list of that device and does not have the tunnel.
\<close>

theorem delete_reaches_desktop:
  assumes "codecs_ok L" and "answers_agree D A" and "tunnels_ok L s" and "rs_config rt = Some c"
    and "remove_tunnel D L (server_net L A v (gc_server_url c)) ci i (rt, s) = (Inr u, (rt', s'))"
  shows "\<exists>token agent r t. load_token D L (gc_installation_id c) (rs_keychain rt) = Inr token \<and>
     device_of_token L token s = Some agent \<and> r \<in> set (db_tunnels (s_db s)) \<and> row_to_tunnel L r = Inr t \<and>
     t_id t = i \<and> t_agent_id t = agent \<and>
     db_tunnels (s_db s') = filter (\<lambda>r. tr_id r \<noteq> l_uuid_text L i) (db_tunnels (s_db s)) \<and>
     s_listeners s' = (s_listeners s)(i := None) \<and>
     shows_device L agent (rs_tunnels rt') s' \<and> (\<forall>t \<in> set (rs_tunnels rt'). t_id t \<noteq> i)"
proof -
  obtain token rt1 s1 rt2 where r: "load_token D L (gc_installation_id c) (rs_keychain rt) = Inr token"
    "request_json D (server_net L A v (gc_server_url c)) (gc_server_url c) token DELETE (tunnel_path L i) NoBody
       (\<lambda>b. Inr ()) (rt, s) = (Inr (), (rt1, s1))"
    "refresh_tunnels D L (server_net L A v (gc_server_url c)) (rt1, s1) = (Inr (), (rt2, s'))"
    "rs_tunnels rt' = rs_tunnels rt2"
    using assms(4,5)
    by (auto simp: remove_tunnel_def request_empty_def seq_eq_Inr credentials_Inr on_runtime_def act_simps log_event_def)
  let ?rq = "\<lparr>hr_method = DELETE, hr_url = gc_server_url c @ tunnel_path L i, hr_bearer = token, hr_body = NoBody\<rparr>"
  obtain st b where h: "rt1 = rt" "agent_routes L A (v ?rq s) (tunnel_path L i) ?rq s = (Answer st b, s1)" "is_success st"
    using server_request_Inr [OF r(2)] by auto
  have "agent_delete_tunnel L (call_of (v ?rq s) ?rq) i s = (Inr (), s1)"
    using route_delete [OF assms(1) h(2,3)] by simp
  then obtain agent s0 s2 where del: "untouched s s0" "device_of_token L token s = Some agent"
      "delete_tunnel L i (Some agent) s0 = (Inr (), s2)" "core s1 = core (stop_listener i s2)"
    by (rule agent_delete_Inr) simp
  note un = untouched_sel [OF del(1)]
  obtain t s3 where t: "get_tunnel L i s0 = (Inr t, s3)" "owner_check (Some agent) t = Inr ()"
    using del(3) by (auto simp: delete_tunnel_def seq_eq_Inr act_simps)
  obtain row where row: "find (\<lambda>r. tr_id r = l_uuid_text L i) (db_tunnels (s_db s0)) = Some row" "row_to_tunnel L row = Inr t"
    using t(1) by (rule get_tunnel_Inr)
  then have row_in: "row \<in> set (db_tunnels (s_db s))" "tr_id row = l_uuid_text L i"
    using un by (auto simp: find_Some_iff)
  have owned: "t_id t = i" "t_agent_id t = agent"
    using row(2) row_in(2) t(2) codecsD(1) [OF assms(1)]
    by (auto simp: row_to_tunnel_def andThen_eq_Inr owner_check_def)
  have s2: "db_tunnels (s_db s2) = filter (\<lambda>r. tr_id r \<noteq> l_uuid_text L i) (db_tunnels (s_db s))"
      "s_listeners s2 = s_listeners s" "s_config s2 = s_config s" "db_devices (s_db s2) = db_devices (s_db s)"
    using delete_tunnel_cases [OF del(3)] un rows_core [OF core_untouched [OF del(1)]] by auto
  have cfg: "rs_config rt1 = Some c" "load_token D L (gc_installation_id c) (rs_keychain rt1) = Inr token"
    using assms(4) r(1) h(1) by simp_all
  obtain agent' where ref: "core s' = core s1" "device_of_token L token s1 = Some agent'" "shows_device L agent' (rs_tunnels rt2) s'"
    using refresh_server [OF assms(2) cfg r(3)] by auto
  have "device_of_token L token s1 = device_of_token L token s"
    using device_of_token_core [OF del(4)] s2(4) by (simp add: device_of_token_def)
  then have agent: "agent' = agent" using ref(2) del(2) by simp
  have after: "db_tunnels (s_db s') = filter (\<lambda>r. tr_id r \<noteq> l_uuid_text L i) (db_tunnels (s_db s))"
      "s_listeners s' = (s_listeners s)(i := None)"
    using rows_core [OF ref(1)] rows_core [OF del(4)] s2 by simp_all
  have "t_id x \<noteq> i" if x: "x \<in> set (rs_tunnels rt2)" for x
  proof -
    obtain r' t' where m: "r' \<in> set (db_tunnels (s_db s'))" "row_to_tunnel L r' = Inr t'" "x = decorate_tunnel s' t'"
      using shows_member [OF ref(3) x] by blast
    then have "stored L (s_config s) r'" "tr_id r' \<noteq> l_uuid_text L i"
      using after(1) assms(3) by (auto simp: tunnels_ok_def)
    then show ?thesis using row_id(1) [OF assms(1) _ m(2)] m(3) by (auto simp: decorate_tunnel_def)
  qed
  then show ?thesis using r(1,4) del(2) row(2) row_in(1) owned after ref(3) agent by auto
qed

section \<open>Switching every tunnel\<close>

text \<open>\<open>pending\<close>: every tunnel of the device that is not in the wanted state is still on the list.\<close>

definition pending :: "lib \<Rightarrow> uuid \<Rightarrow> bool \<Rightarrow> tunnel list \<Rightarrow> app_state \<Rightarrow> bool" where
  "pending L agent enabled ts s \<longleftrightarrow>
     (\<forall>r \<in> set (db_tunnels (s_db s)). tr_agent_id r = l_uuid_text L agent \<longrightarrow> tr_enabled r \<noteq> enabled \<longrightarrow>
        (\<exists>t \<in> set ts. t_enabled t \<noteq> enabled \<and> tr_id r = l_uuid_text L (t_id t)))"

lemma pending_core: "core s' = core s \<Longrightarrow> pending L agent enabled ts s' = pending L agent enabled ts s"
  by (simp add: pending_def core_eq)

lemma pending_shown:
  assumes "codecs_ok L" "tunnels_ok L s" "shows_device L agent ts s"
  shows "pending L agent enabled ts s"
  unfolding pending_def
proof (intro ballI impI)
  fix r assume r: "r \<in> set (db_tunnels (s_db s))" "tr_agent_id r = l_uuid_text L agent" "tr_enabled r \<noteq> enabled"
  have st: "stored L (s_config s) r" using assms(2) r(1) by (simp add: tunnels_ok_def)
  obtain t where t: "row_to_tunnel L r = Inr t" using stored_readable [OF assms(1) st] by blast
  have "decorate_tunnel s t \<in> set ts" using assms(3) r(1,2) t by (rule shows_row)
  then show "\<exists>t \<in> set ts. t_enabled t \<noteq> enabled \<and> tr_id r = l_uuid_text L (t_id t)"
    using row_id [OF assms(1) st t] r(3) by (intro bexI [of _ "decorate_tunnel s t"]) (simp_all add: decorate_tunnel_def)
qed

lemma enabled_update:
  assumes "apply_update c (default_update_request\<lparr>ur_enabled := Some enabled\<rparr>) t = Inr t'"
  shows "t_enabled t' = enabled"
  by (subst apply_update_Inr(1) [OF assms]) (simp add: updated_def default_update_request_def unwrap_or_def)

lemma agent_switch:
  assumes "codecs_ok L" "server_inv L s" "time_text_ok L (sv_utc vi)"
    and "agent_update_tunnel L (call_of vi rq) k id (t_id t) (default_update_request\<lparr>ur_enabled := Some enabled\<rparr>) s = (Inr t', s')"
    and "pending L agent enabled (t # ts) s"
  shows "server_inv L s' \<and> pending L agent enabled ts s' \<and> device_of_token L token s' = device_of_token L token s"
proof -
  obtain a t0 s0 s1 where u: "untouched s s0" "update L (sv_utc vi) (t_id t) (Some a)
        (default_update_request\<lparr>ur_enabled := Some enabled\<rparr>) s0 = (Inr t0, s1)"
      "core s' = core (reconcile_listener k id t0 s1)"
    using assms(4) by (rule agent_update_Inr)
  note un = untouched_sel [OF u(1)]
  have "tunnels_ok L s" using assms(1,2) by (simp add: server_inv_def)
  then have "tunnels_ok L s0" using un by (simp add: tunnels_ok_def)
  then have i: "t_id t0 = t_id t" using assms(1) u(2) by (rule update_result_ok(2))
  obtain t1 t2 fs where w: "apply_update (s_config s0) (default_update_request\<lparr>ur_enabled := Some enabled\<rparr>) t1 = Inr t2"
      "t0 = t2\<lparr>t_updated_at := sv_utc vi\<rparr>"
      "s1 = s0\<lparr>s_db := (s_db s0)\<lparr>db_faults := fs,
         db_tunnels := update_row (l_uuid_text L (t_id t0)) (assign_row L t0) (db_tunnels (s_db s0))\<rparr>\<rparr>"
    using u(2) by (rule update_Inr)
  have on: "t_enabled t0 = enabled" using enabled_update [OF w(1)] w(2) by simp
  have rows: "db_tunnels (s_db s') = update_row (l_uuid_text L (t_id t)) (assign_row L t0) (db_tunnels (s_db s))"
    using rows_core [OF u(3)] w(3) un i by simp
  have "cl_utc (call_of vi rq) = sv_utc vi" by (simp add: call_of_def)
  then have "server_inv L s'"
    using keeps_snd [OF inv_tunnel_handlers(4) assms(2)] assms(3,4) by (metis snd_conv)
  moreover have "pending L agent enabled ts s'"
    using assms(5) on by (auto simp: pending_def rows update_row_def assign_row_def split: if_splits)
  moreover have "device_of_token L token s' = device_of_token L token s"
    using device_of_token_core [OF u(3)] w(3) un by (simp add: devices_reconcile device_of_token_def)
  ultimately show ?thesis by blast
qed

lemma set_each_switches:
  assumes "codecs_ok L" "\<forall>rq x. time_text_ok L (sv_utc (v rq x))" "rs_config rt = Some c"
  shows "server_inv L s \<Longrightarrow> pending L agent enabled ts s \<Longrightarrow>
     set_each D L (server_net L A v (gc_server_url c)) enabled ts (rt, s) = (Inr u, (rt', s')) \<Longrightarrow>
     rt' = rt \<and> server_inv L s' \<and> pending L agent enabled [] s' \<and> device_of_token L token s' = device_of_token L token s"
proof (induction ts arbitrary: s)
  case Nil
  then show ?case by (auto simp: act_simps)
next
  case (Cons t ts)
  show ?case
  proof (cases "t_enabled t = enabled")
    case True
    then have "pending L agent enabled ts s" using Cons.prems(2) by (auto simp: pending_def)
    then show ?thesis using Cons.IH [OF Cons.prems(1)] Cons.prems(3) True by (simp add: set_one_def seq_def act_simps)
  next
    case False
    then obtain token' t' rt1 s1 where h:
      "request_json D (server_net L A v (gc_server_url c)) (gc_server_url c) token' PATCH (tunnel_path L (t_id t))
         (UpdateBody (default_update_request\<lparr>ur_enabled := Some enabled\<rparr>)) (d_tunnel_parse D) (rt, s) = (Inr t', (rt1, s1))"
      "set_each D L (server_net L A v (gc_server_url c)) enabled ts (rt1, s1) = (Inr u, (rt', s'))"
      using Cons.prems(3) assms(3) by (auto simp: set_one_def seq_eq_Inr credentials_Inr act_simps)
    let ?rq = "\<lparr>hr_method = PATCH, hr_url = gc_server_url c @ tunnel_path L (t_id t), hr_bearer = token',
        hr_body = UpdateBody (default_update_request\<lparr>ur_enabled := Some enabled\<rparr>)\<rparr>"
    obtain st b where r: "rt1 = rt" "agent_routes L A (v ?rq s) (tunnel_path L (t_id t)) ?rq s = (Answer st b, s1)" "is_success st"
      using server_request_Inr [OF h(1)] by auto
    obtain t2 where "agent_update_tunnel L (call_of (v ?rq s) ?rq) (sv_listener (v ?rq s)) id (t_id t)
        (default_update_request\<lparr>ur_enabled := Some enabled\<rparr>) s = (Inr t2, s1)"
      using route_update [OF assms(1) r(2,3)] by auto
    from agent_switch [OF assms(1) Cons.prems(1) _ this Cons.prems(2)] assms(2)
    have "server_inv L s1" "pending L agent enabled ts s1" "device_of_token L token s1 = device_of_token L token s" by auto
    then show ?thesis using Cons.IH h(2) r(1) by simp
  qed
qed



section \<open>A sample server\<close>

text \<open>Tunnels are countable, so there is a codec for them.\<close>

instance word :: (len) countable
  by (rule countable_classI [of "\<lambda>w. to_nat (uint w)"]) (simp add: word_uint_eq_iff)

instance tunnel_kind :: countable by countable_datatype
instance local_scheme :: countable by countable_datatype
instance access_mode :: countable by countable_datatype
instance tunnel_status :: countable by countable_datatype
instance ipnet :: countable by countable_datatype

instance tunnel_ext :: (countable) countable
  by (rule countable_classI [of "\<lambda>t. to_nat
      ((t_id t, t_agent_id t, t_name t, t_local_host t, t_local_port t, t_kind t, t_local_scheme t, t_remote_port t),
       (t_hostname t, t_access_mode t, t_allowed_cidrs t, t_enabled t, t_status t, t_created_at t, t_updated_at t),
       tunnel.more t)"]) (auto intro: tunnel.equality)

definition sample_answers :: answer_codec where
  "sample_answers =
     \<lparr>an_tunnel = (\<lambda>t. replicate (to_nat t) 0), an_tunnels = (\<lambda>ts. replicate (to_nat ts) 0),
      an_enrollment = (\<lambda>_. []), an_error = (\<lambda>_. [])\<rparr>"

definition sample_client :: "(ustr \<times> ustr, ustr \<rightharpoonup> ustr) dlib" where
  "sample_client = sample_dlib\<lparr>d_tunnel_parse := (\<lambda>b. Inr (from_nat (length b))),
     d_tunnels_parse := (\<lambda>b. Inr (from_nat (length b)))\<rparr>"

lemma sample_agree: "answers_agree sample_client sample_answers"
  by (simp add: answers_agree_def sample_client_def sample_answers_def)


definition sample_server_input :: "http_request \<Rightarrow> app_state \<Rightarrow> server_input" where
  "sample_server_input rq s =
     \<lparr>sv_now = 0, sv_utc = 0, sv_audit_utc = 0, sv_tunnel_id = 1, sv_listener = 9, sv_identity = None,
      sv_base64 = (\<lambda>_. [])\<rparr>"

definition sample_desktop :: "(ustr \<rightharpoonup> ustr) runtime" where
  "sample_desktop = fresh_runtime\<lparr>rs_config := Some (sample_agent_config MAuto), rs_keychain := [[7] \<mapsto> lit ''token'']\<rparr>"

lemma sample_desktop_sel:
  "rs_config sample_desktop = Some (sample_agent_config MAuto)" "rs_keychain sample_desktop = [[7] \<mapsto> lit ''token'']"
  by (simp_all add: sample_desktop_def)

lemma sample_credentials:
  "load_token sample_client sample_lib (gc_installation_id (sample_agent_config MAuto)) [[7] \<mapsto> lit ''token''] = Inr (lit ''token'')"
  by (simp add: load_token_def sample_client_def sample_dlib_def sample_lib_def sample_agent_config_def)

text \<open>A server with the one sample device, no fault ahead and no agent connected.\<close>

definition quiet :: "app_state \<Rightarrow> bool" where
  "quiet s \<longleftrightarrow> db_devices (s_db s) = [sample_device] \<and> db_faults (s_db s) = [] \<and> s_agents s = Map.empty"

lemma quiet_select: "quiet s \<Longrightarrow> db_do (select f) s = (Inr (f (s_db s)), s)"
  by (simp add: quiet_def db_do_def on_db_def select_def stmt_def map_err_def)

lemma quiet_device:
  "quiet s \<Longrightarrow> hr_bearer rq = lit ''token'' \<Longrightarrow>
     require_device sample_lib (cl_headers (call_of v rq)) s = (Inr \<lparr>di_id = 7, di_name = lit ''laptop''\<rparr>, s)"
proof -
  assume q: "quiet s" and b: "hr_bearer rq = lit ''token''"
  have h: "header_str (cl_headers (call_of v rq)) ''authorization'' = Some (lit ''Bearer '' @ lit ''token'')"
    by (simp add: call_of_def header_str_def header_get_def b)
  have t: "hash_token sample_lib (lit ''token'') = lit ''token''"
    by (simp add: hash_token_def sample_lib_def as_bytes_def lit_def utf8.simps)
  show ?thesis using q
    by (simp add: require_device_def h seq_def act_simps device_by_token_def quiet_select t)
      (simp add: quiet_def sample_device_def sample_lib_def seq_def act_simps)
qed

lemma quiet_list: "quiet s \<Longrightarrow> list_for_agent L a s = (collect (map (row_to_tunnel L) (device_rows L a s)), s)"
  by (simp add: list_for_agent_def seq_def quiet_select act_simps device_rows_def)

lemma quiet_sync: "quiet s \<Longrightarrow> sync_agent L a s = s"
  by (simp add: sync_agent_def quiet_list split: sum.splits) (simp add: quiet_def)

lemma quiet_reconcile: "quiet s \<Longrightarrow> quiet (reconcile_listener k id t s)"
  by (simp add: quiet_def) (simp add: reconcile_listener_def start_listener_def Let_def)

lemma quiet_audit:
  "quiet s \<Longrightarrow> \<exists>s'. audit L c a b e s = (Inr (), s') \<and> quiet s' \<and> core s' = core s"
  by (simp add: audit_def db_do_def on_db_def insert_audit_def stmt_def map_err_def quiet_def core_eq)

lemma collect_readable: "\<forall>r \<in> set rs. \<exists>t. f r = Inr t \<Longrightarrow> \<exists>ts. collect (map f rs) = Inr ts"
  by (induction rs) (auto simp: andThen_eq_Inr)

lemma server_request_run:
  assumes "agent_routes L A (v \<lparr>hr_method = m, hr_url = base @ path, hr_bearer = token, hr_body = body\<rparr> s) path
      \<lparr>hr_method = m, hr_url = base @ path, hr_bearer = token, hr_body = body\<rparr> s = (Answer st b, s')"
  shows "request_json D (server_net L A v base) base token m path body parse (rt, s) =
     (if is_success st then parse b else Inl (response_error D st b), (rt, s'))"
  using assms by (simp add: request_json_def server_net_def)

lemma quiet_refresh:
  assumes "quiet s" "tunnels_ok sample_lib s" "rs_config rt = Some (sample_agent_config MAuto)"
    "rs_keychain rt = [[7] \<mapsto> lit ''token'']"
  shows "\<exists>rt'. refresh_tunnels sample_client sample_lib (server_net sample_lib sample_answers sample_server_input
    (gc_server_url (sample_agent_config MAuto))) (rt, s) = (Inr (), (rt', s))"
proof -
  let ?rq = "\<lparr>hr_method = GET, hr_url = gc_server_url (sample_agent_config MAuto) @ tunnels_path,
      hr_bearer = lit ''token'', hr_body = NoBody\<rparr>"
  have "\<forall>r \<in> set (device_rows sample_lib 7 s). \<exists>t. row_to_tunnel sample_lib r = Inr t"
    using assms(2) stored_readable [OF sample_codecs] by (auto simp: device_rows_def tunnels_ok_def)
  then obtain stored where "collect (map (row_to_tunnel sample_lib) (device_rows sample_lib 7 s)) = Inr stored"
    by (metis collect_readable)
  then have "agent_list_tunnels sample_lib (call_of (sample_server_input ?rq s) ?rq) s = (Inr (decorate_tunnels s stored), s)"
    using quiet_device [OF assms(1), of ?rq] quiet_list [OF assms(1)]
    by (simp add: agent_list_tunnels_def seq_def act_simps)
  then have "agent_routes sample_lib sample_answers (sample_server_input ?rq s) tunnels_path ?rq s =
      (Answer 200 (an_tunnels sample_answers (decorate_tunnels s stored)), s)"
    by (simp add: agent_routes_def tunnels_path_def answer_def)
  from server_request_run [where v = sample_server_input and D = sample_client and rt = rt
      and parse = "d_tunnels_parse sample_client", OF this] sample_agree assms(3) sample_credentials
  show ?thesis
    by (auto simp: refresh_tunnels_def seq_def credentials_def act_simps assms(3,4) is_success_def answers_agree_def on_runtime_def)
qed


lemma sample_call_utc: "cl_utc (call_of (sample_server_input rq s) rq') = 0"
  by (simp add: call_of_def sample_server_input_def)

lemma sample_quiet: "quiet sample_state" "quiet sample_busy"
  by (simp_all add: quiet_def sample_busy_def sample_database_def)



lemma quiet_stop: "quiet s \<Longrightarrow> quiet (stop_listener i s)"
  by (simp add: quiet_def)

theorem delete_reaches_desktop_witness:
  "\<exists>rt' s'. remove_tunnel sample_client sample_lib (server_net sample_lib sample_answers sample_server_input
       (lit ''https://tb.io'')) (sample_command None) 1 (sample_desktop, sample_busy) = (Inr (), (rt', s')) \<and>
     db_tunnels (s_db s') = [] \<and> (\<forall>t \<in> set (rs_tunnels rt'). t_id t \<noteq> 1)"
proof -
  let ?u = "gc_server_url (sample_agent_config MAuto)"
  have u: "?u = lit ''https://tb.io''" by (simp add: sample_agent_config_def)
  let ?rq = "\<lparr>hr_method = DELETE, hr_url = ?u @ tunnel_path sample_lib 1, hr_bearer = lit ''token'', hr_body = NoBody\<rparr>"
  have "owner_check (Some 7) (stored_status sample_tunnel) = Inr ()"
    by (simp add: owner_check_def sample_tunnel_def)
  then obtain s1 where del: "delete_tunnel sample_lib 1 (Some 7) sample_busy = (Inr (), s1)" "quiet s1"
    by (simp add: delete_tunnel_def seq_def act_simps sample_busy_get)
      (simp add: db_do_def on_db_def map_err_def delete_tunnel_rows_def stmt_def sample_busy_def sample_database_def quiet_def)
  have ok1: "tunnels_ok sample_lib s1" using sample_busy_ok(1) del(1) by (rule delete_keeps_tunnels)
  obtain s3 where a: "audit sample_lib (call_of (sample_server_input ?rq sample_busy) ?rq) ''tunnel.delete''
      (l_uuid_text sample_lib 1) (lit ''deleted by device '' @ lit ''laptop'') (stop_listener 1 s1) = (Inr (), s3)"
      "quiet s3" "core s3 = core (stop_listener 1 s1)"
    using quiet_audit [OF quiet_stop [OF del(2)]] by blast
  have "agent_delete_tunnel sample_lib (call_of (sample_server_input ?rq sample_busy) ?rq) 1 sample_busy = (Inr (), s3)"
    using quiet_device [OF sample_quiet(2), of ?rq] del(1) a(1) quiet_sync [OF quiet_stop [OF del(2)]]
    by (simp add: agent_delete_tunnel_def seq_def act_simps)
  then have "agent_routes sample_lib sample_answers (sample_server_input ?rq sample_busy) (tunnel_path sample_lib 1) ?rq sample_busy =
      (Answer 204 [], s3)"
    by (simp add: agent_routes_def paths_differ strip_tunnel_path codecsD(1) [OF sample_codecs] answer_def)
  note sent = server_request_run [where v = sample_server_input and D = sample_client and rt = sample_desktop
      and parse = "\<lambda>b. Inr ()", OF this]
  have ok3: "tunnels_ok sample_lib s3" using ok1 rows_core [OF a(3)] by (simp add: tunnels_ok_def)
  obtain rt' where ref: "refresh_tunnels sample_client sample_lib (server_net sample_lib sample_answers sample_server_input ?u)
      (sample_desktop, s3) = (Inr (), (rt', s3))"
    using quiet_refresh [OF a(2) ok3 sample_desktop_sel] by blast
  obtain rt2 s2 where run: "remove_tunnel sample_client sample_lib (server_net sample_lib sample_answers sample_server_input ?u)
      (sample_command None) 1 (sample_desktop, sample_busy) = (Inr (), (rt2, s2))"
    using sent ref sample_credentials
    by (auto simp: remove_tunnel_def request_empty_def credentials_def seq_def act_simps sample_desktop_sel is_success_def
        on_runtime_def)
  from delete_reaches_desktop [OF sample_codecs sample_agree sample_busy_ok(1) sample_desktop_sel(1) run]
  have "db_tunnels (s_db s2) = [] \<and> (\<forall>t \<in> set (rs_tunnels rt2). t_id t \<noteq> 1)"
    by (auto simp: sample_busy_def tunnel_to_row_def sample_tunnel_def)
  then show ?thesis using run u by auto
qed

definition switch_off :: update_tunnel_request where
  "switch_off = default_update_request\<lparr>ur_enabled := Some False\<rparr>"

lemma sample_switched:
  "\<exists>t s1. update sample_lib 0 1 (Some 7) switch_off sample_busy = (Inr t, s1) \<and> quiet s1"
proof -
  let ?t = "(stored_status sample_tunnel)\<lparr>t_enabled := False\<rparr>"
  have "validate_tunnel ?t = Inr ()"
    using sample_tunnel_ok by (auto simp: validate_tunnel_ok tunnel_ok_def stored_status_def sample_tunnel_def
        new_tunnel_def sample_request_def)
  then have a: "apply_update sample_config switch_off (stored_status sample_tunnel) = Inr ?t"
    by (simp add: apply_update_def switch_off_def default_update_request_def if_let_def set_options_def)
  have o: "owner_check (Some 7) (stored_status sample_tunnel) = Inr ()"
    by (simp add: owner_check_def sample_tunnel_def)
  have w: "\<exists>s1. on_db (update_tunnel_row (l_uuid_text sample_lib 1) (assign_row sample_lib (?t\<lparr>t_updated_at := 0\<rparr>))) sample_busy =
      (Inr (), s1) \<and> quiet s1"
    by (simp add: on_db_def update_tunnel_row_def sample_busy_def sample_database_def update_row_def
        tunnels_check_def assign_row_def tunnel_to_row_def sample_tunnel_def new_tunnel_def sample_request_def
        stored_status_def kind_str_def scheme_str_def quiet_def)
  have "t_id sample_tunnel = 1" "s_config sample_busy = sample_config" by (simp_all add: sample_tunnel_def sample_busy_def)
  then show ?thesis using w
    by (auto simp: update_def seq_def act_simps sample_busy_get o a Let_def map_err_def)
qed


lemma sample_busy_shown:
  "shows_device sample_lib 7 (decorate_tunnels sample_busy [stored_status sample_tunnel]) sample_busy"
proof -
  have "device_rows sample_lib 7 sample_busy = [tunnel_to_row sample_lib sample_tunnel]"
    by (simp add: device_rows_def sample_busy_def tunnel_to_row_def sample_tunnel_def)
  then show ?thesis unfolding shows_device_def
    by (intro exI [of _ "[stored_status sample_tunnel]"]) (simp add: sample_busy_read(2))
qed

lemma sample_busy_device: "device_of_token sample_lib (lit ''token'') sample_busy = Some 7"
  by (simp add: device_of_token_def hash_token_def sample_lib_def as_bytes_def lit_def utf8.simps sample_busy_def
      sample_database_def sample_device_def)


end
