(* ===== verification/Direct_Server.thy ===== *)
theory Direct_Server
  imports Carrier
begin

text \<open>
  A direct carrier on the server from the first byte to the last: \<open>accept\<close> in server/src/quic.rs and
  \<open>run_stream\<close> in server/src/kcp.rs. The input is all bytes of the stream up to its end or failure; what other
  tasks do while the reader waits for a record is part of the environment.
\<close>

section \<open>The reader\<close>

text \<open>
  \<open>de_cancel k\<close> tells that \<open>select!\<close> takes the cancelled branch, once the token is cancelled, in round \<open>k\<close>;
  \<open>de_others k\<close> is what other tasks do before that round, \<open>de_wait k\<close> what they do, step by step, while the
  frame of that round waits for room in the channel of its stream.
\<close>

record direct_env =
  de_session :: uuid
  de_token :: nat
  de_utc :: utc
  de_now :: "nat \<Rightarrow> instant"
  de_cancel :: "nat \<Rightarrow> bool"
  de_others :: "nat \<Rightarrow> app_state \<Rightarrow> app_state"
  de_wait :: "nat \<Rightarrow> (app_state \<Rightarrow> app_state) list"

text \<open>The record is handled as soon as there is room; \<open>Inl\<close>: there is none at the end of the steps given.\<close>

fun await_room ::
  "lib \<Rightarrow> instant \<Rightarrow> uuid \<Rightarrow> uuid \<Rightarrow> u8 \<times> bytes \<Rightarrow> (app_state \<Rightarrow> app_state) list \<Rightarrow> app_state \<Rightarrow> app_state + app_state" where
  "await_room L now agent sid r [] s = (case direct_record L now agent sid r s of None \<Rightarrow> Inl s | Some s' \<Rightarrow> Inr s')"
| "await_room L now agent sid r (w # ws) s =
     (case direct_record L now agent sid r s of
        None \<Rightarrow> await_room L now agent sid r ws (w s)
      | Some s' \<Rightarrow> Inr s')"

text \<open>The loop is left, or it still waits for room when the steps of the others are used up.\<close>

datatype loop_end = LoopLeft | LoopHeld

function direct_loop ::
  "lib \<Rightarrow> direct_env \<Rightarrow> uuid \<Rightarrow> nat \<Rightarrow> bytes \<Rightarrow> app_state \<Rightarrow> loop_end \<times> app_state" where
  "direct_loop L env agent k inp s0 =
     (let s = de_others env k s0 in
      if de_cancel env k \<and> de_token env \<in> s_cancelled s then (LoopLeft, s)
      else case read_record be_get_u32 MAX_RECORD inp of
        Inl e \<Rightarrow> (LoopLeft, s)
      | Inr (record, rest) \<Rightarrow>
          (case await_room L (de_now env k) agent (de_session env) record (de_wait env k) s of
             Inl s' \<Rightarrow> (LoopHeld, s')
           | Inr s' \<Rightarrow> direct_loop L env agent (Suc k) rest s'))"
  by pat_completeness auto
termination
  by (relation "measure (\<lambda>(L, env, agent, k, inp, s). length inp)") (auto dest: read_record_shorter)

declare direct_loop.simps [simp del]

section \<open>The whole session\<close>

datatype session_end = Unread read_error | Refused handshake_error | Held device_identity | Closed device_identity

definition direct_session ::
  "lib \<Rightarrow> active_transport \<Rightarrow> direct_env \<Rightarrow> bytes \<Rightarrow> app_state \<Rightarrow> session_end \<times> app_state" where
  "direct_session L tr env inp s =
     (case read_record be_get_u32 MAX_RECORD inp of
        Inl e \<Rightarrow> (Unread e, s)
      | Inr (record, rest) \<Rightarrow>
          (case handshake L record s of
             (Inl e, s1) \<Rightarrow> (Refused e, s1)
           | (Inr identity, s1) \<Rightarrow>
               let i = di_id identity in
               (case direct_loop L env i 0 rest (open_direct L tr i (de_session env) (de_token env) (de_utc env) s1) of
                  (LoopHeld, s2) \<Rightarrow> (Held identity, s2)
                | (LoopLeft, s2) \<Rightarrow> (Closed identity, close_carrier tr i (de_session env) s2))))"

definition quic_accept :: "lib \<Rightarrow> direct_env \<Rightarrow> bytes \<Rightarrow> app_state \<Rightarrow> session_end \<times> app_state" where
  "quic_accept L = direct_session L TQuic"

definition kcp_run_stream :: "lib \<Rightarrow> direct_env \<Rightarrow> bytes \<Rightarrow> app_state \<Rightarrow> session_end \<times> app_state" where
  "kcp_run_stream L = direct_session L TKcp"

text \<open>
  One round of the writer task: \<open>select!\<close> takes a control message or a frame, whichever is there;
  \<open>datagram_sent\<close> is the outcome of \<open>send_datagram\<close>. \<open>None\<close>: nothing to write.
\<close>

definition direct_writer ::
  "lib \<Rightarrow> active_transport \<Rightarrow> uuid \<Rightarrow> bool \<Rightarrow> bool \<Rightarrow> app_state \<Rightarrow> (wire \<times> app_state) option" where
  "direct_writer L tr sid control datagram_sent s =
     (if control
      then map_option (\<lambda>(m, s'). (control_wire L tr m, s')) (take_control L sid s)
      else map_option (\<lambda>(f, s'). (frame_wire tr datagram_sent f, s')) (take_frame sid s))"

section \<open>What a session executes\<close>

text \<open>The session on records instead of bytes.\<close>

fun handle_records ::
  "lib \<Rightarrow> direct_env \<Rightarrow> uuid \<Rightarrow> nat \<Rightarrow> (u8 \<times> bytes) list \<Rightarrow> app_state \<Rightarrow> loop_end \<times> app_state" where
  "handle_records L env agent k [] s0 = (LoopLeft, de_others env k s0)"
| "handle_records L env agent k (r # rs) s0 =
     (let s = de_others env k s0 in
      if de_cancel env k \<and> de_token env \<in> s_cancelled s then (LoopLeft, s)
      else case await_room L (de_now env k) agent (de_session env) r (de_wait env k) s of
             Inl s' \<Rightarrow> (LoopHeld, s')
           | Inr s' \<Rightarrow> handle_records L env agent (Suc k) rs s')"

lemma loop_handles:
  "direct_loop L env agent k inp s = handle_records L env agent k (fst (read_all be_get_u32 MAX_RECORD inp)) s"
proof (induction L env agent k inp s rule: direct_loop.induct)
  case (1 L env agent k inp s0)
  show ?case
  proof (cases "read_record be_get_u32 MAX_RECORD inp")
    case (Inl e)
    then show ?thesis by (simp add: direct_loop.simps [of L env agent k inp] read_all.simps [of _ _ inp] Let_def)
  next
    case (Inr x)
    obtain r rest where x: "x = (r, rest)" by (cases x)
    have "fst (read_all be_get_u32 MAX_RECORD inp) = r # fst (read_all be_get_u32 MAX_RECORD rest)"
      using Inr x by (simp add: read_all.simps [of _ _ inp] split: prod.splits)
    then show ?thesis using 1 [OF refl _ Inr [unfolded x] refl] Inr x
      by (simp add: direct_loop.simps [of L env agent k inp] Let_def split: sum.splits)
  qed
qed


text \<open>
  C17. A direct carrier executes what its peer wrote. If the peer writes records of at most \<open>MAX_RECORD\<close> bytes and
  the stream ends or breaks after any number of bytes, the server executes the records that are there as a
  whole, each once and in order, and nothing of the one that was cut: the session is the one on
  those records. This holds whatever other tasks do in between and whenever the session is cancelled.
\<close>

theorem direct_loop_executes:
  assumes "\<forall>(kind, p) \<in> set rs. length p \<le> MAX_RECORD"
  shows "\<exists>m \<le> length rs.
     direct_loop L env agent k (take n (stream_of be_put_u32 rs)) s = handle_records L env agent k (take m rs) s \<and>
     length (stream_of be_put_u32 (take m rs)) \<le> n \<and>
     (m < length rs \<longrightarrow> n < length (stream_of be_put_u32 (take (Suc m) rs)))"
proof -
  obtain m where m: "m \<le> length rs"
    "read_all be_get_u32 MAX_RECORD (take n (stream_of be_put_u32 rs)) = (take m rs, UnexpectedEof)"
    "length (stream_of be_put_u32 (take m rs)) \<le> n"
    "m < length rs \<longrightarrow> n < length (stream_of be_put_u32 (take (Suc m) rs))"
    using be.read_all_prefix [OF MAX_RECORD_small assms, of n] by auto
  then show ?thesis by (intro exI [of _ m]) (simp add: loop_handles)
qed

text \<open>A session with the environment at rest; the sample registers device 7 under session 3.\<close>

definition sample_direct :: direct_env where
  "sample_direct =
     \<lparr>de_session = 3, de_token = 0, de_utc = 0, de_now = (\<lambda>_. 0), de_cancel = (\<lambda>_. False), de_others = (\<lambda>_. id), de_wait = (\<lambda>_. [])\<rparr>"

theorem direct_loop_executes_witness:
  "direct_loop sample_lib sample_direct 7 0 (take 9 (stream_of be_put_u32 [(1, [4, 5]), (1, [6])])) sample_state =
     handle_records sample_lib sample_direct 7 0 [(1, [4, 5])] sample_state"
proof -
  let ?rs = "[(1, [4, 5]), (1, [6])] :: (u8 \<times> bytes) list"
  have "\<forall>(kind, p) \<in> set ?rs. length p \<le> MAX_RECORD" "length ?rs = 2" by (simp_all add: MAX_RECORD_def)
  with direct_loop_executes [of ?rs sample_lib sample_direct 7 0 9 sample_state]
  obtain m where m: "m \<le> 2"
    "direct_loop sample_lib sample_direct 7 0 (take 9 (stream_of be_put_u32 ?rs)) sample_state =
       handle_records sample_lib sample_direct 7 0 (take m ?rs) sample_state"
    "length (stream_of be_put_u32 (take m ?rs)) \<le> 9"
    "m < 2 \<longrightarrow> 9 < length (stream_of be_put_u32 (take (Suc m) ?rs))"
    by metis
  have "m \<noteq> 0" using m(4) by (intro notI) (simp add: be.length_write_record)
  moreover have "m \<noteq> 2" using m(3) by (intro notI) (simp add: be.length_write_record)
  ultimately have "m = 1" using m(1) by linarith
  then show ?thesis using m(2) by (simp del: handle_records.simps stream_of_simps)
qed

section \<open>The end of a cancelled session\<close>

lemma handle_records_cut:
  assumes "de_cancel env (j + n)" and "\<And>s. de_token env \<in> s_cancelled (de_others env (j + n) s)"
  shows "handle_records L env agent j rs s = handle_records L env agent j (take n rs) s"
  using assms
proof (induction n arbitrary: j rs s)
  case 0
  then show ?case by (cases rs) (simp_all add: Let_def)
next
  case (Suc n)
  have next_round: "de_cancel env (Suc j + n)" "\<And>s. de_token env \<in> s_cancelled (de_others env (Suc j + n) s)"
    using Suc.prems by simp_all
  show ?case using Suc.IH [OF next_round] by (cases rs) (simp_all add: Let_def split: sum.splits)
qed

lemma handle_records_held:
  "handle_records L env agent j rs s = (LoopHeld, s') \<Longrightarrow>
     \<exists>i < length rs. \<exists>s0. await_room L (de_now env (j + i)) agent (de_session env) (rs ! i) (de_wait env (j + i)) s0 = Inl s'"
proof (induction rs arbitrary: j s)
  case (Cons r rs)
  let ?s = "de_others env j s"
  have go: "\<not> (de_cancel env j \<and> de_token env \<in> s_cancelled ?s)" using Cons.prems by (auto simp: Let_def)
  show ?case
  proof (cases "await_room L (de_now env j) agent (de_session env) r (de_wait env j) ?s")
    case (Inl s1)
    then show ?thesis using Cons.prems go by (intro exI [of _ 0] conjI exI [of _ ?s]) (simp_all add: Let_def)
  next
    case (Inr s1)
    then have "handle_records L env agent (Suc j) rs s1 = (LoopHeld, s')" using Cons.prems go by (simp add: Let_def)
    from Cons.IH [OF this] obtain i s0 where "i < length rs"
        "await_room L (de_now env (Suc j + i)) agent (de_session env) (rs ! i) (de_wait env (Suc j + i)) s0 = Inl s'"
      by blast
    then show ?thesis by (intro exI [of _ "Suc i"] conjI exI [of _ s0]) simp_all
  qed
qed simp


text \<open>The session of a revoked device: its token is cancelled before the second record.\<close>

definition revoked_direct :: direct_env where
  "revoked_direct = sample_direct\<lparr>de_cancel := (\<lambda>k. k = 1), de_others := (\<lambda>k s. s\<lparr>s_cancelled := insert 0 (s_cancelled s)\<rparr>)\<rparr>"


section \<open>What a session leaves behind\<close>

text \<open>Other tasks that leave the registry of agents and the gauges alone.\<close>

definition quiet_env :: "direct_env \<Rightarrow> bool" where
  "quiet_env env \<longleftrightarrow>
     (\<forall>k s. carrier_same s (de_others env k s)) \<and> (\<forall>k. \<forall>w \<in> set (de_wait env k). \<forall>s. carrier_same s (w s))"

lemma direct_record_same:
  "direct_record L now agent sid record s = Some s' \<Longrightarrow> carrier_same s s'"
  using message_same(1) route_same by (auto simp: direct_record_def split: if_splits option.splits)

lemma await_room_same:
  "\<forall>w \<in> set ws. \<forall>s. carrier_same s (w s) \<Longrightarrow> carrier_same s (case_sum id id (await_room L now agent sid r ws s))"
proof (induction ws arbitrary: s)
  case Nil
  then show ?case by (auto dest: direct_record_same split: option.splits)
next
  case (Cons w ws)
  then have "carrier_same s (case_sum id id (await_room L now agent sid r ws (w s)))"
    using carrier_same_trans [of s "w s"] by simp
  then show ?case by (auto dest: direct_record_same split: option.splits)
qed

lemma handle_records_same:
  "quiet_env env \<Longrightarrow> handle_records L env agent k rs s = (e, s') \<Longrightarrow> carrier_same s s'"
proof (induction rs arbitrary: k s)
  case Nil
  then show ?case by (auto simp: quiet_env_def)
next
  case (Cons r rs)
  let ?s = "de_others env k s"
  have q: "carrier_same s ?s" using Cons.prems(1) by (simp add: quiet_env_def)
  have waited: "carrier_same ?s (case_sum id id (await_room L (de_now env k) agent (de_session env) r (de_wait env k) ?s))"
    using Cons.prems(1) by (intro await_room_same) (simp add: quiet_env_def)
  show ?case
  proof (cases "de_cancel env k \<and> de_token env \<in> s_cancelled ?s")
    case True
    then show ?thesis using Cons.prems(2) q by simp
  next
    case False
    show ?thesis
    proof (cases "await_room L (de_now env k) agent (de_session env) r (de_wait env k) ?s")
      case (Inl s1)
      then have "s' = s1" using Cons.prems(2) False by (simp add: Let_def)
      moreover have "carrier_same ?s s1" using waited Inl by simp
      ultimately show ?thesis using q carrier_same_trans by blast
    next
      case (Inr s1)
      then have "carrier_same s1 s'" using Cons.IH [OF Cons.prems(1)] Cons.prems(2) False by (simp add: Let_def)
      moreover have "carrier_same ?s s1" using waited Inr by simp
      ultimately show ?thesis using q carrier_same_trans by blast
    qed
  qed
qed

lemma close_leaves:
  "s_ctl (close_carrier tr agent sid s) sid = None" "s_bin (close_carrier tr agent sid s) sid = None"
  "s_agents (close_carrier tr agent sid s) agent = Some p \<Longrightarrow> ap_session_id p \<noteq> sid"
  by (auto simp: close_carrier_def unregister_agent_def drop_channels_def close_carrier_effect split: option.splits if_splits)

lemma close_restores:
  assumes "carrier_same s1 s2" and "s_agents s1 = (s_agents s)(agent \<mapsto> \<lparr>ap_session_id = sid, ap_transport = tr, ap_cancellation = k\<rparr>)"
    and "\<And>t. gauge t (s_counters s1) = gauge t (s_counters s) + (if t = tr then 1 else 0)"
  shows "s_agents (close_carrier tr agent sid s2) = (s_agents s)(agent := None) \<and>
     (\<forall>t. gauge t (s_counters (close_carrier tr agent sid s2)) = gauge t (s_counters s))"
  using assms by (auto simp: carrier_same_def close_carrier_effect)



text \<open>A library whose carrier authentication is the token's code points.\<close>

definition direct_lib :: lib where
  "direct_lib = sample_lib\<lparr>l_auth_json := (\<lambda>a. map of_nat (da_token a)),
     l_auth_parse := (\<lambda>b. Some \<lparr>da_token = map unat b, da_hello = Hello PROTOCOL_VERSION 0 [] default_capabilities 0\<rparr>)\<rparr>"

lemma direct_lib_token: "authenticate_device_token direct_lib (lit ''token'') sample_state =
    (Inr \<lparr>di_id = 7, di_name = lit ''laptop''\<rparr>, sample_state)"
  by (simp add: authenticate_device_token_def seq_def act_simps db_do_def on_db_def map_err_def device_by_token_def
      select_def stmt_def hash_token_def direct_lib_def sample_lib_def as_bytes_def lit_def utf8.simps
      sample_database_def sample_device_def)

definition sample_auth :: bytes where
  "sample_auth = write_record be_put_u32 0 (map of_nat (lit ''token''))"

lemma sample_session:
  "\<exists>s'. direct_session direct_lib TQuic sample_direct sample_auth sample_state =
     (Closed \<lparr>di_id = 7, di_name = lit ''laptop''\<rparr>, s')"
proof -
  have "read_record be_get_u32 MAX_RECORD (sample_auth @ []) = Inr ((0, map of_nat (lit ''token'')), [])"
    unfolding sample_auth_def by (rule be.read_write) (simp_all add: lit_def MAX_RECORD_def)
  moreover have "handshake direct_lib (0, map of_nat (lit ''token'')) sample_state =
      (Inr \<lparr>di_id = 7, di_name = lit ''laptop''\<rparr>, sample_state)"
  proof -
    have "map (unat \<circ> (of_nat :: nat \<Rightarrow> u8)) (lit ''token'') = lit ''token''" by (simp add: lit_def)
    then have "l_auth_parse direct_lib (map of_nat (lit ''token'')) =
        Some \<lparr>da_token = lit ''token'', da_hello = Hello PROTOCOL_VERSION 0 [] default_capabilities 0\<rparr>"
      by (simp add: direct_lib_def)
    then show ?thesis
      by (simp add: handshake_def seq_def act_simps map_err_def direct_lib_token hello_ok_def)
  qed
  moreover have "direct_loop direct_lib sample_direct 7 0 [] s = (LoopLeft, s)" for s
    by (simp add: direct_loop.simps [of _ _ _ _ "[]"] sample_direct_def read_record_def)
  ultimately show ?thesis by (simp add: direct_session_def Let_def)
qed


end
