(* ===== verification/Enrolled.thy ===== *)
theory Enrolled
  imports Desktop_Server Direct_Server
begin

text \<open>
  From registration to a connected carrier: what the server's enrollment answer leaves in the desktop's
  keychain is what the desktop's direct carriers check and send, and what the server then accepts.
\<close>

section \<open>The contract between the two programs\<close>

text \<open>
  Documented behaviour of base64 and SHA-256 in both programs and of \<open>serde_json\<close> on the enrollment answer.
\<close>

definition enrollment_agrees :: "('u, 'k) dlib \<Rightarrow> pem_lib \<Rightarrow> answer_codec \<Rightarrow> (bytes \<Rightarrow> ustr) \<Rightarrow> bool" where
  "enrollment_agrees D P A base64 \<longleftrightarrow>
     (\<forall>b. d_b64_decode D (trim (base64 b)) = Some b) \<and> (\<forall>b. d_sha256_hex D b = pm_sha256_hex P b) \<and>
     (\<forall>e. d_enrollment_parse D (an_enrollment A e) = Inr e)"

definition serves_identity ::
  "(http_request \<Rightarrow> app_state \<Rightarrow> server_input) \<Rightarrow> (bytes \<Rightarrow> ustr) \<Rightarrow> transport_identity \<Rightarrow> bool" where
  "serves_identity v base64 x \<longleftrightarrow> (\<forall>rq s. sv_identity (v rq s) = Some x \<and> sv_base64 (v rq s) = base64)"

section \<open>Registration over the server\<close>

lemma route_enrollment:
  assumes "agent_routes L A vi (lit ''/api/v1/agent/enrollment'') rq s = (Answer st b, s')" "is_success st" "hr_method rq = GET"
  shows "\<exists>en. agent_enrollment L (sv_base64 vi) (sv_identity vi) (call_of vi rq) s = (Inr en, s') \<and> b = an_enrollment A en"
proof -
  have "lit ''/api/v1/agent/enrollment'' \<noteq> lit ''/api/v1/agent/tunnels''" by (simp add: lit_def)
  then show ?thesis using assms(1,3) by (auto simp: agent_routes_def dest!: answer_success [OF _ assms(2)])
qed

lemma agent_enrollment_Inr:
  assumes "agent_enrollment L base64 (Some x) (call_of vi rq) s = (Inr en, s')"
  shows "en_transport_fingerprint en = ti_fingerprint x \<and> en_transport_certificate_der en = base64 (ti_certificate x) \<and>
     (\<exists>agent. device_of_token L (hr_bearer rq) s = Some agent)"
proof -
  obtain a s1 where "require_device L (cl_headers (call_of vi rq)) s = (Inr a, s1)"
      "en_transport_fingerprint en = ti_fingerprint x" "en_transport_certificate_der en = base64 (ti_certificate x)"
    using assms
    by (auto simp: agent_enrollment_def seq_eq_Inr act_simps certificate_base64_def certificate_def fingerprint_def)
  then show ?thesis using require_device_Inr by blast
qed

lemma configure_over_server:
  assumes "keychain_law D" "uuid_plain L" "uuid_text_ok L" "config_json_ok D" "enrollment_agrees D P A base64"
    and "serves_identity v base64 x" "normalize_server_url D server_url = Inr url"
    and "configure_server D L (server_net L A v url) ci server_url token name (rt, s) = (Inr u, (rt', s'))"
  shows "\<exists>c agent. rs_config rt' = Some c \<and> gc_server_url c = url \<and> device_of_token L (trim token) s = Some agent \<and>
     secrets_of D L (gc_installation_id c) (rs_keychain rt') =
       (Inr (trim token), Inr (ti_fingerprint x), Inr (base64 (ti_certificate x)))"
proof -
  let ?net = "server_net L A v url"
  have ok: "\<not> input_refused D server_url token name"
  proof
    assume "input_refused D server_url token name"
    from configure_server_refused [OF this, where net = ?net and L = L and ci = ci and s = "(rt, s)"] assms(8)
    show False by auto
  qed
  obtain a rt1 s1 where sent: "?net (enroll_request url (trim token)) (rt, s) = (a, (rt1, s1))"
    by (cases "?net (enroll_request url (trim token)) (rt, s)") auto
  note run = assms(8) [unfolded configure_server_sent [where net = ?net and s = "(rt, s)", OF assms(7) ok sent]]
  obtain st b en where a: "a = Answer st b" "is_success st" "d_enrollment_parse D b = Inr en"
    using run by (auto split: http_answer.splits if_splits sum.splits)
  let ?rq = "enroll_request url (trim token)" and ?c = "enrolled_config url (trim name) (ci_fresh ci) (rs_config rt1) en"
  have routed: "agent_routes L A (v ?rq s) (lit ''/api/v1/agent/enrollment'') ?rq s = (Answer st b, s1)"
    using sent a(1) by (auto simp: server_net_def enroll_request_def split: prod.splits)
  have vi: "sv_identity (v ?rq s) = Some x" "sv_base64 (v ?rq s) = base64" using assms(6) by (simp_all add: serves_identity_def)
  obtain en' where e: "agent_enrollment L base64 (Some x) (call_of (v ?rq s) ?rq) s = (Inr en', s1)" "b = an_enrollment A en'"
    using route_enrollment [OF routed a(2)] vi by (auto simp: enroll_request_def)
  have "en' = en" using e(2) a(3) assms(5) by (simp add: enrollment_agrees_def)
  then have en: "en_transport_fingerprint en = ti_fingerprint x" "en_transport_certificate_der en = base64 (ti_certificate x)"
      "\<exists>agent. device_of_token L (trim token) s = Some agent"
    using agent_enrollment_Inr [OF e(1)] by (auto simp: enroll_request_def)
  have committed: "seq (store_enrollment D L ci ?c (trim token) en) (\<lambda>_.
       on_runtime (\<lambda>rt. restart_agent (ci_agent ci) (log_event (ci_at ci) ''info'' text_configured
         (rt\<lparr>rs_config := Some ?c, rs_tunnels := en_tunnels en\<rparr>)))) (rt1, s1) = (Inr u, (rt', s'))"
    using run a by (simp add: Let_def)
  from commit_run [OF assms(1-4) committed] en
  show ?thesis by (intro exI [of _ ?c]) (auto simp: enrolled_config_def)
qed


section \<open>The first record\<close>

definition carrier_auth :: "ustr \<Rightarrow> agent_config \<Rightarrow> active_transport list \<Rightarrow> direct_carrier_auth" where
  "carrier_auth token c ts = \<lparr>da_token = token, da_hello = hello_message c ts\<rparr>"

text \<open>The record can be sent and read back: its JSON parses to the message and is not too long.\<close>

definition auth_fits :: "lib \<Rightarrow> direct_carrier_auth \<Rightarrow> bool" where
  "auth_fits L a \<longleftrightarrow> l_auth_parse L (l_auth_json L a) = Some a \<and> length (l_auth_json L a) \<le> MAX_RECORD"

lemma direct_open_enrolled:
  assumes "secrets_of D L (gc_installation_id c) k = (Inr token, Inr (pm_sha256_hex P der), Inr (base64 der))"
    and "enrollment_agrees D P A base64" "d_root_ok D der"
    and "d_url_parse D (gc_server_url c) = Some u" "d_url_host D u = Some host" "dial der host port = Inr ()"
  shows "direct_open D L dial port ts c token k = Inr (0, l_auth_json L (carrier_auth token c ts))"
proof -
  have "pinned_certificate D L (gc_installation_id c) k = Inr der"
    using assms(1-3) by (simp add: pinned_certificate_def secrets_of_def enrollment_agrees_def)
  then show ?thesis using assms(4-6) by (simp add: direct_open_def carrier_auth_def)
qed

lemma authenticate_run:
  assumes "device_of_token L token s = Some agent" "db_faults (s_db s) = []"
  shows "\<exists>d. di_id d = agent \<and> authenticate_device_token L token s = (Inr d, s)"
proof -
  obtain r where r: "find (\<lambda>r. dr_token_hash r = hash_token L token \<and> \<not> dr_revoked r) (db_devices (s_db s)) = Some r"
      "l_uuid_parse L (dr_id r) = Some agent"
    using assms(1) by (auto simp: device_of_token_def bind_eq_Some_conv)
  have q: "db_do (device_by_token (hash_token L token)) s = (Inr (Some r), s)"
    using r(1) assms(2) by (simp add: db_do_def on_db_def map_err_def device_by_token_def select_def stmt_def)
  then show ?thesis using r(2) by (simp add: authenticate_device_token_def seq_def act_simps)
qed

lemma session_accepted:
  assumes "auth_fits L (carrier_auth token c ts)" "device_of_token L token s = Some agent" "db_faults (s_db s) = []"
  shows "\<exists>d. di_id d = agent \<and>
     fst (direct_session L tr env (write_direct_record be_put_u32 0 (l_auth_json L (carrier_auth token c ts)) @ later) s)
       \<in> {Held d, Closed d}"
proof -
  let ?json = "l_auth_json L (carrier_auth token c ts)"
  have small: "length ?json \<le> MAX_RECORD" using assms(1) by (simp add: auth_fits_def)
  have r: "read_record be_get_u32 MAX_RECORD (write_direct_record be_put_u32 0 ?json @ later) = Inr ((0, ?json), later)"
    unfolding write_direct_record_def by (rule be.read_write [OF small MAX_RECORD_small])
  obtain d where d: "di_id d = agent" "authenticate_device_token L token s = (Inr d, s)"
    using authenticate_run [OF assms(2,3)] by blast
  have "l_auth_parse L ?json = Some (carrier_auth token c ts)" using assms(1) by (simp add: auth_fits_def)
  then have "handshake L (0, ?json) s = (Inr d, s)"
    using d(2) by (simp add: handshake_def seq_def act_simps map_err_def carrier_auth_def hello_ok_def hello_message_def)
  then have "fst (direct_session L tr env (write_direct_record be_put_u32 0 ?json @ later) s) \<in> {Held d, Closed d}"
    using r by (simp add: direct_session_def Let_def split: prod.splits loop_end.splits)
  then show ?thesis using d(1) by blast
qed



section \<open>A sample registration\<close>

instance active_transport :: countable by countable_datatype

instance capabilities_ext :: (countable) countable
  by (rule countable_classI [of "\<lambda>c. to_nat (cap_transports c, cap_tunnel_kinds c, cap_max_streams c,
      cap_max_datagram_size c, capabilities.more c)"]) (auto intro: capabilities.equality)

instance agent_enrollment_response_ext :: (countable) countable
  by (rule countable_classI [of "\<lambda>e. to_nat (en_tunnels e, en_transport_fingerprint e, en_transport_certificate_der e,
      en_quic_port e, en_kcp_port e, en_capabilities e, agent_enrollment_response.more e)"])
    (auto intro: agent_enrollment_response.equality)

definition enrolling_client :: "(ustr \<times> ustr, ustr \<rightharpoonup> ustr) dlib" where
  "enrolling_client = sample_dlib\<lparr>d_enrollment_parse := (\<lambda>b. Inr (from_nat (length b)))\<rparr>"

definition enrolling_answers :: answer_codec where
  "enrolling_answers = sample_answers\<lparr>an_enrollment := (\<lambda>e. replicate (to_nat e) 0)\<rparr>"

definition enrolling_lib :: lib where
  "enrolling_lib = colonless_lib\<lparr>
     l_auth_json := (\<lambda>a. (if da_hello a = hello_message (sample_agent_config MAuto) [TKcp] then 1 else 0) # map of_nat (da_token a)),
     l_auth_parse := (\<lambda>b. Some \<lparr>da_token = map unat (tl b),
        da_hello = hello_message (sample_agent_config MAuto) (if hd b = 1 then [TKcp] else [TQuic, TWss])\<rparr>)\<rparr>"

definition high_text :: "bytes \<Rightarrow> ustr" where
  "high_text b = map (\<lambda>w. unat w + 256) b"

definition sample_identity :: transport_identity where
  "sample_identity = \<lparr>ti_certificate = [7], ti_private_key_pem = [6, 8], ti_fingerprint = [7]\<rparr>"

definition enrolling_input :: "http_request \<Rightarrow> app_state \<Rightarrow> server_input" where
  "enrolling_input rq s = (sample_server_input rq s)\<lparr>sv_identity := Some sample_identity, sv_base64 := high_text\<rparr>"

definition enrolling_state :: app_state where
  "enrolling_state = sample_state\<lparr>s_db := sample_database\<lparr>db_devices :=
     [sample_device\<lparr>dr_id := [135], dr_token_hash := hash_token enrolling_lib sample_token\<rparr>]\<rparr>\<rparr>"

lemma trim_high: "trim (high_text b) = high_text b"
proof (cases "b = []")
  case False
  have "\<not> is_whitespace (unat w + 256)" for w :: u8
  proof -
    have "unat w < 256" using unsigned_less [of w] by simp
    then show ?thesis by (simp add: is_whitespace_def)
  qed
  then show ?thesis using False by (intro trim_id) (simp_all add: high_text_def hd_map last_map)
qed (simp add: high_text_def trim_def drop_while_end_def)

lemma enrolling_agrees: "enrollment_agrees enrolling_client sample_pem enrolling_answers high_text"
proof -
  have "map of_nat (high_text b) = b" for b :: bytes
    by (induction b) (simp_all add: high_text_def)
  then show ?thesis
    by (simp add: enrollment_agrees_def trim_high enrolling_client_def enrolling_answers_def sample_dlib_def sample_pem_def)
qed

lemma enrolling_laws:
  "keychain_law enrolling_client" "config_json_ok enrolling_client" "uuid_plain enrolling_lib" "uuid_text_ok enrolling_lib"
  "serves_identity enrolling_input high_text sample_identity"
  using sample_keychain sample_config_json colonless
  by (simp_all add: keychain_law_def config_json_ok_def uuid_plain_def uuid_text_ok_def enrolling_client_def enrolling_lib_def
      serves_identity_def enrolling_input_def)

lemma enrolling_fits:
  "auth_fits enrolling_lib (carrier_auth sample_token (sample_agent_config MAuto) [TQuic, TWss])"
  "auth_fits enrolling_lib (carrier_auth sample_token (sample_agent_config MAuto) [TKcp])"
  by (simp_all add: auth_fits_def carrier_auth_def enrolling_lib_def hello_message_def default_capabilities_def
      sample_token_def lit_def MAX_RECORD_def)

lemma enrolling_accepts:
  "normalize_server_url enrolling_client (lit ''https://tb.io/x'') = Inr (lit ''https://tb.io'')"
  "\<not> input_refused enrolling_client (lit ''https://tb.io/x'') sample_token (lit ''Mac'')"
proof -
  have "normalize_server_url enrolling_client = normalize_server_url sample_dlib"
    by (intro ext) (simp add: normalize_server_url_def enrolling_client_def)
  then show "normalize_server_url enrolling_client (lit ''https://tb.io/x'') = Inr (lit ''https://tb.io'')"
    "\<not> input_refused enrolling_client (lit ''https://tb.io/x'') sample_token (lit ''Mac'')"
    using sample_normalized sample_accepted(1) by (simp_all add: input_refused_def)
qed


lemma enrolling_run:
  "\<exists>rt' s'. configure_server enrolling_client enrolling_lib (server_net enrolling_lib enrolling_answers enrolling_input
       (lit ''https://tb.io'')) (sample_command None) (lit ''https://tb.io/x'') sample_token (lit ''Mac'')
       (fresh_runtime, enrolling_state) = (Inr (), (rt', s')) \<and> rs_config rt' = Some (sample_agent_config MAuto)"
proof -
  let ?rq = "enroll_request (lit ''https://tb.io'') (trim sample_token)"
  let ?net = "server_net enrolling_lib enrolling_answers enrolling_input (lit ''https://tb.io'')"
  have dev: "require_device enrolling_lib (cl_headers (call_of (enrolling_input ?rq enrolling_state) ?rq)) enrolling_state =
      (Inr \<lparr>di_id = 7, di_name = lit ''laptop''\<rparr>, enrolling_state)"
  proof -
    have h: "header_str (cl_headers (call_of (enrolling_input ?rq enrolling_state) ?rq)) ''authorization'' =
        Some (lit ''Bearer '' @ sample_token)"
      by (simp add: call_of_def header_str_def header_get_def enroll_request_def sample_token_ok)
    have q: "db_do (device_by_token (hash_token enrolling_lib sample_token)) enrolling_state =
        (Inr (Some (sample_device\<lparr>dr_id := [135], dr_token_hash := hash_token enrolling_lib sample_token\<rparr>)), enrolling_state)"
      by (simp add: db_do_def on_db_def map_err_def device_by_token_def select_def stmt_def enrolling_state_def
          sample_database_def sample_device_def)
    show ?thesis
      by (simp add: require_device_def h seq_def act_simps q) (simp add: sample_device_def enrolling_lib_def colonless_lib_def act_simps)
  qed
  have list: "list_for_agent enrolling_lib 7 enrolling_state = (Inr [], enrolling_state)"
    by (simp add: list_for_agent_def seq_def act_simps db_do_def on_db_def map_err_def select_def stmt_def)
      (simp add: enrolling_state_def sample_database_def act_simps)
  obtain en where en: "agent_enrollment enrolling_lib high_text (Some sample_identity) (call_of (enrolling_input ?rq enrolling_state) ?rq)
      enrolling_state = (Inr en, enrolling_state)" "en_quic_port en = 443" "en_kcp_port en = 4000"
    by (simp add: agent_enrollment_def seq_def act_simps dev list certificate_base64_def certificate_def)
      (simp add: enrolling_state_def sample_config_def)
  have sent: "?net ?rq (fresh_runtime, enrolling_state) = (Answer 200 (replicate (to_nat en) 0), (fresh_runtime, enrolling_state))"
  proof -
    have "lit ''/api/v1/agent/enrollment'' \<noteq> lit ''/api/v1/agent/tunnels''" by (simp add: lit_def)
    then show ?thesis
      using en(1)
      by (simp add: server_net_def agent_routes_def answer_def enrolling_answers_def enroll_request_def enrolling_input_def
          call_of_def)
  qed
  show ?thesis
    unfolding configure_server_sent [where net = ?net, OF enrolling_accepts sent]
    using en(2,3)
    by (auto simp: is_success_def enrolling_client_def sample_dlib_def Let_def seq_def store_enrollment_def set_key_def save_token_def
        save_transport_fingerprint_def save_transport_certificate_def store_config_def save_config_def rename_tmp_def
        write_tmp_def on_runtime_def modify_def fresh_runtime_def runtime_new_def enrolled_config_def sample_command_def
        sample_agent_config_def sample_accepted(2) restart_agent_def log_event_def log_with_location_def)
qed



end
