(* ===== verification/Server_Main.thy ===== *)
theory Server_Main
  imports Api_Facts Identity
begin

text \<open>
  The start of the server: \<open>main\<close> in server/src/main.rs up to the point where it serves, with \<open>connect\<close> and
  \<open>migrate\<close> of server/src/db.rs, and what a restart keeps.
\<close>

section \<open>Opening the database\<close>

text \<open>
  The database file: a table that does not exist is empty, but for \<open>tunnels\<close>, whose presence and version the
  migration looks at. \<open>df_db\<close> has the other tables, its tunnels are not used.
\<close>

record database_file =
  df_db :: database
  df_tunnels :: tunnels_table

definition on_file :: "(database, db_error, 'a) act \<Rightarrow> (database_file, db_error, 'a) act" where
  "on_file m f = (case m (df_db f) of (r, d) \<Rightarrow> (r, f\<lparr>df_db := d\<rparr>))"

text \<open>A statement that changes no row: \<open>PRAGMA\<close>, \<open>CREATE ... IF NOT EXISTS\<close>, the look at the schema.\<close>

definition probe :: "(database, db_error, unit) act" where
  "probe = stmt (\<lambda>d. (Inr (), d))"

fun probes :: "nat \<Rightarrow> (database, db_error, unit) act" where
  "probes 0 = ok ()"
| "probes (Suc n) = seq probe (\<lambda>_. probes n)"

text \<open>
  Four tables and two indexes, then the tunnels: the migration can fail before its transaction is committed
  and after it, where the unique indexes are made.
\<close>

definition migrate_tunnels :: "(database_file, db_error, unit) act" where
  "migrate_tunnels f =
     (case migrate_tunnels_v2 (df_tunnels f) of
        (r, t) \<Rightarrow> seq (on_file probe) (\<lambda>_. lift r) (f\<lparr>df_tunnels := t\<rparr>))"

definition migrate :: "(database_file, db_error, unit) act" where
  "migrate =
     seq (on_file (probes 6)) (\<lambda>_.
     seq (on_file probe) (\<lambda>_.
     migrate_tunnels))"

datatype start_error =
    BadEnvironment config_error | IdentityFailed identity_error | DirectoryFailed | ConnectFailed
  | SchemaFailed db_error | AdminFailed boot_error | RestoreFailed app_error
  | ListenFailed

definition database_path :: "ustr \<Rightarrow> ustr option" where
  "database_path url = map_option (\<lambda>p. hd (split_on 63 p)) (strip_prefix (lit ''sqlite://'') url)"

text \<open>
  What the machine answers at a start: the environment, the pair a generator would return, the fault of the
  identity files, whether the parent of a path can be created and the database be opened, salt and
  time of the first administrator, the tokens of the listeners, and whether the address of the HTTP interface
  can be bound.
\<close>

record start_input =
  si_env :: "string \<Rightarrow> ustr option"
  si_made :: "bytes \<times> bytes"
  si_fault :: "identity_fault option"
  si_parent :: "ustr \<Rightarrow> bool"
  si_open :: "ustr \<Rightarrow> bool"
  si_salt :: bytes
  si_now :: ustr
  si_tokens :: "nat list"
  si_listen :: "socket_addr \<Rightarrow> bool"

definition rows_of :: "tunnels_table \<Rightarrow> tunnel_row list" where
  "rows_of t = (case t of TableV2 rows \<Rightarrow> rows | _ \<Rightarrow> [])"

definition finish_connect :: "lib \<Rightarrow> start_input \<Rightarrow> config \<Rightarrow> (database_file, start_error, database) act" where
  "finish_connect L io c =
     seq (\<lambda>f. case bootstrap_admin L (si_salt io) (si_now io) (c_admin_password c) (df_db f) of
            (r, d) \<Rightarrow> (map_sum AdminFailed id r, f\<lparr>df_db := d\<rparr>)) (\<lambda>_.
     peek (\<lambda>f. (df_db f)\<lparr>db_tunnels := rows_of (df_tunnels f)\<rparr>))"

definition connect :: "lib \<Rightarrow> start_input \<Rightarrow> config \<Rightarrow> (database_file, start_error, database) act" where
  "connect L io c =
     seq (lift (ensure (case database_path (c_database_url c) of None \<Rightarrow> True | Some p \<Rightarrow> si_parent io p) DirectoryFailed)) (\<lambda>_.
     seq (lift (ensure (si_open io (c_database_url c)) ConnectFailed)) (\<lambda>_.
     seq (map_err SchemaFailed (on_file probe)) (\<lambda>_.
     seq (map_err SchemaFailed migrate) (\<lambda>_.
     finish_connect L io c))))"

section \<open>The start\<close>

record machine =
  mc_files :: identity_files
  mc_db :: database_file

text \<open>The tunnels are served before the HTTP interface is bound; a failure there ends the process.\<close>

definition start_serving :: "lib \<Rightarrow> start_input \<Rightarrow> config \<Rightarrow> database \<Rightarrow> start_error + app_state" where
  "start_serving L io c d =
     (case restore_listeners L (si_tokens io) (app_state_new c d) of
        (Inl e, s) \<Rightarrow> Inl (RestoreFailed e)
      | (Inr _, s) \<Rightarrow> if si_listen io (c_listen_addr c) then Inr s else Inl ListenFailed)"

definition server_main ::
  "lib \<Rightarrow> pem_lib \<Rightarrow> start_input \<Rightarrow> (machine, start_error, transport_identity \<times> app_state) act" where
  "server_main L P io m =
     (case from_env L (si_env io) of
        Inl e \<Rightarrow> (Inl (BadEnvironment e), m)
      | Inr c \<Rightarrow>
          (case load_or_create P (si_made io) (si_fault io) (mc_files m) of
             (Inl e, fs) \<Rightarrow> (Inl (IdentityFailed e), m\<lparr>mc_files := fs\<rparr>)
           | (Inr x, fs) \<Rightarrow>
               (case connect L io c (mc_db m) of
                  (Inl e, f) \<Rightarrow> (Inl e, \<lparr>mc_files = fs, mc_db = f\<rparr>)
                | (Inr d, f) \<Rightarrow> (map_sum id (Pair x) (start_serving L io c d), \<lparr>mc_files = fs, mc_db = f\<rparr>))))"

section \<open>What opening leaves alone\<close>

text \<open>The tables a start never touches, and the tunnels it may only migrate.\<close>

definition migrated :: "tunnels_table \<Rightarrow> tunnels_table \<Rightarrow> bool" where
  "migrated t t' \<longleftrightarrow> t' = t \<or> t = NoTable \<and> t' = TableV2 [] \<or> (\<exists>old. t = TableV1 old \<and> t' = TableV2 (map migrate_row old))"

definition data_kept :: "database_file \<Rightarrow> database_file \<Rightarrow> bool" where
  "data_kept f f' \<longleftrightarrow>
     db_devices (df_db f') = db_devices (df_db f) \<and> db_audit (df_db f') = db_audit (df_db f) \<and>
     db_history (df_db f') = db_history (df_db f) \<and>
     (db_admins (df_db f) \<noteq> [] \<longrightarrow> db_admins (df_db f') = db_admins (df_db f)) \<and> length (db_admins (df_db f')) \<le> max 1 (length (db_admins (df_db f))) \<and>
     migrated (df_tunnels f) (df_tunnels f')"

definition same_file :: "database_file \<Rightarrow> database_file \<Rightarrow> bool" where
  "same_file f f' \<longleftrightarrow> df_tunnels f' = df_tunnels f \<and> (\<exists>fs. df_db f' = (df_db f)\<lparr>db_faults := fs\<rparr>)"

lemma same_refl: "same_file f f"
  unfolding same_file_def by (intro conjI exI [of _ "db_faults (df_db f)"]) simp_all

lemma same_trans: "same_file f g \<Longrightarrow> same_file g h \<Longrightarrow> same_file f h"
  by (auto simp: same_file_def)

lemma probe_same: "on_file probe f = (r, f') \<Longrightarrow> same_file f f'"
proof -
  assume p: "on_file probe f = (r, f')"
  then obtain d where d: "probe (df_db f) = (r, d)" "f' = f\<lparr>df_db := d\<rparr>" by (auto simp: on_file_def split: prod.splits)
  have "\<exists>fs. d = (df_db f)\<lparr>db_faults := fs\<rparr>" using d(1) unfolding probe_def by (cases rule: stmt_cases) auto
  then show ?thesis using d(2) by (auto simp: same_file_def)
qed

lemma probes_same: "on_file (probes n) f = (r, f') \<Longrightarrow> same_file f f'"
proof (induction n arbitrary: f)
  case 0
  then show ?case by (auto simp: on_file_def act_simps same_refl)
next
  case (Suc n)
  obtain r1 f1 where p: "on_file probe f = (r1, f1)" by (cases "on_file probe f")
  show ?case
  proof (cases r1)
    case (Inl e)
    then have "f' = f1" using Suc.prems p by (auto simp: on_file_def seq_def split: prod.splits)
    then show ?thesis using probe_same [OF p] by simp
  next
    case (Inr u)
    then have "on_file (probes n) f1 = (r, f')" using Suc.prems p by (auto simp: on_file_def seq_def split: prod.splits)
    then show ?thesis using Suc.IH probe_same [OF p] same_trans by blast
  qed
qed

lemma migrate_v2_migrated: "migrate_tunnels_v2 t = (r, t') \<Longrightarrow> migrated t t'"
  by (auto simp: migrate_tunnels_v2_def create_tunnels_v2_def migrated_def Let_def split: tunnels_table.splits if_splits)

lemma migrate_v2_done: "migrate_tunnels_v2 t = (Inr u, t') \<Longrightarrow> \<exists>rows. t' = TableV2 rows \<and> pairwise_free rows"
  by (auto simp: migrate_tunnels_v2_def create_tunnels_v2_def create_tunnel_indexes_def Let_def
      split: tunnels_table.splits if_splits)

lemma migrate_tunnels_cases:
  assumes "migrate_tunnels f = (r, f')"
  shows "\<exists>t. migrated (df_tunnels f) t \<and> same_file (f\<lparr>df_tunnels := t\<rparr>) f' \<and>
     (\<forall>u. r = Inr u \<longrightarrow> (\<exists>rows. t = TableV2 rows \<and> pairwise_free rows))"
proof -
  obtain r0 t where t: "migrate_tunnels_v2 (df_tunnels f) = (r0, t)" by (cases "migrate_tunnels_v2 (df_tunnels f)")
  obtain r1 f1 where p: "on_file probe (f\<lparr>df_tunnels := t\<rparr>) = (r1, f1)" by (cases "on_file probe (f\<lparr>df_tunnels := t\<rparr>)")
  have e: "f' = f1" "\<And>u. r = Inr u \<Longrightarrow> r0 = Inr u"
    using assms t p by (cases r1; auto simp: migrate_tunnels_def seq_def act_simps)+
  have "\<exists>rows. t = TableV2 rows \<and> pairwise_free rows" if "r = Inr u" for u
    by (rule migrate_v2_done [OF t [unfolded e(2) [OF that]]])
  then show ?thesis
    using migrate_v2_migrated [OF t] probe_same [OF p] e(1) by (intro exI [of _ t]) simp
qed

lemma migrate_cases:
  assumes "migrate f = (r, f')"
  shows "\<exists>t. migrated (df_tunnels f) t \<and> same_file (f\<lparr>df_tunnels := t\<rparr>) f' \<and>
     (\<forall>u. r = Inr u \<longrightarrow> (\<exists>rows. t = TableV2 rows \<and> pairwise_free rows))"
  using assms unfolding migrate_def
proof (cases rule: seq_cases)
  case (failed e)
  then show ?thesis using probes_same by (intro exI [of _ "df_tunnels f"]) (simp add: migrated_def)
next
  case (continued u f1)
  have s1: "same_file f f1" using continued(1) by (rule probes_same)
  from continued(2) show ?thesis
  proof (cases rule: seq_cases)
    case (failed e)
    then show ?thesis using same_trans [OF s1 probe_same] by (intro exI [of _ "df_tunnels f"]) (simp add: migrated_def)
  next
    case (continued u2 f2)
    have s2: "same_file f f2" using same_trans [OF s1 probe_same [OF continued(1)]] .
    obtain t where t: "migrated (df_tunnels f2) t" "same_file (f2\<lparr>df_tunnels := t\<rparr>) f'"
        "\<forall>u. r = Inr u \<longrightarrow> (\<exists>rows. t = TableV2 rows \<and> pairwise_free rows)"
      using migrate_tunnels_cases [OF continued(2)] by (elim exE conjE) (rule that)
    have "df_tunnels f2 = df_tunnels f" "same_file (f\<lparr>df_tunnels := t\<rparr>) (f2\<lparr>df_tunnels := t\<rparr>)"
      using s2 by (auto simp: same_file_def)
    then show ?thesis using t same_trans by (intro exI [of _ t]) auto
  qed
qed

lemma bootstrap_run:
  assumes "bootstrap_admin L salt now p d = (r, d')"
  shows "db_devices d' = db_devices d \<and> db_audit d' = db_audit d \<and> db_history d' = db_history d \<and>
     (db_admins d \<noteq> [] \<longrightarrow> db_admins d' = db_admins d) \<and> length (db_admins d') \<le> max 1 (length (db_admins d)) \<and>
     (\<forall>u. r = Inr u \<longrightarrow> db_admins d' \<noteq> [])"
proof -
  have keep: "db_admins d \<noteq> [] \<longrightarrow> db_admins d' = db_admins d"
    using bootstrap_keeps_existing [of d L salt now p] assms by auto
  obtain x d1 where s: "select (\<lambda>d. length (db_admins d)) d = (x, d1)" by (cases "select (\<lambda>d. length (db_admins d)) d")
  obtain fs where d1: "d1 = d\<lparr>db_faults := fs\<rparr>" using select_snd [of "\<lambda>d. length (db_admins d)" d] s by auto
  have x: "\<And>n. x = Inr n \<Longrightarrow> n = length (db_admins d)" using select_eq_Inr s d1 by fastforce
  show ?thesis
    using assms s d1 x keep
    by (auto simp: bootstrap_admin_def seq_def map_err_def act_simps stmt_def
        split: sum.splits option.splits if_splits list.splits prod.splits)
qed


lemma finish_cases:
  assumes "finish_connect L io c f = (r, f')"
  shows "df_tunnels f' = df_tunnels f \<and> db_devices (df_db f') = db_devices (df_db f) \<and>
     db_audit (df_db f') = db_audit (df_db f) \<and> db_history (df_db f') = db_history (df_db f) \<and>
     (db_admins (df_db f) \<noteq> [] \<longrightarrow> db_admins (df_db f') = db_admins (df_db f)) \<and>
     length (db_admins (df_db f')) \<le> max 1 (length (db_admins (df_db f))) \<and>
     (\<forall>d. r = Inr d \<longrightarrow> db_admins d \<noteq> [] \<and> d = (df_db f')\<lparr>db_tunnels := rows_of (df_tunnels f')\<rparr>)"
proof -
  obtain r1 d where b: "bootstrap_admin L (si_salt io) (si_now io) (c_admin_password c) (df_db f) = (r1, d)"
    by (cases "bootstrap_admin L (si_salt io) (si_now io) (c_admin_password c) (df_db f)")
  show ?thesis using assms b bootstrap_run [OF b]
    by (cases r1) (auto simp: finish_connect_def seq_def act_simps)
qed

lemma connect_migrated:
  assumes "same_file f f1" and "seq (map_err SchemaFailed migrate) (\<lambda>_. finish_connect L io c) f1 = (r, f')"
  shows "data_kept f f' \<and>
     (\<forall>d. r = Inr d \<longrightarrow> db_admins d \<noteq> [] \<and> db_devices d = db_devices (df_db f) \<and>
        df_tunnels f' = TableV2 (db_tunnels d) \<and> pairwise_free (db_tunnels d))"
proof -
  obtain r2 f2 where m: "migrate f1 = (r2, f2)" by (cases "migrate f1")
  obtain t where t: "migrated (df_tunnels f1) t" "same_file (f1\<lparr>df_tunnels := t\<rparr>) f2"
      "\<forall>u. r2 = Inr u \<longrightarrow> (\<exists>rows. t = TableV2 rows \<and> pairwise_free rows)"
    using migrate_cases [OF m] by (elim exE conjE) (rule that)
  show ?thesis
  proof (cases r2)
    case (Inl e)
    then have "f' = f2" "\<forall>d. r \<noteq> Inr d" using assms(2) m by (auto simp: seq_def map_err_def)
    then show ?thesis using t(1,2) assms(1) by (auto simp: data_kept_def same_file_def)
  next
    case (Inr u)
    then have fin: "finish_connect L io c f2 = (r, f')" using assms(2) m by (simp add: seq_def map_err_def)
    obtain rows where rows: "t = TableV2 rows" "pairwise_free rows" using t(3) Inr by blast
    have kept: "db_devices (df_db f2) = db_devices (df_db f)" "db_audit (df_db f2) = db_audit (df_db f)"
        "db_history (df_db f2) = db_history (df_db f)" "db_admins (df_db f2) = db_admins (df_db f)"
        "df_tunnels f2 = t" "migrated (df_tunnels f) t"
      using t(1,2) assms(1) by (auto simp: same_file_def)
    note done1 = finish_cases [OF fin]
    have "data_kept f f'" using done1 kept by (simp add: data_kept_def)
    moreover have "db_admins d \<noteq> [] \<and> db_devices d = db_devices (df_db f) \<and>
        df_tunnels f' = TableV2 (db_tunnels d) \<and> pairwise_free (db_tunnels d)" if r: "r = Inr d" for d
    proof -
      have "db_admins d \<noteq> []" "d = (df_db f')\<lparr>db_tunnels := rows_of (df_tunnels f')\<rparr>" using done1 r by auto
      then show ?thesis using done1 kept rows by (simp add: rows_of_def)
    qed
    ultimately show ?thesis by blast
  qed
qed

lemma connect_database:
  assumes "connect L io c f = (Inr d, f')"
  shows "d = (df_db f')\<lparr>db_tunnels := rows_of (df_tunnels f')\<rparr>"
proof -
  obtain f2 where "finish_connect L io c f2 = (Inr d, f')"
    using assms by (auto simp: connect_def seq_eq_Inr act_simps)
  from finish_cases [OF this] show ?thesis by simp
qed

lemma connect_cases:
  assumes "connect L io c f = (r, f')"
  shows "data_kept f f' \<and>
     (\<forall>d. r = Inr d \<longrightarrow> db_admins d \<noteq> [] \<and> db_devices d = db_devices (df_db f) \<and>
        df_tunnels f' = TableV2 (db_tunnels d) \<and> pairwise_free (db_tunnels d))"
proof -
  have kept_same: "data_kept f g" if "same_file f g" for g
    using that by (auto simp: data_kept_def same_file_def migrated_def)
  from assms [unfolded connect_def] show ?thesis
  proof (cases rule: seq_cases)
    case (failed e)
    then show ?thesis using kept_same [OF same_refl] by (auto simp: act_simps)
  next
    case (continued u f0)
    have f0: "f0 = f" using continued(1) by (auto simp: act_simps)
    from continued(2) [unfolded f0] show ?thesis
    proof (cases rule: seq_cases)
      case (failed e)
      then show ?thesis using kept_same [OF same_refl] by (auto simp: act_simps)
    next
      case (continued u f0)
      have f0: "f0 = f" using continued(1) by (auto simp: act_simps)
      from continued(2) [unfolded f0] show ?thesis
      proof (cases rule: seq_cases)
        case (failed e)
        then have "\<exists>r. on_file probe f = (r, f')" by (auto simp: map_err_def split: prod.splits sum.splits)
        then show ?thesis using failed(2) probe_same kept_same by blast
      next
        case (continued u f1)
        then have "\<exists>r. on_file probe f = (r, f1)" by (auto simp: map_err_def split: prod.splits sum.splits)
        then have s1: "same_file f f1" using probe_same by blast
        from continued(2) show ?thesis by (rule connect_migrated [OF s1])
      qed
    qed
  qed
qed


section \<open>The listeners of a new process\<close>

definition wants_listener :: "tunnel list \<Rightarrow> uuid \<Rightarrow> bool" where
  "wants_listener ts i \<longleftrightarrow> list_ex (\<lambda>t. t_id t = i \<and> t_enabled t \<and> t_kind t \<noteq> KWeb) ts"

lemma start_all_exact:
  "length ts \<le> length tokens \<Longrightarrow>
     s_listeners (start_all (zip ts tokens) s) i \<noteq> None \<longleftrightarrow> s_listeners s i \<noteq> None \<or> wants_listener ts i"
proof (induction ts arbitrary: tokens s)
  case (Cons t ts)
  then obtain k ks where k: "tokens = k # ks" by (cases tokens) auto
  have "s_listeners (start_all (zip (t # ts) tokens) s) i \<noteq> None \<longleftrightarrow>
      s_listeners (if t_enabled t \<and> t_kind t \<noteq> KWeb then start_listener k t s else s) i \<noteq> None \<or> wants_listener ts i"
    using Cons.IH [of ks] Cons.prems k by simp
  then show ?case by (auto simp: start_listener_def wants_listener_def)
qed (simp add: wants_listener_def)

lemma start_all_rest [simp]:
  "s_sessions (start_all l s) = s_sessions s" "s_agents (start_all l s) = s_agents s"
  by (induction l s rule: start_all.induct) (auto simp: start_listener_def)

lemma restore_Inr:
  assumes "restore_listeners L tokens s = (Inr u, s')"
  shows "\<exists>ts. map (row_to_tunnel L) (sort_key tr_created_at (db_tunnels (s_db s))) = map Inr ts \<and>
     (length ts \<le> length tokens \<longrightarrow> (\<forall>i. s_listeners s' i \<noteq> None \<longleftrightarrow> s_listeners s i \<noteq> None \<or> wants_listener ts i)) \<and>
     s_config s' = s_config s \<and> db_tunnels (s_db s') = db_tunnels (s_db s) \<and> db_devices (s_db s') = db_devices (s_db s) \<and>
     db_admins (s_db s') = db_admins (s_db s) \<and> s_sessions s' = s_sessions s \<and> s_agents s' = s_agents s"
proof -
  obtain ts s1 where l: "list_all_tunnels L s = (Inr ts, s1)" "s' = start_all (zip ts tokens) s1"
    using assms by (auto simp: restore_listeners_def seq_eq_Inr act_simps)
  have "core s1 = core s" using reads_queries(5) l(1) by (rule core_reads)
  then have same: "s_config s1 = s_config s" "db_tunnels (s_db s1) = db_tunnels (s_db s)"
      "db_devices (s_db s1) = db_devices (s_db s)" "db_admins (s_db s1) = db_admins (s_db s)"
      "s_sessions s1 = s_sessions s" "s_agents s1 = s_agents s" "s_listeners s1 = s_listeners s"
    by (simp_all add: core_eq)
  obtain rows s2 where rows: "db_do (select (\<lambda>d. sort_key tr_created_at (db_tunnels d))) s = (Inr rows, s2)"
      "collect (map (row_to_tunnel L) rows) = Inr ts"
    using l(1) unfolding list_all_tunnels_def by (auto simp: seq_eq_Inr act_simps)
  have "rows = sort_key tr_created_at (db_tunnels (s_db s2))" using rows(1) by (auto simp: db_do_eq_Inr dest!: select_eq_Inr)
  moreover have "core s2 = core s" using reads_select rows(1) by (rule core_reads)
  ultimately have "map (row_to_tunnel L) (sort_key tr_created_at (db_tunnels (s_db s))) = map Inr ts"
    using rows(2) by (simp add: core_eq collect_eq_Inr)
  then show ?thesis using l(2) same start_all_exact by (intro exI [of _ ts]) simp
qed

lemma wants_served:
  assumes "codecs_ok L" "tunnels_ok L s" "map (row_to_tunnel L) (sort_key tr_created_at (db_tunnels (s_db s))) = map Inr ts"
  shows "wants_listener ts i \<longleftrightarrow> served L (db_tunnels (s_db s)) i"
proof -
  have row: "tr_id r = l_uuid_text L (t_id t) \<and> tr_enabled r = t_enabled t \<and> tr_kind r = kind_str (t_kind t)"
    if "r \<in> set (db_tunnels (s_db s))" "row_to_tunnel L r = Inr t" for r t
  proof -
    have "stored L (s_config s) r" using assms(2) that(1) by (simp add: tunnels_ok_def)
    then have "tunnel_to_row L t = r" using stored_read(2) assms(1) that(2) by blast
    then show ?thesis by (auto simp: tunnel_to_row_def)
  qed
  have image: "row_to_tunnel L ` set (db_tunnels (s_db s)) = Inr ` set ts"
    using arg_cong [OF assms(3), of set] by simp
  show ?thesis
  proof
    assume "wants_listener ts i"
    then obtain t where t: "t \<in> set ts" "t_id t = i" "t_enabled t" "t_kind t \<noteq> KWeb"
      by (auto simp: wants_listener_def list_ex_iff)
    then obtain r where r: "r \<in> set (db_tunnels (s_db s))" "row_to_tunnel L r = Inr t" using image by (metis image_iff)
    show "served L (db_tunnels (s_db s)) i"
      unfolding served_def list_ex_iff using row [OF r] t by (intro bexI [OF _ r(1)]) simp
  next
    assume "served L (db_tunnels (s_db s)) i"
    then obtain r where r: "r \<in> set (db_tunnels (s_db s))" "tr_id r = l_uuid_text L i" "tr_enabled r" "tr_kind r \<noteq> lit ''web''"
      by (auto simp: served_def list_ex_iff)
    then obtain t where t: "t \<in> set ts" "row_to_tunnel L r = Inr t" using image by (metis image_iff)
    then have "t_id t = i \<and> t_enabled t \<and> t_kind t \<noteq> KWeb"
      using row [OF r(1) t(2)] r codecsD(3) [OF assms(1)] by auto
    then show "wants_listener ts i" using t(1) by (auto simp: wants_listener_def list_ex_iff)
  qed
qed

lemma server_main_kept:
  assumes "server_main L P io m = (r, m')"
  shows "data_kept (mc_db m) (mc_db m')"
proof -
  have refl: "data_kept f f" for f by (simp add: data_kept_def migrated_def)
  have opened: "connect L io c (mc_db m) = (q, f) \<Longrightarrow> data_kept (mc_db m) f" for c q f
    using connect_cases by blast
  show ?thesis using assms refl by (auto simp: server_main_def split: sum.splits prod.splits dest: opened)
qed

text \<open>A start that succeeds went through every stage.\<close>

lemma server_main_Inr:
  assumes "server_main L P io m = (Inr (x, s), m')"
  obtains c d fs f u where "from_env L (si_env io) = Inr c"
    and "load_or_create P (si_made io) (si_fault io) (mc_files m) = (Inr x, fs)"
    and "connect L io c (mc_db m) = (Inr d, f)"
    and "restore_listeners L (si_tokens io) (app_state_new c d) = (Inr u, s)"
    and "m' = \<lparr>mc_files = fs, mc_db = f\<rparr>"
  using assms by (auto simp: server_main_def start_serving_def split: sum.splits prod.splits if_splits)

lemma server_main_up:
  assumes "server_main L P io m = (Inr (x, s), m')"
  shows "from_env L (si_env io) = Inr (s_config s) \<and> intact P (mc_files m') x \<and> db_admins (s_db s) \<noteq> [] \<and>
     db_devices (s_db s) = db_devices (df_db (mc_db m)) \<and> df_tunnels (mc_db m') = TableV2 (db_tunnels (s_db s)) \<and>
     pairwise_free (db_tunnels (s_db s)) \<and> s_sessions s = Map.empty \<and> s_agents s = Map.empty \<and>
     (length (db_tunnels (s_db s)) \<le> length (si_tokens io) \<longrightarrow>
        (\<exists>ts. map (row_to_tunnel L) (sort_key tr_created_at (db_tunnels (s_db s))) = map Inr ts \<and>
           (\<forall>i. s_listeners s i \<noteq> None \<longleftrightarrow> wants_listener ts i)))"
proof -
  obtain c d fs f u where run: "from_env L (si_env io) = Inr c"
      "load_or_create P (si_made io) (si_fault io) (mc_files m) = (Inr x, fs)" "connect L io c (mc_db m) = (Inr d, f)"
      "restore_listeners L (si_tokens io) (app_state_new c d) = (Inr u, s)" "m' = \<lparr>mc_files = fs, mc_db = f\<rparr>"
    using assms by (rule server_main_Inr)
  have db: "db_admins d \<noteq> []" "db_devices d = db_devices (df_db (mc_db m))" "df_tunnels f = TableV2 (db_tunnels d)"
      "pairwise_free (db_tunnels d)"
    using connect_cases [OF run(3)] by simp_all
  obtain ts where ts: "map (row_to_tunnel L) (sort_key tr_created_at (db_tunnels d)) = map Inr ts"
      "length ts \<le> length (si_tokens io) \<longrightarrow> (\<forall>i. s_listeners s i \<noteq> None \<longleftrightarrow> wants_listener ts i)"
      "s_config s = c" "db_tunnels (s_db s) = db_tunnels d" "db_devices (s_db s) = db_devices d"
      "db_admins (s_db s) = db_admins d" "s_sessions s = Map.empty" "s_agents s = Map.empty"
    using restore_Inr [OF run(4)] by (auto simp: app_state_new_def)
  have "length ts = length (db_tunnels d)" using ts(1) by (metis length_map length_sort)
  moreover have "intact P fs x" using run(2) by (simp add: load_intact)
  ultimately show ?thesis using run db ts by auto
qed

lemma server_main_run:
  assumes "server_main L P io m = (r, m')"
  shows "data_kept (mc_db m) (mc_db m') \<and>
     (case r of Inl _ \<Rightarrow> True
      | Inr (x, s) \<Rightarrow>
          from_env L (si_env io) = Inr (s_config s) \<and> intact P (mc_files m') x \<and> db_admins (s_db s) \<noteq> [] \<and>
          db_devices (s_db s) = db_devices (df_db (mc_db m)) \<and> df_tunnels (mc_db m') = TableV2 (db_tunnels (s_db s)) \<and>
          pairwise_free (db_tunnels (s_db s)) \<and> s_sessions s = Map.empty \<and> s_agents s = Map.empty \<and>
          (length (db_tunnels (s_db s)) \<le> length (si_tokens io) \<longrightarrow>
             (\<exists>ts. map (row_to_tunnel L) (sort_key tr_created_at (db_tunnels (s_db s))) = map Inr ts \<and>
                (\<forall>i. s_listeners s i \<noteq> None \<longleftrightarrow> wants_listener ts i))))"
  using server_main_kept [OF assms] server_main_up assms by (auto split: sum.splits)

section \<open>Properties\<close>

text \<open>
  C10. The start of the server. However it ends, no device, audit entry or history entry is lost, an existing
  administrator stays, and the tunnels are what they were or the image of the old table, row by row. When
  it succeeds, the configuration is that of the environment, the identity is the one in the files, there
  is an administrator, the tunnels have no conflict, nobody is signed in or connected, and a listener is
  registered exactly for the enabled TCP and UDP tunnels.
\<close>

theorem server_main_spec:
  assumes "server_main L P io m = (r, m')"
  shows "data_kept (mc_db m) (mc_db m') \<and>
     (case r of Inl _ \<Rightarrow> True
      | Inr (x, s) \<Rightarrow>
          from_env L (si_env io) = Inr (s_config s) \<and> intact P (mc_files m') x \<and> db_admins (s_db s) \<noteq> [] \<and>
          db_devices (s_db s) = db_devices (df_db (mc_db m)) \<and> df_tunnels (mc_db m') = TableV2 (db_tunnels (s_db s)) \<and>
          pairwise_free (db_tunnels (s_db s)) \<and> s_sessions s = Map.empty \<and> s_agents s = Map.empty \<and>
          (length (db_tunnels (s_db s)) \<le> length (si_tokens io) \<longrightarrow>
             (\<exists>ts. map (row_to_tunnel L) (sort_key tr_created_at (db_tunnels (s_db s))) = map Inr ts \<and>
                (\<forall>i. s_listeners s i \<noteq> None \<longleftrightarrow> wants_listener ts i))))"
  using assms by (rule server_main_run)

text \<open>
  A restart brings the service back. When the process is stopped in any state the server can be in and
  started again on its files, every tunnel and device is there, the listeners are exactly those of the
  enabled TCP and UDP tunnels, and so every tunnel that had a listener has one.
\<close>

lemma restart_run:
  assumes "codecs_ok L" and "server_inv L s"
    and "df_tunnels (mc_db m) = TableV2 (db_tunnels (s_db s))" and "db_devices (df_db (mc_db m)) = db_devices (s_db s)"
    and "server_main L P io m = (Inr (x, s'), m')" and "length (db_tunnels (s_db s)) \<le> length (si_tokens io)"
  shows "db_tunnels (s_db s') = db_tunnels (s_db s) \<and> db_devices (s_db s') = db_devices (s_db s) \<and>
     (\<forall>i. s_listeners s' i \<noteq> None \<longleftrightarrow> served L (db_tunnels (s_db s)) i) \<and>
     (\<forall>i. s_listeners s i \<noteq> None \<longrightarrow> s_listeners s' i \<noteq> None)"
proof -
  note run = server_main_run [OF assms(5), simplified]
  have rows: "db_tunnels (s_db s') = db_tunnels (s_db s)" and devices: "db_devices (s_db s') = db_devices (s_db s)"
    using run assms(3,4) by (auto simp: data_kept_def migrated_def)
  then obtain ts where ts: "map (row_to_tunnel L) (sort_key tr_created_at (db_tunnels (s_db s))) = map Inr ts"
      "\<forall>i. s_listeners s' i \<noteq> None \<longleftrightarrow> wants_listener ts i"
    using run assms(6) by auto
  have inv: "tunnels_ok L s" "\<And>i. s_listeners s i \<noteq> None \<Longrightarrow> served L (db_tunnels (s_db s)) i"
    using assms(1,2) by (simp_all add: server_inv_def)
  have "wants_listener ts i \<longleftrightarrow> served L (db_tunnels (s_db s)) i" for i
    by (rule wants_served [OF assms(1) inv(1) ts(1)])
  then show ?thesis using rows devices ts(2) inv(2) by simp
qed


text \<open>A start on the tables of \<open>sample_busy\<close>, which migrates nothing.\<close>

definition sample_start :: start_input where
  "sample_start =
     \<lparr>si_env = sample_env, si_made = ([5, 7], [6, 8]), si_fault = None, si_parent = (\<lambda>p. True), si_open = (\<lambda>u. True),
      si_salt = [], si_now = [], si_tokens = [1, 2, 3], si_listen = (\<lambda>a. True)\<rparr>"

definition sample_machine :: machine where
  "sample_machine =
     \<lparr>mc_files = \<lparr>kd_dir = False, kd_certificate = None, kd_key = None, kd_dir_private = False, kd_key_private = False\<rparr>,
      mc_db = \<lparr>df_db = sample_database, df_tunnels = TableV2 (db_tunnels (s_db sample_busy))\<rparr>\<rparr>"

lemma proxy_codecs: "codecs_ok proxy_lib" "tunnels_ok proxy_lib s = tunnels_ok sample_lib s"
    "row_to_tunnel proxy_lib = row_to_tunnel sample_lib" "l_uuid_text proxy_lib = l_uuid_text sample_lib"
proof -
  have sel: "l_uuid_text proxy_lib = l_uuid_text sample_lib" "l_uuid_parse proxy_lib = l_uuid_parse sample_lib"
    "l_cidrs_json proxy_lib = l_cidrs_json sample_lib" "l_cidrs_parse proxy_lib = l_cidrs_parse sample_lib"
    "l_time_text proxy_lib = l_time_text sample_lib" "l_time_parse proxy_lib = l_time_parse sample_lib"
    by (simp_all add: proxy_lib_def)
  show "codecs_ok proxy_lib"
    using sample_codecs by (simp add: codecs_ok_def uuid_text_ok_def cidrs_json_ok_def sel)
  show "tunnels_ok proxy_lib s = tunnels_ok sample_lib s"
    by (simp add: tunnels_ok_def stored_def tunnel_to_row_def time_text_ok_def sel)
  show "row_to_tunnel proxy_lib = row_to_tunnel sample_lib"
    by (rule ext) (simp add: row_to_tunnel_def sel)
  show "l_uuid_text proxy_lib = l_uuid_text sample_lib" by (rule sel)
qed

lemma sample_main_files:
  assumes "load_or_create sample_pem ([5, 7], [6, 8]) None fs = (Inr x, fs')"
  shows "\<exists>s m'. server_main proxy_lib sample_pem sample_start (sample_machine\<lparr>mc_files := fs\<rparr>) = (Inr (x, s), m')"
proof -
  obtain c where c: "from_env proxy_lib sample_env = Inr c" using sample_from_env by blast
  let ?rows = "db_tunnels (s_db sample_busy)"
  let ?f = "\<lparr>df_db = sample_database, df_tunnels = TableV2 ?rows\<rparr>"
  have free: "pairwise_free ?rows" using sample_busy_ok(2) by (simp add: schema_ok_def)
  have probe: "on_file probe ?f = (Inr (), ?f)" by (simp add: on_file_def probe_def stmt_def sample_database_def)
  have six: "probes 6 sample_database = (Inr (), sample_database)"
    by (simp add: eval_nat_numeral seq_def act_simps probe_def stmt_def sample_database_def)
  then have six: "on_file (probes 6) ?f = (Inr (), ?f)" by (simp add: on_file_def)
  have mig: "migrate ?f = (Inr (), ?f)"
    using probe six free
    by (simp add: migrate_def seq_def migrate_tunnels_def migrate_tunnels_v2_def create_tunnel_indexes_def act_simps)
  have boot: "bootstrap_admin proxy_lib [] [] p sample_database = (Inr (), sample_database)" for p
    by (simp add: bootstrap_admin_def seq_def map_err_def select_def stmt_def sample_database_def act_simps)
  have con: "connect proxy_lib sample_start c ?f = (Inr (sample_database\<lparr>db_tunnels := ?rows\<rparr>), ?f)"
    by (simp add: connect_def finish_connect_def seq_def act_simps sample_start_def map_err_def probe mig boot rows_of_def
        split: option.splits)
  have read: "\<forall>r \<in> set ?rows. row_to_tunnel proxy_lib r = Inr (stored_status sample_tunnel)"
    using sample_busy_read(2) proxy_codecs(3) by (simp add: sample_busy_def)
  have one: "?rows = [tunnel_to_row sample_lib sample_tunnel]" by (simp add: sample_busy_def)
  have res: "\<exists>s. restore_listeners proxy_lib [1, 2, 3] (app_state_new c (sample_database\<lparr>db_tunnels := ?rows\<rparr>)) = (Inr (), s)"
    using read one
    by (simp add: restore_listeners_def list_all_tunnels_def seq_def act_simps db_do_def on_db_def map_err_def select_def
        stmt_def app_state_new_def) (simp add: sample_database_def act_simps)
  show ?thesis
    using c con res assms
    by (auto simp: server_main_def start_serving_def sample_start_def sample_machine_def split: prod.splits sum.splits)
qed

lemma sample_main: "\<exists>x s m'. server_main proxy_lib sample_pem sample_start sample_machine = (Inr (x, s), m')"
proof -
  have "\<exists>x d'. load_or_create sample_pem ([5, 7], [6, 8]) None (mc_files sample_machine) = (Inr x, d')"
    by (simp add: load_unfold sample_pem_def identity_of_def sample_machine_def)
  then obtain x d' where "load_or_create sample_pem ([5, 7], [6, 8]) None (mc_files sample_machine) = (Inr x, d')" by blast
  from sample_main_files [OF this] show ?thesis by auto
qed

theorem server_main_spec_witness:
  "\<exists>x s m'. server_main proxy_lib sample_pem sample_start sample_machine = (Inr (x, s), m') \<and>
     db_tunnels (s_db s) = db_tunnels (s_db sample_busy) \<and> s_agents s = Map.empty"
proof -
  obtain x s m' where run: "server_main proxy_lib sample_pem sample_start sample_machine = (Inr (x, s), m')"
    using sample_main by blast
  have kept: "migrated (df_tunnels (mc_db sample_machine)) (df_tunnels (mc_db m'))"
    using conjunct1 [OF server_main_spec [OF run]] by (simp only: data_kept_def)
  moreover have "df_tunnels (mc_db m') = TableV2 (db_tunnels (s_db s))" "s_agents s = Map.empty"
    using conjunct2 [OF server_main_spec [OF run]] by simp_all
  ultimately show ?thesis using run by (auto simp: migrated_def sample_machine_def)
qed

end
