(* ===== verification/Endpoints.thy ===== *)
theory Endpoints
  imports Server_Main Direct_Server
begin

text \<open>
  The endpoints of the direct carriers: \<open>serve\<close> and \<open>serve_inner\<close> of server/src/quic.rs and server/src/kcp.rs,
  the two tasks \<open>main\<close> starts. What quinn, rustls and kcp-tokio answer is an argument; an accepted connection is
  handed to a task of its own, \<open>quic_accept\<close> or \<open>kcp_run_stream\<close>.
\<close>

section \<open>The set-up\<close>

text \<open>Whether the library takes the certificate with the key, and whether a UDP port can be bound.\<close>

record endpoint_env =
  ee_pair_ok :: "bytes \<Rightarrow> bytes \<Rightarrow> bool"
  ee_bind :: "u16 \<Rightarrow> bool"

datatype serve_error = IdentityUnusable identity_error | PairRefused | BindFailed | AcceptFailed

definition serve_setup ::
  "pem_lib \<Rightarrow> endpoint_env \<Rightarrow> transport_identity option \<Rightarrow> u16 \<Rightarrow> serve_error + unit" where
  "serve_setup P ee identity port =
     andThen (map_sum IdentityUnusable id (certificate identity)) (\<lambda>der.
     andThen (map_sum IdentityUnusable id (private_key P identity)) (\<lambda>key.
     andThen (ensure (ee_pair_ok ee der key) PairRefused) (\<lambda>_.
     ensure (ee_bind ee port) BindFailed)))"

text \<open>An endpoint that ends with an error is counted as a failure, and the server goes on without it.\<close>

definition serve_ended :: "serve_error + unit \<Rightarrow> app_state \<Rightarrow> app_state" where
  "serve_ended r s = (case r of Inl e \<Rightarrow> count (\<lambda>k. k\<lparr>k_failed := k_failed k + 1\<rparr>) s | Inr _ \<Rightarrow> s)"

section \<open>The accept loops\<close>

text \<open>QUIC: every incoming connection gets its task; whether the handshake succeeds is the task's business.\<close>

definition quic_serve ::
  "pem_lib \<Rightarrow> endpoint_env \<Rightarrow> transport_identity option \<Rightarrow> 'c list \<Rightarrow> app_state \<Rightarrow> 'c list \<times> app_state" where
  "quic_serve P ee identity incoming s =
     (case serve_setup P ee identity (c_quic_listen_port (s_config s)) of
        Inl e \<Rightarrow> ([], serve_ended (Inl e) s)
      | Inr _ \<Rightarrow> (incoming, serve_ended (Inr ()) s))"

text \<open>KCP: an accept that fails ends the loop, \<open>None\<close> here; the events are all there are so far.\<close>

fun kcp_accept_loop :: "'c option list \<Rightarrow> 'c list \<times> (serve_error + unit)" where
  "kcp_accept_loop [] = ([], Inr ())"
| "kcp_accept_loop (None # es) = ([], Inl AcceptFailed)"
| "kcp_accept_loop (Some c # es) = (case kcp_accept_loop es of (cs, r) \<Rightarrow> (c # cs, r))"

definition kcp_serve ::
  "pem_lib \<Rightarrow> endpoint_env \<Rightarrow> transport_identity option \<Rightarrow> 'c option list \<Rightarrow> app_state \<Rightarrow> 'c list \<times> app_state" where
  "kcp_serve P ee identity events s =
     (case serve_setup P ee identity (c_kcp_port (s_config s)) of
        Inl e \<Rightarrow> ([], serve_ended (Inl e) s)
      | Inr _ \<Rightarrow> (case kcp_accept_loop events of (cs, r) \<Rightarrow> (cs, serve_ended r s)))"

text \<open>The task of a KCP connection: the TLS handshake, whose stream is \<open>None\<close> when it fails, and the session.\<close>

definition kcp_connection :: "lib \<Rightarrow> direct_env \<Rightarrow> bytes option \<Rightarrow> app_state \<Rightarrow> session_end option \<times> app_state" where
  "kcp_connection L env stream s =
     (case stream of
        None \<Rightarrow> (None, s)
      | Some inp \<Rightarrow> (case kcp_run_stream L env inp s of (e, s') \<Rightarrow> (Some e, s')))"

section \<open>What the endpoints do\<close>

lemma accept_loop_prefix:
  "kcp_accept_loop es = (map the (takeWhile (\<lambda>e. e \<noteq> None) es), if None \<in> set es then Inl AcceptFailed else Inr ())"
  by (induction es rule: kcp_accept_loop.induct) auto

lemma setup_iff:
  "serve_setup P ee (Some x) port = Inr u \<longleftrightarrow>
     (\<exists>key. pm_private_key P (ti_private_key_pem x) = Some (Inr key) \<and> ee_pair_ok ee (ti_certificate x) key \<and> ee_bind ee port)"
  by (auto simp: serve_setup_def certificate_def private_key_def ensure_def split: option.splits sum.splits)

lemma serve_ended_fields:
  "serve_ended r s = s\<lparr>s_counters := (s_counters s)\<lparr>k_failed := k_failed (s_counters s) + (if isl r then 1 else 0)\<rparr>\<rparr>"
  by (cases r) (simp_all add: serve_ended_def count_def)

text \<open>An endpoint can be set up: the key file holds a key, it belongs to the certificate, the port is free.\<close>

definition endpoint_usable :: "pem_lib \<Rightarrow> endpoint_env \<Rightarrow> transport_identity \<Rightarrow> u16 \<Rightarrow> bool" where
  "endpoint_usable P ee x port \<longleftrightarrow>
     (case pm_private_key P (ti_private_key_pem x) of
        Some (Inr key) \<Rightarrow> ee_pair_ok ee (ti_certificate x) key \<and> ee_bind ee port
      | _ \<Rightarrow> False)"

lemma setup_usable:
  "endpoint_usable P ee x port \<Longrightarrow> serve_setup P ee (Some x) port = Inr ()"
  "\<not> endpoint_usable P ee x port \<Longrightarrow> \<exists>e. serve_setup P ee (Some x) port = Inl e"
  by (auto simp: serve_setup_def certificate_def private_key_def endpoint_usable_def ensure_def split: option.splits sum.splits)

text \<open>One more failure in the metrics, and nothing else.\<close>

definition one_failure :: "app_state \<Rightarrow> app_state" where
  "one_failure s = s\<lparr>s_counters := (s_counters s)\<lparr>k_failed := k_failed (s_counters s) + 1\<rparr>\<rparr>"

text \<open>
  The direct carriers of a server with an identity. An endpoint is up exactly if the key file holds a key, the
  key belongs to the certificate and the port is free. QUIC then hands every connection to its task; KCP hands
  over those before the first accept that fails, and none after it. Whatever goes wrong is one more failure in
  the metrics and changes nothing else: tunnels, sessions and the HTTP interface go on.
\<close>

theorem endpoints_serve:
  "quic_serve P ee (Some x) incoming s =
       (if endpoint_usable P ee x (c_quic_listen_port (s_config s)) then (incoming, s) else ([], one_failure s)) \<and>
     kcp_serve P ee (Some x) events s =
       (if endpoint_usable P ee x (c_kcp_port (s_config s))
        then (map the (takeWhile (\<lambda>e. e \<noteq> None) events), if None \<in> set events then one_failure s else s)
        else ([], one_failure s))"
  using setup_usable [of P ee x "c_quic_listen_port (s_config s)"] setup_usable [of P ee x "c_kcp_port (s_config s)"]
  by (auto simp: quic_serve_def kcp_serve_def accept_loop_prefix serve_ended_def count_def one_failure_def)

section \<open>A key that was cut off\<close>

text \<open>
  The starts of a server on one machine: the identity files are as the last start left them, the database is
  what the run in between made of it.
\<close>

fun server_starts ::
  "lib \<Rightarrow> pem_lib \<Rightarrow> (start_input \<times> database_file) list \<Rightarrow> machine \<Rightarrow>
     (start_error + transport_identity \<times> app_state) list \<times> machine" where
  "server_starts L P [] m = ([], m)"
| "server_starts L P ((io, f) # ios) m =
     (case server_main L P io (m\<lparr>mc_db := f\<rparr>) of
        (r, m1) \<Rightarrow> (case server_starts L P ios m1 of (rs, m2) \<Rightarrow> (r # rs, m2)))"

lemma server_main_identity:
  assumes "server_main L P io m = (r, m')" "kd_certificate (mc_files m) = Some c" "kd_key (mc_files m) = Some k"
  shows "kd_certificate (mc_files m') = Some c \<and> kd_key (mc_files m') = Some k \<and>
     (\<forall>x s. r = Inr (x, s) \<longrightarrow> identity_of P c k = Inr x)"
proof -
  obtain rx fs where l: "load_or_create P (si_made io) (si_fault io) (mc_files m) = (rx, fs)"
    by (cases "load_or_create P (si_made io) (si_fault io) (mc_files m)")
  have pair: "map_sum id (Pair y) z = Inr (x, s) \<Longrightarrow> y = x" for y x :: transport_identity and z :: "start_error + app_state" and s
    by (cases z) auto
  from load_present [OF assms(2,3) l] assms l show ?thesis
    by (auto simp: server_main_def dest: pair split: sum.splits prod.splits)
qed

lemma server_starts_identity:
  "server_starts L P ios m = (rs, m') \<Longrightarrow> kd_certificate (mc_files m) = Some c \<Longrightarrow> kd_key (mc_files m) = Some k \<Longrightarrow>
     Inr (x, s) \<in> set rs \<Longrightarrow> identity_of P c k = Inr x"
proof (induction ios arbitrary: m rs m')
  case (Cons a ios)
  obtain io f where a: "a = (io, f)" by (cases a)
  obtain r m1 where r: "server_main L P io (m\<lparr>mc_db := f\<rparr>) = (r, m1)" by (cases "server_main L P io (m\<lparr>mc_db := f\<rparr>)")
  obtain rs2 m2 where rest: "server_starts L P ios m1 = (rs2, m2)" by (cases "server_starts L P ios m1")
  have first: "kd_certificate (mc_files m1) = Some c" "kd_key (mc_files m1) = Some k"
      "\<forall>x s. r = Inr (x, s) \<longrightarrow> identity_of P c k = Inr x"
    using server_main_identity [OF r, of c k] Cons.prems(2,3) by simp_all
  have "rs = r # rs2" using Cons.prems(1) a r rest by simp
  then show ?case using Cons.IH [OF rest first(1,2)] first(3) Cons.prems(4) by auto
qed simp

text \<open>
  C34. A start that is cut off while it writes the key, as on a full disk. When the part that was written holds no
  key, every later start of the server that succeeds has the certificate of that first start and hands it out to
  the desktops, and neither QUIC nor KCP accepts a connection, whatever ports are free: nothing ever makes a
  new pair, and only the WebSocket carrier is left.
\<close>

theorem cut_key_no_direct_carriers:
  assumes "server_main L P io m = (Inl (IdentityFailed e), m1)" and "mc_files m = no_files"
    and "si_made io = (pem, key)" and "si_fault io = Some (KeyWriteFault n)"
    and "\<forall>k. pm_private_key P (take n key) \<noteq> Some (Inr k)"
    and "server_starts L P ios m1 = (rs, m2)" and "Inr (x, s) \<in> set rs"
  shows "pm_first_cert P pem = Some (Inr (ti_certificate x)) \<and> fingerprint (Some x) = pm_sha256_hex P (ti_certificate x) \<and>
     quic_serve P ee (Some x) incoming s = ([], one_failure s) \<and> kcp_serve P ee2 (Some x) events s = ([], one_failure s)"
proof -
  have "kd_certificate (mc_files m1) = Some pem" "kd_key (mc_files m1) = Some (take n key)"
    using assms(1-4) by (auto simp: server_main_def load_unfold split: sum.splits prod.splits if_splits)
  from server_starts_identity [OF assms(6) this assms(7)]
  have x: "pm_first_cert P pem = Some (Inr (ti_certificate x))" "ti_private_key_pem x = take n key"
      "ti_fingerprint x = pm_sha256_hex P (ti_certificate x)"
    by (auto simp: identity_of_Inr)
  have "\<not> endpoint_usable P ee' x port" for ee' port
    using assms(5) x(2) by (auto simp: endpoint_usable_def split: option.splits sum.splits)
  then have "\<exists>err. serve_setup P ee' (Some x) port = Inl err" for ee' port by (rule setup_usable(2))
  then obtain e1 e2 where "serve_setup P ee (Some x) (c_quic_listen_port (s_config s)) = Inl e1"
      "serve_setup P ee2 (Some x) (c_kcp_port (s_config s)) = Inl e2" by blast
  then show ?thesis using x by (simp add: quic_serve_def kcp_serve_def serve_ended_def count_def one_failure_def fingerprint_def)
qed

text \<open>The first start of \<open>sample_machine\<close> writes one byte of the key; the second one succeeds.\<close>

theorem cut_key_no_direct_carriers_witness:
  "\<exists>e m1 x s m2. server_main proxy_lib sample_pem (sample_start\<lparr>si_fault := Some (KeyWriteFault 1)\<rparr>) sample_machine =
       (Inl (IdentityFailed e), m1) \<and>
     server_starts proxy_lib sample_pem [(sample_start, mc_db sample_machine)] m1 = ([Inr (x, s)], m2) \<and>
     fst (quic_serve sample_pem \<lparr>ee_pair_ok = (\<lambda>der key. True), ee_bind = (\<lambda>p. True)\<rparr> (Some x) [()] s) = []"
proof -
  let ?io = "sample_start\<lparr>si_fault := Some (KeyWriteFault 1)\<rparr>"
  let ?ee = "\<lparr>ee_pair_ok = (\<lambda>der key. True), ee_bind = (\<lambda>p. True)\<rparr>"
  obtain c where c: "from_env proxy_lib sample_env = Inr c" using sample_from_env by blast
  have files: "mc_files sample_machine = no_files" by (simp add: sample_machine_def no_files_def)
  have "\<exists>e d1 x d2. load_or_create sample_pem ([5, 7], [6, 8]) (Some (KeyWriteFault 1)) no_files = (Inl e, d1) \<and>
      load_or_create sample_pem ([5, 7], [6, 8]) None d1 = (Inr x, d2)"
    by (simp add: load_unfold sample_pem_def identity_of_def)
  then obtain e d1 x d2 where r: "load_or_create sample_pem ([5, 7], [6, 8]) (Some (KeyWriteFault 1)) no_files = (Inl e, d1)"
      "load_or_create sample_pem ([5, 7], [6, 8]) None d1 = (Inr x, d2)" by blast
  let ?m1 = "sample_machine\<lparr>mc_files := d1\<rparr>"
  have first: "server_main proxy_lib sample_pem ?io sample_machine = (Inl (IdentityFailed e), ?m1)"
    using c r(1) by (simp add: server_main_def sample_start_def files)
  obtain s m2 where second: "server_main proxy_lib sample_pem sample_start ?m1 = (Inr (x, s), m2)"
    using sample_main_files [OF r(2)] by blast
  have later: "server_starts proxy_lib sample_pem [(sample_start, mc_db sample_machine)] ?m1 = ([Inr (x, s)], m2)"
    using second by simp
  have made: "si_made ?io = ([5, 7], [6, 8])" "si_fault ?io = Some (KeyWriteFault 1)" by (simp_all add: sample_start_def)
  have cut: "\<forall>k. pm_private_key sample_pem (take 1 [6, 8]) \<noteq> Some (Inr k)" by (simp add: sample_pem_def)
  have "fst (quic_serve sample_pem ?ee (Some x) [()] s) = []"
    using cut_key_no_direct_carriers
      [OF first files made cut later list.set_intros(1), where ee = ?ee and incoming = "[()]",
        THEN conjunct2, THEN conjunct2, THEN conjunct1]
    by simp
  then show ?thesis using first later by blast
qed

end
