(* ===== verification/Wss_Server.thy ===== *)
theory Wss_Server
  imports Api_Facts Direct_Server
begin

text \<open>
  A WebSocket carrier on the server: \<open>agent_carrier\<close> and \<open>run_control_socket\<close> in server/src/api.rs, from the
  authorised upgrade to the end of the session, and its agreement with the direct carriers. The input is the
  messages of the socket up to its end or failure; the environment is that of a direct session.
\<close>

section \<open>The reader\<close>

text \<open>\<open>WsOther\<close>: a ping or pong of the WebSocket protocol.\<close>

datatype ws_message = WsText bytes | WsBinary bytes | WsClose | WsOther

text \<open>One message, as for a record of a direct carrier; the flag tells whether the loop goes on.\<close>

definition ws_event ::
  "lib \<Rightarrow> direct_env \<Rightarrow> nat \<Rightarrow> uuid \<Rightarrow> ws_message \<Rightarrow> app_state \<Rightarrow> app_state + bool \<times> app_state" where
  "ws_event L env k agent m s =
     (case m of
        WsText t \<Rightarrow> Inr (wss_message L (de_now env k) agent (de_session env) (l_msg_parse L t) s)
      | WsBinary f \<Rightarrow> map_sum id (Pair True) (await_room L (de_now env k) agent (de_session env) (1, f) (de_wait env k) s)
      | WsClose \<Rightarrow> Inr (False, s)
      | WsOther \<Rightarrow> Inr (True, s))"

fun wss_loop ::
  "lib \<Rightarrow> direct_env \<Rightarrow> uuid \<Rightarrow> nat \<Rightarrow> ws_message list \<Rightarrow> app_state \<Rightarrow> loop_end \<times> app_state" where
  "wss_loop L env agent k [] s0 = (LoopLeft, de_others env k s0)"
| "wss_loop L env agent k (m # ms) s0 =
     (let s = de_others env k s0 in
      if de_cancel env k \<and> de_token env \<in> s_cancelled s then (LoopLeft, s)
      else case ws_event L env k agent m s of
             Inl s' \<Rightarrow> (LoopHeld, s')
           | Inr (True, s') \<Rightarrow> wss_loop L env agent (Suc k) ms s'
           | Inr (False, s') \<Rightarrow> (LoopLeft, s'))"

section \<open>The session\<close>

definition run_control_socket ::
  "lib \<Rightarrow> direct_env \<Rightarrow> uuid \<Rightarrow> ws_message list \<Rightarrow> app_state \<Rightarrow> loop_end \<times> app_state" where
  "run_control_socket L env agent ms s =
     (case wss_loop L env agent 0 ms (open_wss L agent (de_session env) (de_token env) (de_utc env) s) of
        (LoopHeld, s') \<Rightarrow> (LoopHeld, s')
      | (LoopLeft, s') \<Rightarrow> (LoopLeft, close_carrier TWss agent (de_session env) s'))"

definition agent_carrier ::
  "lib \<Rightarrow> direct_env \<Rightarrow> headers \<Rightarrow> ws_message list \<Rightarrow> (app_state, app_error, device_identity \<times> loop_end) act" where
  "agent_carrier L env h ms =
     seq (require_device L h) (\<lambda>agent s.
       case run_control_socket L env (di_id agent) ms s of (e, s') \<Rightarrow> (Inr (agent, e), s'))"

text \<open>One round of the writer task; \<open>None\<close>: nothing to write.\<close>

definition wss_writer :: "lib \<Rightarrow> uuid \<Rightarrow> bool \<Rightarrow> app_state \<Rightarrow> (wire \<times> app_state) option" where
  "wss_writer L sid control s = direct_writer L TWss sid control False s"

section \<open>The three carriers agree\<close>

text \<open>The message that stands for a record, and a Hello of another protocol version.\<close>

fun ws_of :: "u8 \<times> bytes \<Rightarrow> ws_message" where
  "ws_of (kind, p) = (if kind = 1 then WsBinary p else WsText p)"

definition foreign_hello :: "lib \<Rightarrow> u8 \<times> bytes \<Rightarrow> bool" where
  "foreign_hello L r \<longleftrightarrow>
     fst r \<noteq> 1 \<and> (case l_msg_parse L (snd r) of Some (Hello v d n c a) \<Rightarrow> v \<noteq> PROTOCOL_VERSION | _ \<Rightarrow> False)"

lemma await_control: "fst r \<noteq> 1 \<Longrightarrow> await_room L now agent sid r ws s =
    Inr (case l_msg_parse L (snd r) of None \<Rightarrow> s | Some m \<Rightarrow> direct_message L now agent sid m s)"
  by (cases ws) (simp_all add: direct_record_def split: option.splits)

lemma ws_event_agrees:
  "\<not> foreign_hello L r \<Longrightarrow> ws_event L env k agent (ws_of r) s =
     map_sum id (Pair True) (await_room L (de_now env k) agent (de_session env) r (de_wait env k) s)"
  by (cases r)
    (auto simp: ws_event_def await_control foreign_hello_def wss_message_def direct_message_def
      split: option.splits agent_control_message.splits)

lemma carriers_agree_upto:
  "\<forall>r \<in> set rs. \<not> foreign_hello L r \<Longrightarrow> wss_loop L env agent k (map ws_of rs) s = handle_records L env agent k rs s"
proof (induction rs arbitrary: k s)
  case (Cons r rs)
  then have r: "\<not> foreign_hello L r" by simp
  show ?case using Cons by (simp add: ws_event_agrees [OF r] Let_def split: sum.splits)
qed simp

text \<open>
  C15. The carriers are interchangeable. The same control messages and frames, sent as records over QUIC or KCP or
  as messages over a WebSocket, have the same effect on the server and end in the same way, whatever other
  tasks do in between and whenever the session is cancelled; excepted is only a Hello of another protocol
  version, which ends a WebSocket session and is ignored by a direct carrier.
\<close>

theorem carriers_agree:
  assumes "\<forall>(kind, p) \<in> set rs. length p \<le> MAX_RECORD" and "\<forall>r \<in> set rs. \<not> foreign_hello L r"
  shows "wss_loop L env agent 0 (map ws_of rs) s = direct_loop L env agent 0 (stream_of be_put_u32 rs) s"
  using carriers_agree_upto [OF assms(2)] be.read_all_written [OF MAX_RECORD_small assms(1)] by (simp add: loop_handles)

theorem carriers_agree_witness:
  "wss_loop sample_lib sample_direct 7 0 [WsBinary [4, 5], WsBinary [6]] sample_state =
     direct_loop sample_lib sample_direct 7 0 (stream_of be_put_u32 [(1, [4, 5]), (1, [6])]) sample_state"
proof -
  let ?rs = "[(1, [4, 5]), (1, [6])] :: (u8 \<times> bytes) list"
  have "\<forall>(kind, p) \<in> set ?rs. length p \<le> MAX_RECORD" "\<forall>r \<in> set ?rs. \<not> foreign_hello sample_lib r"
    by (simp_all add: MAX_RECORD_def foreign_hello_def)
  from carriers_agree [OF this] show ?thesis by (simp del: wss_loop.simps stream_of_simps)
qed

lemma foreign_hello_ends:
  assumes "foreign_hello L r" and "\<not> (de_cancel env k \<and> de_token env \<in> s_cancelled (de_others env k s))"
  shows "fst (wss_loop L env agent k (ws_of r # later) s) = LoopLeft"
    and "handle_records L env agent k (r # rs) s = handle_records L env agent (Suc k) rs (de_others env k s)"
proof -
  obtain kind p v d n c a where r: "r = (kind, p)" "kind \<noteq> 1" "l_msg_parse L p = Some (Hello v d n c a)" "v \<noteq> PROTOCOL_VERSION"
    using assms(1) by (cases r) (auto simp: foreign_hello_def split: option.splits agent_control_message.splits)
  show "fst (wss_loop L env agent k (ws_of r # later) s) = LoopLeft"
    using r assms(2) by (simp add: Let_def ws_event_def wss_message_def)
  show "handle_records L env agent k (r # rs) s = handle_records L env agent (Suc k) rs (de_others env k s)"
    using r assms(2) by (auto simp: Let_def await_control direct_message_def)
qed

section \<open>What a session leaves behind\<close>

lemma ws_event_same:
  assumes "quiet_env env" "ws_event L env k agent m s = x"
  shows "carrier_same s (case x of Inl s' \<Rightarrow> s' | Inr (go, s') \<Rightarrow> s')"
proof (cases m)
  case (WsText t)
  then show ?thesis using assms(2) message_same(2) by (auto simp: ws_event_def split: prod.splits) (metis snd_conv)+
next
  case (WsBinary f)
  have "carrier_same s (case_sum id id (await_room L (de_now env k) agent (de_session env) (1, f) (de_wait env k) s))"
    using assms(1) by (intro await_room_same) (simp add: quiet_env_def)
  then show ?thesis
    using assms(2) WsBinary
    by (cases "await_room L (de_now env k) agent (de_session env) (1, f) (de_wait env k) s") (auto simp: ws_event_def)
qed (use assms(2) in \<open>auto simp: ws_event_def\<close>)

lemma wss_loop_same: "quiet_env env \<Longrightarrow> wss_loop L env agent k ms s = (e, s') \<Longrightarrow> carrier_same s s'"
proof (induction ms arbitrary: k s)
  case Nil
  then show ?case by (auto simp: quiet_env_def)
next
  case (Cons m ms)
  let ?s = "de_others env k s"
  have q: "carrier_same s ?s" using Cons.prems(1) by (simp add: quiet_env_def)
  show ?case
  proof (cases "de_cancel env k \<and> de_token env \<in> s_cancelled ?s")
    case True
    then show ?thesis using Cons.prems(2) q by simp
  next
    case False
    note same = ws_event_same [OF Cons.prems(1), where L = L and k = k and agent = agent and m = m and s = ?s, OF refl]
    show ?thesis
    proof (cases "ws_event L env k agent m ?s")
      case (Inl s1)
      then show ?thesis using same Cons.prems(2) False q carrier_same_trans by (auto simp: Let_def)
    next
      case (Inr x)
      obtain go s1 where x: "x = (go, s1)" by (cases x)
      have s1: "carrier_same s s1" using same Inr x q carrier_same_trans by auto
      show ?thesis
      proof (cases go)
        case True
        then have "wss_loop L env agent (Suc k) ms s1 = (e, s')" using Cons.prems(2) False Inr x by (simp add: Let_def)
        then show ?thesis using Cons.IH [OF Cons.prems(1)] s1 carrier_same_trans by blast
      next
        case False
        then show ?thesis
          using s1 Cons.prems(2) Inr x \<open>\<not> (de_cancel env k \<and> de_token env \<in> s_cancelled ?s)\<close> by (simp add: Let_def)
      qed
    qed
  qed
qed

text \<open>
  What a WebSocket carrier leaves behind. A request without the token of a device that is there and not revoked
  opens no session and changes nothing. When a session has ended, for whatever reason, none of its
  channels is left and its agent is not registered with it; and if no other session of the agent took over,
  the agent is offline and the gauges are what they were.
\<close>

theorem wss_session_leaves:
  assumes "agent_carrier L env h ms s = (r, s')"
  shows "case r of
       Inl e \<Rightarrow> untouched s s'
     | Inr (d, LoopHeld) \<Rightarrow> quiet_env env \<longrightarrow> s_agents s' (di_id d) =
         Some \<lparr>ap_session_id = de_session env, ap_transport = TWss, ap_cancellation = de_token env\<rparr>
     | Inr (d, LoopLeft) \<Rightarrow> s_ctl s' (de_session env) = None \<and> s_bin s' (de_session env) = None \<and>
         (\<forall>p. s_agents s' (di_id d) = Some p \<longrightarrow> ap_session_id p \<noteq> de_session env) \<and>
         (quiet_env env \<longrightarrow> s_agents s' = (s_agents s)(di_id d := None) \<and>
            (\<forall>t. gauge t (s_counters s') = gauge t (s_counters s)))"
proof -
  obtain r1 s1 where q: "require_device L h s = (r1, s1)" by (cases "require_device L h s")
  have un: "untouched s s1" using readsD [OF reads_require_device q] .
  show ?thesis
  proof (cases r1)
    case (Inl e)
    then show ?thesis using assms q un by (auto simp: agent_carrier_def seq_def)
  next
    case (Inr d)
    let ?o = "open_wss L (di_id d) (de_session env) (de_token env) (de_utc env) s1"
    obtain le s2 where l: "wss_loop L env (di_id d) 0 ms ?o = (le, s2)" by (cases "wss_loop L env (di_id d) 0 ms ?o")
    have same: "quiet_env env \<Longrightarrow> carrier_same ?o s2" using wss_loop_same [OF _ l] .
    have base: "s_agents s1 = s_agents s" "s_counters s1 = s_counters s" using un by (auto simp: untouched_def)
    have e: "(r, s') = (Inr (d, le), case le of LoopHeld \<Rightarrow> s2 | LoopLeft \<Rightarrow> close_carrier TWss (di_id d) (de_session env) s2)"
      using assms q Inr l by (cases le) (auto simp: agent_carrier_def seq_def run_control_socket_def)
    show ?thesis
    proof (cases le)
      case LoopHeld
      then show ?thesis using e same by (auto simp: carrier_same_def open_wss_effect)
    next
      case LoopLeft
      have qu: "s_agents s' = (s_agents s)(di_id d := None) \<and> (\<forall>t. gauge t (s_counters s') = gauge t (s_counters s))"
        if "quiet_env env"
        using e LoopLeft close_restores [OF same [OF that], of s] base by (simp add: open_wss_effect)
      show ?thesis using e LoopLeft close_leaves qu by auto
    qed
  qed
qed

text \<open>The device of \<open>sample_state\<close> connects and closes its socket.\<close>

lemma sample_device_call:
  "require_device sample_lib [(lit ''authorization'', Some (lit ''Bearer token''))] sample_state =
     (Inr \<lparr>di_id = 7, di_name = lit ''laptop''\<rparr>, sample_state)"
proof -
  have h: "header_str [(lit ''authorization'', Some (lit ''Bearer token''))] ''authorization'' =
      Some (lit ''Bearer '' @ lit ''token'')"
    by (simp add: header_str_def header_get_def lit_def)
  show ?thesis
    by (simp add: require_device_def h seq_def act_simps db_do_def on_db_def map_err_def device_by_token_def select_def stmt_def)
      (simp add: sample_database_def sample_device_def hash_token_def sample_lib_def as_bytes_def lit_def utf8.simps act_simps)
qed

theorem wss_session_leaves_witness:
  "\<exists>s'. agent_carrier sample_lib sample_direct [(lit ''authorization'', Some (lit ''Bearer token''))] [WsOther, WsClose] sample_state =
       (Inr (\<lparr>di_id = 7, di_name = lit ''laptop''\<rparr>, LoopLeft), s') \<and>
     s_agents s' = Map.empty \<and> s_ctl s' 3 = None"
proof -
  have "\<exists>s'. agent_carrier sample_lib sample_direct [(lit ''authorization'', Some (lit ''Bearer token''))] [WsOther, WsClose] sample_state =
       (Inr (\<lparr>di_id = 7, di_name = lit ''laptop''\<rparr>, LoopLeft), s')"
    by (simp add: agent_carrier_def seq_def sample_device_call run_control_socket_def ws_event_def Let_def sample_direct_def)
  then obtain s' where run: "agent_carrier sample_lib sample_direct [(lit ''authorization'', Some (lit ''Bearer token''))]
      [WsOther, WsClose] sample_state = (Inr (\<lparr>di_id = 7, di_name = lit ''laptop''\<rparr>, LoopLeft), s')" by blast
  have "quiet_env sample_direct" by (simp add: quiet_env_def sample_direct_def)
  then show ?thesis using wss_session_leaves [OF run] run by (intro exI [of _ s']) (simp add: sample_direct_def)
qed

end
