(* ===== verification/Router.thy ===== *)
theory Router
  imports Wss_Server Api_Properties
begin

text \<open>
  The HTTP interface as a whole: \<open>router\<close> in server/src/api.rs, from the request on the wire to the handler and
  its answer, and what a caller without any credential can do with it.
\<close>

section \<open>Requests and surroundings\<close>

record http_in =
  hi_method :: http_method
  hi_path :: ustr
  hi_query :: ustr
  hi_headers :: headers
  hi_peer :: ipaddr
  hi_body :: bytes
  hi_uri :: ustr

text \<open>
  The extractors of axum with \<open>serde\<close>: \<open>Inl\<close> is the status of a refusal. A path segment is decoded to an id.
\<close>

record extractors =
  ex_id :: "ustr \<Rightarrow> uuid option"
  ex_login :: "headers \<Rightarrow> bytes \<Rightarrow> nat + login_request"
  ex_password :: "headers \<Rightarrow> bytes \<Rightarrow> nat + change_password_request"
  ex_device :: "headers \<Rightarrow> bytes \<Rightarrow> nat + create_device_request"
  ex_create :: "headers \<Rightarrow> bytes \<Rightarrow> nat + create_tunnel_request"
  ex_update :: "headers \<Rightarrow> bytes \<Rightarrow> nat + update_tunnel_request"
  ex_limit :: "ustr \<Rightarrow> nat + u16 option"
  ex_domain :: "ustr \<Rightarrow> nat + ustr"
  ex_upgrade :: "headers \<Rightarrow> nat + unit"

text \<open>What a handler takes from outside: clocks, fresh ids and secrets, the network and other tasks.\<close>

record surroundings =
  su_now :: instant
  su_utc :: utc
  su_audit_utc :: utc
  su_session_id :: ustr
  su_csrf :: ustr
  su_salt :: bytes
  su_id :: uuid
  su_token :: ustr
  su_listener :: nat
  su_others :: "app_state \<Rightarrow> app_state"
  su_identity :: "transport_identity option"
  su_base64 :: "bytes \<Rightarrow> ustr"
  su_direct :: direct_env
  su_socket :: "ws_message list"
  su_conn :: conn_input
  su_exchange :: "uuid \<Rightarrow> ustr \<Rightarrow> headers \<Rightarrow> nat option"
  su_parse_uri :: "ustr \<Rightarrow> ustr option"

section \<open>The routes\<close>

datatype endpoint =
    Health | Ready | PublicMetrics | Login login_request | Admin admin_call
  | AgentList | AgentCreate create_tunnel_request | AgentUpdate uuid update_tunnel_request | AgentDelete uuid
  | AgentCarrier | AgentEnrollment | TlsAsk ustr | WebProxy

text \<open>A route serves the methods it names, HEAD like GET; an extractor runs once the method is served.\<close>

type_synonym method_routes = "(http_method \<times> (nat + endpoint)) list"

definition by_method :: "method_routes \<Rightarrow> http_method \<Rightarrow> nat + endpoint" where
  "by_method hs m = (case map_of hs (if m = HEAD then GET else m) of None \<Rightarrow> Inl 405 | Some e \<Rightarrow> e)"

definition fixed_routes :: "extractors \<Rightarrow> surroundings \<Rightarrow> http_in \<Rightarrow> (ustr \<times> method_routes) list" where
  "fixed_routes X v r =
     (let h = hi_headers r; b = hi_body r in
      [(lit ''/healthz'', [(GET, Inr Health)]),
       (lit ''/readyz'', [(GET, Inr Ready)]),
       (lit ''/metrics'', [(GET, Inr PublicMetrics)]),
       (lit ''/api/v1/auth/login'', [(POST, map_sum id Login (ex_login X h b))]),
       (lit ''/api/v1/auth/logout'', [(POST, Inr (Admin Logout))]),
       (lit ''/api/v1/auth/me'', [(GET, Inr (Admin Me))]),
       (lit ''/api/v1/admin/devices'',
         [(GET, Inr (Admin ListDevices)),
          (POST, map_sum id (\<lambda>q. Admin (CreateDevice (su_id v) (su_token v) q)) (ex_device X h b))]),
       (lit ''/api/v1/admin/tunnels'', [(GET, Inr (Admin ListTunnels))]),
       (lit ''/api/v1/admin/connections'', [(GET, Inr (Admin ListConnections))]),
       (lit ''/api/v1/admin/audit'', [(GET, map_sum id (\<lambda>n. Admin (ListAudit n)) (ex_limit X (hi_query r)))]),
       (lit ''/api/v1/admin/metrics'', [(GET, Inr (Admin Metrics))]),
       (lit ''/api/v1/admin/settings'', [(GET, Inr (Admin Settings))]),
       (lit ''/api/v1/admin/password'', [(PATCH, map_sum id (\<lambda>q. Admin (Password (su_salt v) q)) (ex_password X h b))]),
       (lit ''/api/v1/agent/tunnels'',
         [(GET, Inr AgentList), (POST, map_sum id AgentCreate (ex_create X h b))]),
       (lit ''/api/v2/agent/carrier'', [(GET, map_sum id (\<lambda>_. AgentCarrier) (ex_upgrade X h))]),
       (lit ''/api/v1/agent/enrollment'', [(GET, Inr AgentEnrollment)]),
       (lit ''/api/v1/internal/tls/ask'', [(GET, map_sum id TlsAsk (ex_domain X (hi_query r)))])])"

definition with_id :: "extractors \<Rightarrow> ustr \<Rightarrow> (uuid \<Rightarrow> nat + endpoint) \<Rightarrow> nat + endpoint" where
  "with_id X text_id k = (case ex_id X text_id of None \<Rightarrow> Inl 400 | Some i \<Rightarrow> k i)"

text \<open>The routes with an id: what comes before and after the segment of the id.\<close>

definition id_routes :: "extractors \<Rightarrow> surroundings \<Rightarrow> http_in \<Rightarrow> (ustr \<times> ustr \<times> (ustr \<Rightarrow> method_routes)) list" where
  "id_routes X v r =
     (let h = hi_headers r; b = hi_body r in
      [(lit ''/api/v1/admin/devices/'', [], \<lambda>t. [(DELETE, with_id X t (\<lambda>i. Inr (Admin (RevokeDevice i))))]),
       (lit ''/api/v1/admin/devices/'', lit ''/permanent'', \<lambda>t. [(DELETE, with_id X t (\<lambda>i. Inr (Admin (DeleteDevice i))))]),
       (lit ''/api/v1/admin/tunnels/'', [],
         \<lambda>t. [(PATCH, with_id X t (\<lambda>i. map_sum id (\<lambda>q. Admin (UpdateTunnel (su_listener v) (su_others v) i q)) (ex_update X h b))),
              (DELETE, with_id X t (\<lambda>i. Inr (Admin (DeleteTunnel i))))]),
       (lit ''/api/v1/agent/tunnels/'', [],
         \<lambda>t. [(PATCH, with_id X t (\<lambda>i. map_sum id (AgentUpdate i) (ex_update X h b))),
              (DELETE, with_id X t (\<lambda>i. Inr (AgentDelete i)))])])"

definition id_segment :: "ustr \<Rightarrow> ustr \<Rightarrow> ustr \<Rightarrow> ustr option" where
  "id_segment before after path =
     (case Option.bind (strip_prefix before path) (strip_suffix after) of
        Some t \<Rightarrow> if t \<noteq> [] \<and> 47 \<notin> set t then Some t else None
      | None \<Rightarrow> None)"

fun match_id :: "(ustr \<times> ustr \<times> (ustr \<Rightarrow> method_routes)) list \<Rightarrow> ustr \<Rightarrow> method_routes option" where
  "match_id [] path = None"
| "match_id ((before, after, hs) # rs) path =
     (case id_segment before after path of Some t \<Rightarrow> Some (hs t) | None \<Rightarrow> match_id rs path)"

text \<open>
  The reverse proxy's route takes every method. Any other path goes to the files of the administrator's pages
  or is not found, 404 here: no handler of the interface sees it.
\<close>

definition route :: "extractors \<Rightarrow> surroundings \<Rightarrow> http_in \<Rightarrow> nat + endpoint" where
  "route X v r =
     (if hi_path r = lit ''/api/v1/internal/web-proxy'' then Inr WebProxy
      else case map_of (fixed_routes X v r) (hi_path r) of
        Some hs \<Rightarrow> by_method hs (hi_method r)
      | None \<Rightarrow>
          (case match_id (id_routes X v r) (hi_path r) of
             Some hs \<Rightarrow> by_method hs (hi_method r)
           | None \<Rightarrow> Inl 404))"

section \<open>The answers\<close>

datatype reply = Answered nat | Errored app_error

definition answered :: "nat \<Rightarrow> (app_error + 'a) \<times> app_state \<Rightarrow> reply \<times> app_state" where
  "answered status x = (case x of (Inl e, s) \<Rightarrow> (Errored e, s) | (Inr _, s) \<Rightarrow> (Answered status, s))"

definition admin_status :: "admin_call \<Rightarrow> nat" where
  "admin_status a =
     (case a of CreateDevice i t q \<Rightarrow> 201 | Logout \<Rightarrow> 204 | Password salt q \<Rightarrow> 204 | RevokeDevice i \<Rightarrow> 204
      | DeleteDevice i \<Rightarrow> 204 | DeleteTunnel i \<Rightarrow> 204 | _ \<Rightarrow> 200)"

definition request_call :: "surroundings \<Rightarrow> http_in \<Rightarrow> call" where
  "request_call v r =
     \<lparr>cl_headers = hi_headers r, cl_now = su_now v, cl_utc = su_utc v, cl_audit_utc = su_audit_utc v\<rparr>"

definition serve :: "lib \<Rightarrow> surroundings \<Rightarrow> http_in \<Rightarrow> endpoint \<Rightarrow> app_state \<Rightarrow> reply \<times> app_state" where
  "serve L v r e s =
     (let c = request_call v r in
      case e of
        Health \<Rightarrow> (Answered 200, s)
      | Ready \<Rightarrow> answered 200 (ready s)
      | PublicMetrics \<Rightarrow> (Answered 200, s)
      | Login q \<Rightarrow>
          (case login L c (su_session_id v) (su_csrf v) (hi_peer r) q s of
             (Inr RateLimited, s') \<Rightarrow> (Answered 429, s')
           | x \<Rightarrow> answered 200 x)
      | Admin a \<Rightarrow> answered (admin_status a) (admin_api L c a s)
      | AgentList \<Rightarrow> answered 200 (agent_list_tunnels L c s)
      | AgentCreate q \<Rightarrow> answered 201 (agent_create_tunnel L c (su_id v) (su_listener v) (su_others v) q s)
      | AgentUpdate i q \<Rightarrow> answered 200 (agent_update_tunnel L c (su_listener v) (su_others v) i q s)
      | AgentDelete i \<Rightarrow> answered 204 (agent_delete_tunnel L c i s)
      | AgentCarrier \<Rightarrow> answered 101 (agent_carrier L (su_direct v) (hi_headers r) (su_socket v) s)
      | AgentEnrollment \<Rightarrow> answered 200 (agent_enrollment L (su_base64 v) (su_identity v) c s)
      | TlsAsk domain \<Rightarrow> answered 204 (tls_ask L (hi_peer r) domain s)
      | WebProxy \<Rightarrow>
          (case web_proxy L (su_parse_uri v) (su_exchange v) (su_conn v) (hi_peer r) (hi_uri r) (hi_headers r) s of
             (Inl err, s') \<Rightarrow> (Errored err, s')
           | (Inr BadGateway, s') \<Rightarrow> (Answered 502, s')
           | (Inr (Proxied status), s') \<Rightarrow> (Answered status, s')))"

definition handle_request :: "lib \<Rightarrow> extractors \<Rightarrow> surroundings \<Rightarrow> http_in \<Rightarrow> app_state \<Rightarrow> reply \<times> app_state" where
  "handle_request L X v r s = (case route X v r of Inl status \<Rightarrow> (Answered status, s) | Inr e \<Rightarrow> serve L v r e s)"

section \<open>A caller without credentials\<close>

text \<open>The token of a device that is there and not revoked.\<close>

definition device_credential :: "lib \<Rightarrow> headers \<Rightarrow> app_state \<Rightarrow> bool" where
  "device_credential L h s \<longleftrightarrow>
     (case Option.bind (header_str h ''authorization'') (strip_prefix (lit ''Bearer '')) of
        None \<Rightarrow> False
      | Some token \<Rightarrow> list_ex (\<lambda>row. dr_token_hash row = hash_token L token \<and> \<not> dr_revoked row) (db_devices (s_db s)))"

definition password_credential :: "lib \<Rightarrow> login_request \<Rightarrow> app_state \<Rightarrow> bool" where
  "password_credential L q s \<longleftrightarrow>
     list_ex (\<lambda>row. am_username row = lr_username q \<and> verify_password L (am_password_hash row) (lr_password q)) (db_admins (s_db s))"

text \<open>
  What each endpoint asks for: a session, with its CSRF token and origin where something can change; a device's
  token; an address of the reverse proxy; a password. The three open endpoints ask for nothing and give no one
  a right.
\<close>

definition entitled :: "lib \<Rightarrow> surroundings \<Rightarrow> http_in \<Rightarrow> endpoint \<Rightarrow> app_state \<Rightarrow> bool" where
  "entitled L v r e s =
     (case e of
        Health \<Rightarrow> False | Ready \<Rightarrow> False | PublicMetrics \<Rightarrow> False
      | Login q \<Rightarrow> password_credential L q s
      | Admin a \<Rightarrow> authorised L (request_call v r) (if hi_method r = HEAD then GET else hi_method r) s
      | TlsAsk d \<Rightarrow> trusted_proxy L (s_config s) (hi_peer r)
      | WebProxy \<Rightarrow> trusted_proxy L (s_config s) (hi_peer r)
      | _ \<Rightarrow> device_credential L (hi_headers r) s)"

text \<open>What a request may leave behind: forgotten sessions that have expired, login attempts and their audit entries.\<close>

definition bystander :: "instant \<Rightarrow> app_state \<Rightarrow> app_state \<Rightarrow> bool" where
  "bystander now s s' \<longleftrightarrow>
     (\<exists>f attempts entries n faults.
        s' = s\<lparr>s_sessions := f, s_login_attempts := attempts,
          s_db := (s_db s)\<lparr>db_audit := db_audit (s_db s) @ entries, db_audit_next := n, db_faults := faults\<rparr>\<rparr> \<and>
        f \<subseteq>\<^sub>m s_sessions s \<and> (\<forall>i x. s_sessions s i = Some x \<and> now < as_expires_at x \<longrightarrow> f i = Some x) \<and>
        list_all (\<lambda>x. au_action x = lit ''auth.login_failed'') entries)"

lemma bystander_untouched: "untouched s s' \<Longrightarrow> bystander now s s'"
  unfolding untouched_def bystander_def
  by (elim exE, rule exI [of _ "s_sessions s"], rule exI [of _ "s_login_attempts s"], rule exI [of _ "[]"],
      rule exI [of _ "db_audit_next (s_db s)"], rule exI) auto

lemma bystander_same: "bystander now s s"
  by (rule bystander_untouched) (rule untouched_refl)

lemma bystander_sessions:
  "f \<subseteq>\<^sub>m s_sessions s \<Longrightarrow> \<forall>i x. s_sessions s i = Some x \<and> now < as_expires_at x \<longrightarrow> f i = Some x \<Longrightarrow>
     bystander now s (s\<lparr>s_sessions := f\<rparr>)"
  unfolding bystander_def
  by (rule exI [of _ f], rule exI [of _ "s_login_attempts s"], rule exI [of _ "[]"],
      rule exI [of _ "db_audit_next (s_db s)"], rule exI [of _ "db_faults (s_db s)"]) simp

lemma device_refused:
  assumes "\<not> device_credential L h s"
  shows "\<exists>e s'. require_device L h s = (Inl e, s') \<and> untouched s s'"
proof -
  obtain r s' where q: "require_device L h s = (r, s')" by (cases "require_device L h s")
  have un: "untouched s s'" using readsD [OF reads_require_device q] .
  have "r \<noteq> Inr d" for d
  proof
    assume "r = Inr d"
    then obtain token row s1 where t: "Option.bind (header_str h ''authorization'') (strip_prefix (lit ''Bearer '')) = Some token"
        and row: "db_do (device_by_token (hash_token L token)) s = (Inr (Some row), s1)"
      using q by (auto simp: require_device_def seq_eq_Inr act_simps)
    have "find (\<lambda>r. dr_token_hash r = hash_token L token \<and> \<not> dr_revoked r) (db_devices (s_db s)) = Some row"
      using row by (auto simp: device_by_token_def db_do_def on_db_def map_err_def select_def stmt_def
          split: list.splits prod.splits sum.splits if_splits)
    then have "list_ex (\<lambda>row. dr_token_hash row = hash_token L token \<and> \<not> dr_revoked row) (db_devices (s_db s))"
      by (auto simp: find_Some_iff list_ex_iff)
    then show False using assms t by (simp add: device_credential_def)
  qed
  then show ?thesis using q un by (cases r) auto
qed

lemma audit_run:
  assumes "audit L c a subject detail s = (r, s')"
  shows "\<exists>entries n faults. s' = s\<lparr>s_db := (s_db s)\<lparr>db_audit := db_audit (s_db s) @ entries, db_audit_next := n, db_faults := faults\<rparr>\<rparr> \<and>
     list_all (\<lambda>x. au_action x = lit a) entries"
proof -
  obtain r1 d where d: "insert_audit (lit a) subject detail (l_time_text L (cl_audit_utc c)) (s_db s) = (r1, d)" "s' = s\<lparr>s_db := d\<rparr>"
    using assms by (auto simp: audit_def db_do_def on_db_def map_err_def split: prod.splits sum.splits)
  let ?entry = "\<lparr>au_id = db_audit_next (s_db s), au_action = lit a, au_subject = subject, au_detail = detail,
      au_created_at = l_time_text L (cl_audit_utc c)\<rparr>"
  from d(1) [unfolded insert_audit_def]
  have "\<exists>entries n faults. d = (s_db s)\<lparr>db_audit := db_audit (s_db s) @ entries, db_audit_next := n, db_faults := faults\<rparr> \<and>
     list_all (\<lambda>x. au_action x = lit a) entries"
  proof (cases rule: stmt_cases)
    case (run fs)
    then show ?thesis by (intro exI [of _ "[?entry]"] exI [of _ "Suc (db_audit_next (s_db s))"] exI [of _ fs]) auto
  next
    case (fault fs)
    then show ?thesis by (intro exI [of _ "[]"] exI [of _ "db_audit_next (s_db s)"] exI [of _ fs]) simp
  qed
  then show ?thesis using d(2) by auto
qed

lemma failed_login_bystander:
  assumes "login L c sid csrf peer q s = (r, s')" and "\<not> password_credential L q s"
  shows "bystander now s s' \<and> (r = Inr RateLimited \<or> isl r)"
proof -
  let ?key = "rate_key (cl_headers c) peer" let ?user = "lr_username q"
  obtain b s1 where la: "login_allowed (cl_now c) ?key s = (b, s1)" by (cases "login_allowed (cl_now c) ?key s")
  obtain att where s1: "s1 = s\<lparr>s_login_attempts := att\<rparr>"
    using la by (auto simp: login_allowed_def split: prod.splits)
  have leaves: "bystander now s t"
    if "t = s1\<lparr>s_db := (s_db s1)\<lparr>db_audit := db_audit (s_db s1) @ entries, db_audit_next := n, db_faults := fs\<rparr>\<rparr>"
      "list_all (\<lambda>x. au_action x = lit ''auth.login_failed'') entries" for t entries n fs
    unfolding bystander_def
    by (rule exI [of _ "s_sessions s"], rule exI [of _ att], rule exI [of _ entries], rule exI [of _ n], rule exI [of _ fs])
      (simp add: that s1)
  have quiet: "bystander now s t" if un: "untouched s1 t" for t
  proof -
    obtain fs where "t = s1\<lparr>s_db := (s_db s1)\<lparr>db_faults := fs\<rparr>\<rparr>" using un by (auto simp: untouched_def)
    then show ?thesis by (intro leaves [where entries = "[]" and n = "db_audit_next (s_db s1)" and fs = fs]) simp_all
  qed
  show ?thesis
  proof (cases b)
    case False
    then show ?thesis using assms(1) la quiet [OF untouched_refl] by (auto simp: login_def seq_def act_simps Let_def)
  next
    case True
    with assms(1) la have "seq (admin_by_name ?user) (\<lambda>row. if \<not> valid_login L q row
        then seq (audit L c ''auth.login_failed'' ?user (lit ''invalid credentials'')) (\<lambda>_. fail Unauthorized)
        else sign_in L c ?key sid csrf ?user) s1 = (r, s')"
      by (simp add: login_def seq_def Let_def)
    then show ?thesis
    proof (cases rule: seq_cases)
      case (failed e)
      then show ?thesis using quiet [OF readsD [OF reads_admin_by_name]] by auto
    next
      case (continued row s2)
      have row: "row = find (\<lambda>r. am_username r = ?user) (db_admins (s_db s))" and un: "untouched s1 s2"
        using admin_by_name_eq [OF continued(1)] s1 by simp_all
      have "\<not> valid_login L q row"
        using assms(2) row by (auto simp: valid_login_def password_credential_def list_ex_iff find_Some_iff split: option.splits)
      then have "seq (audit L c ''auth.login_failed'' ?user (lit ''invalid credentials'')) (\<lambda>_. fail Unauthorized) s2 = (r, s')"
        using continued(2) by simp
      then obtain r3 where au: "audit L c ''auth.login_failed'' ?user (lit ''invalid credentials'') s2 = (r3, s')" "isl r"
        by (auto simp: act_simps elim!: seq_cases)
      obtain fs2 where s2: "s2 = s1\<lparr>s_db := (s_db s1)\<lparr>db_faults := fs2\<rparr>\<rparr>" using un by (auto simp: untouched_def)
      obtain entries n fs where e: "s' = s2\<lparr>s_db := (s_db s2)\<lparr>db_audit := db_audit (s_db s2) @ entries, db_audit_next := n, db_faults := fs\<rparr>\<rparr>"
          "list_all (\<lambda>x. au_action x = lit ''auth.login_failed'') entries"
        using audit_run [OF au(1)] by (elim exE conjE) (rule that)
      have "bystander now s s'" by (rule leaves [where entries = entries and n = n and fs = fs]) (simp_all add: e s2)
      then show ?thesis using au(2) by simp
    qed
  qed
qed

section \<open>Where the routes lead\<close>

lemma by_method_in: "by_method hs m = Inr e \<Longrightarrow> (if m = HEAD then GET else m, Inr e) \<in> set hs"
  by (auto simp: by_method_def dest: map_of_SomeD split: option.splits if_splits)

lemma match_id_in: "match_id rs path = Some hs \<Longrightarrow> \<exists>before after f t. (before, after, f) \<in> set rs \<and> hs = f t \<and> path = before @ t @ after"
proof (induction rs path rule: match_id.induct)
  case (2 before after f rs path)
  show ?case
  proof (cases "id_segment before after path")
    case None
    then have "match_id rs path = Some hs" using 2(2) by simp
    from 2(1) [OF None this] show ?thesis by (elim exE conjE) (intro exI conjI, auto)
  next
    case (Some t)
    then have "path = before @ t @ after"
      by (auto simp: id_segment_def bind_eq_Some_conv strip_prefix_Some strip_suffix_Some split: option.splits if_splits)
    then show ?thesis using 2(2) Some by (intro exI [of _ before] exI [of _ after] exI [of _ f] exI [of _ t]) simp
  qed
qed simp

lemma route_cases:
  assumes "route X v r = Inr e"
  obtains (proxy) "e = WebProxy" "hi_path r = lit ''/api/v1/internal/web-proxy''"
    | (fixed) hs where "(hi_path r, hs) \<in> set (fixed_routes X v r)"
        "(if hi_method r = HEAD then GET else hi_method r, Inr e) \<in> set hs"
    | (with_segment) before after f t where "(before, after, f) \<in> set (id_routes X v r)" "hi_path r = before @ t @ after"
        "(if hi_method r = HEAD then GET else hi_method r, Inr e) \<in> set (f t)"
proof (cases "hi_path r = lit ''/api/v1/internal/web-proxy''")
  case True
  then show ?thesis using assms proxy by (simp add: route_def)
next
  case False
  show ?thesis
  proof (cases "map_of (fixed_routes X v r) (hi_path r)")
    case (Some hs)
    then show ?thesis using assms False fixed [OF map_of_SomeD [OF Some]] by_method_in by (auto simp: route_def)
  next
    case None
    then obtain hs where "match_id (id_routes X v r) (hi_path r) = Some hs" "by_method hs (hi_method r) = Inr e"
      using assms False by (auto simp: route_def split: option.splits)
    then show ?thesis using match_id_in by_method_in with_segment by blast
  qed
qed

lemma table_methods:
  "\<forall>(p, hs) \<in> set (fixed_routes X v r). \<forall>(m, x) \<in> set hs. \<forall>a. x = Inr (Admin a) \<longrightarrow> method_of a = m"
  "\<forall>(b, c, f) \<in> set (id_routes X v r). \<forall>t. \<forall>(m, x) \<in> set (f t). \<forall>a. x = Inr (Admin a) \<longrightarrow> method_of a = m"
  by (auto simp: fixed_routes_def id_routes_def with_id_def Let_def map_sum_def method_of_def split: sum.splits option.splits)

lemma route_admin:
  assumes "route X v r = Inr (Admin a)"
  shows "method_of a = (if hi_method r = HEAD then GET else hi_method r)"
  using assms
proof (cases rule: route_cases)
  case (fixed hs)
  then show ?thesis using table_methods(1) by fastforce
next
  case (with_segment before after f t)
  then show ?thesis using table_methods(2) by fastforce
qed simp

lemma table_open:
  "\<forall>(p, hs) \<in> set (fixed_routes X v r). \<forall>(m, x) \<in> set hs. x \<in> {Inr Health, Inr Ready, Inr PublicMetrics} \<longrightarrow>
     p \<in> {lit ''/healthz'', lit ''/readyz'', lit ''/metrics''}"
  "\<forall>(b, c, f) \<in> set (id_routes X v r). \<forall>t. \<forall>(m, x) \<in> set (f t). x \<notin> {Inr Health, Inr Ready, Inr PublicMetrics}"
  by (auto simp: fixed_routes_def id_routes_def with_id_def Let_def map_sum_def split: sum.splits option.splits)

lemma route_open:
  assumes "route X v r = Inr e" "e \<in> {Health, Ready, PublicMetrics}"
  shows "hi_path r \<in> {lit ''/healthz'', lit ''/readyz'', lit ''/metrics''}"
  using assms(1)
proof (cases rule: route_cases)
  case (fixed hs)
  then show ?thesis using table_open(1) [of X v r] assms(2) by fastforce
next
  case (with_segment before after f t)
  then show ?thesis using table_open(2) [of X v r] assms(2) by fastforce
qed (use assms(2) in simp)

lemma table_prefix:
  "\<forall>(p, hs) \<in> set (fixed_routes X v r). starts_with (lit ''/api/v1/admin/'') p \<longrightarrow>
     (\<forall>(m, x) \<in> set hs. \<forall>e. x = Inr e \<longrightarrow> (\<exists>a. e = Admin a))"
  "\<forall>(b, c, f) \<in> set (id_routes X v r). \<forall>t. starts_with (lit ''/api/v1/admin/'') (b @ t @ c) \<longrightarrow>
     (\<forall>(m, x) \<in> set (f t). \<forall>e. x = Inr e \<longrightarrow> (\<exists>a. e = Admin a))"
  by (auto simp: fixed_routes_def id_routes_def with_id_def Let_def map_sum_def starts_with_def lit_def
      split: sum.splits option.splits)

lemma route_prefix:
  assumes "route X v r = Inr e" "starts_with (lit ''/api/v1/admin/'') (hi_path r)"
  shows "\<exists>a. e = Admin a"
  using assms(1)
proof (cases rule: route_cases)
  case proxy
  then show ?thesis using assms(2) by (simp add: starts_with_def lit_def)
next
  case (fixed hs)
  then show ?thesis using table_prefix(1) [of X v r] assms(2) by fastforce
next
  case (with_segment before after f t)
  then show ?thesis using table_prefix(2) [of X v r] assms(2) by fastforce
qed

section \<open>What such a caller can do\<close>

lemma agent_stranger:
  assumes "answered n (seq (require_device L h) k s) = (a, s')" "\<not> device_credential L h s"
  shows "bystander now s s' \<and> (\<exists>err. a = Errored err)"
proof -
  obtain e t where "require_device L h s = (Inl e, t)" "untouched s t" using device_refused [OF assms(2)] by blast
  then show ?thesis using assms(1) bystander_untouched by (auto simp: seq_def answered_def)
qed

lemma proxy_refused:
  "\<not> trusted_proxy L (s_config s) peer \<Longrightarrow> seq (require_trusted_proxy L peer) k s = (Inl Forbidden, s)"
  by (simp add: require_trusted_proxy_def seq_def act_simps)

lemma admin_refused:
  assumes "\<not> authorised L c (method_of a) s"
  shows "\<exists>e s'. admin_api L c a s = (Inl e, s') \<and> bystander (cl_now c) s s'"
proof -
  obtain x s' where req: "require_admin L (cl_now c) (cl_headers c) (method_of a) s = (x, s')"
    by (cases "require_admin L (cl_now c) (cl_headers c) (method_of a) s")
  obtain e where e: "x = Inl e" using unauthorised_refused [OF assms req] by blast
  then show ?thesis
    using admin_api_refused [OF req [unfolded e]] refused_request [OF req [unfolded e]] bystander_sessions by blast
qed

lemma reads_ready: "reads ready"
  unfolding ready_def by (intro reads_intros)

lemma serve_stranger:
  assumes "route X v r = Inr e" "\<not> entitled L v r e s" "serve L v r e s = (a, s')"
  shows "bystander (su_now v) s s' \<and> (e \<in> {Health, Ready, PublicMetrics} \<or> a = Answered 429 \<or> (\<exists>err. a = Errored err))"
proof -
  note agents = agent_list_tunnels_def agent_create_tunnel_def agent_update_tunnel_def agent_delete_tunnel_def
    agent_carrier_def agent_enrollment_def
  show ?thesis
  proof (cases e)
    case (Login q)
    obtain x t where l: "login L (request_call v r) (su_session_id v) (su_csrf v) (hi_peer r) q s = (x, t)"
      by (cases "login L (request_call v r) (su_session_id v) (su_csrf v) (hi_peer r) q s")
    have no: "\<not> password_credential L q s" using assms(2) Login by (simp add: entitled_def)
    from failed_login_bystander [OF l no, of "su_now v"] assms(3) l Login show ?thesis
      by (auto simp: serve_def answered_def Let_def isl_def)
  next
    case (Admin x)
    have "\<not> authorised L (request_call v r) (method_of x) s" using assms(2) Admin route_admin [OF assms(1) [unfolded Admin]] by (simp add: entitled_def)
    from admin_refused [OF this] assms(3) Admin show ?thesis
      by (auto simp: serve_def answered_def Let_def request_call_def)
  next
    case Ready
    have "untouched s (snd (ready s))" using reads_ready by (simp add: reads_def)
    then show ?thesis using assms(3) Ready bystander_untouched
      by (auto simp: serve_def answered_def Let_def split: prod.splits sum.splits)
  next
    case WebProxy
    then have "\<not> trusted_proxy L (s_config s) (hi_peer r)" using assms(2) by (simp add: entitled_def)
    then show ?thesis
      using assms(3) WebProxy bystander_same by (auto simp: serve_def Let_def web_proxy_def proxy_refused)
  next
    case (TlsAsk d)
    then have "\<not> trusted_proxy L (s_config s) (hi_peer r)" using assms(2) by (simp add: entitled_def)
    then show ?thesis
      using assms(3) TlsAsk bystander_same by (auto simp: serve_def Let_def tls_ask_def proxy_refused answered_def)
  qed (use assms(2,3) bystander_same in
      \<open>auto simp: entitled_def serve_def Let_def agents request_call_def dest!: agent_stranger [where now = "su_now v"]\<close>)
qed

text \<open>
  C4. The whole interface, for whoever has no right to what is asked for. A request of any method, path, headers
  and body, whose endpoint asks for a session, a device's token, the proxy's address or a password that the
  caller does not have, changes nothing: no configuration, tunnel, device, administrator, listener, carrier
  or stream; only expired sessions are forgotten, and a failed login is counted and noted in the audit
  log. The answer is an error, except on the three open paths, and every path below \<open>/api/v1/admin/\<close> leads to a
  handler that asks for a session.
\<close>

theorem stranger_harmless:
  assumes "handle_request L X v r s = (a, s')" and "\<forall>e. route X v r = Inr e \<longrightarrow> \<not> entitled L v r e s"
  shows "bystander (su_now v) s s' \<and>
     (case route X v r of
        Inl status \<Rightarrow> a = Answered status \<and> s' = s
      | Inr e \<Rightarrow>
          (a = Answered 429 \<or> (\<exists>err. a = Errored err) \<or> hi_path r \<in> {lit ''/healthz'', lit ''/readyz'', lit ''/metrics''}) \<and>
          (starts_with (lit ''/api/v1/admin/'') (hi_path r) \<longrightarrow> (\<exists>x. e = Admin x)))"
proof (cases "route X v r")
  case (Inl status)
  then show ?thesis using assms(1) bystander_same by (simp add: handle_request_def)
next
  case (Inr e)
  then have "serve L v r e s = (a, s')" "\<not> entitled L v r e s" using assms by (simp_all add: handle_request_def)
  from serve_stranger [OF Inr this(2,1)] route_open [OF Inr] route_prefix [OF Inr] Inr show ?thesis by auto
qed

text \<open>Nobody is signed in: a request to delete device 7.\<close>

definition sample_extractors :: extractors where
  "sample_extractors =
     \<lparr>ex_id = (\<lambda>t. if t = lit ''7'' then Some 7 else None), ex_login = (\<lambda>h b. Inl 422), ex_password = (\<lambda>h b. Inl 422),
      ex_device = (\<lambda>h b. Inl 422), ex_create = (\<lambda>h b. Inl 422), ex_update = (\<lambda>h b. Inl 422), ex_limit = (\<lambda>q. Inr None),
      ex_domain = (\<lambda>q. Inr q), ex_upgrade = (\<lambda>h. Inl 400)\<rparr>"

definition sample_surroundings :: surroundings where
  "sample_surroundings =
     \<lparr>su_now = 5, su_utc = 100, su_audit_utc = 101, su_session_id = lit ''abc'', su_csrf = lit ''csrf'', su_salt = [],
      su_id = 11, su_token = lit ''t'', su_listener = 4, su_others = id, su_identity = None, su_base64 = map unat,
      su_direct = sample_direct, su_socket = [], su_conn = sample_input, su_exchange = (\<lambda>i u h. None), su_parse_uri = Some\<rparr>"

definition sample_delete :: http_in where
  "sample_delete =
     \<lparr>hi_method = DELETE, hi_path = lit ''/api/v1/admin/devices/7'', hi_query = [], hi_headers = sample_headers,
      hi_peer = V4 1, hi_body = [], hi_uri = lit ''/api/v1/admin/devices/7''\<rparr>"

lemma sample_delete_route: "route sample_extractors sample_surroundings sample_delete = Inr (Admin (RevokeDevice 7))"
  by (simp add: route_def sample_delete_def fixed_routes_def id_routes_def by_method_def with_id_def Let_def
      id_segment_def strip_prefix_def strip_suffix_def starts_with_def ends_with_def sample_extractors_def lit_def)

theorem stranger_harmless_witness:
  "\<exists>err s'. handle_request sample_lib sample_extractors sample_surroundings sample_delete sample_state = (Errored err, s') \<and>
     s_agents s' = s_agents sample_state \<and> db_devices (s_db s') = db_devices (s_db sample_state)"
proof -
  obtain a s' where run: "handle_request sample_lib sample_extractors sample_surroundings sample_delete sample_state = (a, s')"
    by (cases "handle_request sample_lib sample_extractors sample_surroundings sample_delete sample_state")
  have "s_sessions sample_state = Map.empty" by simp
  then have "\<forall>e. route sample_extractors sample_surroundings sample_delete = Inr e \<longrightarrow>
      \<not> entitled sample_lib sample_surroundings sample_delete e sample_state"
    by (simp add: sample_delete_route entitled_def authorised_def)
  from stranger_harmless [OF run this]
  have s: "bystander (su_now sample_surroundings) sample_state s'" and a: "a = Answered 429 \<or> (\<exists>err. a = Errored err)"
    by (simp_all add: sample_delete_route) (simp add: sample_delete_def lit_def)
  have "a \<noteq> Answered 429"
    using run by (auto simp: handle_request_def sample_delete_route serve_def answered_def admin_status_def
        split: prod.splits sum.splits)
  then show ?thesis using run s a by (auto simp: bystander_def)
qed

end
