(* ===== verification/Server_Life.thy ===== *)
theory Server_Life
  imports Router Server_Main
begin

text \<open>
  The life of a server: starts, requests, carriers, public connections, clean-ups and stops at any time, as one
  step relation over the operations of all components, and what holds in every state of it.
\<close>

section \<open>States and steps\<close>

text \<open>
  A server is down on a machine, with the configuration of its last run, or up with its state; the tables of a
  server that is up are in its state.
\<close>

datatype server_life = Down config machine | Up identity_files app_state

definition stopped :: "identity_files \<Rightarrow> app_state \<Rightarrow> server_life" where
  "stopped fs s =
     Down (s_config s) \<lparr>mc_files = fs, mc_db = \<lparr>df_db = s_db s, df_tunnels = TableV2 (db_tunnels (s_db s))\<rparr>\<rparr>"

text \<open>What the handler of a public connection or of a proxied request does to the state between two waits.\<close>

definition relay_moves :: "lib \<Rightarrow> app_state \<Rightarrow> app_state set" where
  "relay_moves L s =
     {s'. \<exists>f owner i agent m a closed.
        s' = register_offer L f owner s \<or> s' = snd (send_offer i agent m s) \<or> s' = snd (settle_offer i s) \<or>
        s' = snd (settle_stream i s) \<or> s' = activate a s \<or> s' = close_connection L i closed s \<or> s' = close_stream i s \<or>
        s' = count add_http s \<or> s' = count add_rejected s \<or> s' = count add_failed s}"

text \<open>
  The environment may change, but not the configuration in it. A request is one step: nothing else happens in the
  25 ms pause of \<open>reconcile_listener\<close>, where a deletion would leave a listener (\<open>pause_orphans_listener\<close> in
  \<open>Api_Properties\<close>). The sessions of carriers and the requests of the
  reverse proxy are steps of their own, cut where they wait.
\<close>

inductive life :: "lib \<Rightarrow> pem_lib \<Rightarrow> server_life \<Rightarrow> server_life \<Rightarrow> bool" for L P where
  started: "server_main L P io m = (Inr (x, s), m') \<Longrightarrow> from_env L (si_env io) = Inr cfg \<Longrightarrow>
     life L P (Down cfg m) (Up (mc_files m') s)"
| not_started: "server_main L P io m = (Inl e, m') \<Longrightarrow> life L P (Down cfg m) (Down cfg m')"
| request: "route X v r \<notin> {Inr AgentCarrier, Inr WebProxy} \<Longrightarrow> su_others v = id \<Longrightarrow> time_text_ok L (su_utc v) \<Longrightarrow>
     handle_request L X v r s = (a, s') \<Longrightarrow> life L P (Up fs s) (Up fs s')"
| cleanup: "life L P (Up fs s) (Up fs (snd (cleanup_round L now u s)))"
| bound: "life L P (Up fs s) (Up fs (snd (bind_listener b t s)))"
| carrier: "carrier_step L c c' \<Longrightarrow> life L P (Up fs (cs_app c)) (Up fs (cs_app c'))"
| relayed: "s' \<in> relay_moves L s \<Longrightarrow> life L P (Up fs s) (Up fs s')"
| pumped: "\<forall>f. ev \<noteq> Others f \<Longrightarrow> bridge_step L sid i ev (b, s) = (b', s') \<Longrightarrow> life L P (Up fs s) (Up fs s')"
| stops: "life L P (Up fs s) (stopped fs s)"

text \<open>A new machine: no tables, no files.\<close>

definition fresh_machine :: "machine \<Rightarrow> bool" where
  "fresh_machine m \<longleftrightarrow>
     df_tunnels (mc_db m) = NoTable \<and> db_devices (df_db (mc_db m)) = [] \<and> db_admins (df_db (mc_db m)) = []"

section \<open>Steps that leave configuration, tunnels and listeners alone\<close>

definition quiet_step :: "app_state \<Rightarrow> app_state \<Rightarrow> bool" where
  "quiet_step s s' \<longleftrightarrow> tview s' = tview s \<and> (schema_ok (s_db s) \<longrightarrow> schema_ok (s_db s'))"

lemma quiet_inv: "quiet_step s s' \<Longrightarrow> server_inv L s \<Longrightarrow> server_inv L s'"
  using inv_tview unfolding quiet_step_def by blast

lemma quiet_trans: "quiet_step s t \<Longrightarrow> quiet_step t u \<Longrightarrow> quiet_step s u"
  by (simp add: quiet_step_def)

lemma quiet_same: "s_db s' = s_db s \<Longrightarrow> s_config s' = s_config s \<Longrightarrow> s_listeners s' = s_listeners s \<Longrightarrow> quiet_step s s'"
  by (simp add: quiet_step_def tview_def)

lemma quiet_untouched: "untouched s s' \<Longrightarrow> quiet_step s s'"
  using schema_untouched core_tview [OF core_untouched] by (simp add: quiet_step_def)

lemma quiet_keeps:
  assumes "keeps (\<lambda>s. schema_ok (s_db s)) m" and "\<And>x. keeps (\<lambda>s. tview s = x) m"
  shows "quiet_step s (snd (m s))"
  using assms by (simp add: quiet_step_def keeps_def)

lemma quiet_tell: "quiet_step s (tell sid m s)"
  by (rule quiet_same) (auto simp: tell_def send_ctl_def split: option.splits)

lemma quiet_touch: "quiet_step s (touch_device L a u s)"
proof -
  let ?m = "db_do (update_device (l_uuid_text L a) (\<lambda>r. r\<lparr>dr_last_seen_at := Some (l_time_text L u)\<rparr>))"
  have "touch_device L a u s = snd (?m s)"
    by (auto simp: touch_device_def db_do_def map_err_def split: prod.splits sum.splits)
  moreover have "quiet_step s (snd (?m s))"
    by (rule quiet_keeps; intro keeps_intros; simp add: rows_simps)
  ultimately show ?thesis by simp
qed

lemma quiet_config_sync: "quiet_step s (sync_agent L a s)"
  using sync_schema core_tview [OF core_sync] by (simp add: quiet_step_def)

lemma quiet_ack: "quiet_step s (snd (acknowledge_connection L now i agent tk acc err s))"
  by (rule quiet_same) (auto simp: acknowledge_connection_def Let_def split: option.splits)

lemma quiet_route: "route_carrier_frame L f s = Some s' \<Longrightarrow> quiet_step s s'"
  by (rule quiet_same) (auto simp: route_carrier_frame_def split: option.splits prod.splits send_outcome.splits if_splits)

lemma quiet_open: "quiet_step s (open_wss L agent sid k u s)" "quiet_step s (open_direct L tr agent sid k u s)"
proof -
  have r: "quiet_step s (register_agent agent sid tr k s)" "quiet_step s (count f s)" for tr k f s
    by (rule quiet_same; simp add: register_agent_def)+
  show "quiet_step s (open_wss L agent sid k u s)" unfolding open_wss_def
    by (rule quiet_trans [OF quiet_trans [OF quiet_trans [OF quiet_trans [OF r(1) quiet_touch] quiet_tell] r(2)] quiet_config_sync])
  show "quiet_step s (open_direct L tr agent sid k u s)" unfolding open_direct_def
    by (rule quiet_trans [OF quiet_trans [OF quiet_trans [OF r(1) r(2)] quiet_tell] quiet_config_sync])
qed

lemma quiet_message:
  "quiet_step s (direct_message L now agent sid m s)" "quiet_step s (snd (wss_message L now agent sid parsed s))"
  using quiet_tell quiet_ack quiet_same [of s s]
  by (auto simp: direct_message_def wss_message_def split: agent_control_message.splits option.splits)

lemma quiet_close: "quiet_step s (close_carrier tr agent sid s)"
  by (rule quiet_same) (auto simp: close_carrier_def unregister_agent_def drop_channels_def split: option.splits)

lemma carrier_quiet: "carrier_step L c c' \<Longrightarrow> quiet_step (cs_app c) (cs_app c')"
proof (induction rule: carrier_step.induct)
  case (opened_direct sid c tr rec identity s1 token now)
  have "quiet_step (cs_app c) s1" using opened_direct(3) by (intro quiet_untouched handshake_reads)
  then show ?case using quiet_trans quiet_open(2) by auto
next
  case (message sid agent tr c s' now m parsed)
  then show ?case using quiet_message by auto
next
  case (frame f c s')
  then show ?case using quiet_route by simp
next
  case (removed c agent)
  show ?case by (rule quiet_same) simp_all
qed (auto intro: quiet_open quiet_close quiet_same simp: drop_channels_def)

lemma relay_quiet:
  assumes "s' \<in> relay_moves L s"
  shows "quiet_step s s'"
proof -
  have hist: "db_tunnels (snd (insert_history h d)) = db_tunnels d" "schema_ok (snd (insert_history h d)) = schema_ok d" for h d
    by (auto simp: insert_history_def stmt_def schema_ok_def split: list.splits)
  have "quiet_step s (close_connection L i closed s)" for i closed
    using hist by (auto simp: quiet_step_def tview_def close_connection_def Let_def drop_receivers_def on_db_def
        split: option.splits prod.splits) (metis snd_conv)+
  moreover have "quiet_step s (snd (send_offer i agent m s))" for i agent m
    by (rule quiet_same) (auto simp: send_offer_def send_ctl_def drop_receivers_def split: option.splits prod.splits)
  moreover have "quiet_step s (snd (settle_offer i s))" "quiet_step s (snd (settle_stream i s))" for i
    by (rule quiet_same; auto simp: settle_offer_def settle_stream_def seq_def act_simps drop_receivers_def forget_offer_def
        split: option.splits sum.splits)+
  moreover have "quiet_step s (register_offer L f owner s)" "quiet_step s (activate a s)" "quiet_step s (close_stream i s)"
      "quiet_step s (count g s)" for f owner a i g
    by (rule quiet_same; simp add: register_offer_def activate_def close_stream_def drop_receivers_def)+
  ultimately show ?thesis using assms by (auto simp: relay_moves_def)
qed

lemma add_active_keeps [simp]:
  "s_db (add_active i f s) = s_db s" "s_config (add_active i f s) = s_config s" "s_listeners (add_active i f s) = s_listeners s"
  by (simp_all add: add_active_def split: option.splits)

lemma up_quiet: "up_step L sid i ev b s = (b', s') \<Longrightarrow> quiet_step s s'"
  by (rule quiet_same) (auto simp: up_step_def Let_def split: option.splits bridge_event.splits send_outcome.splits if_splits prod.splits)

lemma down_quiet: "down_step i ev b s = (b', s') \<Longrightarrow> quiet_step s s'"
  by (rule quiet_same)
    (auto simp: down_step_def deliver_def Let_def split: option.splits list.splits bridge_event.splits if_splits)

lemma pump_quiet: "\<forall>f. ev \<noteq> Others f \<Longrightarrow> bridge_step L sid i ev (b, s) = (b', s') \<Longrightarrow> quiet_step s s'"
  by (cases ev) (auto simp: bridge_step_def split: prod.splits intro: quiet_trans [OF up_quiet down_quiet])

section \<open>Requests\<close>

lemma only_reads_quiet: "only_reads s s' \<Longrightarrow> quiet_step s s'"
  unfolding only_reads_def quiet_step_def by (auto simp: tview_def schema_ok_def)

lemma answered_snd [simp]: "snd (answered n x) = snd x"
  by (auto simp: answered_def split: prod.splits sum.splits)

lemma reads_quiet: "reads m \<Longrightarrow> quiet_step s (snd (m s))"
  by (rule quiet_untouched) (simp add: reads_def)

lemma admin_inv:
  assumes "time_text_ok L (cl_utc c)" and "\<forall>k f i q. a = UpdateTunnel k f i q \<longrightarrow> f = id" and "server_inv L s"
  shows "server_inv L (snd (admin_api L c a s))"
proof (cases "method_of a = GET")
  case True
  then show ?thesis using reading_calls only_reads_quiet quiet_inv assms(3) by blast
next
  case False
  have "server_step L s (snd (admin_api L c a s))"
    using False assms(1,2) by (cases a) (auto simp: admin_api_def method_of_def intro: server_step.intros)
  then show ?thesis using server_step_inv assms(3) by blast
qed

lemma table_others:
  "\<forall>(p, hs) \<in> set (fixed_routes X v r). \<forall>(m, x) \<in> set hs. \<forall>k f i q. x \<noteq> Inr (Admin (UpdateTunnel k f i q))"
  "\<forall>(b, c, f) \<in> set (id_routes X v r). \<forall>t. \<forall>(m, x) \<in> set (f t). \<forall>k g i q. x = Inr (Admin (UpdateTunnel k g i q)) \<longrightarrow> g = su_others v"
  by (auto simp: fixed_routes_def id_routes_def with_id_def Let_def map_sum_def split: sum.splits option.splits)

lemma route_others: "route X v r = Inr (Admin (UpdateTunnel k f i q)) \<Longrightarrow> f = su_others v"
  by (erule route_cases) (use table_others [of X v r] in fastforce)+

lemma request_inv:
  assumes "route X v r \<notin> {Inr AgentCarrier, Inr WebProxy}" and "su_others v = id" and "time_text_ok L (su_utc v)"
    and "handle_request L X v r s = (a, s')" and "server_inv L s"
  shows "server_inv L s'"
proof (cases "route X v r")
  case (Inl n)
  then show ?thesis using assms(4,5) by (simp add: handle_request_def)
next
  case (Inr e)
  let ?c = "request_call v r"
  have utc: "time_text_ok L (cl_utc ?c)" using assms(3) by (simp add: request_call_def)
  have s': "s' = snd (serve L v r e s)" using assms(4) Inr by (simp add: handle_request_def)
  have step: "server_step L s t \<Longrightarrow> server_inv L t" for t using server_step_inv assms(5) by blast
  have quiet: "quiet_step s t \<Longrightarrow> server_inv L t" for t using quiet_inv assms(5) by blast
  show ?thesis
  proof (cases e)
    case (Login q)
    have "s' = snd (login L ?c (su_session_id v) (su_csrf v) (hi_peer r) q s)"
      using s' Login by (auto simp: serve_def answered_def Let_def split: prod.splits sum.splits login_outcome.splits)
    then show ?thesis using step [OF server_step.on_login] by simp
  next
    case (Admin x)
    have "\<forall>k f i q. x = UpdateTunnel k f i q \<longrightarrow> f = id" using route_others Inr Admin assms(2) by blast
    then show ?thesis using admin_inv [OF utc _ assms(5)] s' Admin by (simp add: serve_def Let_def)
  next
    case AgentList
    have "reads (agent_list_tunnels L ?c)" unfolding agent_list_tunnels_def by (intro reads_intros reads_queries)
    then show ?thesis using quiet [OF reads_quiet] s' AgentList by (simp add: serve_def Let_def)
  next
    case AgentEnrollment
    have "reads (agent_enrollment L (su_base64 v) (su_identity v) ?c)"
      unfolding agent_enrollment_def by (intro reads_intros reads_queries)
    then show ?thesis using quiet [OF reads_quiet] s' AgentEnrollment by (simp add: serve_def Let_def)
  next
    case (TlsAsk d)
    have "reads (tls_ask L (hi_peer r) d)" unfolding tls_ask_def require_trusted_proxy_def by (intro reads_intros reads_queries)
    then show ?thesis using quiet [OF reads_quiet] s' TlsAsk by (simp add: serve_def Let_def)
  next
    case Ready
    then show ?thesis using quiet [OF reads_quiet [OF reads_ready]] s' by (simp add: serve_def Let_def)
  qed (use assms(1,2,5) s' Inr utc step in \<open>auto simp: serve_def Let_def intro: server_step.intros\<close>)
qed

section \<open>The database of a server that is down\<close>

definition disk_ok :: "lib \<Rightarrow> config \<Rightarrow> database_file \<Rightarrow> bool" where
  "disk_ok L cfg f \<longleftrightarrow>
     (\<forall>old. df_tunnels f \<noteq> TableV1 old) \<and> schema_ok ((df_db f)\<lparr>db_tunnels := rows_of (df_tunnels f)\<rparr>) \<and>
     (\<forall>row \<in> set (rows_of (df_tunnels f)). stored L cfg row)"

lemma disk_kept: "data_kept f f' \<Longrightarrow> disk_ok L cfg f \<Longrightarrow> disk_ok L cfg f'"
proof -
  assume k: "data_kept f f'" and ok: "disk_ok L cfg f"
  then have "migrated (df_tunnels f) (df_tunnels f')" "\<forall>old. df_tunnels f \<noteq> TableV1 old"
    by (simp_all add: data_kept_def disk_ok_def)
  then have t: "rows_of (df_tunnels f') = rows_of (df_tunnels f)" "\<forall>old. df_tunnels f' \<noteq> TableV1 old"
    by (auto simp: migrated_def rows_of_def)
  have "length (db_admins (df_db f')) \<le> 1" using k ok by (auto simp: data_kept_def disk_ok_def schema_ok_def)
  then show ?thesis using k ok t by (simp add: data_kept_def disk_ok_def schema_ok_def)
qed

lemma fresh_disk: "fresh_machine m \<Longrightarrow> disk_ok L cfg (mc_db m)"
  by (simp add: fresh_machine_def disk_ok_def schema_ok_def rows_of_def)

lemma main_disk: "server_main L P io m = (r, m') \<Longrightarrow> disk_ok L cfg (mc_db m) \<Longrightarrow> disk_ok L cfg (mc_db m')"
  using server_main_run disk_kept by blast

text \<open>A start on such a database: the state is one the listeners were restored in, from none.\<close>

lemma main_config: "server_main L P io m = (Inr (x, s), m') \<Longrightarrow> from_env L (si_env io) = Inr (s_config s)"
  using server_main_run by fastforce

lemma main_inv:
  assumes "server_main L P io m = (Inr (x, s), m')" "from_env L (si_env io) = Inr cfg" "disk_ok L cfg (mc_db m)"
  shows "server_inv L s"
proof -
  obtain d f u where run: "connect L io cfg (mc_db m) = (Inr d, f)"
      "restore_listeners L (si_tokens io) (app_state_new cfg d) = (Inr u, s)"
    using server_main_Inr [OF assms(1)] assms(2) by (metis sum.inject(2))
  from connect_cases [OF run(1)] have c: "data_kept (mc_db m) f" "df_tunnels f = TableV2 (db_tunnels d)" by simp_all
  have d: "d = (df_db f)\<lparr>db_tunnels := rows_of (df_tunnels f)\<rparr>" using connect_database [OF run(1)] .
  have ok: "disk_ok L cfg f" using disk_kept c(1) assms(3) by blast
  then have "schema_ok ((df_db f)\<lparr>db_tunnels := rows_of (df_tunnels f)\<rparr>)" by (simp add: disk_ok_def)
  then have "schema_ok d" by (simp only: d [symmetric])
  moreover have "\<forall>row \<in> set (db_tunnels d). stored L cfg row" using ok by (simp add: disk_ok_def c(2) rows_of_def)
  ultimately have "server_start L (app_state_new cfg d)"
    by (simp add: server_start_def tunnels_ok_def app_state_new_def)
  then have "server_inv L (app_state_new cfg d)" by (rule server_start_inv)
  from keeps_snd [OF inv_restore this, of "si_tokens io"] show ?thesis by (simp add: run(2))
qed

section \<open>Every state of a server's life\<close>

definition life_inv :: "lib \<Rightarrow> server_life \<Rightarrow> bool" where
  "life_inv L l = (case l of Down cfg m \<Rightarrow> disk_ok L cfg (mc_db m) | Up fs s \<Rightarrow> codecs_ok L \<longrightarrow> server_inv L s)"

lemma stopped_inv: "codecs_ok L \<Longrightarrow> server_inv L s \<Longrightarrow> disk_ok L (s_config s) \<lparr>df_db = s_db s, df_tunnels = TableV2 (db_tunnels (s_db s))\<rparr>"
  by (simp add: disk_ok_def server_inv_def tunnels_ok_def rows_of_def)

lemma life_step_inv: "life L P l l' \<Longrightarrow> codecs_ok L \<Longrightarrow> life_inv L l \<Longrightarrow> life_inv L l'"
proof (induction rule: life.induct)
  case (started io m x s m' cfg)
  then show ?case using main_inv by (simp add: life_inv_def)
next
  case (not_started io m e m' cfg)
  then show ?case using main_disk by (simp add: life_inv_def)
next
  case (request X v r s a s' fs)
  then show ?case using request_inv by (simp add: life_inv_def)
next
  case (cleanup fs s now u)
  then show ?case using inv_cleanup by (simp add: life_inv_def)
next
  case (bound fs s b t)
  then show ?case using inv_bind by (simp add: life_inv_def)
next
  case (carrier c c' fs)
  then show ?case using quiet_inv [OF carrier_quiet] by (simp add: life_inv_def)
next
  case (relayed s' s fs)
  then show ?case using quiet_inv [OF relay_quiet] by (simp add: life_inv_def)
next
  case (pumped ev sid i b s b' s' fs)
  then show ?case using quiet_inv [OF pump_quiet [OF pumped(1,2)]] by (simp add: life_inv_def)
next
  case (stops fs s)
  then show ?case using stopped_inv by (simp add: life_inv_def stopped_def)
qed

text \<open>What a user of the server and the next start of it rely on.\<close>

definition life_good :: "lib \<Rightarrow> server_life \<Rightarrow> bool" where
  "life_good L l =
     (case l of
        Up fs s \<Rightarrow>
          (\<forall>i k. s_listeners s i = Some k \<longrightarrow> served L (db_tunnels (s_db s)) i) \<and>
          list_all (stored L (s_config s)) (db_tunnels (s_db s)) \<and> pairwise_free (db_tunnels (s_db s))
      | Down cfg m \<Rightarrow> list_all (stored L cfg) (rows_of (df_tunnels (mc_db m))) \<and> pairwise_free (rows_of (df_tunnels (mc_db m))))"

lemma inv_good: "codecs_ok L \<Longrightarrow> life_inv L l \<Longrightarrow> life_good L l"
  by (auto simp: life_inv_def life_good_def disk_ok_def schema_ok_def server_inv_def tunnels_ok_def list_all_iff
      split: server_life.splits)

interpretation life: safe_system "\<lambda>l. \<exists>cfg m. l = Down cfg m \<and> fresh_machine m" "life L P"
    "\<lambda>l. codecs_ok L \<longrightarrow> life_inv L l" "\<lambda>l. codecs_ok L \<longrightarrow> life_good L l" for L P
  using life_step_inv fresh_disk inv_good by unfold_locales (auto simp: life_inv_def)



text \<open>A server that is installed, stopped and started again.\<close>

lemma empty_start:
  assumes "from_env L (si_env io) = Inr c" and "load_or_create P (si_made io) (si_fault io) (mc_files m) = (Inr x, fs)"
    and "\<forall>p. si_parent io p" "\<forall>u. si_open io u" "\<forall>a. si_listen io a"
    and "df_tunnels (mc_db m) \<in> {NoTable, TableV2 []}" and "db_faults (df_db (mc_db m)) = []"
    and "db_admins (df_db (mc_db m)) \<noteq> [] \<or>
      (\<exists>p h. c_admin_password c = Some p \<and> \<not> byte_len p < 12 \<and> l_hash_password L (si_salt io) (as_bytes p) = Some h)"
  shows "\<exists>s m'. server_main L P io m = (Inr (x, s), m') \<and> mc_files m' = fs \<and> db_tunnels (s_db s) = [] \<and>
     db_admins (s_db s) \<noteq> [] \<and> db_faults (s_db s) = []"
proof -
  have probe: "db_faults (df_db f) = [] \<Longrightarrow> on_file probe f = (Inr (), f)" for f
    by (simp add: on_file_def probe_def stmt_def)
  have "db_faults d = [] \<Longrightarrow> probes n d = (Inr (), d)" for n and d :: database
    by (induction n) (simp_all add: seq_def act_simps probe_def stmt_def)
  then have probes: "db_faults (df_db f) = [] \<Longrightarrow> on_file (probes n) f = (Inr (), f)" for n f
    by (simp add: on_file_def)
  let ?f = "(mc_db m)\<lparr>df_tunnels := TableV2 []\<rparr>"
  have mig: "migrate (mc_db m) = (Inr (), ?f)"
    using assms(6,7) probe probes
    by (auto simp: migrate_def seq_def migrate_tunnels_def migrate_tunnels_v2_def create_tunnels_v2_def
        create_tunnel_indexes_def act_simps Let_def)
  have "\<exists>d. bootstrap_admin L (si_salt io) (si_now io) (c_admin_password c) (df_db (mc_db m)) = (Inr (), d) \<and>
      db_faults d = [] \<and> db_admins d \<noteq> []"
  proof (cases "db_admins (df_db (mc_db m)) = []")
    case True
    then obtain p h where "c_admin_password c = Some p" "\<not> byte_len p < 12" "l_hash_password L (si_salt io) (as_bytes p) = Some h"
      using assms(8) by blast
    then show ?thesis
      using True assms(7) by (simp add: bootstrap_admin_def seq_def map_err_def select_def stmt_def act_simps)
  next
    case False
    then show ?thesis
      using assms(7) by (simp add: bootstrap_admin_def seq_def map_err_def select_def stmt_def act_simps)
  qed
  then obtain d where boot: "bootstrap_admin L (si_salt io) (si_now io) (c_admin_password c) (df_db (mc_db m)) = (Inr (), d)"
      "db_faults d = []" "db_admins d \<noteq> []" by blast
  have con: "connect L io c (mc_db m) = (Inr (d\<lparr>db_tunnels := []\<rparr>), ?f\<lparr>df_db := d\<rparr>)"
    using assms(3,4,7) boot(1)
    by (simp add: connect_def finish_connect_def seq_def act_simps map_err_def probe mig rows_of_def split: option.splits)
  let ?s = "app_state_new c (d\<lparr>db_tunnels := []\<rparr>)"
  have "list_all_tunnels L ?s = (Inr [], ?s)"
    using boot(2) by (simp add: list_all_tunnels_def seq_def act_simps db_do_def on_db_def map_err_def select_def stmt_def
        app_state_new_def)
  then have "start_serving L io c (d\<lparr>db_tunnels := []\<rparr>) = Inr ?s"
    using assms(5) by (simp add: start_serving_def restore_listeners_def seq_def act_simps)
  then show ?thesis
    using assms(1,2) con boot(2,3) by (intro exI [of _ ?s]) (simp add: server_main_def app_state_new_def)
qed

definition install_start :: start_input where
  "install_start = sample_start\<lparr>si_env := sample_env(''TB_ADMIN_PASSWORD'' \<mapsto> lit ''correct horse'')\<rparr>"

definition new_machine :: machine where
  "new_machine =
     \<lparr>mc_files = no_files, mc_db = \<lparr>df_db = sample_database\<lparr>db_devices := [], db_admins := []\<rparr>, df_tunnels = NoTable\<rparr>\<rparr>"

lemma install_from_env:
  "\<exists>c. from_env proxy_lib (si_env install_start) = Inr c \<and> c_admin_password c = Some (lit ''correct horse'')"
proof -
  obtain a where a: "parse_sock (lit ''1.2.3.4:80'') = Some a" using sample_listen by blast
  have ports: "parse_u16 (lit ''7'') = Some 7" "parse_u16 (lit ''9'') = Some 9"
    by (simp_all add: parse_u16_def parse_unsigned_def lit_def is_ascii_digit_def)
  have px: "proxy_cidrs proxy_lib (lit ''172.16.0.0/12'') = Inr [Net4 0 0]"
    by (simp add: proxy_cidrs_def lit_def proxy_lib_def)
  show ?thesis
    by (simp add: install_start_def from_env_def env_or_def parse_env_def sample_env_def a ports px)
qed

lemma installed:
  "\<exists>x s m' s2 m2. server_main proxy_lib sample_pem install_start new_machine = (Inr (x, s), m') \<and>
     from_env proxy_lib (si_env install_start) = Inr (s_config s) \<and> db_tunnels (s_db s) = [] \<and>
     server_main proxy_lib sample_pem install_start
       \<lparr>mc_files = mc_files m', mc_db = \<lparr>df_db = s_db s, df_tunnels = TableV2 (db_tunnels (s_db s))\<rparr>\<rparr> = (Inr (x, s2), m2)"
proof -
  obtain c where c: "from_env proxy_lib (si_env install_start) = Inr c" "c_admin_password c = Some (lit ''correct horse'')"
    using install_from_env by blast
  have io: "si_made install_start = ([5, 7], [6, 8])" "si_fault install_start = None" "\<forall>p. si_parent install_start p"
      "\<forall>u. si_open install_start u" "\<forall>a. si_listen install_start a"
    by (simp_all add: install_start_def sample_start_def)
  have "\<exists>x fs. load_or_create sample_pem ([5, 7], [6, 8]) None no_files = (Inr x, fs) \<and>
      load_or_create sample_pem ([5, 7], [6, 8]) None fs = (Inr x, fs)"
    by (simp add: load_unfold sample_pem_def identity_of_def)
  then obtain x fs where load: "load_or_create sample_pem ([5, 7], [6, 8]) None no_files = (Inr x, fs)"
      "load_or_create sample_pem ([5, 7], [6, 8]) None fs = (Inr x, fs)" by blast
  have pw: "\<not> byte_len (lit ''correct horse'') < 12" "\<exists>h. l_hash_password proxy_lib salt (as_bytes (lit ''correct horse'')) = Some h" for salt
    by (simp_all add: byte_len_ascii lit_def proxy_lib_def sample_lib_def)
  have "\<exists>s m'. server_main proxy_lib sample_pem install_start new_machine = (Inr (x, s), m') \<and> mc_files m' = fs \<and>
      db_tunnels (s_db s) = [] \<and> db_admins (s_db s) \<noteq> [] \<and> db_faults (s_db s) = []"
    by (rule empty_start [OF c(1) _ io(3-5)]) (use io load c(2) pw in \<open>auto simp: new_machine_def sample_database_def\<close>)
  then obtain s m' where first: "server_main proxy_lib sample_pem install_start new_machine = (Inr (x, s), m')" "mc_files m' = fs"
      "db_tunnels (s_db s) = []" "db_admins (s_db s) \<noteq> []" "db_faults (s_db s) = []" by blast
  let ?m = "\<lparr>mc_files = mc_files m', mc_db = \<lparr>df_db = s_db s, df_tunnels = TableV2 (db_tunnels (s_db s))\<rparr>\<rparr>"
  have "\<exists>s2 m2. server_main proxy_lib sample_pem install_start ?m = (Inr (x, s2), m2) \<and> mc_files m2 = fs \<and>
      db_tunnels (s_db s2) = [] \<and> db_admins (s_db s2) \<noteq> [] \<and> db_faults (s_db s2) = []"
    by (rule empty_start [OF c(1) _ io(3-5)]) (use io load first in simp_all)
  moreover have "from_env proxy_lib (si_env install_start) = Inr (s_config s)"
    by (rule main_config [OF first(1)])
  ultimately show ?thesis using first by blast
qed

lemma new_machine_fresh: "fresh_machine new_machine"
  by (simp add: fresh_machine_def new_machine_def)

lemma installed_reach:
  assumes "server_main L P io m = (Inr (x, s), m')"
  shows "(life L P)\<^sup>*\<^sup>* (Down (s_config s) m) (Up (mc_files m') s)"
  using life.started [OF assms main_config [OF assms]] by (rule r_into_rtranclp [of "life L P"])



end
