(* ===== verification/Desktop_Main.thy ===== *)
theory Desktop_Main
  imports Agent_Commands_Facts
begin

text \<open>
  The start of the desktop client and its tray menu (desktop/src-tauri/src/lib.rs), and what a restart of
  the client keeps. Windows, the icon and the plug-ins are the framework's.
\<close>

section \<open>The start\<close>

text \<open>A configuration file that cannot be read or parsed counts as none.\<close>

definition run_setup ::
  "('u, 'k) dlib \<Rightarrow> bool \<Rightarrow> nat \<Rightarrow> (ustr \<times> ustr) option \<Rightarrow> disk \<Rightarrow> 'k \<Rightarrow> 'k runtime" where
  "run_setup D fault token tray dk k =
     (let state = runtime_new dk k tray;
          loaded = (case load_config D fault dk of
             Inr (Some config) \<Rightarrow> state\<lparr>rs_config := Some config\<rparr>
           | _ \<Rightarrow> state) in
      if rs_config loaded \<noteq> None then restart_agent token loaded else loaded)"

text \<open>
  The program starts only when the system names its directory and the tray icon with its menu can be built; otherwise
  the builder fails and the process ends with a panic. Nothing has been written then.
\<close>

definition start_app ::
  "('u, 'k) dlib \<Rightarrow> bool \<Rightarrow> bool \<Rightarrow> bool \<Rightarrow> nat \<Rightarrow> (ustr \<times> ustr) option \<Rightarrow> disk \<Rightarrow> 'k \<Rightarrow> 'k runtime option" where
  "start_app D directory_found tray_built fault token tray dk k =
     (if directory_found \<and> tray_built then Some (run_setup D fault token tray dk k) else None)"

section \<open>The tray menu\<close>

datatype tray_effect = ShowWindow | Exit | Nothing

text \<open>The result of switching all tunnels is dropped.\<close>

definition tray_menu ::
  "('u, 'k) dlib \<Rightarrow> lib \<Rightarrow> ('k, 'w) net \<Rightarrow> ustr \<Rightarrow> 'k runtime \<times> 'w \<Rightarrow> tray_effect \<times> 'k runtime \<times> 'w" where
  "tray_menu D L net event s =
     (if event = lit ''show'' then (ShowWindow, s)
      else if event = lit ''start_all'' \<or> event = lit ''stop_all'' then
        (Nothing, snd (set_all_enabled_inner D L net (event = lit ''start_all'') s))
      else if event = lit ''quit'' then (Exit, s)
      else (Nothing, s))"

text \<open>A request to close the main window hides it; of another window the framework closes it.\<close>

datatype window_effect = Hidden | ClosedByFramework

definition window_event :: "ustr \<Rightarrow> window_effect" where
  "window_event label = (if label = lit ''main'' then Hidden else ClosedByFramework)"

section \<open>Starting with the system, and updates\<close>

text \<open>
  The last commands of desktop/src-tauri/src/commands.rs, over what the auto-start and updater plug-ins do to the
  machine; an error is the text it displays. An update is named by its version.
\<close>

record 'p plugins =
  pg_is_enabled :: "('p, ustr, bool) act"
  pg_enable :: "('p, ustr, unit) act"
  pg_disable :: "('p, ustr, unit) act"
  pg_check :: "('p, ustr, ustr option) act"
  pg_install :: "ustr \<Rightarrow> ('p, ustr, unit) act"

definition get_autostart :: "'p plugins \<Rightarrow> ('p, ustr, bool) act" where
  "get_autostart G = pg_is_enabled G"

definition set_autostart :: "'p plugins \<Rightarrow> bool \<Rightarrow> ('p, ustr, bool) act" where
  "set_autostart G enabled = seq (if enabled then pg_enable G else pg_disable G) (\<lambda>_. pg_is_enabled G)"

definition text_up_to_date :: ustr where
  "text_up_to_date = [0x5F53, 0x524D, 0x5DF2, 0x662F, 0x6700, 0x65B0, 0x7248, 0x672C]"

definition check_for_updates :: "'p plugins \<Rightarrow> ('p, ustr, ustr) act" where
  "check_for_updates G =
     seq (pg_check G) (\<lambda>found.
     ok (case found of Some version \<Rightarrow> lit ''UPDATE_AVAILABLE:'' @ version | None \<Rightarrow> text_up_to_date))"

definition install_update :: "'p plugins \<Rightarrow> ('p, ustr, unit) act" where
  "install_update G =
     seq (pg_check G) (\<lambda>found. case found of Some version \<Rightarrow> pg_install G version | None \<Rightarrow> ok ())"

text \<open>
  The switch shows what the system says afterwards, not what was asked for; and the user interface can tell an
  available update from the other answer by its prefix.
\<close>

lemma set_autostart_reports:
  "set_autostart G enabled s = (Inr b, s') \<Longrightarrow> \<exists>s1. pg_is_enabled G s1 = (Inr b, s')"
  by (auto simp: set_autostart_def seq_eq_Inr)

lemma check_for_updates_prefix:
  "check_for_updates G s = (Inr t, s') \<Longrightarrow>
     \<exists>found. pg_check G s = (Inr found, s') \<and> strip_prefix (lit ''UPDATE_AVAILABLE:'') t = found"
proof -
  assume "check_for_updates G s = (Inr t, s')"
  then obtain found where f: "pg_check G s = (Inr found, s')"
      "t = (case found of Some version \<Rightarrow> lit ''UPDATE_AVAILABLE:'' @ version | None \<Rightarrow> text_up_to_date)"
    by (auto simp: check_for_updates_def seq_eq_Inr act_simps)
  have "strip_prefix (lit ''UPDATE_AVAILABLE:'') t = found"
    using f(2) by (cases found) (simp_all add: strip_prefix_def starts_with_def text_up_to_date_def lit_def)
  then show ?thesis using f(1) by blast
qed

section \<open>A restart\<close>

text \<open>
  A registration survives the process. Whatever the client did before, when registering has succeeded
  and the client is started again on its disk and keychain, it has the configuration it had, the token,
  fingerprint and certificate of every installation are what they were, and exactly one agent is started; and
  a client whose file cannot be read starts unconfigured, with no agent.
\<close>

theorem registration_survives_restart:
  assumes "keychain_law D" and "uuid_plain L" and "uuid_text_ok L" and "config_json_ok D"
    and "configure_server D L net ci server_url token name s = (Inr u, (rt', w'))"
    and "rt2 = run_setup D fault agent tray (rs_disk rt') (rs_keychain rt')"
  shows "(if fault then rs_config rt2 = None \<and> rs_restarts rt2 = []
      else rs_config rt2 = rs_config rt' \<and> rs_config rt2 \<noteq> None \<and> rs_restarts rt2 = [agent] \<and> rs_cancellation rt2 = Some agent) \<and>
     (\<forall>j. secrets_of D L j (rs_keychain rt2) = secrets_of D L j (rs_keychain rt'))"
proof -
  have ok: "\<not> input_refused D server_url token name"
  proof
    assume "input_refused D server_url token name"
    from configure_server_refused [OF this, where net = net and L = L and ci = ci and s = s] assms(5) show False by auto
  qed
  then obtain url where url: "normalize_server_url D server_url = Inr url" by (auto simp: input_refused_def)
  obtain a rt1 w1 where sent: "net (enroll_request url (trim token)) s = (a, (rt1, w1))"
    by (cases "net (enroll_request url (trim token)) s") auto
  note run = assms(5) [unfolded configure_server_sent [where net = net and s = s, OF url ok sent]]
  obtain en where en: "(case a of NoAnswer e \<Rightarrow> Inl e
      | Answer status b \<Rightarrow> if is_success status then d_enrollment_parse D b else Inl (response_error D status b)) = Inr en"
    using run by (auto split: sum.splits)
  from commit_run [OF assms(1-4), of ci "enrolled_config url (trim name) (ci_fresh ci) (rs_config rt1) en" "trim token" en
      rt1 w1 "Inr u" rt' w'] run en
  have stored: "rs_config rt' \<noteq> None" "load_config D False (rs_disk rt') = Inr (rs_config rt')"
    by (auto simp: Let_def)
  show ?thesis
  proof (cases fault)
    case True
    have "dk_config (rs_disk rt') \<noteq> None" using stored by (cases "dk_config (rs_disk rt')") (auto simp: load_config_def)
    then have "load_config D True (rs_disk rt') = Inl FileFault" by (auto simp: load_config_def)
    then show ?thesis using assms(6) True by (auto simp: run_setup_def runtime_new_def)
  next
    case False
    then show ?thesis using assms(6) stored by (auto simp: run_setup_def runtime_new_def restart_agent_def)
  qed
qed

theorem registration_survives_restart_witness:
  "\<exists>rt' w'. configure_server sample_dlib colonless_lib sample_net (sample_command None) (lit ''https://tb.io/x'')
       sample_token (lit ''Mac'') (fresh_runtime, []) = (Inr (), (rt', w')) \<and>
     rs_restarts (run_setup sample_dlib False 4 None (rs_disk rt') (rs_keychain rt')) = [4]"
proof -
  from sample_configured [of None] obtain rt' where run:
    "configure_server sample_dlib colonless_lib sample_net (sample_command None) (lit ''https://tb.io/x'')
       sample_token (lit ''Mac'') (fresh_runtime, []) = (Inr (), (rt', [enroll_request (lit ''https://tb.io'') sample_token]))"
    by (auto simp: sample_command_def)
  from registration_survives_restart [OF sample_keychain colonless sample_config_json run refl, of False 4 None]
  show ?thesis using run by auto
qed

end
