(* ===== verification/Desktop_Frame.thy ===== *)
theory Desktop_Frame
  imports Desktop_Main Agent_Commands_Properties
begin

text \<open>
  What the agent, its tasks and the commands of the user interface leave alone: each of them keeps every
  predicate on the runtime state that only the status, the log, the transport, the tunnels and the
  metrics could break and they do not, if what other tasks do at the \<open>await\<close> points keeps it too. The
  commands are collected in \<open>invoke\<close> as the user interface reaches them.
\<close>

section \<open>The commands of the user interface\<close>

text \<open>
  The handlers that lib.rs registers, with their arguments, and what the user interface gets back.
  Two handlers are wrappers; the function behind the second is shared with the tray menu.
\<close>

datatype invocation =
    GetSnapshot
  | ConfigureServer ustr ustr ustr
  | CreateTunnel create_tunnel_request
  | UpdateTunnel uuid update_tunnel_request
  | DeleteTunnel uuid
  | SetAllEnabled bool
  | SetTransportMode transport_mode
  | GetAutostart
  | SetAutostart bool
  | CheckForUpdates
  | InstallUpdate

datatype reply = Shown app_snapshot | Finished | TunnelReply tunnel | Switch bool | Message ustr

definition replies :: "('a \<Rightarrow> reply) \<Rightarrow> ('k, 'w, 'a) command \<Rightarrow> ('k, 'w, reply) command" where
  "replies f m = seq m (\<lambda>x. ok (f x))"

definition get_snapshot :: "('k, 'w, app_snapshot) command" where
  "get_snapshot = peek (\<lambda>s. snapshot (fst s))"

definition create_tunnel_command ::
  "('u, 'k) dlib \<Rightarrow> lib \<Rightarrow> ('k, 'w) net \<Rightarrow> command_input \<Rightarrow> create_tunnel_request \<Rightarrow> ('k, 'w, tunnel) command" where
  "create_tunnel_command D L net ci q = create_tunnel_inner D L net ci q"

definition set_all_enabled :: "('u, 'k) dlib \<Rightarrow> lib \<Rightarrow> ('k, 'w) net \<Rightarrow> bool \<Rightarrow> ('k, 'w, unit) command" where
  "set_all_enabled D L net enabled = set_all_enabled_inner D L net enabled"

definition on_machine :: "('w, ustr, 'a) act \<Rightarrow> ('k, 'w, 'a) command" where
  "on_machine m s = (case m (snd s) of (r, w) \<Rightarrow> (r, (fst s, w)))"

definition invoke ::
  "('u, 'k) dlib \<Rightarrow> lib \<Rightarrow> 'w plugins \<Rightarrow> ('k, 'w) net \<Rightarrow> command_input \<Rightarrow> invocation \<Rightarrow> ('k, 'w, reply) command" where
  "invoke D L G net ci cmd =
     (case cmd of
        GetSnapshot \<Rightarrow> replies Shown get_snapshot
      | ConfigureServer server_url token name \<Rightarrow> replies (\<lambda>_. Finished) (configure_server D L net ci server_url token name)
      | CreateTunnel q \<Rightarrow> replies TunnelReply (create_tunnel_command D L net ci q)
      | UpdateTunnel i q \<Rightarrow> replies TunnelReply (update_tunnel D L net i q)
      | DeleteTunnel i \<Rightarrow> replies (\<lambda>_. Finished) (remove_tunnel D L net ci i)
      | SetAllEnabled enabled \<Rightarrow> replies (\<lambda>_. Finished) (set_all_enabled D L net enabled)
      | SetTransportMode mode \<Rightarrow> replies (\<lambda>_. Finished) (set_transport_mode D ci mode)
      | GetAutostart \<Rightarrow> replies Switch (on_machine (get_autostart G))
      | SetAutostart enabled \<Rightarrow> replies Switch (on_machine (set_autostart G enabled))
      | CheckForUpdates \<Rightarrow> replies Message (on_machine (check_for_updates G))
      | InstallUpdate \<Rightarrow> replies (\<lambda>_. Finished) (on_machine (install_update G)))"

lemmas handler_defs = get_snapshot_def create_tunnel_command_def set_all_enabled_def

section \<open>What other tasks do\<close>

text \<open>
  The changes that other tasks make to the runtime state while an agent, one of its tasks or a command
  waits, as pairs of states; \<open>tolerates I R\<close>: they keep \<open>I\<close>.
\<close>

definition tolerates :: "('s \<Rightarrow> bool) \<Rightarrow> ('s \<Rightarrow> 's \<Rightarrow> bool) \<Rightarrow> bool" where
  "tolerates I R \<longleftrightarrow> (\<forall>s t. R s t \<longrightarrow> I s \<longrightarrow> I t)"

definition carrier_foreign :: "('u, 'k) carrier_input \<Rightarrow> 'k runtime \<Rightarrow> 'k runtime \<Rightarrow> bool" where
  "carrier_foreign io rt rt' \<longleftrightarrow>
     (\<exists>f se. (DOthers f \<in> set (ca_quic io) \<or> DOthers f \<in> set (ca_kcp io) \<or> WOthers f \<in> set (ca_wss io)) \<and>
        rt = se_rt se \<and> rt' = se_rt (f se))"

definition attempt_foreign :: "('u, 'k) attempt \<Rightarrow> 'k runtime \<Rightarrow> 'k runtime \<Rightarrow> bool" where
  "attempt_foreign a rt rt' \<longleftrightarrow> rt' = at_others a rt \<or> carrier_foreign (at_input a) rt rt'"

definition stream_foreign :: "'k stream_input \<Rightarrow> 'k runtime \<Rightarrow> 'k runtime \<Rightarrow> bool" where
  "stream_foreign io rt rt' \<longleftrightarrow>
     (\<exists>f se. (f = si_others io \<or> Others f \<in> set (si_events io)) \<and> rt = se_rt se \<and> rt' = se_rt (f se))"

definition udp_foreign :: "'k local_udp_input \<Rightarrow> 'k runtime \<Rightarrow> 'k runtime \<Rightarrow> bool" where
  "udp_foreign io rt rt' \<longleftrightarrow>
     (\<exists>f se. (f = uo_others io \<or> UOthers f \<in> set (uo_events io)) \<and> rt = se_rt se \<and> rt' = se_rt (f se))"

definition net_foreign :: "('k, 'w) net \<Rightarrow> 'k runtime \<Rightarrow> 'k runtime \<Rightarrow> bool" where
  "net_foreign net rt rt' \<longleftrightarrow> (\<exists>rq s. rt = fst s \<and> rt' = fst (snd (net rq s)))"

lemmas foreign_defs = tolerates_def carrier_foreign_def attempt_foreign_def stream_foreign_def udp_foreign_def net_foreign_def

section \<open>The carrier loop\<close>

lemma take_others_from:
  "take_others others evs = Some (f, evs') \<Longrightarrow> (\<exists>ev \<in> set evs. others ev = Some f) \<and> set evs' \<subseteq> set evs"
  by (induction evs arbitrary: evs') (auto split: option.splits)

lemma carrier_loop_kept:
  assumes "J se" and "\<forall>ev \<in> set evs. keeps J (step ev)"
    and "\<forall>ev \<in> set evs. \<forall>f. others ev = Some f \<longrightarrow> (\<forall>se. J se \<longrightarrow> J (f se))"
  shows "J (snd (snd (carrier_loop others step evs se)))"
  using assms
proof (induction others step evs se rule: carrier_loop.induct)
  case (2 others step ev evs se)
  obtain r se1 where run: "step ev se = (r, se1)" by (cases "step ev se")
  have J1: "J se1" using "2.prems"(1,2) run by (auto dest: keepsD)
  show ?case
  proof (cases r)
    case (Inl e)
    show ?thesis
    proof (cases "e = Blocked")
      case True
      note blocked = this
      show ?thesis
      proof (cases "take_others others evs")
        case None
        then show ?thesis using run Inl blocked "2.prems"(1) by simp
      next
        case (Some x)
        obtain f evs' where x: "x = (f, evs')" by (cases x)
        from take_others_from [OF Some [unfolded x]] obtain ev' where
          origin: "ev' \<in> set evs" "others ev' = Some f" "set evs' \<subseteq> set evs" by blast
        have "J (f se)" using "2.prems"(1,3) origin(1,2) by auto
        then have "J (snd (snd (carrier_loop others step (ev # evs') (f se))))"
          by (intro "2.IH"(1) [OF run [symmetric] Inl blocked Some x [symmetric]])
            (use "2.prems"(2,3) origin(3) in \<open>auto 0 3\<close>)
        then show ?thesis using run Inl blocked Some x by simp
      qed
    qed (use run Inl J1 in simp)
  next
    case (Inr b)
    obtain goes_on tasks where b: "b = (goes_on, tasks)" by (cases b)
    have "goes_on \<Longrightarrow> J (snd (snd (carrier_loop others step evs se1)))"
      by (rule "2.IH"(2) [OF run [symmetric] Inr b [symmetric] _ J1]) (use "2.prems"(2,3) in auto)
    then show ?thesis using run Inr b J1 by (auto split: prod.splits)
  qed
qed simp

section \<open>The frame of the agent\<close>

abbreviation on_session :: "('k runtime \<Rightarrow> bool) \<Rightarrow> 'k session \<Rightarrow> bool" where
  "on_session I \<equiv> (\<lambda>se. I (se_rt se))"

abbreviation on_client :: "('k runtime \<Rightarrow> bool) \<Rightarrow> 'k runtime \<times> 'w \<Rightarrow> bool" where
  "on_client I \<equiv> (\<lambda>s. I (fst s))"

text \<open>A predicate that the five ways in which the agent writes to the runtime state keep.\<close>

locale agent_frame =
  fixes I :: "'k runtime \<Rightarrow> bool"
  assumes status_kept: "I rt \<Longrightarrow> I (set_status st m rt)"
    and log_kept: "I rt \<Longrightarrow> I (log_with_location at l m g rt)"
    and transport_kept: "I rt \<Longrightarrow> I (set_transport tr why rt)"
    and tunnels_kept: "I rt \<Longrightarrow> I (rt\<lparr>rs_tunnels := ts\<rparr>)"
    and metrics_kept: "I rt \<Longrightarrow> I (with_metrics f rt)"
begin

lemma event_kept: "I rt \<Longrightarrow> I (log_event at l m rt)"
  unfolding log_event_def by (rule log_kept)

lemmas kept = status_kept log_kept event_kept transport_kept tunnels_kept metrics_kept

subsection \<open>Messages and carriers\<close>

lemma send_out_kept [keeps_intros]: "keeps (on_session I) (send_out m)"
  by (rule keepsI) (auto simp: send_out_def send_outbound_def split: option.splits)

lemma route_out_kept [keeps_intros]: "keeps (on_session I) (route_out L frame)"
  by (rule keepsI) (auto simp: route_out_def route_local_frame_def split: option.splits prod.splits if_splits send_outcome.splits)

lemma on_rt_kept: "(\<And>rt. I rt \<Longrightarrow> I (f rt)) \<Longrightarrow> keeps (on_session I) (modify (on_rt f))"
  by (rule keeps_modify) simp

lemma dispatch_kept [keeps_intros]: "keeps (on_session I) (dispatch_control_message at m)"
  by (cases m) (auto simp: dispatch_control_message_def intro!: keeps_intros on_rt_kept kept)

lemma wss_control_kept [keeps_intros]: "keeps (on_session I) (wss_control_message at m)"
  by (cases m) (auto simp: wss_control_message_def intro!: keeps_intros on_rt_kept kept)

lemma kcp_event_kept:
  assumes "\<forall>f se. ev = DOthers f \<longrightarrow> I (se_rt se) \<longrightarrow> I (se_rt (f se))"
  shows "keeps (on_session I) (kcp_event L ev)"
  using assms by (cases ev) (auto simp: kcp_event_def intro!: keeps_intros keeps_modify)

lemma quic_event_kept:
  assumes "\<forall>f se. ev = DOthers f \<longrightarrow> I (se_rt se) \<longrightarrow> I (se_rt (f se))"
  shows "keeps (on_session I) (quic_event L ev)"
  using kcp_event_kept [OF assms] by (cases ev) (auto simp: quic_event_def intro!: keeps_intros)

lemma wss_event_kept:
  assumes "\<forall>f se. ev = WOthers f \<longrightarrow> I (se_rt se) \<longrightarrow> I (se_rt (f se))"
  shows "keeps (on_session I) (wss_event_step L mode ev)"
  using assms by (cases ev) (auto simp: wss_event_step_def intro!: keeps_intros keeps_modify)

lemma session_new_kept: "on_session I (session_new rt) \<longleftrightarrow> I rt"
  by (simp add: session_new_def)

lemma direct_loop_kept:
  assumes "\<forall>f se. DOthers f \<in> set evs \<longrightarrow> I (se_rt se) \<longrightarrow> I (se_rt (f se))"
    and "step = quic_event L \<or> step = kcp_event L"
    and "carrier_loop direct_others step evs (session_new rt) = (r, ts, se)" and "I rt"
  shows "I (se_rt se)"
proof -
  have "on_session I (snd (snd (carrier_loop direct_others step evs (session_new rt))))"
  proof (rule carrier_loop_kept)
    show "\<forall>ev \<in> set evs. keeps (on_session I) (step ev)" using assms(1,2) by (auto intro!: quic_event_kept kcp_event_kept)
    show "\<forall>ev \<in> set evs. \<forall>f. direct_others ev = Some f \<longrightarrow> (\<forall>se. on_session I se \<longrightarrow> on_session I (f se))"
      using assms(1) by (auto simp: direct_others_def split: direct_event.splits)
  qed (simp add: session_new_kept assms(4))
  then show ?thesis using assms(3) by simp
qed

lemma wss_loop_kept:
  assumes "\<forall>f se. WOthers f \<in> set evs \<longrightarrow> I (se_rt se) \<longrightarrow> I (se_rt (f se))"
    and "carrier_loop wss_others (wss_event_step L mode) evs se = (r, ts, se')" and "I (se_rt se)"
  shows "I (se_rt se')"
proof -
  have "on_session I (snd (snd (carrier_loop wss_others (wss_event_step L mode) evs se)))"
  proof (rule carrier_loop_kept)
    show "\<forall>ev \<in> set evs. keeps (on_session I) (wss_event_step L mode ev)" using assms(1) by (auto intro!: wss_event_kept)
    show "\<forall>ev \<in> set evs. \<forall>f. wss_others ev = Some f \<longrightarrow> (\<forall>se. on_session I se \<longrightarrow> on_session I (f se))"
      using assms(1) by (auto simp: wss_others_def split: wss_event.splits)
  qed (simp add: assms(3))
  then show ?thesis using assms(2) by simp
qed

lemma carriers_kept:
  assumes "tolerates I (carrier_foreign io)" and "I rt"
  shows "I (snd (run_quic_carrier D L io config token rt))" "I (snd (run_kcp_carrier D L io config token rt))"
    "I (snd (run_wss_carrier D L io config token rt))"
proof -
  have others: "\<forall>f se. DOthers f \<in> set (ca_quic io) \<longrightarrow> I (se_rt se) \<longrightarrow> I (se_rt (f se))"
    "\<forall>f se. DOthers f \<in> set (ca_kcp io) \<longrightarrow> I (se_rt se) \<longrightarrow> I (se_rt (f se))"
    "\<forall>f se. WOthers f \<in> set (ca_wss io) \<longrightarrow> I (se_rt se) \<longrightarrow> I (se_rt (f se))"
    using assms(1) by (auto simp: foreign_defs)
  show "I (snd (run_quic_carrier D L io config token rt))"
    using assms(2) by (auto simp: run_quic_carrier_def Let_def split: sum.splits prod.splits
        intro!: kept elim!: direct_loop_kept [OF others(1) disjI1 [OF refl]])
  show "I (snd (run_kcp_carrier D L io config token rt))"
    using assms(2) by (auto simp: run_kcp_carrier_def Let_def split: sum.splits prod.splits
        intro!: kept elim!: direct_loop_kept [OF others(2) disjI2 [OF refl]])
  show "I (snd (run_wss_carrier D L io config token rt))"
    using assms(2) by (auto simp: run_wss_carrier_def Let_def session_new_kept split: sum.splits prod.splits
        intro!: kept elim!: wss_loop_kept [OF others(3)])
qed

lemma run_carrier_kept:
  assumes "tolerates I (carrier_foreign io)" and "I rt"
  shows "I (snd (run_carrier D L show_err io config token rt))"
proof (cases "gc_transport_mode config = MAuto")
  case True
  obtain r rt1 where quic: "run_quic_carrier D L io config token rt = (r, rt1)"
    by (cases "run_quic_carrier D L io config token rt")
  then have "I rt1" using carriers_kept(1) [OF assms] by (metis snd_conv)
  then show ?thesis using True quic
    by (auto simp: run_carrier_def Let_def split: option.splits sum.splits intro!: carriers_kept(3) [OF assms(1)] kept)
next
  case False
  then show ?thesis using carriers_kept [OF assms]
    by (cases "gc_transport_mode config") (simp_all add: run_carrier_def)
qed

lemma run_reconnecting_kept:
  assumes "\<forall>a \<in> set as. tolerates I (attempt_foreign a)" and "I rt"
  shows "I (snd (snd (run_reconnecting D L show_err as n rt)))"
  using assms
proof (induction as arbitrary: n rt)
  case (Cons a as)
  have others: "tolerates I (carrier_foreign (at_input a))" "\<And>rt. I rt \<Longrightarrow> I (at_others a rt)"
    using Cons.prems(1) by (auto simp: foreign_defs)
  have rest: "I (snd (snd (run_reconnecting D L show_err as n rt)))" if "I rt" for n rt
    using Cons.IH [OF _ that] Cons.prems(1) by simp
  show ?case
  proof (cases "at_cancelled a \<or> rs_config rt = None")
    case True
    then show ?thesis using Cons.prems(2) by (auto intro: kept)
  next
    case False
    then obtain config where go: "\<not> at_cancelled a" "rs_config rt = Some config" by auto
    show ?thesis
    proof (cases "load_token D L (gc_installation_id config) (rs_keychain rt)")
      case (Inl e)
      then show ?thesis using go Cons.prems(2) by (simp add: kept)
    next
      case (Inr token)
      obtain r rt1 where run: "run_carrier D L show_err (at_input a) config token (set_status StConnecting text_connecting rt) = (r, rt1)"
        by (cases "run_carrier D L show_err (at_input a) config token (set_status StConnecting text_connecting rt)")
      then have I1: "I rt1"
        using run_carrier_kept [OF others(1) status_kept [OF Cons.prems(2)]] by (metis snd_conv)
      have last_part: "I (at_others a (set_status st m (log_event at l e rt1)))" "I (set_status st m (log_event at l e rt1))" for st m at l e
        using I1 by (auto intro: kept others(2))
      show ?thesis using go Inr run I1 rest [OF last_part(1)] last_part(2)
        by (cases r) (simp_all add: Let_def case_prod_beta)
    qed
  qed
qed simp

subsection \<open>The tasks of connections and UDP sessions\<close>

lemma send_outbound_rt: "send_outbound m se = (r, se') \<Longrightarrow> se_rt se' = se_rt se"
  by (auto simp: send_outbound_def split: option.splits if_splits)

lemma local_step_kept:
  assumes "\<forall>f. ev = Others f \<longrightarrow> (\<forall>se. I (se_rt se) \<longrightarrow> I (se_rt (f se)))" and "I (se_rt (snd bs))"
  shows "I (se_rt (snd (local_step L i ev bs)))"
proof -
  obtain b se where bs: "bs = (b, se)" by (cases bs)
  have up: "I (se_rt se1)" if "local_up_step L i ev b se = (b1, se1)" for b1 se1
    using that assms(2) unfolding bs local_up_step_def
    by (auto simp: Let_def split: if_splits option.splits bridge_event.splits prod.splits send_outcome.splits
        dest!: send_outbound_rt intro!: metrics_kept)
  have down: "I (se_rt (snd (local_down_step i ev b1 se1)))" if "I (se_rt se1)" for b1 se1
    using that unfolding local_down_step_def
    by (auto simp: local_deliver_def split: if_splits option.splits bridge_event.splits list.splits intro!: metrics_kept)
  show ?thesis
    using assms up down by (cases ev) (auto simp: bs local_step_def split: prod.splits)
qed

lemma bridge_local_kept:
  "\<forall>f se. Others f \<in> set evs \<longrightarrow> I (se_rt se) \<longrightarrow> I (se_rt (f se)) \<Longrightarrow> I (se_rt (snd bs)) \<Longrightarrow>
     I (se_rt (snd (bridge_local L i evs bs)))"
  unfolding bridge_local_def
proof (induction evs arbitrary: bs)
  case (Cons ev evs)
  have "I (se_rt (snd (local_step L i ev bs)))" by (rule local_step_kept) (use Cons.prems in auto)
  then show ?case using Cons.IH Cons.prems(1) by simp
qed simp

lemma udp_local_step_kept:
  assumes "\<forall>f. ev = UOthers f \<longrightarrow> (\<forall>se. I (se_rt se) \<longrightarrow> I (se_rt (f se)))" and "I (se_rt (snd us))"
  shows "I (se_rt (snd (udp_local_step L i ev us)))"
proof -
  obtain u se where us: "us = (u, se)" by (cases us)
  have uin: "I (se_rt (snd (udp_in i sent u se)))" for sent
    using assms(2) by (auto simp: us udp_in_def Let_def split: option.splits list.splits intro!: metrics_kept)
  have uout: "I (se_rt (snd (udp_out L i now bs u se)))" for now bs
    using assms(2) by (auto simp: us udp_out_def split: prod.splits send_outcome.splits dest!: send_outbound_rt intro!: metrics_kept)
  show ?thesis
    using assms uin uout by (cases ev) (auto simp: us udp_local_step_def split: option.splits)
qed

lemma udp_local_run_kept:
  "\<forall>f se. UOthers f \<in> set evs \<longrightarrow> I (se_rt se) \<longrightarrow> I (se_rt (f se)) \<Longrightarrow> I (se_rt (snd us)) \<Longrightarrow>
     I (se_rt (snd (udp_local_run L i evs us)))"
  unfolding udp_local_run_def
proof (induction evs arbitrary: us)
  case (Cons ev evs)
  have "I (se_rt (snd (udp_local_step L i ev us)))" by (rule udp_local_step_kept) (use Cons.prems in auto)
  then show ?case using Cons.IH Cons.prems(1) by simp
qed simp

lemma leaving_kept [keeps_intros]: "keeps (on_session I) m \<Longrightarrow> keeps (on_session I) (leaving i m)"
  by (rule keepsI) (auto simp: leaving_def drop_receiver_def split: prod.splits sum.splits dest: keepsD)

lemma streams_kept [keeps_intros]:
  "keeps (on_session I) (modify (register_stream i))" "keeps (on_session I) (modify (remove_stream i))"
  "keeps (on_session I) (modify (drop_receiver i))"
  by (rule keeps_modify, simp add: register_stream_def remove_stream_def drop_receiver_def)+

lemma open_multiplexed_kept:
  assumes "tolerates I (stream_foreign io)"
  shows "keeps (on_session I) (open_multiplexed_stream L io i t ticket)"
proof -
  have events: "\<forall>f se. Others f \<in> set (si_events io) \<longrightarrow> I (se_rt se) \<longrightarrow> I (se_rt (f se))"
    using assms unfolding foreign_defs by blast
  have others: "keeps (on_session I) (modify (si_others io))"
    using assms by (intro keeps_modify) (auto simp: foreign_defs)
  have bridge: "keeps (on_session I)
      (\<lambda>se. case bridge_local L i (si_events io) (bridge_start, se) of (b, se') \<Rightarrow> (Inr b, se'))"
    using bridge_local_kept [OF events, of "(bridge_start, se)" L i for se] by (auto simp: keeps_def case_prod_beta)
  show ?thesis
    unfolding open_multiplexed_stream_def
    by (auto intro!: keeps_intros others bridge split: sum.split option.split)
qed

lemma open_udp_kept:
  assumes "tolerates I (udp_foreign io)"
  shows "keeps (on_session I) (open_udp_session L io i ticket)"
proof -
  have events: "\<forall>f se. UOthers f \<in> set (uo_events io) \<longrightarrow> I (se_rt se) \<longrightarrow> I (se_rt (f se))"
    using assms unfolding foreign_defs by blast
  have others: "keeps (on_session I) (modify (uo_others io))"
    using assms by (intro keeps_modify) (auto simp: foreign_defs)
  have run: "keeps (on_session I)
      (\<lambda>se. case udp_local_run L i (uo_events io) (udp_local_start (uo_started io), se) of (u, se') \<Rightarrow> (Inr u, se'))"
    using udp_local_run_kept [OF events, of "(udp_local_start (uo_started io), se)" L i for se]
    by (auto simp: keeps_def case_prod_beta)
  show ?thesis
    unfolding open_udp_session_def
    by (auto intro!: keeps_intros others run split: sum.split option.split)
qed

lemma tasks_kept:
  assumes "I (se_rt se)"
  shows "tolerates I (stream_foreign io) \<Longrightarrow> I (se_rt (direct_stream_task L show_err at io tk se))"
    "tolerates I (stream_foreign io) \<Longrightarrow> I (se_rt (snd (wss_stream_task L show_err at io tk se)))"
    "tolerates I (udp_foreign uo) \<Longrightarrow> I (se_rt (udp_stream_task L show_err at uo tk se))"
proof -
  have begun: "I (se_rt (log_task at tk se))" using assms by (simp add: log_task_def log_kept)
  have failure: "I (se_rt (log_failure at show_err what r se1))" if "I (se_rt se1)" for what se1 and r :: "agent_error + 'a"
    using that by (simp add: log_failure_def event_kept split: sum.split)
  show "tolerates I (stream_foreign io) \<Longrightarrow> I (se_rt (direct_stream_task L show_err at io tk se))"
    using begun by (auto simp: direct_stream_task_def split: prod.splits intro!: failure dest: keepsD [OF open_multiplexed_kept])
  show "tolerates I (stream_foreign io) \<Longrightarrow> I (se_rt (snd (wss_stream_task L show_err at io tk se)))"
    using begun by (auto simp: wss_stream_task_def split: prod.splits option.splits intro!: failure metrics_kept
        dest!: keepsD [OF open_multiplexed_kept, rotated 2])
  show "tolerates I (udp_foreign uo) \<Longrightarrow> I (se_rt (udp_stream_task L show_err at uo tk se))"
    using begun by (auto simp: udp_stream_task_def split: prod.splits intro!: failure dest: keepsD [OF open_udp_kept])
qed

subsection \<open>The commands\<close>

lemma net_kept: "tolerates I (net_foreign net) \<Longrightarrow> net rq s = (a, s') \<Longrightarrow> I (fst s) \<Longrightarrow> I (fst s')"
  unfolding foreign_defs by (metis snd_conv)

lemma request_kept [keeps_intros]:
  "tolerates I (net_foreign net) \<Longrightarrow> keeps (on_client I) (request_json D net server token method path body parse)"
  by (rule keepsI) (auto simp: request_json_def dest: net_kept split: prod.splits http_answer.splits)

lemma credentials_kept [keeps_intros]: "keeps (on_client I) (credentials D L)"
  unfolding credentials_def by (intro keeps_intros)

lemma on_runtime_kept: "(\<And>rt. I rt \<Longrightarrow> I (f rt)) \<Longrightarrow> keeps (on_client I) (on_runtime f)"
  unfolding on_runtime_def by (rule keeps_modify) simp

lemma refresh_kept [keeps_intros]:
  "tolerates I (net_foreign net) \<Longrightarrow> keeps (on_client I) (refresh_tunnels D L net)"
  unfolding refresh_tunnels_def by (auto intro!: keeps_intros on_runtime_kept kept)

lemma set_each_kept [keeps_intros]:
  "tolerates I (net_foreign net) \<Longrightarrow> keeps (on_client I) (set_each D L net enabled ts)"
  by (induction ts) (auto simp: set_one_def intro!: keeps_intros)

lemma set_all_kept [keeps_intros]:
  "tolerates I (net_foreign net) \<Longrightarrow> keeps (on_client I) (set_all_enabled_inner D L net enabled)"
  unfolding set_all_enabled_inner_def by (intro keeps_intros)

lemma tray_menu_kept:
  "tolerates I (net_foreign net) \<Longrightarrow> I (fst s) \<Longrightarrow> I (fst (snd (tray_menu D L net event s)))"
  by (cases "set_all_enabled_inner D L net (event = lit ''start_all'') s")
    (auto simp: tray_menu_def dest: keepsD [OF set_all_kept])

lemma tunnel_commands_kept [keeps_intros]:
  assumes "tolerates I (net_foreign net)"
  shows "keeps (on_client I) (create_tunnel_inner D L net ci q)" "keeps (on_client I) (update_tunnel D L net i u)"
    "keeps (on_client I) (remove_tunnel D L net ci i)"
  using assms unfolding create_tunnel_inner_def update_tunnel_def remove_tunnel_def request_empty_def
  by (auto intro!: keeps_intros on_runtime_kept kept)

lemma machine_kept [keeps_intros]: "keeps (on_client I) (on_machine m)"
  by (rule keepsI) (simp add: on_machine_def split: prod.split)

lemma replies_kept [keeps_intros]: "keeps (on_client I) m \<Longrightarrow> keeps (on_client I) (replies f m)"
  unfolding replies_def by (intro keeps_intros)

lemma invoke_kept:
  fixes net :: "('k, 'w) net"
  assumes "tolerates I (net_foreign net)"
    and "\<And>server_url token name. keeps (on_client I) (configure_server D L net ci server_url token name)"
    and "\<And>mode. keeps (on_client I) (set_transport_mode D ci mode :: ('k, 'w, unit) command)"
  shows "keeps (on_client I) (invoke D L G net ci cmd)"
  using assms by (cases cmd) (auto simp: invoke_def handler_defs intro!: keeps_intros)

end

end
