(* ===== verification/Desktop_Life.thy ===== *)
theory Desktop_Life
  imports Desktop_Frame
begin

text \<open>
  The life of the desktop client: it is started on what is on its disk and in its keychain, its agents, their
  tasks, the tray menu and the commands of the user interface run, interleaved wherever one of
  them waits for the network, and it is ended and started again. A command writes the keychain and the
  file without a pause; two commands that do so at the same moment are the subject of
  \<open>concurrent_saves_tear\<close>.
\<close>

section \<open>The steps of a life\<close>

text \<open>
  What can happen to a running client and the world outside. The world changes by itself; a command, the
  tray menu, an agent wherever it is in its loop, and the task of a connection run, and what other tasks do
  meanwhile is again something that can happen.
\<close>

inductive client_runs ::
  "('u, 'k) dlib \<Rightarrow> lib \<Rightarrow> 'w plugins \<Rightarrow> (agent_error \<Rightarrow> ustr) \<Rightarrow> 'k runtime \<times> 'w \<Rightarrow> 'k runtime \<times> 'w \<Rightarrow> bool"
  for D L G show_err where
  idle: "client_runs D L G show_err s s"
| onwards: "client_runs D L G show_err s t \<Longrightarrow> client_runs D L G show_err t u \<Longrightarrow> client_runs D L G show_err s u"
| world: "client_runs D L G show_err (rt, w) (rt, w')"
| commanded: "\<forall>rt rt'. net_foreign net rt rt' \<longrightarrow> (\<forall>w. client_runs D L G show_err (rt, w) (rt', w)) \<Longrightarrow>
    invoke D L G net ci cmd s = (r, s') \<Longrightarrow> client_runs D L G show_err s s'"
| tray: "\<forall>rt rt'. net_foreign net rt rt' \<longrightarrow> (\<forall>w. client_runs D L G show_err (rt, w) (rt', w)) \<Longrightarrow>
    tray_menu D L net event s = (effect, s') \<Longrightarrow> client_runs D L G show_err s s'"
| agent: "\<forall>a \<in> set as. \<forall>rt rt'. attempt_foreign a rt rt' \<longrightarrow> (\<forall>w. client_runs D L G show_err (rt, w) (rt', w)) \<Longrightarrow>
    run_reconnecting D L show_err as n rt = (ds, finished, rt') \<Longrightarrow> client_runs D L G show_err (rt, w) (rt', w)"
| direct_task: "\<forall>rt rt'. stream_foreign io rt rt' \<longrightarrow> (\<forall>w. client_runs D L G show_err (rt, w) (rt', w)) \<Longrightarrow>
    client_runs D L G show_err (se_rt se, w) (se_rt (direct_stream_task L show_err at io tk se), w)"
| wss_task: "\<forall>rt rt'. stream_foreign io rt rt' \<longrightarrow> (\<forall>w. client_runs D L G show_err (rt, w) (rt', w)) \<Longrightarrow>
    client_runs D L G show_err (se_rt se, w) (se_rt (snd (wss_stream_task L show_err at io tk se)), w)"
| udp_task: "\<forall>rt rt'. udp_foreign uo rt rt' \<longrightarrow> (\<forall>w. client_runs D L G show_err (rt, w) (rt', w)) \<Longrightarrow>
    client_runs D L G show_err (se_rt se, w) (se_rt (udp_stream_task L show_err at uo tk se), w)"

text \<open>\<open>Off\<close>: the files, the keychain and the world of a client that does not run.\<close>

datatype ('k, 'w) desktop = Off disk 'k 'w | On "'k runtime" 'w

inductive desktop_step ::
  "('u, 'k) dlib \<Rightarrow> lib \<Rightarrow> 'w plugins \<Rightarrow> (agent_error \<Rightarrow> ustr) \<Rightarrow> ('k, 'w) desktop \<Rightarrow> ('k, 'w) desktop \<Rightarrow> bool"
  for D L G show_err where
  launched: "start_app D directory_found tray_built fault token tray dk k = Some rt \<Longrightarrow>
    desktop_step D L G show_err (Off dk k w) (On rt w)"
| goes_on: "client_runs D L G show_err (rt, w) (rt', w') \<Longrightarrow> desktop_step D L G show_err (On rt w) (On rt' w')"
| ends: "desktop_step D L G show_err (On rt w) (Off (rs_disk rt) (rs_keychain rt) w)"

inductive_cases off_stepE: "desktop_step D L G show_err (Off dk k w) s"
inductive_cases on_stepE: "desktop_step D L G show_err (On rt w) s"

text \<open>At first there is no configuration file.\<close>

definition desktop_start :: "('k, 'w) desktop \<Rightarrow> bool" where
  "desktop_start s \<longleftrightarrow> (\<exists>dk k w. s = Off dk k w \<and> dk_config dk = None)"

section \<open>The invariant\<close>

definition client_laws :: "('u, 'k) dlib \<Rightarrow> lib \<Rightarrow> bool" where
  "client_laws D L \<longleftrightarrow> keychain_law D \<and> uuid_plain L \<and> uuid_text_ok L \<and> config_json_ok D"

definition secrets_stored :: "('u, 'k) dlib \<Rightarrow> lib \<Rightarrow> uuid \<Rightarrow> 'k \<Rightarrow> bool" where
  "secrets_stored D L i k \<longleftrightarrow>
     (\<exists>token. load_token D L i k = Inr token \<and> 20 \<le> byte_len token) \<and>
     (\<exists>fp. load_transport_fingerprint D L i k = Inr fp) \<and> (\<exists>cert. load_transport_certificate D L i k = Inr cert)"

definition stored_ok :: "('u, 'k) dlib \<Rightarrow> lib \<Rightarrow> disk \<Rightarrow> 'k \<Rightarrow> bool" where
  "stored_ok D L dk k \<longleftrightarrow>
     (\<forall>c. load_config D False dk = Inr (Some c) \<longrightarrow>
        secrets_stored D L (gc_installation_id c) k \<and> (\<exists>v. normalize_server_url D v = Inr (gc_server_url c)))"

text \<open>As long as no cancellation token is handed out twice, the current one is the only one not cancelled.\<close>

definition agents_ok :: "'k runtime \<Rightarrow> bool" where
  "agents_ok rt \<longleftrightarrow>
     (distinct (rs_restarts rt) \<longrightarrow>
        set (rs_restarts rt) = rs_cancelled rt \<union> set_option (rs_cancellation rt) \<and>
        rs_cancelled rt \<inter> set_option (rs_cancellation rt) = {})"

definition client_ok :: "('u, 'k) dlib \<Rightarrow> lib \<Rightarrow> 'k runtime \<Rightarrow> bool" where
  "client_ok D L rt \<longleftrightarrow>
     (\<forall>c. rs_config rt = Some c \<longrightarrow> load_config D False (rs_disk rt) = Inr (Some c)) \<and>
     stored_ok D L (rs_disk rt) (rs_keychain rt) \<and> agents_ok rt \<and>
     (rs_config rt = None \<longleftrightarrow> rs_cancellation rt = None) \<and> length (rs_events rt) \<le> 200"

section \<open>The commands that change the configuration\<close>

lemma set_key_run:
  assumes "keychain_law D" and "set_key (d_key_set D u v) s = (r, s')"
  shows "fst s' = fst s\<lparr>rs_keychain := rs_keychain (fst s')\<rparr>"
    "d_key_get D x (rs_keychain (fst s')) = (if r = Inr () \<and> x = u then Inr v else d_key_get D x (rs_keychain (fst s)))"
proof -
  obtain r1 k where set: "d_key_set D u v (rs_keychain (fst s)) = (r1, k)" by (cases "d_key_set D u v (rs_keychain (fst s))")
  with assms(2) have run: "r = r1" "s' = (fst s\<lparr>rs_keychain := k\<rparr>, snd s)" by (simp_all add: set_key_def)
  show "fst s' = fst s\<lparr>rs_keychain := rs_keychain (fst s')\<rparr>" by (simp add: run)
  show "d_key_get D x (rs_keychain (fst s')) = (if r = Inr () \<and> x = u then Inr v else d_key_get D x (rs_keychain (fst s)))"
    using assms(1) set unfolding keychain_law_def run by (cases r1) auto
qed

text \<open>A registration, however far it gets, leaves no installation without its secrets.\<close>

lemma store_enrollment_secrets:
  fixes D :: "('u, 'k) dlib"
  assumes "client_laws D L" and "20 \<le> byte_len token"
  shows "keeps (on_client (\<lambda>rt. secrets_stored D L j (rs_keychain rt))) (store_enrollment D L ci config token en :: ('k, 'w, unit) command)"
proof -
  have law: "keychain_law D" and "uuid_plain L" "uuid_text_ok L" using assms(1) by (auto simp: client_laws_def)
  note differ = keys_distinct(1-3) [OF this(2,3)] and load_defs = load_token_def load_transport_fingerprint_def load_transport_certificate_def
  have saved: "keeps (on_client (\<lambda>rt. secrets_stored D L j (rs_keychain rt))) (set_key f :: ('k, 'w, unit) command)"
    if "f = save_token D L i token \<or> f = save_transport_fingerprint D L i v \<or> f = save_transport_certificate D L i v" for f i v
  proof (rule keepsI)
    fix s :: "'k runtime \<times> 'w"
    assume before: "secrets_stored D L j (rs_keychain (fst s))"
    obtain r s' where run: "set_key f s = (r, s')" by (cases "set_key f s")
    from that have "secrets_stored D L j (rs_keychain (fst s'))"
    proof (elim disjE)
      assume "f = save_token D L i token"
      note get = set_key_run(2) [OF law run [unfolded this save_token_def]]
      show ?thesis using before assms(2)
        by (auto simp: secrets_stored_def load_defs get differ differ [THEN not_sym])
    next
      assume "f = save_transport_fingerprint D L i v"
      note get = set_key_run(2) [OF law run [unfolded this save_transport_fingerprint_def]]
      show ?thesis using before
        by (auto simp: secrets_stored_def load_defs get differ differ [THEN not_sym])
    next
      assume "f = save_transport_certificate D L i v"
      note get = set_key_run(2) [OF law run [unfolded this save_transport_certificate_def]]
      show ?thesis using before
        by (auto simp: secrets_stored_def load_defs get differ differ [THEN not_sym])
    qed
    then show "secrets_stored D L j (rs_keychain (fst (snd (set_key f s))))" using run by simp
  qed
  have config_file: "keeps (on_client (\<lambda>rt. secrets_stored D L j (rs_keychain rt))) (store_config D fault config)" for fault
    by (rule keepsI) (simp add: store_config_def split: prod.split)
  show ?thesis
    unfolding store_enrollment_def Let_def by (intro keeps_seq saved config_file) auto
qed

text \<open>
  What a command has changed when it ends: nothing, or it has taken the state a request left behind
  one step further, and that step keeps the invariant and a configuration that was there.
\<close>

definition advances :: "('u, 'k) dlib \<Rightarrow> lib \<Rightarrow> 'k runtime \<Rightarrow> 'k runtime \<Rightarrow> bool" where
  "advances D L rt rt' \<longleftrightarrow>
     (client_ok D L rt \<longrightarrow> client_ok D L rt') \<and> (rs_config rt \<noteq> None \<longrightarrow> rs_config rt' \<noteq> None)"

lemma agents_ok_restart: "agents_ok rt \<Longrightarrow> agents_ok (restart_agent token rt)"
  by (cases "rs_cancellation rt") (auto simp: agents_ok_def restart_agent_def)

lemma advances_restart:
  assumes "load_config D False dk = Inr (Some config)" and "stored_ok D L dk k"
  shows "advances D L rt (restart_agent token (log_event at l m
     (rt\<lparr>rs_keychain := k, rs_disk := dk, rs_config := Some config, rs_tunnels := ts\<rparr>)))"
proof -
  have "agents_ok rt \<Longrightarrow> agents_ok (restart_agent token (log_event at l m
      (rt\<lparr>rs_keychain := k, rs_disk := dk, rs_config := Some config, rs_tunnels := ts\<rparr>)))"
    by (rule agents_ok_restart) (simp add: agents_ok_def)
  then show ?thesis using assms
    by (auto simp: advances_def client_ok_def) (auto simp: restart_agent_def log_event_def log_with_location_def)
qed

lemma advances_failed:
  assumes "\<And>j. secrets_stored D L j (rs_keychain rt) \<Longrightarrow> secrets_stored D L j k" and "dk_config dk = dk_config (rs_disk rt)"
  shows "advances D L rt (rt\<lparr>rs_keychain := k, rs_disk := dk\<rparr>)"
  using assms load_config_cong [OF assms(2), of D False]
  by (auto simp: advances_def client_ok_def stored_ok_def agents_ok_def)

lemma configure_server_advances:
  assumes "client_laws D L" and "configure_server D L net ci server_url token name s = (r, s')"
  shows "s' = s \<or> (\<exists>rq a s1. net rq s = (a, s1) \<and> advances D L (fst s1) (fst s'))"
proof (cases "input_refused D server_url token name")
  case True
  from configure_server_refused [OF this, where net = net and L = L and ci = ci and s = s] assms(2) show ?thesis by auto
next
  case False
  then obtain url where url: "normalize_server_url D server_url = Inr url" by (auto simp: input_refused_def)
  obtain a rt1 w1 where sent: "net (enroll_request url (trim token)) s = (a, (rt1, w1))"
    by (cases "net (enroll_request url (trim token)) s") auto
  let ?res = "case a of NoAnswer e \<Rightarrow> Inl e
        | Answer status b \<Rightarrow> if is_success status then d_enrollment_parse D b else Inl (response_error D status b)"
  note run = assms(2) [unfolded configure_server_sent [where net = net and s = s, OF url False sent]]
  have "advances D L rt1 (fst s')"
  proof (cases ?res)
    case (Inl e)
    then show ?thesis using run by (auto simp: advances_def)
  next
    case (Inr en)
    let ?config = "enrolled_config url (trim name) (ci_fresh ci) (rs_config rt1) en"
    obtain r2 s2 where st: "store_enrollment D L ci ?config (trim token) en (rt1, w1) = (r2, s2)"
      by (cases "store_enrollment D L ci ?config (trim token) en (rt1, w1)")
    have long: "20 \<le> byte_len (trim token)" using False by (simp add: input_refused_def)
    from st show ?thesis
    proof (rule store_enrollment_run)
      fix k dk
      assume s2: "s2 = (rt1\<lparr>rs_keychain := k, rs_disk := dk\<rparr>, w1)"
        and r2: "(r2 = Inr () \<and> (\<exists>k1 k2. save_token D L (gc_installation_id ?config) (trim token) (rs_keychain rt1) = (Inr (), k1) \<and>
          save_transport_fingerprint D L (gc_installation_id ?config) (en_transport_fingerprint en) k1 = (Inr (), k2) \<and>
          save_transport_certificate D L (gc_installation_id ?config) (en_transport_certificate_der en) k2 = (Inr (), k)) \<and>
          (\<exists>b. d_config_json D ?config = Some b \<and> dk_config dk = Some b)) \<or>
        ((\<exists>e. r2 = Inl e) \<and> dk_config dk = dk_config (rs_disk rt1))"
      from r2 show ?thesis
      proof (elim disjE conjE exE)
        fix e assume "r2 = Inl e" and disk: "dk_config dk = dk_config (rs_disk rt1)"
        then have "fst s' = rt1\<lparr>rs_keychain := k, rs_disk := dk\<rparr>" using run Inr st s2 by (auto simp: seq_def Let_def)
        then show ?thesis
          using keepsD [OF store_enrollment_secrets [OF assms(1) long] _ st] s2 by (auto intro!: advances_failed [OF _ disk])
      next
        fix k1 k2 b
        assume saved: "save_token D L (gc_installation_id ?config) (trim token) (rs_keychain rt1) = (Inr (), k1)"
          "save_transport_fingerprint D L (gc_installation_id ?config) (en_transport_fingerprint en) k1 = (Inr (), k2)"
          "save_transport_certificate D L (gc_installation_id ?config) (en_transport_certificate_der en) k2 = (Inr (), k)"
          and b: "d_config_json D ?config = Some b" "dk_config dk = Some b" and r2: "r2 = Inr ()"
        have loaded: "load_config D False dk = Inr (Some ?config)"
          using b assms(1) by (simp add: load_config_def config_json_ok_def client_laws_def)
        have "secrets_of D L (gc_installation_id ?config) k =
            (Inr (trim token), Inr (en_transport_fingerprint en), Inr (en_transport_certificate_der en))"
          using secrets_saved [OF _ _ _ saved] assms(1) by (simp add: client_laws_def)
        then have "secrets_stored D L (gc_installation_id ?config) k"
          using long by (simp add: secrets_of_def secrets_stored_def)
        then have "stored_ok D L dk k" using loaded url by (auto simp: stored_ok_def enrolled_config_def)
        moreover have "fst s' = restart_agent (ci_agent ci) (log_event (ci_at ci) ''info'' text_configured
            (rt1\<lparr>rs_keychain := k, rs_disk := dk, rs_config := Some ?config, rs_tunnels := en_tunnels en\<rparr>))"
          using run Inr st s2 r2 by (auto simp: seq_def Let_def on_runtime_def modify_def)
        ultimately show ?thesis using advances_restart [OF loaded] by simp
      qed
    qed
  qed
  then show ?thesis using sent by auto
qed

lemma set_transport_mode_advances:
  assumes "client_laws D L" and "set_transport_mode D ci mode s = (r, s')"
  shows "s' = s \<or> advances D L (fst s) (fst s')"
proof (cases "rs_config (fst s)")
  case None
  then show ?thesis using assms(2) by (auto simp: set_transport_mode_def act_simps)
next
  case (Some old)
  let ?c = "old\<lparr>gc_transport_mode := mode\<rparr>"
  obtain rt w where s: "s = (rt, w)" by (cases s)
  obtain r1 s1 where st: "store_config D (ci_fault ci) ?c (rt, w) = (r1, s1)"
    by (cases "store_config D (ci_fault ci) ?c (rt, w)")
  note run = assms(2) [unfolded set_transport_mode_def s seq_def]
  from st have "advances D L rt (fst s')"
  proof (rule store_config_run)
    fix dk assume s1: "s1 = (rt\<lparr>rs_disk := dk\<rparr>, w)"
      and "(r1 = Inr () \<and> ci_fault ci = None \<and> (\<exists>b. d_config_json D ?c = Some b \<and> dk_config dk = Some b)) \<or>
        ((\<exists>e. r1 = Inl e) \<and> dk_config dk = dk_config (rs_disk rt))"
    then show ?thesis
    proof (elim disjE conjE exE)
      fix b assume b: "d_config_json D ?c = Some b" "dk_config dk = Some b" and r1: "r1 = Inr ()"
      have loaded: "load_config D False dk = Inr (Some ?c)"
        using b assms(1) by (simp add: load_config_def config_json_ok_def client_laws_def)
      have "fst s' = restart_agent (ci_agent ci) (log_event (ci_at ci) ''info'' (text_mode_changed @ mode_debug mode)
          (rt\<lparr>rs_keychain := rs_keychain rt, rs_disk := dk, rs_config := Some ?c, rs_tunnels := rs_tunnels rt\<rparr>))"
        using run Some s st s1 r1 by (auto simp: act_simps Let_def on_runtime_def)
      moreover have "stored_ok D L dk (rs_keychain rt)" if "client_ok D L rt"
        using that Some s loaded by (auto simp: stored_ok_def client_ok_def)
      ultimately show ?thesis
        using advances_restart [OF loaded, of L "rs_keychain rt" rt "ci_agent ci" "ci_at ci" "''info''"
            "text_mode_changed @ mode_debug mode" "rs_tunnels rt"]
        by (auto simp: advances_def restart_agent_def)
    next
      fix e assume "r1 = Inl e" and disk: "dk_config dk = dk_config (rs_disk rt)"
      then have "fst s' = rt\<lparr>rs_keychain := rs_keychain rt, rs_disk := dk\<rparr>"
        using run Some s st s1 by (auto simp: act_simps Let_def)
      then show ?thesis using advances_failed [OF _ disk, of D L "rs_keychain rt"] by simp
    qed
  qed
  then show ?thesis by (simp add: s)
qed

section \<open>Every step keeps the invariant\<close>

text \<open>
  The interface between what a running client can do and a predicate on its state: the agent's frame, and
  the two commands that write the configuration.
\<close>

locale client_frame = agent_frame I for I :: "'k runtime \<Rightarrow> bool" +
  fixes D :: "('u, 'k) dlib" and L :: lib and G :: "'w plugins" and show_err :: "agent_error \<Rightarrow> ustr"
  assumes advance_kept: "I rt \<Longrightarrow> (client_laws D L \<Longrightarrow> advances D L rt rt') \<Longrightarrow> I rt'"
begin

lemma configure_kept:
  fixes net :: "('k, 'w) net"
  assumes "tolerates I (net_foreign net)"
  shows "keeps (on_client I) (configure_server D L net ci server_url token name)"
proof (rule keepsI)
  fix s :: "'k runtime \<times> 'w"
  assume I: "I (fst s)"
  obtain r s' where run: "configure_server D L net ci server_url token name s = (r, s')"
    by (cases "configure_server D L net ci server_url token name s")
  have "I (fst s')"
  proof (cases "client_laws D L")
    case True
    from configure_server_advances [OF this run] I show ?thesis
      by (auto dest: net_kept [OF assms] intro: advance_kept)
  next
    case False
    then show ?thesis using advance_kept [OF I] by blast
  qed
  then show "I (fst (snd (configure_server D L net ci server_url token name s)))" by (simp add: run)
qed

lemma transport_mode_kept: "keeps (on_client I) (set_transport_mode D ci mode)"
proof (rule keepsI)
  fix s :: "'k runtime \<times> 'b"
  assume I: "I (fst s)"
  obtain r s' where run: "set_transport_mode D ci mode s = (r, s')" by (cases "set_transport_mode D ci mode s")
  from set_transport_mode_advances [OF _ run] I have "I (fst s')"
    by (cases "s' = s") (auto intro: advance_kept)
  then show "I (fst (snd (set_transport_mode D ci mode s)))" by (simp add: run)
qed

lemma runs_kept: "client_runs D L G show_err s t \<Longrightarrow> I (fst s) \<Longrightarrow> I (fst t)"
proof (induction rule: client_runs.induct)
  case (commanded net ci cmd s r s')
  then have tolerant: "tolerates I (net_foreign net)" by (auto simp: tolerates_def)
  have "keeps (on_client I) (invoke D L G net ci cmd)"
    by (rule invoke_kept [OF tolerant configure_kept [OF tolerant] transport_mode_kept])
  from keepsD [OF this commanded.prems commanded.hyps] show ?case .
next
  case (tray net event s effect s')
  then have "tolerates I (net_foreign net)" by (auto simp: tolerates_def)
  from tray_menu_kept [OF this tray.prems, of D L event] tray.hyps show ?case by simp
next
  case (agent as n rt ds finished rt' w)
  then have "\<forall>a \<in> set as. tolerates I (attempt_foreign a)" by (auto simp: tolerates_def)
  from run_reconnecting_kept [OF this, of rt D L show_err n] agent.prems agent.hyps show ?case by simp
next
  case (direct_task io se w at tk)
  then show ?case using tasks_kept(1) [of se io L show_err at tk] by (auto simp: tolerates_def)
next
  case (wss_task io se w at tk)
  then show ?case using tasks_kept(2) [of se io L show_err at tk] by (auto simp: tolerates_def)
next
  case (udp_task uo se w at tk)
  then show ?case using tasks_kept(3) [of se uo L show_err at tk] by (auto simp: tolerates_def)
qed auto

end

text \<open>The invariant is such a predicate, and so is the invariant of a client that has a configuration.\<close>

interpretation client: client_frame "\<lambda>rt. client_laws D L \<longrightarrow> client_ok D L rt" D L G show_err for D L G show_err
  by unfold_locales
    (auto simp: client_ok_def agents_ok_def advances_def set_status_def log_with_location_def set_transport_def with_metrics_def)

interpretation configured: client_frame "\<lambda>rt. client_laws D L \<longrightarrow> client_ok D L rt \<and> rs_config rt \<noteq> None" D L G show_err
  for D L G show_err
  by unfold_locales
    (auto simp: client_ok_def agents_ok_def advances_def set_status_def log_with_location_def set_transport_def with_metrics_def)

definition desktop_ok :: "('u, 'k) dlib \<Rightarrow> lib \<Rightarrow> ('k, 'w) desktop \<Rightarrow> bool" where
  "desktop_ok D L s \<longleftrightarrow> (case s of Off dk k w \<Rightarrow> stored_ok D L dk k | On rt w \<Rightarrow> client_ok D L rt)"

lemma run_setup_ok: "stored_ok D L dk k \<Longrightarrow> client_ok D L (run_setup D fault token tray dk k)"
  by (auto simp: client_ok_def run_setup_def runtime_new_def restart_agent_def agents_ok_def load_config_def
      split: sum.split option.split)

lemma desktop_ok_step:
  assumes "client_laws D L" and "desktop_ok D L s" and "desktop_step D L G show_err s t"
  shows "desktop_ok D L t"
proof (cases s)
  case (Off dk k w)
  then show ?thesis using assms(2,3) by (auto simp: desktop_ok_def run_setup_ok start_app_def elim!: off_stepE split: if_splits)
next
  case (On rt w)
  show ?thesis using assms(3) unfolding On
  proof (rule on_stepE)
    fix rt' w' assume "t = On rt' w'" and "client_runs D L G show_err (rt, w) (rt', w')"
    then show ?thesis using assms(1,2) client.runs_kept [of D L G show_err "(rt, w)" "(rt', w')"] by (simp add: desktop_ok_def On)
  qed (use assms(2) in \<open>simp add: desktop_ok_def client_ok_def On\<close>)
qed

interpretation desktop: safe_system desktop_start "desktop_step D L G show_err"
    "\<lambda>s. client_laws D L \<longrightarrow> desktop_ok D L s" "\<lambda>s. \<forall>rt w. client_laws D L \<and> s = On rt w \<longrightarrow> client_ok D L rt"
  for D L G show_err
  by unfold_locales (auto simp: desktop_start_def desktop_ok_def stored_ok_def load_config_def dest: desktop_ok_step)

lemma life_client_ok:
  "client_laws D L \<Longrightarrow> desktop_start s0 \<Longrightarrow> (desktop_step D L G show_err)\<^sup>*\<^sup>* s0 (On rt w) \<Longrightarrow> client_ok D L rt"
  using desktop.reachable_safe by blast

lemma stored_credentials:
  assumes "client_ok D L rt" and "rs_config rt = Some c"
  obtains token where "credentials D L (rt, w) = (Inr (c, token), (rt, w))"
    and "load_token D L (gc_installation_id c) (rs_keychain rt) = Inr token" and "20 \<le> byte_len token"
proof -
  from assms obtain token where "load_token D L (gc_installation_id c) (rs_keychain rt) = Inr token" "20 \<le> byte_len token"
    by (auto simp: client_ok_def stored_ok_def secrets_stored_def)
  moreover from this(1) have "credentials D L (rt, w) = (Inr (c, token), (rt, w))"
    using credentials_eq [of "(rt, w)" c D L token] assms(2) by simp
  ultimately show ?thesis using that by blast
qed

section \<open>A life for the witnesses\<close>

definition sample_plugins :: "'p plugins" where
  "sample_plugins =
     \<lparr>pg_is_enabled = ok False, pg_enable = ok (), pg_disable = ok (), pg_check = ok None, pg_install = (\<lambda>v. ok ())\<rparr>"

abbreviation sample_step ::
  "(ustr \<rightharpoonup> ustr, http_request list) desktop \<Rightarrow> (ustr \<rightharpoonup> ustr, http_request list) desktop \<Rightarrow> bool" where
  "sample_step \<equiv> desktop_step sample_dlib colonless_lib sample_plugins (\<lambda>e. [])"

definition sample_off_state :: "(ustr \<rightharpoonup> ustr, http_request list) desktop" where
  "sample_off_state = Off \<lparr>dk_dir = False, dk_config = None, dk_tmp = None\<rparr> Map.empty []"

lemma sample_laws: "client_laws sample_dlib colonless_lib"
  by (simp add: client_laws_def sample_keychain colonless sample_config_json)

lemma sample_start: "desktop_start sample_off_state"
  by (auto simp: desktop_start_def sample_off_state_def)

text \<open>The client is started for the first time and registered.\<close>

lemma sample_life:
  obtains rt c w where "sample_step\<^sup>*\<^sup>* sample_off_state (On rt w)" and "rs_config rt = Some c"
proof -
  let ?cmd = "ConfigureServer (lit ''https://tb.io/x'') sample_token (lit ''Mac'')"
  from sample_configured [of None] obtain rt' w' where run:
    "configure_server sample_dlib colonless_lib sample_net (sample_command None) (lit ''https://tb.io/x'')
       sample_token (lit ''Mac'') (fresh_runtime, []) = (Inr (), (rt', w'))"
    by (auto simp: sample_command_def)
  from registration_survives_restart [OF sample_keychain colonless sample_config_json run refl, of False 4 None]
  have c: "rs_config rt' \<noteq> None" by metis
  have first: "sample_step sample_off_state (On fresh_runtime [])"
  proof -
    have "start_app sample_dlib True True False 0 None \<lparr>dk_dir = False, dk_config = None, dk_tmp = None\<rparr> Map.empty =
        Some fresh_runtime"
      by (simp add: start_app_def fresh_runtime_def run_setup_def load_config_def runtime_new_def)
    then show ?thesis unfolding sample_off_state_def by (rule desktop_step.launched)
  qed
  have calm: "\<forall>rt rt'. net_foreign sample_net rt rt' \<longrightarrow>
      (\<forall>w. client_runs sample_dlib colonless_lib sample_plugins (\<lambda>e. []) (rt, w) (rt', w))"
    by (auto simp: net_foreign_def sample_net_def intro: client_runs.idle)
  have "invoke sample_dlib colonless_lib sample_plugins sample_net (sample_command None) ?cmd (fresh_runtime, []) =
      (Inr Finished, (rt', w'))"
    using run by (simp add: invoke_def replies_def seq_def ok_def)
  from client_runs.commanded [OF calm this]
  have "sample_step (On fresh_runtime []) (On rt' w')" by (rule desktop_step.goes_on)
  with first have "sample_step\<^sup>*\<^sup>* sample_off_state (On rt' w')" by simp
  then show ?thesis using that c by blast
qed

section \<open>Properties\<close>



text \<open>
  C25. A registration survives the process. From every state of the client's life in which it is configured, when it
  ends and is started again, it has the same configuration and the same token, and exactly one agent
  is started; and when the file cannot be read it starts unconfigured, with no agent.
\<close>

theorem desktop_remembers:
  assumes "client_laws D L" and "desktop_start s0" and "(desktop_step D L G show_err)\<^sup>*\<^sup>* s0 (On rt w)"
    and "rs_config rt = Some c"
    and "start_app D directory_found tray_built fault agent tray (rs_disk rt) (rs_keychain rt) = Some rt2"
  shows "if fault then rs_config rt2 = None \<and> rs_restarts rt2 = []
     else rs_config rt2 = Some c \<and> rs_restarts rt2 = [agent] \<and> rs_cancellation rt2 = Some agent \<and>
       (\<exists>token. credentials D L (rt, w) = (Inr (c, token), (rt, w)) \<and>
          credentials D L (rt2, world) = (Inr (c, token), (rt2, world)))"
proof -
  have again: "rt2 = run_setup D fault agent tray (rs_disk rt) (rs_keychain rt)"
    using assms(5) by (simp add: start_app_def split: if_splits)
  note fine = life_client_ok [OF assms(1-3)]
  then have loaded: "load_config D False (rs_disk rt) = Inr (Some c)" using assms(4) by (simp add: client_ok_def)
  show ?thesis
  proof (cases fault)
    case True
    have "dk_config (rs_disk rt) \<noteq> None" using loaded by (cases "dk_config (rs_disk rt)") (auto simp: load_config_def)
    then have "load_config D True (rs_disk rt) = Inl FileFault" by (auto simp: load_config_def)
    then show ?thesis unfolding again using True by (simp add: run_setup_def runtime_new_def)
  next
    case False
    obtain token where token: "credentials D L (rt, w) = (Inr (c, token), (rt, w))"
        "load_token D L (gc_installation_id c) (rs_keychain rt) = Inr token"
      by (rule stored_credentials [OF fine assms(4), of w])
    have rt2: "rs_config rt2 = Some c" "rs_restarts rt2 = [agent]" "rs_cancellation rt2 = Some agent"
        "rs_keychain rt2 = rs_keychain rt"
      unfolding again using False loaded by (simp_all add: run_setup_def runtime_new_def restart_agent_def)
    have "credentials D L (rt2, world) = (Inr (c, token), (rt2, world))"
      by (rule credentials_eq) (simp_all add: rt2 token(2))
    then show ?thesis using False token(1) rt2(1-3) by simp
  qed
qed

theorem desktop_remembers_witness:
  "\<exists>rt c w. sample_step\<^sup>*\<^sup>* sample_off_state (On rt w) \<and> rs_config rt = Some c \<and>
     (\<exists>rt2. start_app sample_dlib True True False 4 None (rs_disk rt) (rs_keychain rt) = Some rt2 \<and> rs_config rt2 = Some c) \<and>
     (\<exists>rt2. start_app sample_dlib True True True 4 None (rs_disk rt) (rs_keychain rt) = Some rt2 \<and> rs_config rt2 = None)"
proof -
  obtain rt c w where life: "sample_step\<^sup>*\<^sup>* sample_off_state (On rt w)" "rs_config rt = Some c" by (rule sample_life)
  have started: "start_app sample_dlib True True fault 4 None (rs_disk rt) (rs_keychain rt) =
      Some (run_setup sample_dlib fault 4 None (rs_disk rt) (rs_keychain rt))" for fault
    by (simp add: start_app_def)
  note again = desktop_remembers [where world = w, OF sample_laws sample_start life started]
  from again [of False] again [of True] show ?thesis using life started by auto
qed



section \<open>Where the token goes\<close>

text \<open>
  A request of the configured client: to a path of the agent's tunnels on the server of the configuration, with
  the token of its installation. Registering sends one other request, with the token and to the address
  the user typed.
\<close>

definition own_request :: "('u, 'k) dlib \<Rightarrow> lib \<Rightarrow> 'k runtime \<Rightarrow> http_request \<Rightarrow> bool" where
  "own_request D L rt rq \<longleftrightarrow>
     (\<exists>c path. rs_config rt = Some c \<and> load_token D L (gc_installation_id c) (rs_keychain rt) = Inr (hr_bearer rq) \<and>
        hr_url rq = gc_server_url c @ path \<and> (path = tunnels_path \<or> (\<exists>i. path = tunnel_path L i)))"

definition permitted :: "('u, 'k) dlib \<Rightarrow> lib \<Rightarrow> invocation \<Rightarrow> 'k runtime \<Rightarrow> http_request \<Rightarrow> bool" where
  "permitted D L cmd rt rq \<longleftrightarrow> own_request D L rt rq \<or>
     (\<exists>server_url token name url. cmd = ConfigureServer server_url token name \<and>
        \<not> input_refused D server_url token name \<and> normalize_server_url D server_url = Inr url \<and>
        rq = enroll_request url (trim token))"

text \<open>Two worlds that answer the permitted requests alike.\<close>

definition answer_alike :: "('k runtime \<Rightarrow> http_request \<Rightarrow> bool) \<Rightarrow> ('k, 'w) net \<Rightarrow> ('k, 'w) net \<Rightarrow> bool" where
  "answer_alike P net net' \<longleftrightarrow> (\<forall>rq s. P (fst s) rq \<longrightarrow> net rq s = net' rq s)"

lemma answer_alikeD: "answer_alike P net net' \<Longrightarrow> P (fst s) rq \<Longrightarrow> net rq s = net' rq s"
  unfolding answer_alike_def by blast

lemma answer_alike_mono: "(\<And>rt rq. P rt rq \<Longrightarrow> Q rt rq) \<Longrightarrow> answer_alike Q net net' \<Longrightarrow> answer_alike P net net'"
  by (auto simp: answer_alike_def)

lemma own_call:
  assumes "answer_alike (own_request D L) net net'" and "path = tunnels_path \<or> (\<exists>i. path = tunnel_path L i)"
  shows "seq (credentials D L) (\<lambda>(config, token). seq (request_json D net (gc_server_url config) token method path body parse) f) =
     seq (credentials D L) (\<lambda>(config, token). seq (request_json D net' (gc_server_url config) token method path body parse) f)"
proof
  fix s
  show "seq (credentials D L) (\<lambda>(config, token). seq (request_json D net (gc_server_url config) token method path body parse) f) s =
     seq (credentials D L) (\<lambda>(config, token). seq (request_json D net' (gc_server_url config) token method path body parse) f) s"
  proof -
    obtain r s1 where Pair: "credentials D L s = (r, s1)" by (cases "credentials D L s")
    show ?thesis
    proof (cases r)
      case (Inr x)
      obtain c token where x: "x = (c, token)" by (cases x)
      have here: "s1 = s" "rs_config (fst s) = Some c" "load_token D L (gc_installation_id c) (rs_keychain (fst s)) = Inr token"
        using Pair by (auto simp: Inr x credentials_def act_simps seq_eq_Inr)
      have "net \<lparr>hr_method = method, hr_url = gc_server_url c @ path, hr_bearer = token, hr_body = body\<rparr> s =
          net' \<lparr>hr_method = method, hr_url = gc_server_url c @ path, hr_bearer = token, hr_body = body\<rparr> s"
        by (rule answer_alikeD [OF assms(1)]) (use assms(2) here in \<open>auto simp: own_request_def\<close>)
      then show ?thesis using Pair by (simp add: Inr x here(1) seq_def request_json_def)
    qed (use Pair in \<open>simp add: seq_def\<close>)
  qed
qed

lemma own_commands:
  assumes "answer_alike (own_request D L) net net'"
  shows "refresh_tunnels D L net = refresh_tunnels D L net'" "create_tunnel_inner D L net ci q = create_tunnel_inner D L net' ci q"
    "update_tunnel D L net i u = update_tunnel D L net' i u" "remove_tunnel D L net ci i = remove_tunnel D L net' ci i"
    "set_all_enabled_inner D L net enabled = set_all_enabled_inner D L net' enabled"
proof -
  note call = own_call [OF assms]
  show refresh: "refresh_tunnels D L net = refresh_tunnels D L net'"
    unfolding refresh_tunnels_def by (rule call) simp
  show "create_tunnel_inner D L net ci q = create_tunnel_inner D L net' ci q"
    unfolding create_tunnel_inner_def refresh by (rule call) simp
  show "update_tunnel D L net i u = update_tunnel D L net' i u"
    unfolding update_tunnel_def refresh by (rule call) blast
  show "remove_tunnel D L net ci i = remove_tunnel D L net' ci i"
    unfolding remove_tunnel_def request_empty_def refresh by (rule call) blast
  have one: "set_one D L net enabled t = set_one D L net' enabled t" for t
    unfolding set_one_def by (intro if_cong refl call) blast
  have "set_each D L net enabled ts = set_each D L net' enabled ts" for ts
    by (induction ts) (simp_all add: one)
  then show "set_all_enabled_inner D L net enabled = set_all_enabled_inner D L net' enabled"
    unfolding set_all_enabled_inner_def refresh by simp
qed

lemma permitted_commands:
  assumes "answer_alike (permitted D L cmd) net net'"
  shows "invoke D L G net ci cmd s = invoke D L G net' ci cmd s"
proof -
  have own: "answer_alike (own_request D L) net net'"
    by (rule answer_alike_mono [OF _ assms]) (simp add: permitted_def)
  note commands = own_commands [OF own]
  have register: "configure_server D L net ci server_url token name s = configure_server D L net' ci server_url token name s"
    if "cmd = ConfigureServer server_url token name" for server_url token name
  proof (cases "input_refused D server_url token name")
    case True
    then show ?thesis by (auto simp: input_refused_def configure_server_def act_simps Let_def ensure_def split: sum.split)
  next
    case False
    then obtain url where url: "normalize_server_url D server_url = Inr url" by (auto simp: input_refused_def)
    have "net (enroll_request url (trim token)) s = net' (enroll_request url (trim token)) s"
      by (rule answer_alikeD [OF assms]) (use that False url in \<open>auto simp: permitted_def\<close>)
    moreover obtain a rt1 w1 where "net' (enroll_request url (trim token)) s = (a, (rt1, w1))"
      by (cases "net' (enroll_request url (trim token)) s") auto
    ultimately show ?thesis
      using configure_server_sent [where net = net and s = s, OF url False] configure_server_sent [where net = net' and s = s, OF url False]
      by simp
  qed
  show ?thesis by (cases cmd) (simp_all add: invoke_def handler_defs commands register replies_def seq_def)
qed

text \<open>A filter before the network, which answers in place of the world to what is not permitted.\<close>

definition firewall ::
  "('k runtime \<Rightarrow> http_request \<Rightarrow> bool) \<Rightarrow> ('k, 'w) net \<Rightarrow> ('k, 'w) net \<Rightarrow> ('k, 'w) net" where
  "firewall P refuse net rq s = (if P (fst s) rq then net rq s else refuse rq s)"

text \<open>
  C24. The token goes nowhere else. A filter that lets through only the following requests, and does whatever it
  likes with every other, changes nothing in what a command of the user interface or of the tray menu
  does and answers, so no other request is sent: the agent's tunnel requests, to the server of the configuration
  at that moment and with the token of its installation, and for a registration whose input is
  acceptable the one request to the normalised address that was typed, with the token that was typed.
\<close>

theorem token_stays:
  "invoke D L G (firewall (permitted D L cmd) refuse net) ci cmd s = invoke D L G net ci cmd s \<and>
     tray_menu D L (firewall (own_request D L) refuse net) event s = tray_menu D L net event s"
proof -
  have alike: "answer_alike P (firewall P refuse net) net" for P by (simp add: answer_alike_def firewall_def)
  have "tray_menu D L (firewall (own_request D L) refuse net) event s = tray_menu D L net event s"
    unfolding tray_menu_def own_commands(5) [OF alike] ..
  with permitted_commands [OF alike] show ?thesis by blast
qed

end
