(* ===== verification/Spec2Isabelle.thy ===== *)
theory Spec2Isabelle
  imports Api_Properties Listeners Framing Agent_Commands_Properties End_To_End Enrolled Endpoints Server_Life Desktop_Life
begin

text \<open>
  A model of TunnelBridge: a server that gives public TCP and UDP ports and host names to services which
  run on machines behind NAT, and the desktop client on such a machine. This theory imports the whole
  development; the properties that belong to the wire format alone are at its end.

  \<^bold>\<open>The program and the model.\<close> The desktop keeps one \<^emph>\<open>carrier\<close> to the server (a WebSocket, QUIC or
  KCP). An administrator or the desktop creates \<^emph>\<open>tunnels\<close> through the HTTP interface; the server keeps
  them in SQLite and runs a listener for each enabled TCP or UDP tunnel. A public connection is
  admitted by the source filter, offered to the agent over the carrier (\<open>OpenConnection\<close>, with a ticket), and,
  once the agent has answered (\<open>ConnectionReady\<close>), its bytes travel in carrier frames: kind, stream id,
  payload. Both programs have a pump in each direction for every connection.

  The model is a shallow embedding. Rust's \<open>Result\<close> is a sum, \<open>Option\<close> is \<open>option\<close>, a struct is a record, an enum
  a datatype, \<open>u8\<close>, \<open>u16\<close>, \<open>u32\<close> and the atomic counters are words with their wrap-around, a string is
  the list of its code points (\<open>ustr\<close>, with its UTF-8 length where the code counts bytes), a concurrent map is a
  function to \<open>option\<close>, a channel is the list of what it holds. A handler is a function from the state to a
  result and the new state (\<open>act\<close> in \<open>Prelude\<close>), composed with \<open>seq\<close>, which is the \<open>?\<close> operator. A handler that
  awaits something other tasks can see is cut there, and what they do meanwhile is either an argument (a
  state transformer) or another transition of a step relation. Clock readings, fresh identifiers, secrets and
  the outcome of every socket operation are arguments or events, so a theorem holds for all of them.

  \<^bold>\<open>Theories, in the order of the imports.\<close>

  \<^item> \<open>Prelude\<close>: sums, stateful operations and the lemma collections (\<open>act_simps\<close>, \<open>reads_intros\<close>, \<open>keeps_intros\<close>), and
    the locale \<open>invariant_system\<close> of a transition system with an inductive invariant. \<open>Ustr\<close>: the string
    operations of Rust's standard library. \<open>Net\<close>: its IP addresses and their parser, and the locale
    \<open>address_gate\<close> of a predicate on source addresses that treats an IPv4-mapped address as the IPv4 one.
  \<^item> \<open>Protocol\<close>: crates/protocol/src/lib.rs, constants, messages and the carrier frame. \<open>Lib\<close>: the record \<open>lib\<close> of
    third-party functions with the named hypotheses on them, and server/src/error.rs. \<open>Framing\<close>: the
    length-prefixed records of quic.rs, kcp.rs and the desktop's agent.rs. \<open>Identity\<close>: transport_identity.rs, the
    files of the server's key, each operation of which can fail.
  \<^item> \<open>Config\<close>, \<open>Geoip\<close>, \<open>Db\<close>, \<open>State\<close>: config.rs, geoip.rs, db.rs and state.rs of the server.
    \<open>Db\<close> has the constraints of the schema in its statements, so a violation is an error of the statement.
  \<^item> \<open>Tunnels\<close> and \<open>Tunnel_Facts\<close>: tunnels.rs. Each check and each assignment of \<open>update\<close> is a definition.
    The facts show what \<open>create\<close> and \<open>update\<close> return, the round trip through a row, and the invariant of the
    table (every row the image of a well-formed tunnel, no two tunnels on one public endpoint).
  \<^item> \<open>Auth\<close>: auth.rs, the login limiter, sessions, CSRF and the device tokens.
  \<^item> \<open>Pumps\<close>: the events of a bridge and the locale \<open>pumps\<close>, the laws both bridges of the program obey.
    \<open>Gateway\<close> and \<open>Gateway_Facts\<close>: gateway.rs. \<open>Relay\<close>: offers, acknowledgements, bridges and
    carrier losses of any number of connections as one step relation, with the invariant that no stream
    outlives its connection and no acknowledgement is honoured twice or for another agent.
  \<^item> \<open>Udp\<close>: udp.rs. \<open>Listeners\<close>: the tasks that \<open>start_listener\<close> of gateway.rs and udp.rs spawns, from the bind to the
    cancellation, with the invariant that keeps the peers of a UDP tunnel apart.
  \<^item> \<open>Carrier\<close>: the steps of the server's side of the three carriers (api.rs, quic.rs, kcp.rs), with the
    invariant that an agent is registered at most once and only with an open session. \<open>Direct_Server\<close>: a QUIC or KCP
    session from its first byte to its last (\<open>accept\<close> of quic.rs, \<open>run_stream\<close> of kcp.rs). \<open>Wss_Server\<close>: the same for the
    WebSocket of api.rs, and that both loops do the same with the same messages. \<open>Endpoints\<close>: \<open>serve\<close> of quic.rs
    and kcp.rs, set-up and accept loop.
  \<^item> \<open>Api\<close>, \<open>Api_Facts\<close>, \<open>Api_Properties\<close>: api.rs. The facts have the step relation of all handlers and its
    invariant: a listener runs only for an enabled TCP or UDP tunnel of the table. \<open>Router\<close>: \<open>router\<close> of api.rs, every
    route with the extraction of its request, and what a request without any credential can change.
  \<^item> \<open>Server_Main\<close>: \<open>connect\<close> and \<open>migrate\<close> of db.rs and \<open>main\<close> of main.rs, up to the bound HTTP interface.
    \<open>Server_Life\<close>: starts, requests, carriers, relayed connections, clean-ups and stops of a server as one step
    relation, with the invariant of every state of its life.
  \<^item> \<open>Agent_Config\<close>, \<open>Agent_Runtime\<close>, \<open>Agent_Stream\<close>, \<open>Agent_Carrier\<close>, \<open>Agent_Commands\<close> with their facts: config.rs,
    runtime.rs, agent.rs with kcp.rs, and commands.rs of desktop/src-tauri/src. A carrier loop runs
    on the list of its events (a record, a tick, a datagram, a closed socket); the reconnecting loop on a
    list of attempts, so its theorems are about every prefix of its endless run.
  \<^item> \<open>Pipe\<close> and \<open>End_To_End\<close>: one connection across both programs. The locale \<open>carries_stream\<close> is about a stream in a
    larger system; it is interpreted once per direction, and gives that the bytes written at one end are
    a prefix of those read at the other in any interleaving with anything else.
  \<^item> \<open>Desktop_Server\<close>: the desktop's commands against the server's handlers, with the routes between them.
    \<open>Enrolled\<close>: from the registration of a desktop to its first accepted QUIC or KCP session.
  \<^item> \<open>Desktop_Main\<close>: lib.rs of the desktop (\<open>setup\<close>, the tray menu, the close request) and the commands on auto-start and
    updates, over the outcomes of the plug-ins. \<open>Desktop_Frame\<close>: the table of commands, and the locale \<open>agent_frame\<close>: what
    the agent, its tasks and the commands leave alone. \<open>Desktop_Life\<close>: starts, commands, agents, tasks and ends of a
    client in any interleaving at the points where one of them waits for the network, with the invariant of every
    state of its life (locale \<open>client_frame\<close>), and which requests can carry the token.

  \<^bold>\<open>Bounds.\<close> No definition needs fuel: the program's loops run on data (rows, ports, bytes, records) or on a
  list of events, and recursion on them ends. The pool of ports is at most \<open>2 ^ 16\<close> long, a record at most
  \<open>MAX_RECORD\<close>, a queue at most the capacity of its channel (\<open>BIN_CAPACITY\<close> and others, as in the code).

  \<^bold>\<open>Parameters.\<close> Third-party code is not defined here. The server's is the record \<open>lib\<close>: byte and text form of
  UUIDs, serde's JSON of messages and of CIDR lists, RFC 3339 times, blake3, argon2, IP network membership. The
  desktop's is \<open>dlib\<close>: the \<open>url\<close> and \<open>keyring\<close> crates, serde, base64, SHA-256 and rustls' root store. What a
  theorem needs of them is a named hypothesis of documented behaviour (\<open>codecs_ok\<close>, \<open>frames_ok\<close>, \<open>time_text_ok\<close>,
  \<open>keychain_law\<close>, \<open>config_json_ok\<close>, \<open>answers_agree\<close> and others), and \<open>sample_lib\<close>, \<open>sample_dlib\<close> and
  \<open>sample_client\<close> are instances that satisfy them, on which the witnesses are evaluated.

  \<^bold>\<open>Simplifications.\<close> SQLite runs one statement at a time and a failed statement changes nothing. Sequences of
  segments without an await point in between are atomic. The consecutive reads of one lock in
  \<open>configure_server\<close> are one read. In the life of the client, what a command writes after its last request is one
  step (two commands that write the file at the same moment: \<open>concurrent_saves_tear\<close>). A cancellation token is a number in a set. Log lines of the server are left out;
  those of the desktop are kept, since the user sees them.

  \<^bold>\<open>Not modelled.\<close> What rustls, quinn, kcp-tokio, axum, sqlx and Tauri do inside is library code; the outcomes the code
  looks at are inputs. So the cryptographic configuration of the endpoints, the copying of an upgraded HTTP
  connection, the layers and static files of the HTTP server, the tracing set-up and the building of windows,
  menu and icon are left out. The web front ends, tests, scripts and containers are not part of the Rust core.
\<close>

section \<open>The carrier between server and desktop\<close>

text \<open>
  C31. The multiplexed frame is a bijection: whatever the kind, the identifier and the payload, decoding an
  encoded frame returns them, a byte string decodes to them only if it is their encoding, so two
  different frames never share their bytes, and exactly the strings of fewer than 17 bytes are refused.
\<close>

theorem carrier_frame_codec:
  assumes "uuid_codec uuid_bytes uuid_of_slice"
  shows "(decode_carrier_frame uuid_of_slice f = Some (k, i, p) \<longleftrightarrow> f = encode_carrier_frame uuid_bytes k i p) \<and>
     (decode_carrier_frame uuid_of_slice f = None \<longleftrightarrow> length f < 17)"
  using assms decode_encode_frame [OF assms] encode_decode_frame [OF assms] decode_frame_None [OF assms]
  by blast

theorem carrier_frame_codec_witness:
  "decode_carrier_frame be_uuid_of_slice (encode_carrier_frame be_uuid_bytes CARRIER_FRAME_DATA 7 [1, 2]) =
     Some (CARRIER_FRAME_DATA, 7, [1, 2]) \<and>
   (decode_carrier_frame be_uuid_of_slice [2, 3] = None \<longleftrightarrow> length [2 :: u8, 3] < 17)"
  using carrier_frame_codec [OF be_uuid_codec] by blast



end
